(* ===== verification/Base.thy ===== *)
theory Base
  imports Complex_Main "HOL-Library.Multiset" "HOL-Library.Char_ord" "HOL-Library.List_Lexorder"
    "HOL-Library.Product_Lexorder" "HOL-Library.Option_ord"
begin

text \<open>
  The prelude of the development. It holds what every component shares and no component owns:
  the JavaScript values and library functions the program uses (numbers with \<open>NaN\<close> and the
  infinities, ASCII strings, dates, the stable array sort), the operations of a relational table
  as lists of rows (Prisma's \<open>findFirst\<close>, \<open>updateMany\<close>, \<open>deleteMany\<close>, \<open>count\<close>), the error
  values of the database, the automation collections, and the comparator interface of the sort.

  Conventions: a \<open>Date\<close> is its epoch time in milliseconds (an \<open>int\<close>); \<open>null\<close> and
  \<open>undefined\<close> are \<open>None\<close>; a \<open>number\<close> that only ever holds integers is an \<open>int\<close>, every
  other \<open>number\<close> a \<open>real\<close> (the rounding of IEEE doubles is not modelled); strings are lists of
  ASCII characters; a transaction is a function from the tables to an error or the new tables, so
  an error leaves the tables as they were.
\<close>

named_theorems table_simps \<open>how the table operations act on rows, sets of rows and counts\<close>
named_theorems js_simps \<open>evaluation of the JavaScript library functions\<close>

type_synonym ident = string
type_synonym millis = int

section \<open>Tables\<close>

text \<open>A table is the list of its rows in insertion order.\<close>

definition upd_where :: "('r \<Rightarrow> bool) \<Rightarrow> ('r \<Rightarrow> 'r) \<Rightarrow> 'r list \<Rightarrow> 'r list" where
  "upd_where P f rows = map (\<lambda>r. if P r then f r else r) rows"

definition del_where :: "('r \<Rightarrow> bool) \<Rightarrow> 'r list \<Rightarrow> 'r list" where
  "del_where P rows = filter (\<lambda>r. \<not> P r) rows"

definition count_where :: "('r \<Rightarrow> bool) \<Rightarrow> 'r list \<Rightarrow> int" where
  "count_where P rows = int (length (filter P rows))"

text \<open>
  The failures the client of the database can see: a row required by \<open>findUniqueOrThrow\<close>,
  \<open>findFirstOrThrow\<close> or \<open>update\<close> is missing (P2025), an insert breaks a unique constraint (P2002).
\<close>

datatype db_error = RecordNotFound | UniqueViolation

lemma length_upd_where [simp, table_simps]: "length (upd_where P f rows) = length rows"
  by (simp add: upd_where_def)

lemma upd_where_Nil [simp, table_simps]: "upd_where P f [] = []"
  by (simp add: upd_where_def)

lemma upd_where_Cons [simp, table_simps]:
  "upd_where P f (r # rows) = (if P r then f r else r) # upd_where P f rows"
  by (simp add: upd_where_def)

lemma set_upd_where [table_simps]: "set (upd_where P f rows) = (\<lambda>r. if P r then f r else r) ` set rows"
  by (simp add: upd_where_def)

lemma mem_upd_where:
  "r \<in> set (upd_where P f rows) \<Longrightarrow> \<exists>r0 \<in> set rows. r = (if P r0 then f r0 else r0)"
  by (auto simp: set_upd_where)

lemma map_upd_where_id [table_simps]:
  "(\<And>r. P r \<Longrightarrow> g (f r) = g r) \<Longrightarrow> map g (upd_where P f rows) = map g rows"
  by (induction rows) auto

lemma filter_upd_where_id:
  "(\<And>r. P r \<Longrightarrow> \<not> Q r \<and> \<not> Q (f r)) \<Longrightarrow> filter Q (upd_where P f rows) = filter Q rows"
  by (induction rows) auto

lemma length_filter_upd_where:
  "(\<And>r. P r \<Longrightarrow> Q (f r) = Q r) \<Longrightarrow> length (filter Q (upd_where P f rows)) = length (filter Q rows)"
  by (induction rows) auto

lemma set_del_where [simp, table_simps]: "set (del_where P rows) = {r \<in> set rows. \<not> P r}"
  by (auto simp: del_where_def)

lemma del_where_Nil [simp, table_simps]: "del_where P [] = []"
  by (simp add: del_where_def)

lemma del_where_Cons [simp, table_simps]:
  "del_where P (r # rows) = (if P r then del_where P rows else r # del_where P rows)"
  by (simp add: del_where_def)

lemma distinct_map_del_where: "distinct (map g rows) \<Longrightarrow> distinct (map g (del_where P rows))"
  by (simp add: del_where_def distinct_map_filter)

lemma length_filter_del_where: "length (filter Q (del_where P rows)) \<le> length (filter Q rows)"
  by (induction rows) auto

lemma find_SomeD: "List.find P rows = Some r \<Longrightarrow> r \<in> set rows \<and> P r"
  by (induction rows) (auto split: if_splits)

lemma find_NoneD: "List.find P rows = None \<Longrightarrow> r \<in> set rows \<Longrightarrow> \<not> P r"
  by (induction rows) (auto split: if_splits)

lemma find_upd_where:
  "(\<And>r. Q r \<Longrightarrow> P (f r) = P r) \<Longrightarrow>
   List.find P (upd_where Q f rows) = map_option (\<lambda>r. if Q r then f r else r) (List.find P rows)"
  by (induction rows) auto

lemma find_unique:
  "distinct (map g rows) \<Longrightarrow> r \<in> set rows \<Longrightarrow> List.find (\<lambda>x. g x = g r) rows = Some r"
  by (induction rows) (auto simp: rev_image_eqI)

lemma find_append: "List.find P (xs @ ys) = (case List.find P xs of None \<Rightarrow> List.find P ys | Some r \<Rightarrow> Some r)"
  by (induction xs) auto

lemma distinct_map_eqD: "distinct (map g rows) \<Longrightarrow> r \<in> set rows \<Longrightarrow> s \<in> set rows \<Longrightarrow> g r = g s \<Longrightarrow> r = s"
  by (induction rows) (auto simp: rev_image_eqI)

section \<open>Values that may be missing\<close>

text \<open>The operator \<open>??\<close>; a column that is set to an undefined value keeps what it holds, which is the same.\<close>

definition or_else :: "'a option \<Rightarrow> 'a option \<Rightarrow> 'a option" where
  "or_else a b = (case a of None \<Rightarrow> b | Some x \<Rightarrow> Some x)"

section \<open>Numbers\<close>

text \<open>
  A JavaScript number that the program does not know to be finite. \<open>js_lt\<close> is the operator
  \<open><\<close> (false when either side is \<open>NaN\<close>); \<open>js_diff_sign\<close> is the sign of a difference as
  \<open>Array.prototype.sort\<close> and the operator \<open>||\<close> see it: \<open>NaN\<close> counts as zero.
\<close>

datatype jsnum = NaN | NegInf | PosInf | Fin real

fun js_lt :: "jsnum \<Rightarrow> jsnum \<Rightarrow> bool" where
  "js_lt (Fin x) (Fin y) \<longleftrightarrow> x < y"
| "js_lt NegInf (Fin _) \<longleftrightarrow> True"
| "js_lt NegInf PosInf \<longleftrightarrow> True"
| "js_lt (Fin _) PosInf \<longleftrightarrow> True"
| "js_lt _ _ \<longleftrightarrow> False"

definition js_diff_sign :: "jsnum \<Rightarrow> jsnum \<Rightarrow> int" where
  "js_diff_sign a b = (if js_lt a b then - 1 else if js_lt b a then 1 else 0)"

definition is_fin :: "jsnum \<Rightarrow> bool" where
  "is_fin a \<longleftrightarrow> (case a of Fin _ \<Rightarrow> True | _ \<Rightarrow> False)"

lemma is_fin_simps [simp]: "is_fin (Fin x)" "\<not> is_fin NaN" "\<not> is_fin PosInf" "\<not> is_fin NegInf"
  by (simp_all add: is_fin_def)

lemma is_finE: "is_fin a \<Longrightarrow> (\<And>x. a = Fin x \<Longrightarrow> R) \<Longrightarrow> R"
  by (cases a) auto

definition MIN_SAFE_INTEGER :: real where "MIN_SAFE_INTEGER = - 9007199254740991"
definition MAX_SAFE_INTEGER :: real where "MAX_SAFE_INTEGER = 9007199254740991"

definition js_is_integer :: "real \<Rightarrow> bool" where
  "js_is_integer x \<longleftrightarrow> of_int \<lfloor>x\<rfloor> = x"

text \<open>\<open>Math.round\<close>: halves go up.\<close>

definition js_round :: "real \<Rightarrow> int" where
  "js_round x = \<lfloor>x + 1 / 2\<rfloor>"

section \<open>Strings\<close>

definition code_of :: "char \<Rightarrow> nat" where "code_of c = of_char c"

definition lower_char :: "char \<Rightarrow> char" where
  "lower_char c = (if 65 \<le> code_of c \<and> code_of c \<le> 90 then char_of (code_of c + 32) else c)"

definition upper_char :: "char \<Rightarrow> char" where
  "upper_char c = (if 97 \<le> code_of c \<and> code_of c \<le> 122 then char_of (code_of c - 32) else c)"

definition to_lower :: "string \<Rightarrow> string" where "to_lower s = map lower_char s"
definition to_upper :: "string \<Rightarrow> string" where "to_upper s = map upper_char s"

definition is_space :: "char \<Rightarrow> bool" where
  "is_space c \<longleftrightarrow> code_of c = 32 \<or> 9 \<le> code_of c \<and> code_of c \<le> 13"

definition js_trim :: "string \<Rightarrow> string" where
  "js_trim s = rev (dropWhile is_space (rev (dropWhile is_space s)))"

definition starts_with :: "string \<Rightarrow> string \<Rightarrow> bool" where
  "starts_with p s \<longleftrightarrow> take (length p) s = p"

fun js_includes :: "string \<Rightarrow> string \<Rightarrow> bool" where
  "js_includes p [] \<longleftrightarrow> p = []"
| "js_includes p (c # cs) \<longleftrightarrow> starts_with p (c # cs) \<or> js_includes p cs"

definition is_digit :: "char \<Rightarrow> bool" where
  "is_digit c \<longleftrightarrow> 48 \<le> code_of c \<and> code_of c \<le> 57"

fun digits_val :: "nat \<Rightarrow> string \<Rightarrow> nat" where
  "digits_val acc [] = acc"
| "digits_val acc (c # cs) = digits_val (10 * acc + (code_of c - 48)) cs"

function show_nonneg :: "int \<Rightarrow> string" where
  "show_nonneg n = (if n < 10 then [char_of (48 + nat n)]
     else show_nonneg (n div 10) @ [char_of (48 + nat (n mod 10))])"
  by auto
termination by (relation "measure nat") auto

declare show_nonneg.simps [simp del]

definition show_int :: "int \<Rightarrow> string" where
  "show_int i = (if i < 0 then ''-'' @ show_nonneg (- i) else show_nonneg i)"

definition pad_left :: "nat \<Rightarrow> char \<Rightarrow> string \<Rightarrow> string" where
  "pad_left n c s = replicate (n - length s) c @ s"

text \<open>
  \<open>Number(text)\<close> on ASCII text: blank is 0, a signed decimal literal with fraction and exponent
  is its value, \<open>Infinity\<close> an infinity, everything else \<open>NaN\<close> (the radix prefixes \<open>0x\<close>, \<open>0o\<close>,
  \<open>0b\<close>, which no amount of the program has, are left out and read as \<open>NaN\<close>).
\<close>

definition exponent_val :: "string \<Rightarrow> int option" where
  "exponent_val s = (case s of [] \<Rightarrow> Some 0
     | c # cs \<Rightarrow>
       if c = CHR ''e'' \<or> c = CHR ''E'' then
         (let neg = (case cs of d # _ \<Rightarrow> d = CHR ''-'' | [] \<Rightarrow> False);
              ds = (case cs of d # r \<Rightarrow> if d = CHR ''-'' \<or> d = CHR ''+'' then r else cs | [] \<Rightarrow> [])
          in if ds \<noteq> [] \<and> list_all is_digit ds
             then Some (if neg then - int (digits_val 0 ds) else int (digits_val 0 ds)) else None)
       else None)"

definition unsigned_number :: "string \<Rightarrow> jsnum" where
  "unsigned_number s = (if s = ''Infinity'' then PosInf else
     (let ip = takeWhile is_digit s; r = dropWhile is_digit s;
          fp = (case r of c # cs \<Rightarrow> if c = CHR ''.'' then takeWhile is_digit cs else [] | [] \<Rightarrow> []);
          r2 = (case r of c # cs \<Rightarrow> if c = CHR ''.'' then dropWhile is_digit cs else r | [] \<Rightarrow> [])
      in if ip = [] \<and> fp = [] then NaN
         else case exponent_val r2 of None \<Rightarrow> NaN
           | Some e \<Rightarrow>
             (let m = real (digits_val 0 (ip @ fp)) / 10 ^ length fp
              in Fin (if 0 \<le> e then m * 10 ^ nat e else m / 10 ^ nat (- e)))))"

definition js_negate :: "jsnum \<Rightarrow> jsnum" where
  "js_negate a = (case a of NaN \<Rightarrow> NaN | NegInf \<Rightarrow> PosInf | PosInf \<Rightarrow> NegInf | Fin x \<Rightarrow> Fin (- x))"

definition js_number :: "string \<Rightarrow> jsnum" where
  "js_number text = (case js_trim text of [] \<Rightarrow> Fin 0
     | c # cs \<Rightarrow> if c = CHR ''-'' then js_negate (unsigned_number cs)
                else if c = CHR ''+'' then unsigned_number cs else unsigned_number (c # cs))"

text \<open>
  \<open>localeCompare\<close> on printable ASCII in the root collation: punctuation before digits before
  letters, letters compared without case first, and lower case before upper case when the texts
  differ in nothing else; the codes themselves come last, so that only equal texts compare equal
  (they already do on printable ASCII). Only the sign is modelled.
\<close>

definition collation_sequence :: string where
  "collation_sequence = CHR '' '' # ''_-,;:!?.'' @ [CHR 0x27, CHR 0x22] @ ''()[]{}@*/'' @ [CHR 0x5C] @ ''&#%'' @ [CHR 0x60] @ ''^+<=>|~$0123456789abcdefghijklmnopqrstuvwxyz''"

definition primary_weight :: "char \<Rightarrow> nat" where
  "primary_weight c = (let l = lower_char c; n = length (takeWhile (\<lambda>x. x \<noteq> l) collation_sequence)
     in if n < length collation_sequence then n else 256 + code_of c)"

definition tertiary_weight :: "char \<Rightarrow> nat" where
  "tertiary_weight c = (if lower_char c = c then 0 else 1)"

definition collation_key :: "string \<Rightarrow> nat list \<times> nat list \<times> nat list" where
  "collation_key s = (map primary_weight s, map tertiary_weight s, map code_of s)"

section \<open>Dates\<close>

text \<open>The proleptic Gregorian date of a day number (days since 1970-01-01), for \<open>toISOString\<close>.\<close>

definition civil_from_days :: "int \<Rightarrow> int \<times> int \<times> int" where
  "civil_from_days days = (let z = days + 719468; era = z div 146097; doe = z mod 146097;
     yoe = (doe - doe div 1460 + doe div 36524 - doe div 146096) div 365;
     doy = doe - (365 * yoe + yoe div 4 - yoe div 100);
     mp = (5 * doy + 2) div 153;
     d = doy - (153 * mp + 2) div 5 + 1;
     m = (if mp < 10 then mp + 3 else mp - 9);
     y = yoe + era * 400 + (if m \<le> 2 then 1 else 0)
   in (y, m, d))"

definition pad_int :: "nat \<Rightarrow> int \<Rightarrow> string" where
  "pad_int n i = pad_left n (CHR ''0'') (show_nonneg i)"

definition show_year :: "int \<Rightarrow> string" where
  "show_year y = (if 0 \<le> y \<and> y \<le> 9999 then pad_int 4 y
     else (if y < 0 then ''-'' else ''+'') @ pad_int 6 \<bar>y\<bar>)"

definition to_iso_string :: "millis \<Rightarrow> string" where
  "to_iso_string t = (case civil_from_days (t div 86400000) of (y, m, d) \<Rightarrow>
     let ms = t mod 86400000 in
     show_year y @ ''-'' @ pad_int 2 m @ ''-'' @ pad_int 2 d @ ''T'' @ pad_int 2 (ms div 3600000) @ '':''
       @ pad_int 2 (ms div 60000 mod 60) @ '':'' @ pad_int 2 (ms div 1000 mod 60) @ ''.''
       @ pad_int 3 (ms mod 1000) @ ''Z'')"

lemma to_iso_string_example: "to_iso_string 1786665600123 = ''2026-08-14T00:00:00.123Z''"
  by code_simp

section \<open>The stable sort and its comparators\<close>

text \<open>
  \<open>Array.prototype.sort\<close> is stable; with a comparator that is a total preorder on the elements its
  result is determined. It is modelled as insertion sort; with a comparator that is no preorder
  the language leaves the order to the engine, so the theorems about sorted results are stated
  where the comparator is one. Only the sign of a comparator matters, so a chain
  \<open>a.x - b.x || a.y - b.y\<close> is the lexicographic combination of the signs.
\<close>

fun insert_by :: "('a \<Rightarrow> 'a \<Rightarrow> int) \<Rightarrow> 'a \<Rightarrow> 'a list \<Rightarrow> 'a list" where
  "insert_by cmp x [] = [x]"
| "insert_by cmp x (y # ys) = (if cmp x y \<le> 0 then x # y # ys else y # insert_by cmp x ys)"

fun js_sort :: "('a \<Rightarrow> 'a \<Rightarrow> int) \<Rightarrow> 'a list \<Rightarrow> 'a list" where
  "js_sort cmp [] = []"
| "js_sort cmp (x # xs) = insert_by cmp x (js_sort cmp xs)"

definition cmp_by :: "('a \<Rightarrow> 'k::linorder) \<Rightarrow> 'a \<Rightarrow> 'a \<Rightarrow> int" where
  "cmp_by f x y = (if f x < f y then - 1 else if f y < f x then 1 else 0)"

definition cmp_then :: "('a \<Rightarrow> 'a \<Rightarrow> int) \<Rightarrow> ('a \<Rightarrow> 'a \<Rightarrow> int) \<Rightarrow> 'a \<Rightarrow> 'a \<Rightarrow> int" where
  "cmp_then c d x y = (if c x y \<noteq> 0 then c x y else d x y)"

definition locale_compare :: "string \<Rightarrow> string \<Rightarrow> int" where
  "locale_compare s t = cmp_by collation_key s t"

lemma mset_insert_by [simp]: "mset (insert_by cmp x ys) = add_mset x (mset ys)"
  by (induction ys) auto

lemma mset_js_sort [simp]: "mset (js_sort cmp xs) = mset xs"
  by (induction xs) auto

lemma set_js_sort [simp]: "set (js_sort cmp xs) = set xs"
  by (rule mset_eq_setD) simp

lemma length_js_sort [simp]: "length (js_sort cmp xs) = length xs"
  by (rule mset_eq_length) simp

lemma set_insert_by [simp]: "set (insert_by cmp x ys) = insert x (set ys)"
  by (induction ys) auto

lemma distinct_map_js_sort [simp]: "distinct (map f (js_sort cmp xs)) = distinct (map f xs)"
  by (rule mset_eq_imp_distinct_iff) simp

lemma distinct_js_sort: "distinct (js_sort cmp xs) = distinct xs"
  using distinct_map_js_sort [of "\<lambda>x. x" cmp xs] by simp

locale comparator =
  fixes cmp :: "'a \<Rightarrow> 'a \<Rightarrow> int" and ok :: "'a \<Rightarrow> bool"
  assumes cmp_flip: "ok x \<Longrightarrow> ok y \<Longrightarrow> cmp x y \<le> 0 \<longleftrightarrow> 0 \<le> cmp y x"
    and cmp_trans: "ok x \<Longrightarrow> ok y \<Longrightarrow> ok z \<Longrightarrow> cmp x y \<le> 0 \<Longrightarrow> cmp y z \<le> 0 \<Longrightarrow> cmp x z \<le> 0"
begin

lemma cmp_total: "ok x \<Longrightarrow> ok y \<Longrightarrow> cmp x y \<le> 0 \<or> cmp y x \<le> 0"
  using cmp_flip [of x y] by linarith

lemma sorted_insert_by:
  "ok x \<Longrightarrow> \<forall>y \<in> set ys. ok y \<Longrightarrow> sorted_wrt (\<lambda>a b. cmp a b \<le> 0) ys \<Longrightarrow>
   sorted_wrt (\<lambda>a b. cmp a b \<le> 0) (insert_by cmp x ys)"
proof (induction ys)
  case (Cons y ys)
  have xy: "cmp x y \<le> 0 \<or> cmp y x \<le> 0" using Cons.prems cmp_total by simp
  have tr: "cmp x y \<le> 0 \<Longrightarrow> z \<in> set ys \<Longrightarrow> cmp x z \<le> 0" for z
    using Cons.prems cmp_trans [of x y z] by auto
  show ?case using Cons xy tr by auto
qed simp

lemma sorted_js_sort: "\<forall>x \<in> set xs. ok x \<Longrightarrow> sorted_wrt (\<lambda>a b. cmp a b \<le> 0) (js_sort cmp xs)"
  by (induction xs) (simp_all add: sorted_insert_by)

lemma sorted_unique:
  "mset xs = mset ys \<Longrightarrow> \<forall>x \<in> set xs. ok x \<Longrightarrow> \<forall>x \<in> set xs. \<forall>y \<in> set xs. cmp x y = 0 \<longrightarrow> x = y \<Longrightarrow>
   sorted_wrt (\<lambda>a b. cmp a b \<le> 0) xs \<Longrightarrow> sorted_wrt (\<lambda>a b. cmp a b \<le> 0) ys \<Longrightarrow> xs = ys"
proof (induction xs arbitrary: ys)
  case (Cons x xs)
  then obtain y ys' where ys: "ys = y # ys'" by (cases ys) auto
  have sets: "set ys = set (x # xs)" using Cons.prems(1) by (metis mset_eq_setD)
  have yx: "cmp y x \<le> 0 \<or> y = x" using Cons.prems(5) sets ys by auto
  have xy: "cmp x y \<le> 0 \<or> x = y" using Cons.prems(4) sets ys by auto
  have okxy: "ok x" "ok y" using Cons.prems(2) sets ys by auto
  have "cmp x y = 0 \<or> x = y"
    using xy yx cmp_flip [OF okxy] cmp_flip [OF okxy(2,1)] by force
  then have "x = y" using Cons.prems(3) sets ys by auto
  moreover have "xs = ys'" using Cons ys \<open>x = y\<close> by auto
  ultimately show ?case using ys by simp
qed simp

lemma js_sort_perm_unique:
  assumes "mset xs = mset ys" "\<forall>x \<in> set xs. ok x"
    "\<forall>x \<in> set xs. \<forall>y \<in> set xs. cmp x y = 0 \<longrightarrow> x = y"
  shows "js_sort cmp xs = js_sort cmp ys"
proof (rule sorted_unique)
  have "\<forall>y \<in> set ys. ok y" using assms(1,2) by (metis mset_eq_setD)
  then show "sorted_wrt (\<lambda>a b. cmp a b \<le> 0) (js_sort cmp ys)" by (rule sorted_js_sort)
qed (use assms sorted_js_sort in simp_all)

end

text \<open>A strict comparator tells all elements apart: the sort does not depend on the input order.\<close>

locale strict_comparator = comparator +
  assumes cmp_zero: "ok x \<Longrightarrow> ok y \<Longrightarrow> cmp x y = 0 \<Longrightarrow> x = y"
begin

lemma js_sort_perm: "mset xs = mset ys \<Longrightarrow> \<forall>x \<in> set xs. ok x \<Longrightarrow> js_sort cmp xs = js_sort cmp ys"
  by (rule js_sort_perm_unique) (auto intro: cmp_zero)

end

lemma comparator_cmp_by: "comparator (cmp_by f) ok"
  by unfold_locales (auto simp: cmp_by_def split: if_splits)

lemma cmp_by_zero [simp]: "cmp_by f x y = 0 \<longleftrightarrow> f x = f y"
  by (auto simp: cmp_by_def)

lemma comparator_cmp_then:
  assumes "comparator c ok" "comparator d ok"
  shows "comparator (cmp_then c d) ok"
proof -
  note c = comparator.cmp_flip [OF assms(1)] comparator.cmp_trans [OF assms(1)]
  note d = comparator.cmp_flip [OF assms(2)] comparator.cmp_trans [OF assms(2)]
  show ?thesis
  proof
    fix x y assume "ok x" "ok y"
    then show "cmp_then c d x y \<le> 0 \<longleftrightarrow> 0 \<le> cmp_then c d y x"
      using c(1) [of x y] c(1) [of y x] d(1) [of x y] by (auto simp: cmp_then_def)
  next
    fix x y z assume ok: "ok x" "ok y" "ok z" and le: "cmp_then c d x y \<le> 0" "cmp_then c d y z \<le> 0"
    have cxy: "c x y \<le> 0" and cyz: "c y z \<le> 0" using le by (auto simp: cmp_then_def split: if_splits)
    have cxz: "c x z \<le> 0" using c(2) [OF ok cxy cyz] .
    have "d x y \<le> 0 \<and> d y z \<le> 0" if "c x z = 0"
    proof -
      have zx: "c z x \<le> 0" using that c(1) [OF ok(3,1)] by simp
      have "c z y \<le> 0" using c(2) [OF ok(3,1,2) zx cxy] .
      moreover have "c y x \<le> 0" using c(2) [OF ok(2,3,1) cyz zx] .
      ultimately have "c x y = 0" "c y z = 0"
        using cxy cyz c(1) [OF ok(2,1)] c(1) [OF ok(3,2)] by linarith+
      then show ?thesis using le by (simp add: cmp_then_def)
    qed
    then show "cmp_then c d x z \<le> 0" using cxz d(2) [OF ok] by (auto simp: cmp_then_def)
  qed
qed

lemma cmp_then_zero [simp]: "cmp_then c d x y = 0 \<longleftrightarrow> c x y = 0 \<and> d x y = 0"
  by (simp add: cmp_then_def)

text \<open>Two ASCII strings compare equal only when they are equal, so \<open>localeCompare\<close> is strict.\<close>

lemma inj_code_of: "inj code_of"
  by (auto simp: inj_def code_of_def)

lemma collation_key_inject: "collation_key s = collation_key t \<longleftrightarrow> s = t"
  by (auto simp: collation_key_def inj_map_eq_map [OF inj_code_of])

lemma locale_compare_zero [simp]: "locale_compare s t = 0 \<longleftrightarrow> s = t"
  by (simp add: locale_compare_def collation_key_inject)

lemma locale_compare_eq: "locale_compare = cmp_by collation_key"
  by (simp add: fun_eq_iff locale_compare_def)

interpretation locale_order: strict_comparator locale_compare "\<lambda>_. True"
  by (intro strict_comparator.intro strict_comparator_axioms.intro)
    (simp_all add: locale_compare_eq comparator_cmp_by collation_key_inject)

lemma comparator_locale_by: "comparator (\<lambda>x y. locale_compare (f x) (f y)) ok"
  by unfold_locales
    (use locale_order.cmp_flip in blast, use locale_order.cmp_trans in blast)

text \<open>The difference of two numbers is a comparator on finite numbers only.\<close>

lemma js_diff_sign_Fin [simp]: "js_diff_sign (Fin x) (Fin y) = (if x < y then - 1 else if y < x then 1 else 0)"
  by (simp add: js_diff_sign_def)

lemma comparator_js_diff: "comparator (\<lambda>x y. js_diff_sign (f x) (f y)) (\<lambda>x. is_fin (f x))"
  by unfold_locales (auto elim!: is_finE split: if_splits)

lemma comparator_js_diff_desc: "comparator (\<lambda>x y. js_diff_sign (f y) (f x)) (\<lambda>x. is_fin (f x))"
  by unfold_locales (auto elim!: is_finE split: if_splits)

lemma comparator_weaken:
  assumes c: "comparator c ok" and ok: "\<And>x. ok' x \<Longrightarrow> ok x"
  shows "comparator c ok'"
proof
  fix x y assume "ok' x" "ok' y"
  then show "c x y \<le> 0 \<longleftrightarrow> 0 \<le> c y x" using comparator.cmp_flip [OF c] ok by blast
next
  fix x y z assume *: "ok' x" "ok' y" "ok' z" "c x y \<le> 0" "c y z \<le> 0"
  show "c x z \<le> 0" by (rule comparator.cmp_trans [OF c, of x y z]) (use * ok in simp_all)
qed

end
