(* ===== verification/Domain.thy ===== *)
theory Domain
  imports Base
begin

text \<open>
  The pure domain layer, \<open>packages/domain/src/index.ts\<close>: candidates and filters, the ranking value,
  the contact cooldown bound, the rendering of message templates, the preview of a campaign
  (eligibility, ranking, selection and the accounting of every skip), the recipient ceiling and
  the reconciliation of a delivery whose outcome is unknown. Functions that throw return
  \<open>Inl message\<close>. The definitions keep the names of the source; the fields of a record carry a
  prefix of its type.
\<close>

type_synonym 'a result = "string + 'a"

section \<open>Data\<close>

record Money =
  m_amount :: string
  m_currency :: string

record FollowerBucket =
  fb_code :: string
  fb_min :: int
  fb_max :: "int option"

definition follower_bucket :: "string \<times> int \<times> int option \<Rightarrow> FollowerBucket" where
  "follower_bucket b = (case b of (code, lo, hi) \<Rightarrow> \<lparr>fb_code = code, fb_min = lo, fb_max = hi\<rparr>)"

definition CREATOR_FOLLOWER_BUCKETS :: "FollowerBucket list" where
  "CREATOR_FOLLOWER_BUCKETS = map follower_bucket
    [(''F01'', 600, Some 799), (''F02'', 800, Some 999),
     (''F03'', 1000, Some 1499), (''F04'', 1500, Some 1999),
     (''F05'', 2000, Some 2999), (''F06'', 3000, Some 3999),
     (''F07'', 4000, Some 4999), (''F08'', 5000, Some 7499),
     (''F09'', 7500, Some 9999), (''F10'', 10000, Some 14999),
     (''F11'', 15000, Some 24999), (''F12'', 25000, Some 34999),
     (''F13'', 35000, Some 49999), (''F14'', 50000, Some 74999),
     (''F15'', 75000, Some 99999), (''F16'', 100000, Some 149999),
     (''F17'', 150000, Some 249999), (''F18'', 250000, Some 349999),
     (''F19'', 350000, Some 499999), (''F20'', 500000, Some 749999),
     (''F21'', 750000, Some 999999), (''F22'', 1000000, Some 1499999),
     (''F23'', 1500000, Some 2499999), (''F24'', 2500000, Some 4999999),
     (''F25'', 5000000, None)]"

record GmvBucket =
  gb_code :: string
  gb_label :: string
  gb_range :: string
  gb_min :: int
  gb_max :: "int option"

definition CREATOR_GMV_BUCKETS :: "GmvBucket list" where
  "CREATOR_GMV_BUCKETS =
    [\<lparr>gb_code = ''G1'', gb_label = ''Low'', gb_range = ''GMV_RANGE_0_100'', gb_min = 0, gb_max = Some 100\<rparr>,
     \<lparr>gb_code = ''G2'', gb_label = ''Medium'', gb_range = ''GMV_RANGE_100_1000'', gb_min = 100, gb_max = Some 1000\<rparr>,
     \<lparr>gb_code = ''G3'', gb_label = ''High'', gb_range = ''GMV_RANGE_1000_10000'', gb_min = 1000, gb_max = Some 10000\<rparr>,
     \<lparr>gb_code = ''G4'', gb_label = ''Very High'', gb_range = ''GMV_RANGE_10000_AND_ABOVE'', gb_min = 10000, gb_max = None\<rparr>]"

definition OUTREACH_GMV_CURRENCY :: string where "OUTREACH_GMV_CURRENCY = ''USD''"

definition MAX_CONTACT_COOLDOWN_DAYS :: real where "MAX_CONTACT_COOLDOWN_DAYS = 100000000"

definition assertContactCooldownDays :: "real \<Rightarrow> unit result" where
  "assertContactCooldownDays value =
    (if \<not> js_is_integer value \<or> value < 0 \<or> value > MAX_CONTACT_COOLDOWN_DAYS
     then Inl ''Contact cooldown must be a whole number from 0 to 100000000 days'' else Inr ())"

record CreatorCandidate =
  cc_creatorOpenId :: ident
  cc_creatorUserId :: "ident option"
  cc_username :: "string option"
  cc_nickname :: "string option"
  cc_categoryIds :: "ident list"
  cc_followerCount :: "real option"
  cc_gmv :: "Money option"
  cc_unitsSold :: "real option"
  cc_avgVideoViews :: "real option"
  cc_avgLiveViewers :: "real option"
  cc_engagementRate :: "real option"
  cc_avatarUrl :: "string option"
  cc_liveGmv :: "Money option"
  cc_videoGmv :: "Money option"
  cc_gmvRange :: "string option"
  cc_topAgeRanges :: "string list option"
  cc_majorGender :: "string option"
  cc_majorGenderPercentage :: "real option"
  cc_selectionRegion :: string
  cc_discoveryOrdinal :: int

record CreatorFilters =
  cf_keyword :: "string option"
  cf_categoryIds :: "ident list option"
  cf_minFollowers :: "real option"
  cf_maxFollowers :: "real option"
  cf_minGmv :: "real option"
  cf_maxGmv :: "real option"
  cf_gmvCurrency :: "string option"
  cf_minUnitsSold :: "real option"
  cf_minAvgVideoViews :: "real option"
  cf_minAvgLiveViewers :: "real option"
  cf_minEngagementRate :: "real option"
  cf_marketplaceCategory :: "(ident \<times> ident list option) option"
  cf_marketplaceGmvRanges :: "string list option"

datatype RankingMetric = GMV | UNITS_SOLD | FOLLOWERS | AVG_VIDEO_VIEWS | AVG_LIVE_VIEWERS
  | ENGAGEMENT_RATE | TIKTOK_RELEVANCE

datatype RankingDirection = ASC | DESC

record ContactState =
  cs_lastContactedAt :: "millis option"
  cs_firstContactedAt :: "millis option"
  cs_contactCount :: int
  cs_doNotContact :: bool
  cs_unresolvedDelivery :: bool
  cs_historical :: bool

datatype SkipReason = INVALID_MESSAGING_ID | FILTER_MISMATCH | DUPLICATE | DO_NOT_CONTACT
  | DELIVERY_UNKNOWN | COOLDOWN | CONTACTED_BY_APP_WITHIN_COOLDOWN | ACTIVE_RESERVATION

datatype Eligibility = ELIGIBLE | EXCLUDED

record EvaluatedCreator = CreatorCandidate +
  ev_eligibility :: Eligibility
  ev_skipReason :: "SkipReason option"
  ev_skipDetail :: "string option"
  ev_rankingValue :: jsnum
  ev_selected :: bool

record PreviewSummary =
  ps_requested :: int
  ps_fetchedOccurrences :: int
  ps_excludedByFilter :: int
  ps_skippedDuplicates :: int
  ps_skippedDoNotContact :: int
  ps_skippedUnknownDelivery :: int
  ps_skippedCooldown :: int
  ps_skippedActiveReservation :: int
  ps_eligible :: int
  ps_selected :: int
  ps_shortfall :: int
  ps_truncated :: bool
  ps_gmvCurrencyCounts :: "(string \<times> int) list"
  ps_gmvMixedCurrency :: bool
  ps_expectedGmvCurrency :: "string option"
  ps_gmvExcludedCurrencyMismatch :: int

record PreviewResult =
  pr_creators :: "EvaluatedCreator list"
  pr_summary :: PreviewSummary

record PreviewInput =
  pi_creators :: "CreatorCandidate list"
  pi_filters :: CreatorFilters
  pi_contacts :: "ident \<rightharpoonup> ContactState"
  pi_activeReservations :: "ident set"
  pi_requested :: int
  pi_cooldownDays :: real
  pi_rankingMetric :: RankingMetric
  pi_rankingDirection :: "RankingDirection option"
  pi_now :: millis
  pi_truncated :: bool

section \<open>Filters and ranking\<close>

definition numericGmv :: "('a CreatorCandidate_scheme) \<Rightarrow> jsnum option" where
  "numericGmv c = map_option (\<lambda>m. js_number (m_amount m)) (cc_gmv c)"

text \<open>An absent value never meets a bound; an absent bound is always met.\<close>

definition at_least :: "real option \<Rightarrow> real option \<Rightarrow> bool" where
  "at_least v bound = (case bound of None \<Rightarrow> True
     | Some b \<Rightarrow> (case v of None \<Rightarrow> False | Some x \<Rightarrow> \<not> x < b))"

definition at_most :: "real option \<Rightarrow> real option \<Rightarrow> bool" where
  "at_most v bound = (case bound of None \<Rightarrow> True
     | Some b \<Rightarrow> (case v of None \<Rightarrow> False | Some x \<Rightarrow> \<not> x > b))"

definition truthy :: "string option \<Rightarrow> bool" where
  "truthy s \<longleftrightarrow> s \<noteq> None \<and> s \<noteq> Some []"

definition keyword_matches :: "('a CreatorCandidate_scheme) \<Rightarrow> CreatorFilters \<Rightarrow> bool" where
  "keyword_matches c f = (case cf_keyword f of None \<Rightarrow> True
     | Some k \<Rightarrow> (let keyword = to_lower (js_trim k) in keyword = [] \<or>
         js_includes keyword (to_lower ((case cc_username c of None \<Rightarrow> [] | Some u \<Rightarrow> u) @ '' ''
           @ (case cc_nickname c of None \<Rightarrow> [] | Some n \<Rightarrow> n)))))"

definition matchesFilters :: "('a CreatorCandidate_scheme) \<Rightarrow> CreatorFilters \<Rightarrow> bool" where
  "matchesFilters c f \<longleftrightarrow>
    keyword_matches c f \<and>
    (case cf_categoryIds f of None \<Rightarrow> True | Some ids \<Rightarrow> ids = [] \<or> list_ex (\<lambda>i. i \<in> set (cc_categoryIds c)) ids) \<and>
    at_least (cc_followerCount c) (cf_minFollowers f) \<and>
    at_most (cc_followerCount c) (cf_maxFollowers f) \<and>
    (truthy (cf_gmvCurrency f) \<longrightarrow>
       map_option (\<lambda>m. to_upper (m_currency m)) (cc_gmv c) = map_option to_upper (cf_gmvCurrency f)) \<and>
    (case cf_minGmv f of None \<Rightarrow> True
       | Some b \<Rightarrow> (case numericGmv c of None \<Rightarrow> False | Some g \<Rightarrow> \<not> js_lt g (Fin b))) \<and>
    (case cf_maxGmv f of None \<Rightarrow> True
       | Some b \<Rightarrow> (case numericGmv c of None \<Rightarrow> False | Some g \<Rightarrow> \<not> js_lt (Fin b) g)) \<and>
    at_least (cc_unitsSold c) (cf_minUnitsSold f) \<and>
    at_least (cc_avgVideoViews c) (cf_minAvgVideoViews f) \<and>
    at_least (cc_avgLiveViewers c) (cf_minAvgLiveViewers f) \<and>
    at_least (cc_engagementRate c) (cf_minEngagementRate f)"

definition number_or_min :: "real option \<Rightarrow> jsnum" where
  "number_or_min v = Fin (case v of None \<Rightarrow> MIN_SAFE_INTEGER | Some x \<Rightarrow> x)"

fun rankingValue :: "('a CreatorCandidate_scheme) \<Rightarrow> RankingMetric \<Rightarrow> jsnum" where
  "rankingValue c GMV = (case numericGmv c of None \<Rightarrow> Fin MIN_SAFE_INTEGER | Some g \<Rightarrow> g)"
| "rankingValue c UNITS_SOLD = number_or_min (cc_unitsSold c)"
| "rankingValue c FOLLOWERS = number_or_min (cc_followerCount c)"
| "rankingValue c AVG_VIDEO_VIEWS = number_or_min (cc_avgVideoViews c)"
| "rankingValue c AVG_LIVE_VIEWERS = number_or_min (cc_avgLiveViewers c)"
| "rankingValue c ENGAGEMENT_RATE = number_or_min (cc_engagementRate c)"
| "rankingValue c TIKTOK_RELEVANCE = Fin (- of_int (cc_discoveryOrdinal c))"

section \<open>Message templates\<close>

text \<open>
  The pattern \<open>{{\s*([^{}]+?)\s*}}\<close> matches at a position exactly when the two opening braces are
  followed by a non-empty run of characters that are no braces and then by two closing braces;
  the trimmed group is the trimmed run. The patterns of the three known placeholders match where
  this one does and the trimmed run is their name.
\<close>

definition non_brace :: "char \<Rightarrow> bool" where
  "non_brace c \<longleftrightarrow> c \<noteq> CHR ''{'' \<and> c \<noteq> CHR ''}''"

definition placeholder_at :: "string \<Rightarrow> (string \<times> string) option" where
  "placeholder_at s =
    (let r = drop 2 s; run = takeWhile non_brace r; rest = dropWhile non_brace r
     in if starts_with ''{{'' s \<and> run \<noteq> [] \<and> starts_with ''}}'' rest
        then Some (js_trim run, drop 2 rest) else None)"

lemma placeholder_at_shorter: "placeholder_at s = Some (p, rest) \<Longrightarrow> length rest < length s"
proof -
  assume a: "placeholder_at s = Some (p, rest)"
  then have s: "starts_with ''{{'' s" and rest: "rest = drop 2 (dropWhile non_brace (drop 2 s))"
    by (auto simp: placeholder_at_def Let_def split: if_splits)
  have "2 \<le> length s" using s by (cases s; cases "tl s") (auto simp: starts_with_def)
  moreover have "length (dropWhile non_brace (drop 2 s)) \<le> length (drop 2 s)" by (rule length_dropWhile_le)
  ultimately show ?thesis using rest by simp
qed

function placeholders :: "string \<Rightarrow> string list" where
  "placeholders [] = []"
| "placeholders (c # cs) = (case placeholder_at (c # cs) of
     Some (p, rest) \<Rightarrow> p # placeholders rest | None \<Rightarrow> placeholders cs)"
  by pat_completeness auto
termination by (relation "measure length") (use placeholder_at_shorter in force)+

text \<open>
  The replacement text of \<open>String.prototype.replace\<close>: a dollar sign before a dollar sign, an
  ampersand, a backquote or a quote stands for itself, the match, the text before and the text
  after the match; the patterns have no groups, so every other dollar sign is literal.
\<close>

fun expand_dollars :: "string \<Rightarrow> string \<Rightarrow> string \<Rightarrow> string \<Rightarrow> string" where
  "expand_dollars before matched after [] = []"
| "expand_dollars before matched after [c] = [c]"
| "expand_dollars before matched after (c # d # cs) =
    (if c = CHR ''$'' then
       (if d = CHR ''$'' then CHR ''$'' # expand_dollars before matched after cs
        else if d = CHR ''&'' then matched @ expand_dollars before matched after cs
        else if d = CHR 0x60 then before @ expand_dollars before matched after cs
        else if d = CHR 0x27 then after @ expand_dollars before matched after cs
        else c # expand_dollars before matched after (d # cs))
     else c # expand_dollars before matched after (d # cs))"

function replace_placeholder :: "string \<Rightarrow> string \<Rightarrow> string \<Rightarrow> string \<Rightarrow> string" where
  "replace_placeholder name value before [] = []"
| "replace_placeholder name value before (c # cs) =
    (case placeholder_at (c # cs) of
       Some (p, rest) \<Rightarrow>
         if p = name then
           (let matched = take (length (c # cs) - length rest) (c # cs)
            in expand_dollars before matched rest value
               @ replace_placeholder name value (before @ matched) rest)
         else c # replace_placeholder name value (before @ [c]) cs
     | None \<Rightarrow> c # replace_placeholder name value (before @ [c]) cs)"
  by pat_completeness auto
termination by (relation "measure (\<lambda>(_, _, _, s). length s)") (use placeholder_at_shorter in force)+

record MessageValues =
  mv_creatorDisplayName :: string
  mv_productName :: string
  mv_campaignName :: string

definition allowed_placeholders :: "string list" where
  "allowed_placeholders = [''creator_display_name'', ''product_name'', ''campaign_name'']"

definition renderMessage :: "string \<Rightarrow> MessageValues \<Rightarrow> string result" where
  "renderMessage template values =
    (case List.find (\<lambda>p. p \<notin> set allowed_placeholders) (placeholders template) of
       Some p \<Rightarrow> Inl (''Unsupported template placeholder: '' @ p)
     | None \<Rightarrow>
       (let r1 = replace_placeholder ''creator_display_name'' (mv_creatorDisplayName values) [] template;
            r2 = replace_placeholder ''product_name'' (mv_productName values) [] r1;
            rendered = replace_placeholder ''campaign_name'' (mv_campaignName values) [] r2
        in if js_includes ''{{'' rendered \<or> js_includes ''}}'' rendered
           then Inl ''Message template contains an invalid or unclosed placeholder''
           else Inr rendered))"

section \<open>The preview of a campaign\<close>

definition skip_decision :: "PreviewInput \<Rightarrow> ident set \<Rightarrow> CreatorCandidate \<Rightarrow> SkipReason option \<times> string option" where
  "skip_decision inp seen c =
    (let contact = pi_contacts inp (cc_creatorOpenId c);
         cutoff = of_int (pi_now inp) - pi_cooldownDays inp * 86400000;
         recent = (case contact of None \<Rightarrow> None
           | Some k \<Rightarrow> (case cs_lastContactedAt k of None \<Rightarrow> None
             | Some t \<Rightarrow> if of_int t > cutoff then Some (cs_historical k, t) else None))
     in if cc_creatorOpenId c = [] then (Some INVALID_MESSAGING_ID, None)
        else if \<not> matchesFilters c (pi_filters inp) then (Some FILTER_MISMATCH, None)
        else if cc_creatorOpenId c \<in> seen then (Some DUPLICATE, None)
        else if (case contact of None \<Rightarrow> False | Some k \<Rightarrow> cs_doNotContact k) then (Some DO_NOT_CONTACT, None)
        else if (case contact of None \<Rightarrow> False | Some k \<Rightarrow> cs_unresolvedDelivery k) then (Some DELIVERY_UNKNOWN, None)
        else (case recent of
            Some (historical, t) \<Rightarrow>
              (Some (if historical then COOLDOWN else CONTACTED_BY_APP_WITHIN_COOLDOWN),
               Some ((if historical then ''Historical'' else ''App'') @ '' contact at '' @ to_iso_string t))
          | None \<Rightarrow> (if cc_creatorOpenId c \<in> pi_activeReservations inp then Some ACTIVE_RESERVATION else None, None)))"

definition evaluateCreator :: "PreviewInput \<Rightarrow> ident set \<Rightarrow> CreatorCandidate \<Rightarrow> EvaluatedCreator" where
  "evaluateCreator inp seen c = (case skip_decision inp seen c of (skip, detail) \<Rightarrow>
     CreatorCandidate.extend c
       (EvaluatedCreator.fields (if skip = None then ELIGIBLE else EXCLUDED) skip detail
          (rankingValue c (pi_rankingMetric inp)) False))"

fun evaluateCreators :: "PreviewInput \<Rightarrow> ident set \<Rightarrow> CreatorCandidate list \<Rightarrow> EvaluatedCreator list" where
  "evaluateCreators inp seen [] = []"
| "evaluateCreators inp seen (c # cs) = evaluateCreator inp seen c #
     evaluateCreators inp (if cc_creatorOpenId c \<noteq> [] then insert (cc_creatorOpenId c) seen else seen) cs"

fun count_currency :: "string \<Rightarrow> (string \<times> int) list \<Rightarrow> (string \<times> int) list" where
  "count_currency k [] = [(k, 1)]"
| "count_currency k ((k', n) # kvs) = (if k = k' then (k', n + 1) # kvs else (k', n) # count_currency k kvs)"

definition currency_counts :: "CreatorCandidate list \<Rightarrow> (string \<times> int) list" where
  "currency_counts cs = fold (\<lambda>c counts. case cc_gmv c of None \<Rightarrow> counts
     | Some m \<Rightarrow> if m_currency m = [] then counts else count_currency (to_upper (m_currency m)) counts) cs []"

text \<open>
  The eligible creators are the same objects as in the list of all creators: sorting them and
  marking the first ones selected marks them in that list. The model sorts and marks positions.
\<close>

definition rank_cmp :: "RankingDirection option \<Rightarrow> EvaluatedCreator \<Rightarrow> EvaluatedCreator \<Rightarrow> int" where
  "rank_cmp direction = cmp_then
    (\<lambda>a b. js_diff_sign (ev_rankingValue a) (ev_rankingValue b) * (if direction = Some ASC then 1 else - 1))
    (\<lambda>a b. locale_compare (cc_creatorOpenId a) (cc_creatorOpenId b))"

definition slice_to :: "int \<Rightarrow> 'a list \<Rightarrow> 'a list" where
  "slice_to n xs = take (nat (if n < 0 then n + int (length xs) else n)) xs"

definition ranked_positions :: "RankingDirection option \<Rightarrow> EvaluatedCreator list \<Rightarrow> nat list" where
  "ranked_positions direction es = js_sort (\<lambda>i j. rank_cmp direction (es ! i) (es ! j))
     (filter (\<lambda>i. ev_eligibility (es ! i) = ELIGIBLE) [0..<length es])"

definition mark_selected :: "nat list \<Rightarrow> EvaluatedCreator list \<Rightarrow> EvaluatedCreator list" where
  "mark_selected positions es = fold (\<lambda>i xs. xs[i := (xs ! i)\<lparr>ev_selected := True\<rparr>]) positions es"

definition count_skip :: "SkipReason \<Rightarrow> EvaluatedCreator list \<Rightarrow> int" where
  "count_skip reason es = count_where (\<lambda>e. ev_skipReason e = Some reason) es"

definition preview_summary :: "PreviewInput \<Rightarrow> EvaluatedCreator list \<Rightarrow> nat \<Rightarrow> PreviewSummary" where
  "preview_summary inp es eligible =
    (let selected = min (pi_requested inp) (int eligible);
         counts = currency_counts (pi_creators inp)
     in \<lparr>ps_requested = pi_requested inp,
         ps_fetchedOccurrences = int (length es),
         ps_excludedByFilter = count_skip FILTER_MISMATCH es + count_skip INVALID_MESSAGING_ID es,
         ps_skippedDuplicates = count_skip DUPLICATE es,
         ps_skippedDoNotContact = count_skip DO_NOT_CONTACT es,
         ps_skippedUnknownDelivery = count_skip DELIVERY_UNKNOWN es,
         ps_skippedCooldown = count_skip COOLDOWN es + count_skip CONTACTED_BY_APP_WITHIN_COOLDOWN es,
         ps_skippedActiveReservation = count_skip ACTIVE_RESERVATION es,
         ps_eligible = int eligible,
         ps_selected = selected,
         ps_shortfall = max 0 (pi_requested inp - selected),
         ps_truncated = pi_truncated inp,
         ps_gmvCurrencyCounts = counts,
         ps_gmvMixedCurrency = length counts > 1,
         ps_expectedGmvCurrency = map_option to_upper (cf_gmvCurrency (pi_filters inp)),
         ps_gmvExcludedCurrencyMismatch =
           (if truthy (cf_gmvCurrency (pi_filters inp))
            then count_where (\<lambda>e. case cc_gmv e of None \<Rightarrow> False
                | Some m \<Rightarrow> Some (to_upper (m_currency m)) \<noteq> map_option to_upper (cf_gmvCurrency (pi_filters inp))) es
            else 0)\<rparr>)"

definition buildPreview :: "PreviewInput \<Rightarrow> PreviewResult result" where
  "buildPreview inp = (case assertContactCooldownDays (pi_cooldownDays inp) of
     Inl e \<Rightarrow> Inl e
   | Inr _ \<Rightarrow>
     (let es = evaluateCreators inp {} (pi_creators inp);
          ranked = ranked_positions (pi_rankingDirection inp) es;
          creators = mark_selected (slice_to (pi_requested inp) ranked) es
      in Inr \<lparr>pr_creators = creators, pr_summary = preview_summary inp creators (length ranked)\<rparr>))"

section \<open>Ceiling and reconciliation\<close>

definition assertCampaignWithinLimit :: "real \<Rightarrow> real \<Rightarrow> unit result" where
  "assertCampaignWithinLimit requested maxRecipientsPerCampaign =
    (if \<not> js_is_integer requested \<or> requested < 1 then Inl ''Target count must be a positive integer''
     else if requested > maxRecipientsPerCampaign
     then Inl (''Target exceeds the campaign recipient ceiling of '' @ show_int \<lfloor>maxRecipientsPerCampaign\<rfloor>)
     else Inr ())"

datatype Direction = OUTBOUND | INBOUND

record ReconciliationMessage =
  rm_id :: ident
  rm_conversationId :: ident
  rm_direction :: Direction
  rm_contentHash :: string
  rm_createdAt :: millis

datatype ReconciliationOutcome = MATCHED ident | UNRESOLVED string

definition reconciliation_match :: "ident \<Rightarrow> string \<Rightarrow> millis \<Rightarrow> ident set \<Rightarrow> ReconciliationMessage \<Rightarrow> bool" where
  "reconciliation_match conversationId contentHash dispatchedAt linked m \<longleftrightarrow>
     rm_conversationId m = conversationId \<and> rm_direction m = OUTBOUND \<and> rm_contentHash m = contentHash \<and>
     rm_createdAt m \<ge> dispatchedAt - 30000 \<and> rm_createdAt m \<le> dispatchedAt + 2 * 60 * 60 * 1000 \<and>
     rm_id m \<notin> linked"

definition reconcileUnknownDelivery ::
  "ident \<Rightarrow> string \<Rightarrow> millis \<Rightarrow> ReconciliationMessage list \<Rightarrow> ident set \<Rightarrow> ReconciliationOutcome" where
  "reconcileUnknownDelivery conversationId contentHash dispatchedAt messages linked =
    (case filter (reconciliation_match conversationId contentHash dispatchedAt linked) messages of
       [m] \<Rightarrow> MATCHED (rm_id m)
     | [] \<Rightarrow> UNRESOLVED ''No exact outbound match''
     | _ \<Rightarrow> UNRESOLVED ''Multiple outbound matches'')"

section \<open>Lemmas: evaluation and selection\<close>

lemma evaluateCreator_fields [simp]:
  "ev_skipReason (evaluateCreator inp seen c) = fst (skip_decision inp seen c)"
  "ev_skipDetail (evaluateCreator inp seen c) = snd (skip_decision inp seen c)"
  "ev_eligibility (evaluateCreator inp seen c) = (if fst (skip_decision inp seen c) = None then ELIGIBLE else EXCLUDED)"
  "ev_rankingValue (evaluateCreator inp seen c) = rankingValue c (pi_rankingMetric inp)"
  "ev_selected (evaluateCreator inp seen c) = False"
  "CreatorCandidate.truncate (evaluateCreator inp seen c) = CreatorCandidate.truncate c"
  "cc_creatorOpenId (evaluateCreator inp seen c) = cc_creatorOpenId c"
  "cc_username (evaluateCreator inp seen c) = cc_username c"
  "cc_nickname (evaluateCreator inp seen c) = cc_nickname c"
  "cc_categoryIds (evaluateCreator inp seen c) = cc_categoryIds c"
  "cc_followerCount (evaluateCreator inp seen c) = cc_followerCount c"
  "cc_gmv (evaluateCreator inp seen c) = cc_gmv c"
  "cc_unitsSold (evaluateCreator inp seen c) = cc_unitsSold c"
  "cc_avgVideoViews (evaluateCreator inp seen c) = cc_avgVideoViews c"
  "cc_avgLiveViewers (evaluateCreator inp seen c) = cc_avgLiveViewers c"
  "cc_engagementRate (evaluateCreator inp seen c) = cc_engagementRate c"
  by (auto simp: evaluateCreator_def EvaluatedCreator.defs CreatorCandidate.defs split: prod.splits)

lemma matchesFilters_evaluateCreator [simp]: "matchesFilters (evaluateCreator inp seen c) f = matchesFilters c f"
  by (simp add: matchesFilters_def keyword_matches_def numericGmv_def Let_def cong: option.case_cong)

lemma matchesFilters_mark [simp]: "matchesFilters (e\<lparr>ev_selected := b\<rparr>) f = matchesFilters e f"
  by (simp add: matchesFilters_def keyword_matches_def numericGmv_def Let_def cong: option.case_cong)

lemma length_evaluateCreators [simp]: "length (evaluateCreators inp seen cs) = length cs"
  by (induction cs arbitrary: seen) simp_all

definition seen_before :: "ident set \<Rightarrow> CreatorCandidate list \<Rightarrow> ident set" where
  "seen_before seen cs = seen \<union> {i. i \<noteq> [] \<and> i \<in> cc_creatorOpenId ` set cs}"

lemma nth_evaluateCreators:
  "i < length cs \<Longrightarrow>
   evaluateCreators inp seen cs ! i = evaluateCreator inp (seen_before seen (take i cs)) (cs ! i)"
proof (induction cs arbitrary: seen i)
  case (Cons c cs)
  show ?case
  proof (cases i)
    case 0
    then show ?thesis by (simp add: seen_before_def)
  next
    case (Suc j)
    have "seen_before (if cc_creatorOpenId c \<noteq> [] then insert (cc_creatorOpenId c) seen else seen) (take j cs)
      = seen_before seen (c # take j cs)" by (auto simp: seen_before_def)
    then show ?thesis using Suc Cons by simp
  qed
qed simp

lemma length_mark_selected [simp]: "length (mark_selected ps es) = length es"
proof -
  have "length (fold (\<lambda>i xs. xs[i := (xs ! i)\<lparr>ev_selected := True\<rparr>]) ps es) = length es" for ps
    by (induction ps arbitrary: es) simp_all
  then show ?thesis by (simp add: mark_selected_def)
qed

lemma nth_mark_selected:
  "i < length es \<Longrightarrow> mark_selected ps es ! i = (if i \<in> set ps then (es ! i)\<lparr>ev_selected := True\<rparr> else es ! i)"
proof (induction ps arbitrary: es)
  case (Cons p ps)
  have "mark_selected (p # ps) es = mark_selected ps (es[p := (es ! p)\<lparr>ev_selected := True\<rparr>])"
    by (simp add: mark_selected_def)
  then show ?case using Cons by (cases "i = p") (auto simp: nth_list_update)
qed (simp add: mark_selected_def)

text \<open>What marking leaves alone: everything but the mark.\<close>

lemma mark_selected_same:
  "i < length es \<Longrightarrow> ev_skipReason (mark_selected ps es ! i) = ev_skipReason (es ! i)"
  "i < length es \<Longrightarrow> ev_eligibility (mark_selected ps es ! i) = ev_eligibility (es ! i)"
  "i < length es \<Longrightarrow> ev_rankingValue (mark_selected ps es ! i) = ev_rankingValue (es ! i)"
  "i < length es \<Longrightarrow> cc_creatorOpenId (mark_selected ps es ! i) = cc_creatorOpenId (es ! i)"
  by (simp_all add: nth_mark_selected)

lemma count_skip_mark_selected: "count_skip reason (mark_selected ps es) = count_skip reason es"
proof -
  have "map ev_skipReason (mark_selected ps es) = map ev_skipReason es"
    by (rule nth_equalityI) (simp_all add: mark_selected_same)
  then have "length (filter (\<lambda>r. r = Some reason) (map ev_skipReason (mark_selected ps es)))
    = length (filter (\<lambda>r. r = Some reason) (map ev_skipReason es))" by simp
  then show ?thesis by (simp add: count_skip_def count_where_def filter_map comp_def)
qed

lemma set_ranked_positions:
  "set (ranked_positions d es) = {i. i < length es \<and> ev_eligibility (es ! i) = ELIGIBLE}"
  by (auto simp: ranked_positions_def)

lemma distinct_ranked_positions [simp]: "distinct (ranked_positions d es)"
  by (simp add: ranked_positions_def distinct_js_sort)

lemma length_ranked_positions:
  "length (ranked_positions d es) = length (filter (\<lambda>e. ev_eligibility e = ELIGIBLE) es)"
proof -
  have "length (filter (\<lambda>i. ev_eligibility (es ! i) = ELIGIBLE) [0..<length es])
    = length (filter (\<lambda>e. ev_eligibility e = ELIGIBLE) (map ((!) es) [0..<length es]))"
    unfolding filter_map comp_def by (rule length_map [symmetric])
  then show ?thesis by (simp only: map_nth ranked_positions_def length_js_sort)
qed

lemma buildPreviewE:
  assumes "buildPreview inp = Inr r"
  obtains es where "es = evaluateCreators inp {} (pi_creators inp)"
    "pr_creators r = mark_selected (slice_to (pi_requested inp) (ranked_positions (pi_rankingDirection inp) es)) es"
    "pr_summary r = preview_summary inp (pr_creators r) (length (ranked_positions (pi_rankingDirection inp) es))"
  using assms by (auto simp: buildPreview_def Let_def split: sum.splits)

lemma set_slice_to: "set (slice_to n xs) \<subseteq> set xs"
  by (simp add: slice_to_def set_take_subset)

lemma length_slice_to: "0 \<le> n \<Longrightarrow> int (length (slice_to n xs)) = min n (int (length xs))"
  by (simp add: slice_to_def)

lemma eligible_skipReason: "e \<in> set (evaluateCreators inp seen cs) \<Longrightarrow> ev_eligibility e = ELIGIBLE \<longleftrightarrow> ev_skipReason e = None"
  by (induction cs arbitrary: seen) (auto split: if_splits)

section \<open>Lemmas: the ranking\<close>

definition finite_rank :: "EvaluatedCreator \<Rightarrow> bool" where
  "finite_rank e \<longleftrightarrow> is_fin (ev_rankingValue e)"

interpretation ranking: comparator "rank_cmp d" finite_rank
proof -
  have "comparator (\<lambda>a b. js_diff_sign (ev_rankingValue a) (ev_rankingValue b) * (if d = Some ASC then 1 else - 1)) finite_rank"
    by unfold_locales (auto simp: finite_rank_def elim!: is_finE split: if_splits)
  then show "comparator (rank_cmp d) finite_rank"
    unfolding rank_cmp_def by (rule comparator_cmp_then) (rule comparator_locale_by)
qed

lemma rank_cmp_zero: "rank_cmp d a b = 0 \<Longrightarrow> cc_creatorOpenId a = cc_creatorOpenId b"
  by (simp add: rank_cmp_def)

lemma comparator_vimage: "comparator c ok \<Longrightarrow> comparator (\<lambda>i j. c (f i) (f j)) (\<lambda>i. ok (f i))"
  unfolding comparator_def by blast

lemma sorted_ranked_positions:
  assumes "\<forall>e \<in> set es. finite_rank e"
  shows "sorted_wrt (\<lambda>i j. rank_cmp d (es ! i) (es ! j) \<le> 0) (ranked_positions d es)"
  unfolding ranked_positions_def
  by (rule comparator.sorted_js_sort [OF comparator_vimage [OF ranking.comparator_axioms]])
    (use assms in auto)

text \<open>A creator that is left out comes after every creator that is taken.\<close>

lemma slice_to_before:
  assumes s: "sorted_wrt R xs" and x: "x \<in> set (slice_to n xs)" and y: "y \<in> set xs" "y \<notin> set (slice_to n xs)"
  shows "R x y"
proof -
  define k where "k = nat (if n < 0 then n + int (length xs) else n)"
  have xs: "xs = slice_to n xs @ drop k xs" by (simp add: slice_to_def k_def)
  have "y \<in> set (slice_to n xs) \<union> set (drop k xs)" using y(1) xs by (metis set_append)
  then have "y \<in> set (drop k xs)" using y(2) by blast
  moreover have "sorted_wrt R (slice_to n xs @ drop k xs)" using s xs by simp
  ultimately show ?thesis using x by (simp add: sorted_wrt_append)
qed

lemma eligible_ids_unseen:
  assumes "ev_eligibility (evaluateCreators inp seen cs ! i) = ELIGIBLE" "i < length cs"
  shows "cc_creatorOpenId (cs ! i) \<noteq> []" "cc_creatorOpenId (cs ! i) \<notin> seen_before seen (take i cs)"
  using assms by (auto simp: nth_evaluateCreators skip_decision_def Let_def split: if_splits option.splits)

text \<open>Two eligible positions hold two different creators.\<close>

lemma eligible_ids_distinct:
  assumes "i < j" "j < length cs"
    "ev_eligibility (evaluateCreators inp seen cs ! j) = ELIGIBLE" "cc_creatorOpenId (cs ! i) = cc_creatorOpenId (cs ! j)"
  shows False
proof -
  have "cs ! i \<in> set (take j cs)" using assms(1,2) by (auto simp: in_set_conv_nth intro!: exI [of _ i])
  then have "cc_creatorOpenId (cs ! j) \<in> cc_creatorOpenId ` set (take j cs)" using assms(4) by (metis imageI)
  then show False using eligible_ids_unseen [OF assms(3,2)] by (simp add: seen_before_def)
qed

lemma eligible_ids_inj:
  assumes "i < length cs" "j < length cs"
    "ev_eligibility (evaluateCreators inp seen cs ! i) = ELIGIBLE"
    "ev_eligibility (evaluateCreators inp seen cs ! j) = ELIGIBLE"
    "cc_creatorOpenId (cs ! i) = cc_creatorOpenId (cs ! j)"
  shows "i = j"
  using assms eligible_ids_distinct [of i j] eligible_ids_distinct [of j i] by (metis linorder_neqE_nat)

lemma finite_rank_evaluate:
  "(\<And>c. c \<in> set cs \<Longrightarrow> is_fin (rankingValue c (pi_rankingMetric inp))) \<Longrightarrow>
   \<forall>e \<in> set (evaluateCreators inp seen cs). finite_rank e"
  by (induction cs arbitrary: seen) (simp_all add: finite_rank_def)

lemma marked_iff:
  assumes "i < length cs"
  shows "ev_selected (mark_selected ps (evaluateCreators inp seen cs) ! i) \<longleftrightarrow> i \<in> set ps"
  using assms by (simp add: nth_mark_selected nth_evaluateCreators)



text \<open>Sorting positions is sorting the creators at them.\<close>

lemma map_insert_by: "map f (insert_by (\<lambda>i j. c (f i) (f j)) x ys) = insert_by c (f x) (map f ys)"
  by (induction ys) auto

lemma map_js_sort: "map f (js_sort (\<lambda>i j. c (f i) (f j)) xs) = js_sort c (map f xs)"
  by (induction xs) (simp_all add: map_insert_by)

lemma map_ranked_positions:
  "map ((!) es) (ranked_positions d es) = js_sort (rank_cmp d) (filter (\<lambda>e. ev_eligibility e = ELIGIBLE) es)"
proof -
  have "map ((!) es) (filter (\<lambda>i. ev_eligibility (es ! i) = ELIGIBLE) [0..<length es])
    = filter (\<lambda>e. ev_eligibility e = ELIGIBLE) (map ((!) es) [0..<length es])"
    unfolding filter_map comp_def by (rule refl)
  then show ?thesis by (simp only: ranked_positions_def map_js_sort map_nth)
qed

lemma map_slice_to: "map f (slice_to n xs) = slice_to n (map f xs)"
  by (simp add: slice_to_def take_map)

lemma selected_image:
  assumes "set ps \<subseteq> {..<length es}" "\<forall>e \<in> set es. \<not> ev_selected e"
  shows "cc_creatorOpenId ` {a \<in> set (mark_selected ps es). ev_selected a} = cc_creatorOpenId ` set (map ((!) es) ps)"
proof (intro set_eqI iffI)
  fix x assume "x \<in> cc_creatorOpenId ` {a \<in> set (mark_selected ps es). ev_selected a}"
  then obtain i where i: "i < length es" "x = cc_creatorOpenId (mark_selected ps es ! i)" "ev_selected (mark_selected ps es ! i)"
    by (auto simp: in_set_conv_nth)
  then have "i \<in> set ps" using assms(2) by (auto simp: nth_mark_selected split: if_splits)
  then show "x \<in> cc_creatorOpenId ` set (map ((!) es) ps)" using i by (auto simp: mark_selected_same)
next
  fix x assume "x \<in> cc_creatorOpenId ` set (map ((!) es) ps)"
  then obtain i where i: "i \<in> set ps" "x = cc_creatorOpenId (es ! i)" by auto
  then have "i < length es" using assms(1) by auto
  then have "mark_selected ps es ! i \<in> set (mark_selected ps es)" by simp
  moreover have "ev_selected (mark_selected ps es ! i)" "x = cc_creatorOpenId (mark_selected ps es ! i)"
    using i \<open>i < length es\<close> by (simp_all add: nth_mark_selected)
  ultimately show "x \<in> cc_creatorOpenId ` {a \<in> set (mark_selected ps es). ev_selected a}" by blast
qed

lemma evaluateCreators_unselected: "\<forall>e \<in> set (evaluateCreators inp seen cs). \<not> ev_selected e"
  by (induction cs arbitrary: seen) auto

lemma ranked_positions_bound: "set (ranked_positions d es) \<subseteq> {..<length es}"
  by (auto simp: set_ranked_positions)

lemma slice_ranked_bound: "set (slice_to n (ranked_positions d es)) \<subseteq> {..<length es}"
  using set_slice_to ranked_positions_bound by (rule subset_trans)

text \<open>Where no creator occurs twice, the evaluation of one does not depend on the others.\<close>

lemma skip_decision_unseen:
  "cc_creatorOpenId c \<notin> seen \<Longrightarrow> cc_creatorOpenId c \<notin> seen' \<Longrightarrow> skip_decision inp seen c = skip_decision inp seen' c"
  by (simp add: skip_decision_def Let_def)

lemma evaluateCreators_distinct:
  "distinct (map cc_creatorOpenId cs) \<Longrightarrow> cc_creatorOpenId ` set cs \<inter> seen = {} \<Longrightarrow>
   evaluateCreators inp seen cs = map (evaluateCreator inp {}) cs"
proof (induction cs arbitrary: seen)
  case (Cons c cs)
  have "evaluateCreator inp seen c = evaluateCreator inp {} c"
    using Cons.prems(2) skip_decision_unseen [of c seen "{}" inp] by (simp add: evaluateCreator_def)
  then show ?case using Cons by auto
qed simp

lemma evaluateCreator_creators [simp]:
  "evaluateCreator (inp\<lparr>pi_creators := cs\<rparr>) seen c = evaluateCreator inp seen c"
  by (simp add: evaluateCreator_def skip_decision_def Let_def cong: option.case_cong)

lemma length_filter_mark:
  "distinct ps \<Longrightarrow> set ps \<subseteq> {..<length es} \<Longrightarrow> \<forall>e \<in> set es. \<not> ev_selected e \<Longrightarrow>
   length (filter ev_selected (mark_selected ps es)) = length ps"
proof -
  assume a: "distinct ps" "set ps \<subseteq> {..<length es}" "\<forall>e \<in> set es. \<not> ev_selected e"
  have "{i. i < length es \<and> ev_selected (mark_selected ps es ! i)} = set ps"
    using a(2,3) by (auto simp: nth_mark_selected split: if_splits)
  then show ?thesis using distinct_card [OF a(1)] by (simp add: length_filter_conv_card)
qed

lemma count_eligible:
  "int (length (filter (\<lambda>e. ev_eligibility e = ELIGIBLE) (evaluateCreators inp seen cs)))
   = count_where (\<lambda>e. ev_skipReason e = None) (evaluateCreators inp seen cs)"
  by (induction cs arbitrary: seen) (simp_all add: count_where_def)

lemma count_skip_partition:
  "int (length es) = (count_skip FILTER_MISMATCH es + count_skip INVALID_MESSAGING_ID es) + count_skip DUPLICATE es
     + count_skip DO_NOT_CONTACT es + count_skip DELIVERY_UNKNOWN es
     + (count_skip COOLDOWN es + count_skip CONTACTED_BY_APP_WITHIN_COOLDOWN es) + count_skip ACTIVE_RESERVATION es
     + count_where (\<lambda>e. ev_skipReason e = None) es"
proof (induction es)
  case (Cons e es)
  show ?case
  proof (cases "ev_skipReason e")
    case (Some reason)
    then show ?thesis using Cons by (cases reason) (simp_all add: count_skip_def count_where_def)
  qed (use Cons in \<open>simp add: count_skip_def count_where_def\<close>)
qed (simp add: count_skip_def count_where_def)

text \<open>A selected creator is one for which the evaluation found no reason to skip it.\<close>

lemma selected_unskipped:
  assumes "buildPreview inp = Inr r" "e \<in> set (pr_creators r)" "ev_selected e"
  shows "\<exists>seen c. c \<in> set (pi_creators inp) \<and> fst (skip_decision inp seen c) = None \<and>
    e = (evaluateCreator inp seen c)\<lparr>ev_selected := True\<rparr>"
proof -
  from assms(1) obtain es where es: "es = evaluateCreators inp {} (pi_creators inp)"
    and cr: "pr_creators r = mark_selected (slice_to (pi_requested inp) (ranked_positions (pi_rankingDirection inp) es)) es"
    by (elim buildPreviewE)
  from assms(2) cr obtain i where i: "i < length es" "e = pr_creators r ! i" by (auto simp: in_set_conv_nth)
  have n: "i < length (pi_creators inp)" using i es by simp
  have sel: "i \<in> set (slice_to (pi_requested inp) (ranked_positions (pi_rankingDirection inp) es))"
    using assms(3) i n by (simp add: cr es marked_iff)
  then have "ev_eligibility (es ! i) = ELIGIBLE" using set_slice_to by (fastforce simp: set_ranked_positions)
  then have "fst (skip_decision inp (seen_before {} (take i (pi_creators inp))) (pi_creators inp ! i)) = None"
    using n by (simp add: es nth_evaluateCreators split: if_splits)
  moreover have "e = (evaluateCreator inp (seen_before {} (take i (pi_creators inp))) (pi_creators inp ! i))\<lparr>ev_selected := True\<rparr>"
    using i n sel by (simp add: cr nth_mark_selected es nth_evaluateCreators)
  ultimately show ?thesis
    using n by (intro exI [of _ "seen_before {} (take i (pi_creators inp))"] exI [of _ "pi_creators inp ! i"]) simp
qed

section \<open>Properties\<close>

text \<open>
  C26. buildPreview selects a creator only when its messaging id is not empty, it passes every
  filter, no active reservation holds it, it is neither marked do-not-contact nor has an
  unresolved delivery, and its last contact is not within the cooldown.
\<close>

theorem selected_creator_may_be_contacted:
  assumes "buildPreview inp = Inr r" "e \<in> set (pr_creators r)" "ev_selected e"
  shows "cc_creatorOpenId e \<noteq> [] \<and> matchesFilters e (pi_filters inp) \<and>
    cc_creatorOpenId e \<notin> pi_activeReservations inp \<and>
    (case pi_contacts inp (cc_creatorOpenId e) of None \<Rightarrow> True
     | Some k \<Rightarrow> \<not> cs_doNotContact k \<and> \<not> cs_unresolvedDelivery k \<and>
        (case cs_lastContactedAt k of None \<Rightarrow> True
         | Some t \<Rightarrow> of_int t \<le> of_int (pi_now inp) - pi_cooldownDays inp * 86400000))"
proof -
  obtain seen c where c: "fst (skip_decision inp seen c) = None" "e = (evaluateCreator inp seen c)\<lparr>ev_selected := True\<rparr>"
    using selected_unskipped [OF assms] by blast
  show ?thesis using c(1) unfolding c(2)
    by (auto simp: skip_decision_def Let_def not_less split: if_splits option.splits)
qed

text \<open>
  No creator id is eligible at two positions of a preview, so a campaign never gets two
  recipients with the same creator.
\<close>

theorem selected_creators_distinct:
  assumes "buildPreview inp = Inr r" "i < length (pr_creators r)" "j < length (pr_creators r)"
    "ev_eligibility (pr_creators r ! i) = ELIGIBLE" "ev_eligibility (pr_creators r ! j) = ELIGIBLE"
    "cc_creatorOpenId (pr_creators r ! i) = cc_creatorOpenId (pr_creators r ! j)"
  shows "i = j"
proof -
  from assms(1) obtain es where es: "es = evaluateCreators inp {} (pi_creators inp)"
    and cr: "pr_creators r = mark_selected (slice_to (pi_requested inp) (ranked_positions (pi_rankingDirection inp) es)) es"
    by (elim buildPreviewE)
  show ?thesis
    by (rule eligible_ids_inj [of i "pi_creators inp" j inp "{}"])
      (use assms in \<open>simp_all add: cr mark_selected_same es nth_evaluateCreators\<close>)
qed

text \<open>
  The summary of buildPreview accounts for every fetched occurrence exactly once (one skip
  counter or eligible), the number of creators marked selected is min(requested, eligible), and
  selected plus shortfall is the requested number.
\<close>

theorem preview_accounts_for_every_creator:
  assumes "buildPreview inp = Inr r" "0 \<le> pi_requested inp"
  shows "ps_fetchedOccurrences (pr_summary r) = int (length (pi_creators inp)) \<and>
    ps_fetchedOccurrences (pr_summary r) = ps_excludedByFilter (pr_summary r) + ps_skippedDuplicates (pr_summary r)
      + ps_skippedDoNotContact (pr_summary r) + ps_skippedUnknownDelivery (pr_summary r)
      + ps_skippedCooldown (pr_summary r) + ps_skippedActiveReservation (pr_summary r) + ps_eligible (pr_summary r) \<and>
    int (length (filter ev_selected (pr_creators r))) = ps_selected (pr_summary r) \<and>
    ps_selected (pr_summary r) = min (pi_requested inp) (ps_eligible (pr_summary r)) \<and>
    ps_selected (pr_summary r) + ps_shortfall (pr_summary r) = pi_requested inp"
proof -
  from assms(1) obtain es where es: "es = evaluateCreators inp {} (pi_creators inp)"
    and cr: "pr_creators r = mark_selected (slice_to (pi_requested inp) (ranked_positions (pi_rankingDirection inp) es)) es"
    and sm: "pr_summary r = preview_summary inp (pr_creators r) (length (ranked_positions (pi_rankingDirection inp) es))"
    by (elim buildPreviewE)
  have "distinct (slice_to (pi_requested inp) (ranked_positions (pi_rankingDirection inp) es))"
    by (simp add: slice_to_def)
  from length_filter_mark [OF this slice_ranked_bound] evaluateCreators_unselected
  have "int (length (filter ev_selected (pr_creators r)))
      = min (pi_requested inp) (int (length (ranked_positions (pi_rankingDirection inp) es)))"
    using length_slice_to [OF assms(2)] by (simp add: cr es)
  moreover have "int (length es) = (count_skip FILTER_MISMATCH es + count_skip INVALID_MESSAGING_ID es)
     + count_skip DUPLICATE es + count_skip DO_NOT_CONTACT es + count_skip DELIVERY_UNKNOWN es
     + (count_skip COOLDOWN es + count_skip CONTACTED_BY_APP_WITHIN_COOLDOWN es) + count_skip ACTIVE_RESERVATION es
     + int (length (ranked_positions (pi_rankingDirection inp) es))"
    using count_skip_partition [of es] by (simp only: length_ranked_positions es count_eligible)
  ultimately show ?thesis using assms(2)
    by (simp add: sm preview_summary_def Let_def cr count_skip_mark_selected) (simp add: es)
qed

text \<open>
  C27. When all ranking values are finite, every creator buildPreview selects ranks strictly
  before every eligible creator it leaves out: by the metric in the requested direction, ties by
  the creator id.
\<close>

theorem preview_selects_the_best:
  assumes "buildPreview inp = Inr r" "\<forall>c \<in> set (pi_creators inp). is_fin (rankingValue c (pi_rankingMetric inp))"
    "a \<in> set (pr_creators r)" "ev_selected a"
    "b \<in> set (pr_creators r)" "ev_eligibility b = ELIGIBLE" "\<not> ev_selected b"
  shows "(if pi_rankingDirection inp = Some ASC then js_lt (ev_rankingValue a) (ev_rankingValue b)
          else js_lt (ev_rankingValue b) (ev_rankingValue a)) \<or>
         ev_rankingValue a = ev_rankingValue b \<and> locale_compare (cc_creatorOpenId a) (cc_creatorOpenId b) < 0"
proof -
  let ?d = "pi_rankingDirection inp"
  from assms(1) obtain es where es: "es = evaluateCreators inp {} (pi_creators inp)"
    and cr: "pr_creators r = mark_selected (slice_to (pi_requested inp) (ranked_positions ?d es)) es"
    by (elim buildPreviewE)
  let ?top = "slice_to (pi_requested inp) (ranked_positions ?d es)"
  have fin: "\<forall>e \<in> set es. finite_rank e" unfolding es by (rule finite_rank_evaluate) (use assms(2) in blast)
  from assms(3) cr obtain i where i: "i < length es" "a = pr_creators r ! i" by (auto simp: in_set_conv_nth)
  from assms(5) cr obtain j where j: "j < length es" "b = pr_creators r ! j" by (auto simp: in_set_conv_nth)
  have ids: "i < length (pi_creators inp)" "j < length (pi_creators inp)" using i j es by simp_all
  have top: "i \<in> set ?top" "j \<notin> set ?top" using assms(4,7) i j ids by (simp_all add: cr es marked_iff)
  have jr: "j \<in> set (ranked_positions ?d es)" using assms(6) j by (simp add: set_ranked_positions cr mark_selected_same)
  have le: "rank_cmp ?d (es ! i) (es ! j) \<le> 0"
    by (rule slice_to_before [OF sorted_ranked_positions [OF fin] top(1) jr top(2)])
  have ir: "i \<in> set (ranked_positions ?d es)" using top(1) set_slice_to by fastforce
  have "cc_creatorOpenId (es ! i) \<noteq> cc_creatorOpenId (es ! j)"
    using eligible_ids_inj [of i "pi_creators inp" j inp "{}"] ids ir jr top
    by (auto simp: set_ranked_positions es nth_evaluateCreators)
  then have "rank_cmp ?d (es ! i) (es ! j) \<noteq> 0" using rank_cmp_zero by blast
  then have lt: "rank_cmp ?d (es ! i) (es ! j) < 0" using le by simp
  obtain x y where xy: "ev_rankingValue (es ! i) = Fin x" "ev_rankingValue (es ! j) = Fin y"
    using fin i j by (metis finite_rank_def is_finE nth_mem)
  show ?thesis using lt xy i j
    by (auto simp: cr mark_selected_same rank_cmp_def cmp_then_def split: if_splits)
qed

text \<open>
  For creators without duplicates and with finite ranking values, the set of creators
  buildPreview selects does not depend on the order in which the creators were fetched.
\<close>

theorem selection_ignores_input_order:
  assumes "buildPreview inp = Inr r" "buildPreview (inp\<lparr>pi_creators := cs\<rparr>) = Inr r'"
    "mset cs = mset (pi_creators inp)" "distinct (map cc_creatorOpenId cs)"
    "\<forall>c \<in> set cs. is_fin (rankingValue c (pi_rankingMetric inp))"
  shows "cc_creatorOpenId ` {a \<in> set (pr_creators r). ev_selected a} = cc_creatorOpenId ` {a \<in> set (pr_creators r'). ev_selected a}"
proof -
  let ?d = "pi_rankingDirection inp" and ?n = "pi_requested inp" and ?E = "\<lambda>e. ev_eligibility e = ELIGIBLE"
  have dist: "distinct (map cc_creatorOpenId (pi_creators inp))"
    using assms(3,4) by (metis mset_eq_imp_distinct_iff mset_map)
  define es es' where "es = map (evaluateCreator inp {}) (pi_creators inp)" and "es' = map (evaluateCreator inp {}) cs"
  have ev: "evaluateCreators inp {} (pi_creators inp) = es" "evaluateCreators (inp\<lparr>pi_creators := cs\<rparr>) {} cs = es'"
    using dist assms(4) by (simp_all add: evaluateCreators_distinct es_def es'_def)
  have cr: "pr_creators r = mark_selected (slice_to ?n (ranked_positions ?d es)) es"
    using assms(1) by (elim buildPreviewE) (simp add: ev)
  have cr': "pr_creators r' = mark_selected (slice_to ?n (ranked_positions ?d es')) es'"
    using assms(2) by (elim buildPreviewE) (simp add: ev)
  have ms: "mset (filter ?E es') = mset (filter ?E es)" using assms(3) by (simp add: es_def es'_def)
  have "js_sort (rank_cmp ?d) (filter ?E es') = js_sort (rank_cmp ?d) (filter ?E es)"
  proof (rule ranking.js_sort_perm_unique [OF ms])
    show "\<forall>e \<in> set (filter ?E es'). finite_rank e" using assms(5) by (auto simp: es'_def finite_rank_def)
    show "\<forall>x \<in> set (filter ?E es'). \<forall>y \<in> set (filter ?E es'). rank_cmp ?d x y = 0 \<longrightarrow> x = y"
      using distinct_map_eqD [OF assms(4)] by (fastforce simp: es'_def dest!: rank_cmp_zero split: if_splits)
  qed
  then have "map ((!) es) (slice_to ?n (ranked_positions ?d es)) = map ((!) es') (slice_to ?n (ranked_positions ?d es'))"
    by (simp add: map_slice_to map_ranked_positions)
  moreover have "\<forall>e \<in> set es. \<not> ev_selected e" "\<forall>e \<in> set es'. \<not> ev_selected e" by (auto simp: es_def es'_def)
  ultimately show ?thesis by (simp add: cr cr' selected_image [OF slice_ranked_bound])
qed

section \<open>Lemmas: rendering\<close>

text \<open>
  A template as the operator reads it: literal text and placeholders. The program never builds
  this list; it is the reading against which the scanning of the text is checked.
\<close>

datatype Segment = Literal string | Slot string

fun unparse :: "Segment \<Rightarrow> string" where
  "unparse (Literal t) = t"
| "unparse (Slot p) = ''{{'' @ p @ ''}}''"

fun well_formed_segment :: "Segment \<Rightarrow> bool" where
  "well_formed_segment (Literal t) \<longleftrightarrow> list_all non_brace t"
| "well_formed_segment (Slot p) \<longleftrightarrow> list_all non_brace p \<and> p \<noteq> []"

fun fill :: "string \<Rightarrow> string \<Rightarrow> Segment \<Rightarrow> Segment" where
  "fill name value (Literal t) = Literal t"
| "fill name value (Slot p) = (if js_trim p = name then Literal value else Slot p)"

fun segment_text :: "MessageValues \<Rightarrow> Segment \<Rightarrow> string" where
  "segment_text v (Literal t) = t"
| "segment_text v (Slot p) =
    (if js_trim p = ''creator_display_name'' then mv_creatorDisplayName v
     else if js_trim p = ''product_name'' then mv_productName v else mv_campaignName v)"

definition plain_text :: "string \<Rightarrow> bool" where
  "plain_text s \<longleftrightarrow> list_all (\<lambda>c. non_brace c \<and> c \<noteq> CHR ''$'') s"

lemma starts_with_Cons [simp]: "starts_with (p # ps) (c # cs) \<longleftrightarrow> p = c \<and> starts_with ps cs"
  "starts_with [] s" "\<not> starts_with (p # ps) []"
  by (auto simp: starts_with_def)

lemma placeholder_at_None [simp]:
  "c \<noteq> CHR ''{'' \<Longrightarrow> placeholder_at (c # cs) = None"
  "d \<noteq> CHR ''{'' \<Longrightarrow> placeholder_at (c # d # cs) = None"
  by (auto simp: placeholder_at_def Let_def)

lemma takeWhile_run: "list_all P xs \<Longrightarrow> \<not> P y \<Longrightarrow> takeWhile P (xs @ y # ys) = xs"
  by (induction xs) auto

lemma dropWhile_run: "list_all P xs \<Longrightarrow> \<not> P y \<Longrightarrow> dropWhile P (xs @ y # ys) = y # ys"
  by (induction xs) auto

lemma placeholder_at_slot:
  "list_all non_brace p \<Longrightarrow> p \<noteq> [] \<Longrightarrow>
   placeholder_at (CHR ''{'' # CHR ''{'' # p @ CHR ''}'' # CHR ''}'' # rest) = Some (js_trim p, rest)"
  by (simp add: placeholder_at_def takeWhile_run dropWhile_run non_brace_def Let_def)

lemma expand_dollars_plain: "plain_text v \<Longrightarrow> expand_dollars b m a v = v"
  by (induction b m a v rule: expand_dollars.induct) (auto simp: plain_text_def)

lemma replace_literal:
  "list_all (\<lambda>c. c \<noteq> CHR ''{'') t \<Longrightarrow> replace_placeholder n v b (t @ s) = t @ replace_placeholder n v (b @ t) s"
  by (induction t arbitrary: b) auto

lemma placeholders_literal:
  "list_all (\<lambda>c. c \<noteq> CHR ''{'') t \<Longrightarrow> placeholders (t @ s) = placeholders s"
  by (induction t) auto

lemma non_brace_no_open: "list_all non_brace t \<Longrightarrow> list_all (\<lambda>c. c \<noteq> CHR ''{'') t"
  by (auto simp: list_all_iff non_brace_def)

lemma replace_other_slot:
  assumes p: "list_all non_brace p" "p \<noteq> []" and n: "js_trim p \<noteq> n"
  shows "\<exists>b'. replace_placeholder n v b (unparse (Slot p) @ s) = unparse (Slot p) @ replace_placeholder n v b' s"
proof -
  obtain c q where c: "p = c # q" "c \<noteq> CHR ''{''" using p by (cases p) (auto simp: non_brace_def)
  have "replace_placeholder n v b (unparse (Slot p) @ s)
    = CHR ''{'' # CHR ''{'' # replace_placeholder n v (b @ ''{{'') ((p @ ''}}'') @ s)"
    using placeholder_at_slot [OF p, of s] n c by simp
  also have "replace_placeholder n v (b @ ''{{'') ((p @ ''}}'') @ s)
    = (p @ ''}}'') @ replace_placeholder n v ((b @ ''{{'') @ p @ ''}}'') s"
    by (rule replace_literal) (use non_brace_no_open [OF p(1)] in simp)
  finally show ?thesis by auto
qed

lemma replace_segments:
  assumes "plain_text v"
  shows "list_all well_formed_segment segs \<Longrightarrow>
    replace_placeholder n v b (concat (map unparse segs)) = concat (map unparse (map (fill n v) segs))"
proof (induction segs arbitrary: b)
  case (Cons g segs)
  show ?case
  proof (cases g)
    case (Literal t)
    then show ?thesis using Cons replace_literal [OF non_brace_no_open, of t n v b "concat (map unparse segs)"] by simp
  next
    case (Slot p)
    then have p: "list_all non_brace p" "p \<noteq> []" using Cons.prems by simp_all
    show ?thesis
    proof (cases "js_trim p = n")
      case True
      then show ?thesis using Slot Cons placeholder_at_slot [OF p, of "concat (map unparse segs)"]
        by (simp add: expand_dollars_plain [OF assms] Let_def)
    next
      case False
      then show ?thesis using Slot Cons replace_other_slot [OF p False, of v b "concat (map unparse segs)"] by auto
    qed
  qed
qed simp

lemma placeholders_segments:
  "list_all well_formed_segment segs \<Longrightarrow>
   placeholders (concat (map unparse segs)) = concat (map (\<lambda>g. case g of Literal _ \<Rightarrow> [] | Slot p \<Rightarrow> [js_trim p]) segs)"
proof (induction segs)
  case (Cons g segs)
  then show ?case by (cases g) (simp_all add: placeholders_literal non_brace_no_open placeholder_at_slot)
qed simp

lemma well_formed_fill: "plain_text v \<Longrightarrow> well_formed_segment g \<Longrightarrow> well_formed_segment (fill n v g)"
  by (cases g) (auto simp: plain_text_def list_all_iff)

lemma js_includes_non_brace: "list_all non_brace s \<Longrightarrow> \<not> js_includes ''{{'' s \<and> \<not> js_includes ''}}'' s"
  by (induction s) (auto simp: non_brace_def)

lemma fill_all:
  assumes "well_formed_segment g" "\<forall>p. g = Slot p \<longrightarrow> js_trim p \<in> set allowed_placeholders"
    "plain_text (mv_creatorDisplayName v)" "plain_text (mv_productName v)" "plain_text (mv_campaignName v)"
  shows "unparse (fill ''campaign_name'' (mv_campaignName v) (fill ''product_name'' (mv_productName v)
      (fill ''creator_display_name'' (mv_creatorDisplayName v) g))) = segment_text v g"
    and "list_all non_brace (segment_text v g)"
proof -
  have plain: "list_all non_brace s" if "plain_text s" for s using that by (simp add: plain_text_def list_all_iff)
  have cases: "js_trim p = ''creator_display_name'' \<or> js_trim p = ''product_name'' \<or> js_trim p = ''campaign_name''"
    if "g = Slot p" for p using assms(2) that by (simp add: allowed_placeholders_def)
  show "unparse (fill ''campaign_name'' (mv_campaignName v) (fill ''product_name'' (mv_productName v)
      (fill ''creator_display_name'' (mv_creatorDisplayName v) g))) = segment_text v g"
  proof (cases g)
    case (Slot p)
    then show ?thesis using cases [OF Slot] by (elim disjE) simp_all
  qed simp
  show "list_all non_brace (segment_text v g)" using assms(1,3,4,5) plain by (cases g) simp_all
qed

section \<open>Properties of rendering, the ceiling and the reconciliation\<close>

text \<open>
  C28. Rendering the text of a list of literal segments and supported placeholders (with any inner
  spaces) succeeds and gives the literal text with every placeholder replaced by its value, when
  the values hold no braces and no dollar signs.
\<close>

theorem renderMessage_fills_every_slot:
  assumes wf: "list_all well_formed_segment segs"
    and slots: "\<forall>p. Slot p \<in> set segs \<longrightarrow> js_trim p \<in> set allowed_placeholders"
    and plain: "plain_text (mv_creatorDisplayName v)" "plain_text (mv_productName v)" "plain_text (mv_campaignName v)"
  shows "renderMessage (concat (map unparse segs)) v = Inr (concat (map (segment_text v) segs))"
proof -
  let ?f = "fill ''campaign_name'' (mv_campaignName v) \<circ> fill ''product_name'' (mv_productName v)
    \<circ> fill ''creator_display_name'' (mv_creatorDisplayName v)"
  have none: "List.find (\<lambda>p. p \<notin> set allowed_placeholders) (placeholders (concat (map unparse segs))) = None"
    using slots unfolding placeholders_segments [OF wf] find_None_iff by (auto split: Segment.splits)
  have wf1: "list_all well_formed_segment (map (fill ''creator_display_name'' (mv_creatorDisplayName v)) segs)"
    using wf plain well_formed_fill by (auto simp: list_all_iff)
  have wf2: "list_all well_formed_segment (map (fill ''product_name'' (mv_productName v))
      (map (fill ''creator_display_name'' (mv_creatorDisplayName v)) segs))"
    using wf1 plain well_formed_fill by (auto simp: list_all_iff)
  have filled: "unparse (?f g) = segment_text v g \<and> list_all non_brace (unparse (?f g))" if "g \<in> set segs" for g
  proof -
    have w: "well_formed_segment g" using that wf by (simp add: list_all_iff)
    have slot: "\<forall>p. g = Slot p \<longrightarrow> js_trim p \<in> set allowed_placeholders" using that slots by blast
    show ?thesis using fill_all [OF w slot plain] by simp
  qed
  have "concat (map unparse (map ?f segs)) = concat (map (segment_text v) segs)"
    using filled by (simp add: comp_def cong: map_cong)
  moreover have "list_all non_brace (concat (map unparse (map ?f segs)))"
    using filled by (auto simp: list_all_iff)
  moreover note R = replace_segments [OF plain(1) wf] replace_segments [OF plain(2) wf1] replace_segments [OF plain(3) wf2]
  ultimately show ?thesis
    using js_includes_non_brace [of "concat (map (segment_text v) segs)"]
    by (simp add: renderMessage_def none R Let_def comp_assoc del: map_map) (simp add: comp_assoc)
qed

text \<open>
  A rendered message never holds two opening or two closing braces, and the template it came
  from used only supported placeholders.
\<close>

theorem renderMessage_leaves_no_braces:
  assumes "renderMessage template v = Inr text"
  shows "\<not> js_includes ''{{'' text \<and> \<not> js_includes ''}}'' text \<and>
    set (placeholders template) \<subseteq> set allowed_placeholders"
  using assms by (auto simp: renderMessage_def Let_def find_None_iff split: option.splits if_splits)

text \<open>
  reconcileUnknownDelivery reports MATCHED with a message id exactly when one single message
  of the list is an unlinked outbound message of the conversation with the same content hash
  within the time window, and that message has the id.
\<close>

theorem reconcile_matches_only_a_unique_message:
  "reconcileUnknownDelivery conv hash t messages linked = MATCHED i \<longleftrightarrow>
   (\<exists>m pre post. messages = pre @ m # post \<and> rm_id m = i \<and> reconciliation_match conv hash t linked m \<and>
      (\<forall>m' \<in> set (pre @ post). \<not> reconciliation_match conv hash t linked m'))"
proof -
  let ?P = "reconciliation_match conv hash t linked"
  have "reconcileUnknownDelivery conv hash t messages linked = MATCHED i \<longleftrightarrow> (\<exists>m. filter ?P messages = [m] \<and> rm_id m = i)"
    by (auto simp: reconcileUnknownDelivery_def split: list.splits)
  also have "\<dots> \<longleftrightarrow> (\<exists>m pre post. messages = pre @ m # post \<and> rm_id m = i \<and> ?P m \<and> (\<forall>m' \<in> set (pre @ post). \<not> ?P m'))"
  proof (intro iffI; elim exE conjE)
    fix m assume "filter ?P messages = [m]" "rm_id m = i"
    then obtain pre post where "messages = pre @ m # post" "\<forall>u \<in> set pre. \<not> ?P u" "?P m" "[] = filter ?P post"
      by (auto simp: filter_eq_Cons_iff)
    moreover from this(4) have "\<forall>u \<in> set post. \<not> ?P u" by (metis filter_empty_conv)
    ultimately show "\<exists>m pre post. messages = pre @ m # post \<and> rm_id m = i \<and> ?P m \<and> (\<forall>m' \<in> set (pre @ post). \<not> ?P m')"
      using \<open>rm_id m = i\<close> by (rule_tac x = m in exI, rule_tac x = pre in exI, rule_tac x = post in exI) auto
  next
    fix m pre post assume "messages = pre @ m # post" "rm_id m = i" "?P m" "\<forall>m' \<in> set (pre @ post). \<not> ?P m'"
    then show "\<exists>m. filter ?P messages = [m] \<and> rm_id m = i" by (auto intro!: exI [of _ m] simp: filter_empty_conv)
  qed
  finally show ?thesis .
qed

section \<open>A concrete preview\<close>

text \<open>
  Four occurrences of three creators: one was contacted within the cooldown, one occurs twice.
  The theorems above are applied to it below.
\<close>

definition example_creator :: "ident \<Rightarrow> real \<Rightarrow> CreatorCandidate" where
  "example_creator i followers = \<lparr>cc_creatorOpenId = i, cc_creatorUserId = None, cc_username = Some i,
     cc_nickname = None, cc_categoryIds = [], cc_followerCount = Some followers, cc_gmv = None,
     cc_unitsSold = None, cc_avgVideoViews = None, cc_avgLiveViewers = None, cc_engagementRate = None,
     cc_avatarUrl = None, cc_liveGmv = None, cc_videoGmv = None, cc_gmvRange = None, cc_topAgeRanges = None,
     cc_majorGender = None, cc_majorGenderPercentage = None, cc_selectionRegion = ''ID'', cc_discoveryOrdinal = 0\<rparr>"

definition no_filters :: CreatorFilters where
  "no_filters = \<lparr>cf_keyword = None, cf_categoryIds = None, cf_minFollowers = None, cf_maxFollowers = None,
     cf_minGmv = None, cf_maxGmv = None, cf_gmvCurrency = None, cf_minUnitsSold = None, cf_minAvgVideoViews = None,
     cf_minAvgLiveViewers = None, cf_minEngagementRate = None, cf_marketplaceCategory = None,
     cf_marketplaceGmvRanges = None\<rparr>"

definition example_input :: "CreatorCandidate list \<Rightarrow> PreviewInput" where
  "example_input cs = \<lparr>pi_creators = cs, pi_filters = no_filters,
     pi_contacts = [''d'' \<mapsto> \<lparr>cs_lastContactedAt = Some 1786665600000, cs_firstContactedAt = None, cs_contactCount = 1,
        cs_doNotContact = False, cs_unresolvedDelivery = False, cs_historical = True\<rparr>],
     pi_activeReservations = {}, pi_requested = 1, pi_cooldownDays = 30, pi_rankingMetric = FOLLOWERS,
     pi_rankingDirection = None, pi_now = 1786752000000, pi_truncated = False\<rparr>"

definition example_creators :: "CreatorCandidate list" where
  "example_creators = [example_creator ''a'' 5, example_creator ''d'' 9, example_creator ''b'' 7, example_creator ''b'' 7]"

definition preview_of :: "PreviewInput \<Rightarrow> PreviewResult" where
  "preview_of inp = (case buildPreview inp of Inr r \<Rightarrow> r | Inl _ \<Rightarrow> undefined)"

lemma preview_of_ok: "assertContactCooldownDays (pi_cooldownDays inp) = Inr u \<Longrightarrow> buildPreview inp = Inr (preview_of inp)"
  by (simp add: preview_of_def buildPreview_def Let_def)

lemma example_ok: "buildPreview (example_input cs) = Inr (preview_of (example_input cs))"
  by (rule preview_of_ok) (simp add: example_input_def assertContactCooldownDays_def js_is_integer_def
      MAX_CONTACT_COOLDOWN_DAYS_def)

definition example_result :: "EvaluatedCreator list" where
  "example_result = pr_creators (preview_of (example_input example_creators))"

lemma example_evaluates:
  "map (\<lambda>e. (cc_creatorOpenId e, ev_eligibility e, ev_selected e)) example_result =
     [(''a'', ELIGIBLE, False), (''d'', EXCLUDED, False), (''b'', ELIGIBLE, True), (''b'', EXCLUDED, False)]"
  by code_simp

lemma example_preview:
  "map ev_selected example_result = [False, False, True, False]"
  "map ev_eligibility example_result = [ELIGIBLE, EXCLUDED, ELIGIBLE, EXCLUDED]"
  "map cc_creatorOpenId example_result = [''a'', ''d'', ''b'', ''b'']"
  using arg_cong [OF example_evaluates, of "map (snd \<circ> snd)"] arg_cong [OF example_evaluates, of "map (fst \<circ> snd)"]
    arg_cong [OF example_evaluates, of "map fst"]
  by (simp_all add: comp_def)

lemma length_example_result: "length example_result = 4"
  using arg_cong [OF example_preview(3), of length] by simp

lemma example_nth: "i < 4 \<Longrightarrow> f (example_result ! i) = map f example_result ! i"
  by (simp add: length_example_result)

lemma example_at:
  "ev_selected (example_result ! 2)" "\<not> ev_selected (example_result ! 0)"
  "ev_eligibility (example_result ! 0) = ELIGIBLE" "ev_eligibility (example_result ! 2) = ELIGIBLE"
  "cc_creatorOpenId (example_result ! 2) = ''b''"
  by (simp_all add: example_nth example_preview)

lemma example_set: "pr_creators (preview_of (example_input example_creators)) = example_result"
  by (simp add: example_result_def)

lemma example_members:
  "example_result ! 0 \<in> set (pr_creators (preview_of (example_input example_creators)))"
  "example_result ! 2 \<in> set (pr_creators (preview_of (example_input example_creators)))"
  by (simp_all add: example_set length_example_result)

lemma example_fields:
  "pi_filters (example_input cs) = no_filters" "pi_requested (example_input cs) = 1"
  "pi_rankingDirection (example_input cs) = None" "pi_rankingMetric (example_input cs) = FOLLOWERS"
  "pi_creators (example_input cs) = cs"
  by (simp_all add: example_input_def)

lemma example_finite:
  "\<forall>c \<in> set example_creators. is_fin (rankingValue c (pi_rankingMetric (example_input cs)))"
  by (simp add: example_creators_def example_creator_def example_fields number_or_min_def)

lemma selected_creator_may_be_contacted_witness:
  "matchesFilters (example_result ! 2) no_filters \<and> cc_creatorOpenId (example_result ! 2) \<noteq> []"
  using selected_creator_may_be_contacted [OF example_ok example_members(2) example_at(1)]
  by (simp add: example_fields)

lemma selected_creators_distinct_witness:
  "cc_creatorOpenId (example_result ! 0) \<noteq> cc_creatorOpenId (example_result ! 2)"
  using selected_creators_distinct [OF example_ok, of 0 example_creators 2] example_at
  by (auto simp: length_example_result simp flip: example_result_def)

lemma preview_accounts_for_every_creator_witness:
  "ps_fetchedOccurrences (pr_summary (preview_of (example_input example_creators))) = 4"
  using preview_accounts_for_every_creator [OF example_ok, of example_creators]
  by (simp add: example_fields example_creators_def)

lemma preview_selects_the_best_witness:
  "js_lt (ev_rankingValue (example_result ! 0)) (ev_rankingValue (example_result ! 2)) \<or>
   ev_rankingValue (example_result ! 2) = ev_rankingValue (example_result ! 0)"
  using preview_selects_the_best [OF example_ok _ example_members(2) example_at(1) example_members(1) example_at(3,2)]
    example_finite by (auto simp: example_fields)

lemma selection_ignores_input_order_witness:
  "cc_creatorOpenId ` {a \<in> set (pr_creators (preview_of (example_input [example_creator ''a'' 5, example_creator ''b'' 7]))). ev_selected a}
   = cc_creatorOpenId ` {a \<in> set (pr_creators (preview_of (example_input [example_creator ''b'' 7, example_creator ''a'' 5]))). ev_selected a}"
proof -
  have up: "example_input cs\<lparr>pi_creators := cs'\<rparr> = example_input cs'" for cs cs' by (simp add: example_input_def)
  show ?thesis
    by (rule selection_ignores_input_order [OF example_ok, of "[example_creator ''b'' 7, example_creator ''a'' 5]"])
      (simp_all only: up example_ok,
       simp_all add: example_fields example_creator_def number_or_min_def add_mset_commute)
qed

lemma renderMessage_fills_every_slot_witness:
  "renderMessage ''Hi {{ creator_display_name }}!'' \<lparr>mv_creatorDisplayName = ''Ana'', mv_productName = [], mv_campaignName = []\<rparr>
     = Inr ''Hi Ana!''"
  using renderMessage_fills_every_slot [of "[Literal ''Hi '', Slot '' creator_display_name '', Literal ''!'']"
      "\<lparr>mv_creatorDisplayName = ''Ana'', mv_productName = [], mv_campaignName = []\<rparr>"]
  by (simp add: plain_text_def non_brace_def js_trim_def is_space_def code_of_def allowed_placeholders_def)

lemma renderMessage_example:
  "renderMessage ''Hi {{product_name}}'' \<lparr>mv_creatorDisplayName = [], mv_productName = ''Oil'', mv_campaignName = []\<rparr>
     = Inr ''Hi Oil''"
  by code_simp

lemma renderMessage_leaves_no_braces_witness:
  "\<not> js_includes ''{{'' ''Hi Oil'' \<and> set (placeholders ''Hi {{product_name}}'') \<subseteq> set allowed_placeholders"
  using renderMessage_leaves_no_braces [OF renderMessage_example] by simp

text \<open>Two closing or opening braces in a creator's display name make the rendering fail.\<close>

lemma renderMessage_brace_name:
  "renderMessage ''Halo kak {{creator_display_name}}'' \<lparr>mv_creatorDisplayName = ''ana{{'', mv_productName = [], mv_campaignName = []\<rparr>
     = Inl ''Message template contains an invalid or unclosed placeholder''"
  by code_simp

text \<open>A dollar sign before a quote in a display name pastes the rest of the template into it.\<close>

lemma renderMessage_dollar_name:
  "renderMessage ''Halo {{creator_display_name}} bye'' \<lparr>mv_creatorDisplayName = ''A$'' @ [CHR 0x27], mv_productName = [], mv_campaignName = []\<rparr>
     = Inr ''Halo A bye bye''"
  by code_simp

lemma reconcile_matches_only_a_unique_message_witness:
  "reconcileUnknownDelivery ''c'' ''h'' 1000
     [\<lparr>rm_id = ''m1'', rm_conversationId = ''c'', rm_direction = INBOUND, rm_contentHash = ''h'', rm_createdAt = 2000\<rparr>,
      \<lparr>rm_id = ''m2'', rm_conversationId = ''c'', rm_direction = OUTBOUND, rm_contentHash = ''h'', rm_createdAt = 2000\<rparr>] {}
   = MATCHED ''m2''"
  unfolding reconcile_matches_only_a_unique_message
  by (intro exI [of _ "\<lparr>rm_id = ''m2'', rm_conversationId = ''c'', rm_direction = OUTBOUND, rm_contentHash = ''h'', rm_createdAt = 2000\<rparr>"]
      exI [of _ "[\<lparr>rm_id = ''m1'', rm_conversationId = ''c'', rm_direction = INBOUND, rm_contentHash = ''h'', rm_createdAt = 2000\<rparr>]"]
      exI [of _ "[]"]) (simp add: reconciliation_match_def)

end
