(* ===== verification/Throttle.thy ===== *)
theory Throttle
  imports Base
begin

text \<open>
  The provider governor of the worker, \<open>apps/worker/src/outbound-throttle.ts\<close>: durable limiters
  (one per provider, application, shop and operation), short-lived permits and an event log. Each
  method is one database transaction; it is a function from the tables to an error or the new
  tables (an error rolls back). The interleaving of the workers is a list of operations, each of
  which the model takes as one step. In the code this rests on locks in part: \<open>acquire\<close> takes the
  advisory lock of its key (\<open>outbound-provider:\<close>), \<open>healthy\<close>, \<open>throttle\<close>, \<open>transientFailure\<close> and
  \<open>quotaBlocked\<close> that of the limiter (\<open>outbound-provider-limiter:\<close>), a different one, and \<open>release\<close>, the heartbeat and
  the operator's resume take none. So two calls of \<open>acquire\<close> of one key do exclude each other, and only they create
  permits or move \<open>lastRequestAt\<close>; an \<open>acquire\<close> and, say, a \<open>throttle\<close> may overlap in the database, which the
  lists of operations do not show. Identifiers, the clock and the random
  number are arguments. The two updates of the limiters made elsewhere (the heartbeat of the
  worker, the operator's resume) are here too, since they write the same table.
\<close>

section \<open>Backoff and concurrency\<close>

datatype Operation = CREATE_CONVERSATION | SEND_MESSAGE

definition MAX_RETRY_AFTER_MS :: int where "MAX_RETRY_AFTER_MS = 24 * 60 * 60000"
definition THROTTLE_BACKOFF_CAP_MS :: int where "THROTTLE_BACKOFF_CAP_MS = 60000"
definition TRANSIENT_BACKOFF_CAP_MS :: int where "TRANSIENT_BACKOFF_CAP_MS = 30000"
definition JITTER_MAX_MS :: int where "JITTER_MAX_MS = 500"

fun boundedRetryAfter :: "jsnum option \<Rightarrow> int option" where
  "boundedRetryAfter (Some (Fin x)) = (if 0 \<le> x then Some (min \<lfloor>x\<rfloor> MAX_RETRY_AFTER_MS) else None)"
| "boundedRetryAfter _ = None"

definition exponentialBackoffWithJitter :: "int \<Rightarrow> jsnum option \<Rightarrow> int \<Rightarrow> int \<Rightarrow> real \<Rightarrow> int" where
  "exponentialBackoffWithJitter consecutiveFailures retryAfterMs baseMs capMs rnd =
    (let exponent = min 20 (max 0 (consecutiveFailures - 1));
         jitter = \<lfloor>max 0 (min 0.999999 rnd) * of_int (JITTER_MAX_MS + 1)\<rfloor>;
         local = min capMs (baseMs * 2 ^ nat exponent + jitter)
     in max local (case boundedRetryAfter retryAfterMs of None \<Rightarrow> 0 | Some r \<Rightarrow> r))"

definition decreasedConcurrency :: "int \<Rightarrow> int" where
  "decreasedConcurrency current = max 1 (max 1 current div 2)"

definition increasedConcurrency :: "int \<Rightarrow> int \<Rightarrow> int \<Rightarrow> int \<times> int" where
  "increasedConcurrency current technicalMax healthySuccessCount =
    (let safeCurrent = max 1 (min current technicalMax); nextCount = healthySuccessCount + 1
     in if safeCurrent < technicalMax \<and> nextCount \<ge> safeCurrent then (safeCurrent + 1, 0)
        else (safeCurrent, nextCount))"

section \<open>Tables\<close>

datatype LimiterState = HEALTHY | RECOVERING | THROTTLED | TRANSIENT_BACKOFF | QUOTA_BLOCKED

record Limiter =
  li_id :: ident
  li_provider :: string
  li_appScope :: string
  li_shopId :: ident
  li_operation :: Operation
  li_state :: LimiterState
  li_effectiveConcurrency :: int
  li_technicalMaxConcurrency :: int
  li_healthySuccessCount :: int
  li_consecutiveThrottleCount :: int
  li_consecutiveFailureCount :: int
  li_nextPermittedAt :: "millis option"
  li_lastRequestAt :: "millis option"
  li_lastSuccessAt :: "millis option"
  li_lastThrottleAt :: "millis option"
  li_lastHttpStatus :: "int option"
  li_lastBusinessCode :: "string option"
  li_retryAfterMs :: "int option"
  li_quotaBlockedAt :: "millis option"
  li_quotaCode :: "string option"
  li_quotaDetail :: "string option"

record PermitRow =
  pm_id :: ident
  pm_limiterId :: ident
  pm_owner :: string
  pm_expiresAt :: millis

record OutboundEvent =
  oe_limiterId :: ident
  oe_outcome :: string
  oe_httpStatus :: "int option"
  oe_businessCode :: "string option"
  oe_occurredAt :: millis

record Governed =
  gv_limiters :: "Limiter list"
  gv_permits :: "PermitRow list"
  gv_events :: "OutboundEvent list"

record GovernorOptions =
  go_provider :: string
  go_appScope :: string
  go_initialConcurrency :: int
  go_technicalMaxConcurrency :: int
  go_permitLeaseMs :: int
  go_sendMessageIntervalMs :: "int option"

record Permit =
  pt_id :: ident
  pt_limiterId :: ident
  pt_owner :: string
  pt_operation :: Operation

datatype PermitResult =
    Acquired Permit int
  | Denied int LimiterState "millis option" "string option"

record ResponseMeta =
  mt_httpStatus :: "int option"
  mt_businessCode :: "string option"

text \<open>The constructor rejects options whose initial concurrency exceeds the maximum.\<close>

definition governor_options_ok :: "GovernorOptions \<Rightarrow> bool" where
  "governor_options_ok opts \<longleftrightarrow> \<not> go_initialConcurrency opts > go_technicalMaxConcurrency opts"

text \<open>In an update, a field given as \<open>undefined\<close> is left as it is.\<close>

definition keep :: "'a option \<Rightarrow> 'a option \<Rightarrow> 'a option" where
  "keep new old = (case new of None \<Rightarrow> old | Some _ \<Rightarrow> new)"

section \<open>acquire\<close>

definition technical_max :: "GovernorOptions \<Rightarrow> Operation \<Rightarrow> int" where
  "technical_max opts operation = (if operation = SEND_MESSAGE then 1 else go_technicalMaxConcurrency opts)"

definition initial_concurrency :: "GovernorOptions \<Rightarrow> Operation \<Rightarrow> int" where
  "initial_concurrency opts operation = (if operation = SEND_MESSAGE then 1 else go_initialConcurrency opts)"

definition send_interval :: "GovernorOptions \<Rightarrow> int" where
  "send_interval opts = max 1000 (case go_sendMessageIntervalMs opts of None \<Rightarrow> 1000 | Some ms \<Rightarrow> ms)"

definition limiter_key :: "GovernorOptions \<Rightarrow> ident \<Rightarrow> Operation \<Rightarrow> Limiter \<Rightarrow> bool" where
  "limiter_key opts shopId operation l \<longleftrightarrow> li_provider l = go_provider opts \<and> li_appScope l = go_appScope opts
     \<and> li_shopId l = shopId \<and> li_operation l = operation"

definition new_limiter :: "GovernorOptions \<Rightarrow> ident \<Rightarrow> ident \<Rightarrow> Operation \<Rightarrow> Limiter" where
  "new_limiter opts limiterId shopId operation =
    \<lparr>li_id = limiterId, li_provider = go_provider opts, li_appScope = go_appScope opts, li_shopId = shopId,
     li_operation = operation, li_state = HEALTHY, li_effectiveConcurrency = initial_concurrency opts operation,
     li_technicalMaxConcurrency = technical_max opts operation, li_healthySuccessCount = 0,
     li_consecutiveThrottleCount = 0, li_consecutiveFailureCount = 0, li_nextPermittedAt = None,
     li_lastRequestAt = None, li_lastSuccessAt = None, li_lastThrottleAt = None, li_lastHttpStatus = None,
     li_lastBusinessCode = None, li_retryAfterMs = None, li_quotaBlockedAt = None, li_quotaCode = None,
     li_quotaDetail = None\<rparr>"

definition update_limiter :: "ident \<Rightarrow> (Limiter \<Rightarrow> Limiter) \<Rightarrow> Governed \<Rightarrow> Governed" where
  "update_limiter i f g = g\<lparr>gv_limiters := upd_where (\<lambda>l. li_id l = i) f (gv_limiters g)\<rparr>"

definition find_limiter :: "ident \<Rightarrow> Governed \<Rightarrow> Limiter option" where
  "find_limiter i g = List.find (\<lambda>l. li_id l = i) (gv_limiters g)"

definition log_event :: "ident \<Rightarrow> string \<Rightarrow> ResponseMeta \<Rightarrow> millis \<Rightarrow> Governed \<Rightarrow> Governed" where
  "log_event i outcome meta now g = g\<lparr>gv_events := gv_events g @
     [\<lparr>oe_limiterId = i, oe_outcome = outcome, oe_httpStatus = mt_httpStatus meta,
       oe_businessCode = mt_businessCode meta, oe_occurredAt = now\<rparr>]\<rparr>"

definition no_meta :: ResponseMeta where "no_meta = \<lparr>mt_httpStatus = None, mt_businessCode = None\<rparr>"

text \<open>The upsert and the clamp of the effective concurrency (lines 82 to 95).\<close>

definition upsert_limiter ::
  "GovernorOptions \<Rightarrow> ident \<Rightarrow> ident \<Rightarrow> Operation \<Rightarrow> Governed \<Rightarrow> db_error + Limiter \<times> Governed" where
  "upsert_limiter opts limiterId shopId operation g =
    (case List.find (limiter_key opts shopId operation) (gv_limiters g) of
       None \<Rightarrow> (if List.find (\<lambda>l. li_id l = limiterId) (gv_limiters g) \<noteq> None then Inl UniqueViolation
                else Inr (new_limiter opts limiterId shopId operation,
                   g\<lparr>gv_limiters := gv_limiters g @ [new_limiter opts limiterId shopId operation]\<rparr>))
     | Some l \<Rightarrow>
       (let tm = technical_max opts operation;
            l' = (if li_effectiveConcurrency l > tm
                  then l\<lparr>li_technicalMaxConcurrency := tm, li_effectiveConcurrency := tm, li_healthySuccessCount := 0\<rparr>
                  else l\<lparr>li_technicalMaxConcurrency := tm\<rparr>)
        in Inr (l', update_limiter (li_id l) (\<lambda>_. l') g)))"

text \<open>A cooldown that has passed turns an unhealthy limiter into a recovering one (lines 108 to 113).\<close>

definition end_cooldown :: "millis \<Rightarrow> Limiter \<Rightarrow> Limiter" where
  "end_cooldown now l =
    (case li_nextPermittedAt l of
       Some t \<Rightarrow> if li_state l \<noteq> HEALTHY \<and> t \<le> now
                 then l\<lparr>li_state := RECOVERING, li_nextPermittedAt := None, li_retryAfterMs := None\<rparr> else l
     | None \<Rightarrow> l)"

definition permits_of :: "ident \<Rightarrow> Governed \<Rightarrow> PermitRow list" where
  "permits_of i g = filter (\<lambda>p. pm_limiterId p = i) (gv_permits g)"

definition earliest_expiry :: "PermitRow list \<Rightarrow> millis option" where
  "earliest_expiry ps = (case ps of [] \<Rightarrow> None | p # qs \<Rightarrow> Some (fold (\<lambda>q t. min (pm_expiresAt q) t) qs (pm_expiresAt p)))"

definition grant ::
  "GovernorOptions \<Rightarrow> ident \<Rightarrow> Operation \<Rightarrow> string \<Rightarrow> millis \<Rightarrow> Limiter \<Rightarrow> Governed \<Rightarrow> db_error + PermitResult \<times> Governed" where
  "grant opts permitId operation owner now l g =
    (if List.find (\<lambda>p. pm_id p = permitId \<or> pm_owner p = owner) (gv_permits g) \<noteq> None then Inl UniqueViolation
     else Inr (Acquired \<lparr>pt_id = permitId, pt_limiterId = li_id l, pt_owner = owner, pt_operation = operation\<rparr>
                 (li_effectiveConcurrency l),
       log_event (li_id l) ''ATTEMPT'' no_meta now
         (update_limiter (li_id l) (\<lambda>r. r\<lparr>li_lastRequestAt := Some now\<rparr>)
           (g\<lparr>gv_permits := gv_permits g @
             [\<lparr>pm_id = permitId, pm_limiterId = li_id l, pm_owner = owner, pm_expiresAt = now + go_permitLeaseMs opts\<rparr>]\<rparr>))))"

definition admit ::
  "GovernorOptions \<Rightarrow> ident \<Rightarrow> Operation \<Rightarrow> string \<Rightarrow> millis \<Rightarrow> Limiter \<Rightarrow> Governed \<Rightarrow> db_error + PermitResult \<times> Governed" where
  "admit opts permitId operation owner now l g =
    (let active = permits_of (li_id l) g;
         next_send = map_option (\<lambda>t. t + send_interval opts) (li_lastRequestAt l)
     in if operation = SEND_MESSAGE \<and> (case next_send of None \<Rightarrow> False | Some t \<Rightarrow> t > now)
        then Inr (Denied (the next_send - now) (li_state l) next_send None, g)
        else if int (length active) \<ge> li_effectiveConcurrency l
        then Inr (Denied (max 25 (min 250 (case earliest_expiry active of None \<Rightarrow> 100 | Some t \<Rightarrow> t - now)))
                    (li_state l) None None, g)
        else grant opts permitId operation owner now l g)"

definition acquire ::
  "GovernorOptions \<Rightarrow> ident \<Rightarrow> ident \<Rightarrow> ident \<Rightarrow> Operation \<Rightarrow> string \<Rightarrow> millis \<Rightarrow> Governed
    \<Rightarrow> db_error + PermitResult \<times> Governed" where
  "acquire opts limiterId permitId shopId operation owner now g =
    (case upsert_limiter opts limiterId shopId operation g of
       Inl e \<Rightarrow> Inl e
     | Inr (l, g1) \<Rightarrow>
       (let g2 = g1\<lparr>gv_permits := del_where (\<lambda>p. pm_limiterId p = li_id l \<and> pm_expiresAt p \<le> now) (gv_permits g1)\<rparr>
        in if li_state l = QUOTA_BLOCKED then Inr (Denied 60000 (li_state l) None (li_quotaCode l), g2)
           else case li_nextPermittedAt l of
               Some t \<Rightarrow> (if t > now then Inr (Denied (max 25 (t - now)) (li_state l) (Some t) None, g2)
                         else (let l2 = end_cooldown now l
                               in admit opts permitId operation owner now l2 (update_limiter (li_id l) (\<lambda>_. l2) g2)))
             | None \<Rightarrow> admit opts permitId operation owner now l g2))"

section \<open>waitForPermit\<close>

text \<open>
  The loop of \<open>waitForPermit\<close> may go on for ever. A run of it is driven by the list of its tries:
  what the other processes did to the tables since the last try, the clock, and the identifiers a
  try would use. It returns \<open>None\<close> when the tries are used up without an answer.
\<close>

datatype WaitResult = Permitted Permit | QuotaBlockedError string

record WaitTry =
  wt_interference :: "Governed \<Rightarrow> Governed"
  wt_now :: millis
  wt_limiterId :: ident
  wt_permitId :: ident

fun waitForPermit ::
  "GovernorOptions \<Rightarrow> ident \<Rightarrow> Operation \<Rightarrow> string \<Rightarrow> WaitTry list \<Rightarrow> Governed
    \<Rightarrow> (db_error + WaitResult \<times> Governed) option" where
  "waitForPermit opts shopId operation owner [] g = None"
| "waitForPermit opts shopId operation owner (w # ws) g =
    (case acquire opts (wt_limiterId w) (wt_permitId w) shopId operation owner (wt_now w) (wt_interference w g) of
       Inl e \<Rightarrow> Some (Inl e)
     | Inr (Acquired p _, g') \<Rightarrow> Some (Inr (Permitted p, g'))
     | Inr (Denied delay state until code, g') \<Rightarrow>
         (if state = QUOTA_BLOCKED
          then Some (Inr (QuotaBlockedError (case code of None \<Rightarrow> ''PROVIDER_IM_QUOTA'' | Some c \<Rightarrow> c), g'))
          else waitForPermit opts shopId operation owner ws g'))"

section \<open>Settling a permit\<close>

definition delete_permit :: "Permit \<Rightarrow> Governed \<Rightarrow> Governed" where
  "delete_permit p g = g\<lparr>gv_permits := del_where (\<lambda>r. pm_id r = pt_id p \<and> pm_owner r = pt_owner p) (gv_permits g)\<rparr>"

definition healthy_limiter :: "ResponseMeta \<Rightarrow> millis \<Rightarrow> Limiter \<Rightarrow> Limiter" where
  "healthy_limiter meta now l =
    (case increasedConcurrency (li_effectiveConcurrency l) (li_technicalMaxConcurrency l) (li_healthySuccessCount l) of
       (eff, successes) \<Rightarrow> l\<lparr>
         li_state := (if eff \<ge> li_technicalMaxConcurrency l then HEALTHY
                      else if li_state l = HEALTHY then HEALTHY else RECOVERING),
         li_effectiveConcurrency := eff, li_healthySuccessCount := successes,
         li_consecutiveThrottleCount := 0, li_consecutiveFailureCount := 0,
         li_nextPermittedAt := None, li_retryAfterMs := None, li_lastSuccessAt := Some now,
         li_lastHttpStatus := keep (mt_httpStatus meta) (li_lastHttpStatus l),
         li_lastBusinessCode := keep (mt_businessCode meta) (li_lastBusinessCode l)\<rparr>)"

text \<open>A settling method fails when its limiter is gone and otherwise does its three writes.\<close>

definition settle :: "Permit \<Rightarrow> string \<Rightarrow> ResponseMeta \<Rightarrow> millis \<Rightarrow> (Limiter \<Rightarrow> Limiter) \<Rightarrow> Governed \<Rightarrow> db_error + Governed" where
  "settle p outcome meta now f g =
    (case find_limiter (pt_limiterId p) g of
       None \<Rightarrow> Inl RecordNotFound
     | Some l \<Rightarrow> Inr (log_event (pt_limiterId p) outcome meta now
                   (update_limiter (pt_limiterId p) f (delete_permit p g))))"

definition healthy :: "Permit \<Rightarrow> string \<Rightarrow> ResponseMeta \<Rightarrow> millis \<Rightarrow> Governed \<Rightarrow> db_error + Governed" where
  "healthy p outcome meta now = settle p outcome meta now (healthy_limiter meta now)"

definition later :: "millis option \<Rightarrow> millis \<Rightarrow> millis" where
  "later t candidate = (case t of None \<Rightarrow> candidate | Some u \<Rightarrow> if u > candidate then u else candidate)"

definition throttle_delay :: "jsnum option \<Rightarrow> real \<Rightarrow> Limiter \<Rightarrow> int" where
  "throttle_delay retryAfterMs rnd l =
    exponentialBackoffWithJitter (li_consecutiveThrottleCount l + 1) retryAfterMs 1000 THROTTLE_BACKOFF_CAP_MS rnd"

definition throttled_limiter :: "ResponseMeta \<Rightarrow> jsnum option \<Rightarrow> real \<Rightarrow> millis \<Rightarrow> Limiter \<Rightarrow> Limiter" where
  "throttled_limiter meta retryAfterMs rnd now l = l\<lparr>
     li_state := THROTTLED, li_effectiveConcurrency := decreasedConcurrency (li_effectiveConcurrency l),
     li_healthySuccessCount := 0,
     li_consecutiveThrottleCount := li_consecutiveThrottleCount l + 1, li_consecutiveFailureCount := 0,
     li_nextPermittedAt := Some (later (li_nextPermittedAt l) (now + throttle_delay retryAfterMs rnd l)),
     li_lastThrottleAt := Some now, li_retryAfterMs := keep (boundedRetryAfter retryAfterMs) (li_retryAfterMs l),
     li_lastHttpStatus := keep (mt_httpStatus meta) (li_lastHttpStatus l),
     li_lastBusinessCode := keep (mt_businessCode meta) (li_lastBusinessCode l)\<rparr>"

definition throttle :: "Permit \<Rightarrow> ResponseMeta \<Rightarrow> jsnum option \<Rightarrow> real \<Rightarrow> millis \<Rightarrow> Governed
    \<Rightarrow> db_error + (int \<times> int \<times> millis) \<times> Governed" where
  "throttle p meta retryAfterMs rnd now g =
    (case find_limiter (pt_limiterId p) g of
       None \<Rightarrow> Inl RecordNotFound
     | Some l \<Rightarrow>
       (case settle p ''THROTTLED'' meta now (throttled_limiter meta retryAfterMs rnd now) g of
          Inl e \<Rightarrow> Inl e
        | Inr g' \<Rightarrow> Inr ((throttle_delay retryAfterMs rnd l, decreasedConcurrency (li_effectiveConcurrency l),
                         later (li_nextPermittedAt l) (now + throttle_delay retryAfterMs rnd l)), g')))"

definition transient_delay :: "real \<Rightarrow> Limiter \<Rightarrow> int" where
  "transient_delay rnd l =
    exponentialBackoffWithJitter (li_consecutiveFailureCount l + 1) None 1000 TRANSIENT_BACKOFF_CAP_MS rnd"

definition transient_limiter :: "ResponseMeta \<Rightarrow> real \<Rightarrow> millis \<Rightarrow> Limiter \<Rightarrow> Limiter" where
  "transient_limiter meta rnd now l = l\<lparr>
     li_state := TRANSIENT_BACKOFF, li_consecutiveFailureCount := li_consecutiveFailureCount l + 1,
     li_nextPermittedAt := Some (later (li_nextPermittedAt l) (now + transient_delay rnd l)),
     li_lastHttpStatus := keep (mt_httpStatus meta) (li_lastHttpStatus l),
     li_lastBusinessCode := keep (mt_businessCode meta) (li_lastBusinessCode l)\<rparr>"

definition transientFailure :: "Permit \<Rightarrow> ResponseMeta \<Rightarrow> real \<Rightarrow> millis \<Rightarrow> Governed
    \<Rightarrow> db_error + (int \<times> millis) \<times> Governed" where
  "transientFailure p meta rnd now g =
    (case find_limiter (pt_limiterId p) g of
       None \<Rightarrow> Inl RecordNotFound
     | Some l \<Rightarrow>
       (case settle p ''TRANSIENT'' meta now (transient_limiter meta rnd now) g of
          Inl e \<Rightarrow> Inl e
        | Inr g' \<Rightarrow> Inr ((transient_delay rnd l, later (li_nextPermittedAt l) (now + transient_delay rnd l)), g')))"

definition quota_limiter :: "string \<Rightarrow> string \<Rightarrow> ResponseMeta \<Rightarrow> millis \<Rightarrow> Limiter \<Rightarrow> Limiter" where
  "quota_limiter code detail meta now l = l\<lparr>
     li_state := QUOTA_BLOCKED, li_healthySuccessCount := 0, li_nextPermittedAt := None,
     li_quotaBlockedAt := Some now, li_quotaCode := Some code, li_quotaDetail := Some detail,
     li_lastHttpStatus := keep (mt_httpStatus meta) (li_lastHttpStatus l), li_lastBusinessCode := Some code\<rparr>"

definition quotaBlocked :: "Permit \<Rightarrow> string \<Rightarrow> string \<Rightarrow> ResponseMeta \<Rightarrow> millis \<Rightarrow> Governed \<Rightarrow> db_error + Governed" where
  "quotaBlocked p code detail meta now =
    settle p ''QUOTA_BLOCKED'' (meta\<lparr>mt_businessCode := Some code\<rparr>) now (quota_limiter code detail meta now)"

definition released_limiter :: "ResponseMeta \<Rightarrow> Limiter \<Rightarrow> Limiter" where
  "released_limiter meta l = l\<lparr>
     li_lastHttpStatus := keep (mt_httpStatus meta) (li_lastHttpStatus l),
     li_lastBusinessCode := keep (mt_businessCode meta) (li_lastBusinessCode l)\<rparr>"

definition release :: "Permit \<Rightarrow> string \<Rightarrow> ResponseMeta \<Rightarrow> millis \<Rightarrow> Governed \<Rightarrow> db_error + Governed" where
  "release p outcome meta now = settle p outcome meta now (released_limiter meta)"

definition isProviderThrottle :: "int option \<Rightarrow> string option \<Rightarrow> bool" where
  "isProviderThrottle httpStatus businessCode \<longleftrightarrow> httpStatus = Some 429 \<or>
     (case businessCode of None \<Rightarrow> [] | Some c \<Rightarrow> c) = ''36009002''"

section \<open>Updates of the limiters made elsewhere\<close>

text \<open>The heartbeat of the worker restores the single admission of the message operation.\<close>

definition heartbeat_limiters :: "string \<Rightarrow> Governed \<Rightarrow> Governed" where
  "heartbeat_limiters appScope g = g\<lparr>gv_limiters := upd_where
     (\<lambda>l. li_appScope l = appScope \<and> li_operation l = SEND_MESSAGE
        \<and> (li_effectiveConcurrency l \<noteq> 1 \<or> li_technicalMaxConcurrency l \<noteq> 1))
     (\<lambda>l. l\<lparr>li_effectiveConcurrency := 1, li_technicalMaxConcurrency := 1, li_healthySuccessCount := 0\<rparr>)
     (gv_limiters g)\<rparr>"

text \<open>The operator's resume after an IM quota block lets the limiters of the shop recover.\<close>

definition recovered_limiter :: "Limiter \<Rightarrow> Limiter" where
  "recovered_limiter l = l\<lparr>li_state := RECOVERING, li_effectiveConcurrency := 1, li_healthySuccessCount := 0,
     li_consecutiveThrottleCount := 0, li_consecutiveFailureCount := 0, li_nextPermittedAt := None,
     li_quotaBlockedAt := None, li_quotaCode := None, li_quotaDetail := None\<rparr>"

definition operator_retry :: "ident \<Rightarrow> Governed \<Rightarrow> Governed" where
  "operator_retry shopId g = g\<lparr>gv_limiters :=
     upd_where (\<lambda>l. li_shopId l = shopId \<and> li_state l = QUOTA_BLOCKED) recovered_limiter (gv_limiters g)\<rparr>"

section \<open>Runs\<close>

text \<open>The methods one after the other, each as one step (what the locks of the code give of this is said above).\<close>

datatype GovernorOp =
    Acquire ident ident ident Operation string millis
  | Healthy Permit string ResponseMeta millis
  | Throttle Permit ResponseMeta "jsnum option" real millis
  | TransientFailure Permit ResponseMeta real millis
  | QuotaBlocked Permit string string ResponseMeta millis
  | Release Permit string ResponseMeta millis
  | Heartbeat string
  | OperatorRetry ident

definition committed :: "Governed \<Rightarrow> db_error + Governed \<Rightarrow> Governed" where
  "committed g r = (case r of Inl _ \<Rightarrow> g | Inr g' \<Rightarrow> g')"

fun run_op :: "GovernorOptions \<Rightarrow> GovernorOp \<Rightarrow> Governed \<Rightarrow> Governed" where
  "run_op opts (Acquire lid pid shop operation owner now) g =
     committed g (map_sum id snd (acquire opts lid pid shop operation owner now g))"
| "run_op opts (Healthy p outcome meta now) g = committed g (healthy p outcome meta now g)"
| "run_op opts (Throttle p meta ra rnd now) g = committed g (map_sum id snd (throttle p meta ra rnd now g))"
| "run_op opts (TransientFailure p meta rnd now) g = committed g (map_sum id snd (transientFailure p meta rnd now g))"
| "run_op opts (QuotaBlocked p code detail meta now) g = committed g (quotaBlocked p code detail meta now g)"
| "run_op opts (Release p outcome meta now) g = committed g (release p outcome meta now g)"
| "run_op opts (Heartbeat appScope) g = heartbeat_limiters appScope g"
| "run_op opts (OperatorRetry shop) g = operator_retry shop g"

definition run_ops :: "GovernorOptions \<Rightarrow> GovernorOp list \<Rightarrow> Governed \<Rightarrow> Governed" where
  "run_ops opts ops g = fold (run_op opts) ops g"

definition no_tables :: Governed where
  "no_tables = \<lparr>gv_limiters = [], gv_permits = [], gv_events = []\<rparr>"

section \<open>Lemmas: what an update of a limiter keeps\<close>

text \<open>
  The contract of the updates the settling methods and the operator make: identity, key, technical
  maximum and the time of the last request stay, and the effective concurrency stays within
  \<open>1 .. technicalMax\<close>.
\<close>

locale limiter_change =
  fixes f :: "Limiter \<Rightarrow> Limiter"
  assumes same_id [simp]: "li_id (f l) = li_id l"
    and same_key [simp]: "li_provider (f l) = li_provider l" "li_appScope (f l) = li_appScope l"
      "li_shopId (f l) = li_shopId l" "li_operation (f l) = li_operation l"
    and same_max [simp]: "li_technicalMaxConcurrency (f l) = li_technicalMaxConcurrency l"
    and same_last [simp]: "li_lastRequestAt (f l) = li_lastRequestAt l"
    and in_bounds: "1 \<le> li_effectiveConcurrency l \<Longrightarrow> li_effectiveConcurrency l \<le> li_technicalMaxConcurrency l \<Longrightarrow>
      1 \<le> li_effectiveConcurrency (f l) \<and> li_effectiveConcurrency (f l) \<le> li_technicalMaxConcurrency l"

definition limiter_ok :: "GovernorOptions \<Rightarrow> Limiter \<Rightarrow> bool" where
  "limiter_ok opts l \<longleftrightarrow> li_provider l = go_provider opts \<and> li_appScope l = go_appScope opts \<and>
     li_technicalMaxConcurrency l = technical_max opts (li_operation l) \<and>
     1 \<le> li_effectiveConcurrency l \<and> li_effectiveConcurrency l \<le> li_technicalMaxConcurrency l"

definition attempts :: "ident \<Rightarrow> Governed \<Rightarrow> millis list" where
  "attempts i g = map oe_occurredAt (filter (\<lambda>e. oe_limiterId e = i \<and> oe_outcome e = ''ATTEMPT'') (gv_events g))"

definition paced :: "GovernorOptions \<Rightarrow> millis list \<Rightarrow> millis option \<Rightarrow> bool" where
  "paced opts ts latest \<longleftrightarrow> sorted_wrt (\<lambda>a b. a + send_interval opts \<le> b) ts \<and>
     latest = (if ts = [] then None else Some (last ts))"

definition row_ok :: "GovernorOptions \<Rightarrow> Governed \<Rightarrow> Limiter \<Rightarrow> bool" where
  "row_ok opts g l \<longleftrightarrow> limiter_ok opts l \<and>
     int (length (permits_of (li_id l) g)) \<le> li_technicalMaxConcurrency l \<and>
     (li_operation l = SEND_MESSAGE \<longrightarrow> paced opts (attempts (li_id l) g) (li_lastRequestAt l))"

definition governed_ok :: "GovernorOptions \<Rightarrow> Governed \<Rightarrow> bool" where
  "governed_ok opts g \<longleftrightarrow> distinct (map li_id (gv_limiters g)) \<and> (\<forall>l \<in> set (gv_limiters g). row_ok opts g l) \<and>
     (\<forall>p \<in> set (gv_permits g). pm_limiterId p \<in> li_id ` set (gv_limiters g)) \<and>
     (\<forall>e \<in> set (gv_events g). oe_limiterId e \<in> li_id ` set (gv_limiters g))"

lemma governed_okD:
  assumes "governed_ok opts g" "l \<in> set (gv_limiters g)"
  shows "row_ok opts g l"
  using assms by (simp add: governed_ok_def)

lemma update_limiter_fields [simp]:
  "gv_permits (update_limiter i f g) = gv_permits g" "gv_events (update_limiter i f g) = gv_events g"
  "gv_limiters (update_limiter i f g) = upd_where (\<lambda>l. li_id l = i) f (gv_limiters g)"
  by (simp_all add: update_limiter_def)

lemma log_event_fields [simp]:
  "gv_permits (log_event i out meta now g) = gv_permits g" "gv_limiters (log_event i out meta now g) = gv_limiters g"
  by (simp_all add: log_event_def)

lemma delete_permit_fields [simp]:
  "gv_limiters (delete_permit p g) = gv_limiters g" "gv_events (delete_permit p g) = gv_events g"
  by (simp_all add: delete_permit_def)

lemma permits_of_simps [simp]:
  "permits_of i (update_limiter j f g) = permits_of i g" "permits_of i (log_event j out meta now g) = permits_of i g"
  by (simp_all add: permits_of_def)

lemma attempts_simps [simp]:
  "attempts i (update_limiter j f g) = attempts i g" "attempts i (delete_permit p g) = attempts i g"
  "attempts i (log_event j out meta now g) = attempts i g @ (if i = j \<and> out = ''ATTEMPT'' then [now] else [])"
  by (simp_all add: attempts_def log_event_def)

lemma row_ok_simps [simp]: "row_ok opts (update_limiter i f g) l = row_ok opts g l"
  by (simp add: row_ok_def)

text \<open>An update of one limiter that keeps its row good keeps the tables good.\<close>

lemma governed_ok_update:
  assumes g: "governed_ok opts g"
    and f: "\<And>l. l \<in> set (gv_limiters g) \<Longrightarrow> li_id l = i \<Longrightarrow> li_id (f l) = i \<and> row_ok opts g (f l)"
  shows "governed_ok opts (update_limiter i f g)"
proof -
  have ids: "map li_id (upd_where (\<lambda>l. li_id l = i) f (gv_limiters g)) = map li_id (gv_limiters g)"
    using f by (simp add: upd_where_def)
  then have idset: "li_id ` set (upd_where (\<lambda>l. li_id l = i) f (gv_limiters g)) = li_id ` set (gv_limiters g)"
    by (metis set_map)
  have "row_ok opts (update_limiter i f g) l" if "l \<in> set (upd_where (\<lambda>l. li_id l = i) f (gv_limiters g))" for l
    using mem_upd_where [OF that] f governed_okD [OF g] by (auto split: if_splits)
  then show ?thesis using g ids idset by (simp add: governed_ok_def)
qed

lemma governed_ok_log:
  assumes "governed_ok opts g" "i \<in> li_id ` set (gv_limiters g)" "outcome \<noteq> ''ATTEMPT''"
  shows "governed_ok opts (log_event i outcome meta now g)"
  using assms by (auto simp: governed_ok_def row_ok_def) (auto simp: log_event_def)

lemma length_permits_of_del: "length (permits_of i (g\<lparr>gv_permits := del_where P (gv_permits g)\<rparr>)) \<le> length (permits_of i g)"
  by (simp add: permits_of_def length_filter_del_where)

lemma governed_ok_fewer_permits:
  assumes "governed_ok opts g"
  shows "governed_ok opts (g\<lparr>gv_permits := del_where P (gv_permits g)\<rparr>)"
  using assms length_permits_of_del [of _ P g]
  by (auto simp: governed_ok_def row_ok_def attempts_def) (meson of_nat_mono order_trans)

lemma governed_ok_delete_permit: "governed_ok opts g \<Longrightarrow> governed_ok opts (delete_permit p g)"
  unfolding delete_permit_def by (rule governed_ok_fewer_permits)

context limiter_change
begin

lemma row_ok_change: "row_ok opts g l \<Longrightarrow> row_ok opts g (f l)"
  using in_bounds [of l] by (simp add: row_ok_def limiter_ok_def)

lemma governed_ok_settle:
  assumes "governed_ok opts g" "outcome \<noteq> ''ATTEMPT''" "settle p outcome meta now f g = Inr g'"
  shows "governed_ok opts g'"
proof -
  obtain l where l: "find_limiter (pt_limiterId p) g = Some l"
    and g': "g' = log_event (pt_limiterId p) outcome meta now (update_limiter (pt_limiterId p) f (delete_permit p g))"
    using assms(3) by (auto simp: settle_def split: option.splits)
  let ?h = "update_limiter (pt_limiterId p) f (delete_permit p g)"
  have h: "governed_ok opts ?h"
    by (rule governed_ok_update [OF governed_ok_delete_permit [OF assms(1)]])
      (use governed_okD [OF governed_ok_delete_permit [OF assms(1)]] row_ok_change in auto)
  have "l \<in> set (gv_limiters g)" "li_id l = pt_limiterId p"
    using find_SomeD [OF l [unfolded find_limiter_def]] by auto
  moreover have "map li_id (gv_limiters ?h) = map li_id (gv_limiters g)" by (simp add: map_upd_where_id)
  ultimately have "pt_limiterId p \<in> li_id ` set (gv_limiters ?h)" by (metis image_eqI list.set_map)
  then show ?thesis using g' governed_ok_log [OF h] assms(2) by simp
qed

lemma governed_ok_where:
  assumes g: "governed_ok opts g"
  shows "governed_ok opts (g\<lparr>gv_limiters := upd_where P f (gv_limiters g)\<rparr>)"
proof -
  have ids: "map li_id (upd_where P f (gv_limiters g)) = map li_id (gv_limiters g)"
    by (rule map_upd_where_id) simp
  then have "li_id ` set (upd_where P f (gv_limiters g)) = li_id ` set (gv_limiters g)" by (metis set_map)
  moreover have "row_ok opts (g\<lparr>gv_limiters := upd_where P f (gv_limiters g)\<rparr>) l = row_ok opts g l" for l
    by (simp add: row_ok_def permits_of_def attempts_def)
  ultimately show ?thesis using g ids
    by (auto simp: governed_ok_def set_upd_where intro: row_ok_change)
qed

end

text \<open>Every update of the code has the contract.\<close>

lemma increasedConcurrency_bounds:
  "1 \<le> c \<Longrightarrow> c \<le> m \<Longrightarrow> 1 \<le> fst (increasedConcurrency c m n) \<and> fst (increasedConcurrency c m n) \<le> m"
  by (auto simp: increasedConcurrency_def Let_def)

interpretation healthy: limiter_change "healthy_limiter meta now"
  by unfold_locales
    (simp_all add: healthy_limiter_def case_prod_beta increasedConcurrency_bounds)

interpretation throttled: limiter_change "throttled_limiter meta ra rnd now"
  by unfold_locales (auto simp: throttled_limiter_def decreasedConcurrency_def)

interpretation transient: limiter_change "transient_limiter meta rnd now"
  by unfold_locales (simp_all add: transient_limiter_def)

interpretation quota: limiter_change "quota_limiter code detail meta now"
  by unfold_locales (simp_all add: quota_limiter_def)

interpretation released: limiter_change "released_limiter meta"
  by unfold_locales (simp_all add: released_limiter_def)

interpretation recovered: limiter_change recovered_limiter
  by unfold_locales (simp_all add: recovered_limiter_def)

interpretation cooled: limiter_change "end_cooldown now"
  by unfold_locales (auto simp: end_cooldown_def split: option.splits)

section \<open>Lemmas: acquire\<close>

definition options_ok :: "GovernorOptions \<Rightarrow> bool" where
  "options_ok opts \<longleftrightarrow> governor_options_ok opts \<and> 1 \<le> go_initialConcurrency opts"

lemma limiter_ok_new: "options_ok opts \<Longrightarrow> limiter_ok opts (new_limiter opts i shop operation)"
  by (auto simp: limiter_ok_def new_limiter_def options_ok_def governor_options_ok_def technical_max_def
      initial_concurrency_def)

lemma technical_max_pos: "options_ok opts \<Longrightarrow> 1 \<le> technical_max opts operation"
  by (simp add: technical_max_def options_ok_def governor_options_ok_def)

lemma upsert_existing:
  assumes ok: "options_ok opts" and g: "governed_ok opts g"
    and find: "List.find (limiter_key opts shop operation) (gv_limiters g) = Some l0"
    and res: "upsert_limiter opts lid shop operation g = Inr (l, g1)"
  shows "governed_ok opts g1 \<and> l \<in> set (gv_limiters g1) \<and> li_operation l = operation"
proof -
  have l0: "l0 \<in> set (gv_limiters g)" "limiter_key opts shop operation l0" using find_SomeD [OF find] by auto
  have eq: "li_technicalMaxConcurrency l0 = technical_max opts operation"
      "\<not> li_effectiveConcurrency l0 > technical_max opts operation"
    using governed_okD [OF g l0(1)] l0(2) by (auto simp: row_ok_def limiter_ok_def limiter_key_def)
  have same: "l = l0" "g1 = update_limiter (li_id l0) (\<lambda>_. l) g"
    using res find eq by (auto simp: upsert_limiter_def Let_def)
  have "governed_ok opts g1" unfolding same
    by (rule governed_ok_update [OF g]) (use governed_okD [OF g l0(1)] in auto)
  moreover have "l \<in> set (gv_limiters g1)" using l0(1) by (force simp: same set_upd_where)
  ultimately show ?thesis using l0(2) by (simp add: same(1) limiter_key_def)
qed

lemma upsert_new:
  assumes ok: "options_ok opts" and g: "governed_ok opts g"
    and find: "List.find (limiter_key opts shop operation) (gv_limiters g) = None"
    and res: "upsert_limiter opts lid shop operation g = Inr (l, g1)"
  shows "governed_ok opts g1 \<and> l \<in> set (gv_limiters g1) \<and> li_operation l = operation"
proof -
  have fresh: "lid \<notin> li_id ` set (gv_limiters g)" and l: "l = new_limiter opts lid shop operation"
    and g1: "g1 = g\<lparr>gv_limiters := gv_limiters g @ [l]\<rparr>"
    using res find by (auto simp: upsert_limiter_def find_None_iff split: if_splits)
  have none: "permits_of lid g = []" "attempts lid g = []"
    using g fresh by (auto simp: permits_of_def attempts_def governed_ok_def filter_empty_conv)
  have same: "row_ok opts g1 r = row_ok opts g r" for r
    by (simp add: g1 row_ok_def permits_of_def attempts_def)
  have "row_ok opts g l"
    using limiter_ok_new [OF ok] technical_max_pos [OF ok, of operation] none
    by (simp add: row_ok_def l paced_def) (simp add: new_limiter_def)
  then show ?thesis using g fresh same
    by (auto simp: governed_ok_def g1 l) (simp_all add: new_limiter_def)
qed

lemma upsert_ok:
  assumes "options_ok opts" "governed_ok opts g" "upsert_limiter opts lid shop operation g = Inr (l, g1)"
  shows "governed_ok opts g1 \<and> l \<in> set (gv_limiters g1) \<and> li_operation l = operation"
  using assms upsert_existing upsert_new by (cases "List.find (limiter_key opts shop operation) (gv_limiters g)") blast+

lemma paced_snoc:
  assumes "paced opts ts latest" "case latest of None \<Rightarrow> True | Some t \<Rightarrow> t + send_interval opts \<le> now"
  shows "paced opts (ts @ [now]) (Some now)"
proof (cases ts rule: rev_cases)
  case (snoc us u)
  then have "a + send_interval opts \<le> now" if "a \<in> set ts" for a
    using that assms by (force simp: paced_def sorted_wrt_append send_interval_def)
  then show ?thesis using assms by (auto simp: paced_def sorted_wrt_append)
qed (simp add: paced_def)

lemma grant_ok:
  assumes g: "governed_ok opts g" and l: "l \<in> set (gv_limiters g)" "li_operation l = operation"
    and room: "int (length (permits_of (li_id l) g)) < li_effectiveConcurrency l"
    and pace: "operation = SEND_MESSAGE \<Longrightarrow> case li_lastRequestAt l of None \<Rightarrow> True | Some t \<Rightarrow> t + send_interval opts \<le> now"
    and res: "grant opts pid operation owner now l g = Inr (r, g')"
  shows "governed_ok opts g'"
proof -
  define new where "new = \<lparr>pm_id = pid, pm_limiterId = li_id l, pm_owner = owner, pm_expiresAt = now + go_permitLeaseMs opts\<rparr>"
  let ?f = "\<lambda>r. r\<lparr>li_lastRequestAt := Some now\<rparr>"
  have g': "g' = log_event (li_id l) ''ATTEMPT'' no_meta now
      (update_limiter (li_id l) ?f (g\<lparr>gv_permits := gv_permits g @ [new]\<rparr>))"
    using res by (auto simp: grant_def new_def split: if_splits)
  have dist: "distinct (map li_id (gv_limiters g))" using g by (simp add: governed_ok_def)
  have ids: "map li_id (gv_limiters g') = map li_id (gv_limiters g)" by (simp add: g' map_upd_where_id)
  then have idset: "li_id ` set (gv_limiters g') = li_id ` set (gv_limiters g)" by (metis list.set_map)
  have other: "permits_of i g' = permits_of i g" "attempts i g' = attempts i g" if "i \<noteq> li_id l" for i
    using that by (simp_all add: g' permits_of_def new_def attempts_def log_event_def)
  have own: "permits_of (li_id l) g' = permits_of (li_id l) g @ [new]" "attempts (li_id l) g' = attempts (li_id l) g @ [now]"
    by (simp_all add: g' permits_of_def new_def attempts_def log_event_def)
  have row: "row_ok opts g' s" if s: "s \<in> set (gv_limiters g')" for s
  proof -
    obtain s0 where s0: "s0 \<in> set (gv_limiters g)" "s = (if li_id s0 = li_id l then ?f s0 else s0)"
      using s mem_upd_where by (fastforce simp: g')
    have ok: "row_ok opts g s0" by (rule governed_okD [OF g s0(1)])
    show ?thesis
    proof (cases "li_id s0 = li_id l")
      case True
      then have "s0 = l" using distinct_map_eqD [OF dist s0(1) l(1)] by blast
      then show ?thesis using s0 ok room pace l(2) paced_snoc
        by (auto simp: row_ok_def own limiter_ok_def)
    qed (use s0 ok other in \<open>simp add: row_ok_def\<close>)
  qed
  show ?thesis using g row ids idset l(1)
    by (auto simp: governed_ok_def) (auto simp: g' new_def log_event_def)
qed

lemma admit_ok:
  assumes "governed_ok opts g" "l \<in> set (gv_limiters g)" "li_operation l = operation"
    "admit opts pid operation owner now l g = Inr (r, g')"
  shows "governed_ok opts g'"
proof -
  have "g' = g \<or> (int (length (permits_of (li_id l) g)) < li_effectiveConcurrency l \<and>
      (operation = SEND_MESSAGE \<longrightarrow> (case li_lastRequestAt l of None \<Rightarrow> True | Some t \<Rightarrow> t + send_interval opts \<le> now)) \<and>
      grant opts pid operation owner now l g = Inr (r, g'))"
    using assms(4) by (auto simp: admit_def Let_def not_less not_le split: if_splits option.splits)
  then show ?thesis
  proof (elim disjE conjE)
    assume "int (length (permits_of (li_id l) g)) < li_effectiveConcurrency l"
      "operation = SEND_MESSAGE \<longrightarrow> (case li_lastRequestAt l of None \<Rightarrow> True | Some t \<Rightarrow> t + send_interval opts \<le> now)"
      "grant opts pid operation owner now l g = Inr (r, g')"
    then show ?thesis by (intro grant_ok [OF assms(1-3)]) auto
  qed (use assms(1) in simp)
qed

lemma acquire_ok:
  assumes ok: "options_ok opts" and g: "governed_ok opts g"
    and res: "acquire opts lid pid shop operation owner now g = Inr (r, g')"
  shows "governed_ok opts g'"
proof -
  obtain l g1 where up: "upsert_limiter opts lid shop operation g = Inr (l, g1)"
    using res by (auto simp: acquire_def split: sum.splits)
  note u = upsert_ok [OF ok g up]
  let ?g2 = "g1\<lparr>gv_permits := del_where (\<lambda>p. pm_limiterId p = li_id l \<and> pm_expiresAt p \<le> now) (gv_permits g1)\<rparr>"
  let ?g3 = "update_limiter (li_id l) (\<lambda>_. end_cooldown now l) ?g2"
  have g2: "governed_ok opts ?g2" using u by (intro governed_ok_fewer_permits) blast
  have l2: "l \<in> set (gv_limiters ?g2)" using u by simp
  have g3: "governed_ok opts ?g3"
    by (rule governed_ok_update [OF g2]) (use cooled.row_ok_change [OF governed_okD [OF g2 l2]] in auto)
  have l3: "end_cooldown now l \<in> set (gv_limiters ?g3)" using l2 by (force simp: set_upd_where)
  show ?thesis using res up u admit_ok [OF g2 l2] admit_ok [OF g3 l3] g2
    by (auto simp: acquire_def Let_def split: if_splits option.splits)
qed

section \<open>Lemmas: runs\<close>

fun named_outcome :: "GovernorOp \<Rightarrow> bool" where
  "named_outcome (Healthy p outcome meta now) \<longleftrightarrow> outcome \<noteq> ''ATTEMPT''"
| "named_outcome (Release p outcome meta now) \<longleftrightarrow> outcome \<noteq> ''ATTEMPT''"
| "named_outcome _ \<longleftrightarrow> True"

lemma throttle_settle: "throttle p meta ra rnd now g = Inr (x, g') \<Longrightarrow>
    settle p ''THROTTLED'' meta now (throttled_limiter meta ra rnd now) g = Inr g'"
  by (auto simp: throttle_def split: option.splits sum.splits)

lemma transient_settle: "transientFailure p meta rnd now g = Inr (x, g') \<Longrightarrow>
    settle p ''TRANSIENT'' meta now (transient_limiter meta rnd now) g = Inr g'"
  by (auto simp: transientFailure_def split: option.splits sum.splits)

lemma settled_ok:
  assumes g: "governed_ok opts g"
  shows "outcome \<noteq> ''ATTEMPT'' \<Longrightarrow> healthy p outcome meta now g = Inr g' \<Longrightarrow> governed_ok opts g'"
    and "throttle p meta ra rnd now g = Inr (x, g') \<Longrightarrow> governed_ok opts g'"
    and "transientFailure p meta rnd now g = Inr (y, g') \<Longrightarrow> governed_ok opts g'"
    and "quotaBlocked p code detail meta now g = Inr g' \<Longrightarrow> governed_ok opts g'"
    and "outcome \<noteq> ''ATTEMPT'' \<Longrightarrow> release p outcome meta now g = Inr g' \<Longrightarrow> governed_ok opts g'"
proof -
  show "outcome \<noteq> ''ATTEMPT'' \<Longrightarrow> healthy p outcome meta now g = Inr g' \<Longrightarrow> governed_ok opts g'"
    unfolding healthy_def by (rule healthy.governed_ok_settle [OF g])
  show "throttle p meta ra rnd now g = Inr (x, g') \<Longrightarrow> governed_ok opts g'"
    by (drule throttle_settle, rule throttled.governed_ok_settle [OF g]) simp_all
  show "transientFailure p meta rnd now g = Inr (y, g') \<Longrightarrow> governed_ok opts g'"
    by (drule transient_settle, rule transient.governed_ok_settle [OF g]) simp_all
  show "quotaBlocked p code detail meta now g = Inr g' \<Longrightarrow> governed_ok opts g'"
    unfolding quotaBlocked_def by (rule quota.governed_ok_settle [OF g]) simp_all
  show "outcome \<noteq> ''ATTEMPT'' \<Longrightarrow> release p outcome meta now g = Inr g' \<Longrightarrow> governed_ok opts g'"
    unfolding release_def by (rule released.governed_ok_settle [OF g])
qed

lemma heartbeat_ok:
  assumes "governed_ok opts g"
  shows "governed_ok opts (heartbeat_limiters appScope g)"
proof -
  have one: "li_effectiveConcurrency l = 1 \<and> li_technicalMaxConcurrency l = 1"
    if "l \<in> set (gv_limiters g)" "li_operation l = SEND_MESSAGE" for l
    using governed_okD [OF assms that(1)] that(2) by (simp add: row_ok_def limiter_ok_def technical_max_def)
  have "upd_where (\<lambda>l. li_appScope l = appScope \<and> li_operation l = SEND_MESSAGE
        \<and> (li_effectiveConcurrency l \<noteq> 1 \<or> li_technicalMaxConcurrency l \<noteq> 1)) f (gv_limiters g) = gv_limiters g" for f
    unfolding upd_where_def by (rule map_idI) (use one in auto)
  then show ?thesis using assms by (simp add: heartbeat_limiters_def)
qed

lemma committed_ok:
  assumes "governed_ok opts g"
  shows "(\<And>g'. r = Inr g' \<Longrightarrow> governed_ok opts g') \<Longrightarrow> governed_ok opts (committed g r)"
    and "(\<And>x g'. s = Inr (x, g') \<Longrightarrow> governed_ok opts g') \<Longrightarrow> governed_ok opts (committed g (map_sum id snd s))"
  using assms by (auto simp: committed_def map_sum.simps split: sum.splits) (cases s; auto)

lemma run_op_ok:
  assumes ok: "options_ok opts" and g: "governed_ok opts g" and op: "named_outcome op"
  shows "governed_ok opts (run_op opts op g)"
proof (cases op)
  case (Acquire lid pid shop operation owner now)
  then show ?thesis by (simp add: committed_ok(2) [OF g] acquire_ok [OF ok g])
next
  case (Healthy p outcome meta now)
  then show ?thesis using op by (simp add: committed_ok(1) [OF g] settled_ok(1) [OF g])
next
  case (Throttle p meta ra rnd now)
  then show ?thesis by (simp add: committed_ok(2) [OF g] settled_ok(2) [OF g])
next
  case (TransientFailure p meta rnd now)
  then show ?thesis by (simp add: committed_ok(2) [OF g] settled_ok(3) [OF g])
next
  case (QuotaBlocked p code detail meta now)
  then show ?thesis by (simp add: committed_ok(1) [OF g] settled_ok(4) [OF g])
next
  case (Release p outcome meta now)
  then show ?thesis using op by (simp add: committed_ok(1) [OF g] settled_ok(5) [OF g])
qed (simp_all add: heartbeat_ok [OF g] recovered.governed_ok_where [OF g] operator_retry_def)

lemma run_ops_ok:
  "options_ok opts \<Longrightarrow> governed_ok opts g \<Longrightarrow> list_all named_outcome ops \<Longrightarrow> governed_ok opts (run_ops opts ops g)"
  by (induction ops arbitrary: g) (simp_all add: run_ops_def run_op_ok)

lemma governed_ok_no_tables: "governed_ok opts no_tables"
  by (simp add: governed_ok_def no_tables_def)



section \<open>Lemmas: backoff and recovery\<close>

lemma backoff_jitter:
  fixes rnd :: real
  shows "0 \<le> \<lfloor>max 0 (min 0.999999 rnd) * of_int (JITTER_MAX_MS + 1)\<rfloor>
    \<and> \<lfloor>max 0 (min 0.999999 rnd) * of_int (JITTER_MAX_MS + 1)\<rfloor> \<le> JITTER_MAX_MS"
proof -
  have "max 0 (min 0.999999 rnd) * 501 < 501" "0 \<le> max 0 (min 0.999999 rnd)" by auto
  then show ?thesis by (simp add: JITTER_MAX_MS_def)
qed

lemma boundedRetryAfter_bounds: "boundedRetryAfter ra = Some r \<Longrightarrow> 0 \<le> r \<and> r \<le> MAX_RETRY_AFTER_MS"
  by (cases ra rule: boundedRetryAfter.cases) (auto simp: MAX_RETRY_AFTER_MS_def split: if_splits)

lemma backoff_retry:
  "case boundedRetryAfter ra of None \<Rightarrow> True | Some r \<Rightarrow> r \<le> exponentialBackoffWithJitter n ra base cap rnd"
  by (auto simp: exponentialBackoffWithJitter_def Let_def split: option.splits)

definition ramp :: "int \<Rightarrow> int \<times> int \<Rightarrow> int \<times> int" where
  "ramp technicalMax s = increasedConcurrency (fst s) technicalMax (snd s)"

lemma ramp_waits:
  assumes "1 \<le> c" "c < m" "0 \<le> n" "n + int k < c"
  shows "(ramp m ^^ k) (c, n) = (c, n + int k)"
  using assms by (induction k) (auto simp: ramp_def increasedConcurrency_def Let_def)

lemma ramp_steps_up: "1 \<le> c \<Longrightarrow> c < m \<Longrightarrow> (ramp m ^^ nat c) (c, 0) = (c + 1, 0)"
proof -
  assume c: "1 \<le> c" "c < m"
  have "nat c = Suc (nat (c - 1))" using c by simp
  then have "(ramp m ^^ nat c) (c, 0) = ramp m ((ramp m ^^ nat (c - 1)) (c, 0))" by simp
  also have "\<dots> = (c + 1, 0)" using ramp_waits [of c m 0 "nat (c - 1)"] c
    by (simp add: ramp_def increasedConcurrency_def Let_def)
  finally show ?thesis .
qed

lemma ramp_to: "1 \<le> int c \<Longrightarrow> int c \<le> m \<Longrightarrow> (ramp m ^^ (\<Sum>i<c. i)) (1, 0) = (int c, 0)"
proof (induction c)
  case (Suc c)
  show ?case
  proof (cases "c = 0")
    case False
    have "(ramp m ^^ (c + (\<Sum>i<c. i))) (1, 0) = (ramp m ^^ c) ((ramp m ^^ (\<Sum>i<c. i)) (1, 0))"
      by (simp add: funpow_add)
    then show ?thesis using Suc False ramp_steps_up [of "int c" m] by (simp add: add.commute)
  qed simp
qed simp

section \<open>Properties\<close>

text \<open>
  C38. After any sequence of governor operations started from empty tables, every limiter holds at
  most the technical maximum of permits (one for SEND_MESSAGE), and its effective concurrency lies
  between 1 and that maximum.
\<close>

theorem permits_stay_within_the_maximum:
  assumes "options_ok opts" "list_all named_outcome ops" "g = run_ops opts ops no_tables" "l \<in> set (gv_limiters g)"
  shows "int (length (permits_of (li_id l) g)) \<le> technical_max opts (li_operation l) \<and>
    1 \<le> li_effectiveConcurrency l \<and> li_effectiveConcurrency l \<le> technical_max opts (li_operation l)"
proof -
  have "row_ok opts g l"
    using governed_okD [OF run_ops_ok [OF assms(1) governed_ok_no_tables assms(2)]] assms(3,4) by blast
  then show ?thesis by (auto simp: row_ok_def limiter_ok_def)
qed

text \<open>
  C39. After any sequence of governor operations from empty tables, two admissions of SEND_MESSAGE
  on the same limiter are at least max(1000, configured interval) milliseconds apart.
\<close>

theorem send_admissions_are_spaced:
  assumes "options_ok opts" "list_all named_outcome ops" "g = run_ops opts ops no_tables"
    "l \<in> set (gv_limiters g)" "li_operation l = SEND_MESSAGE"
    "i < j" "j < length (attempts (li_id l) g)"
  shows "attempts (li_id l) g ! i + max 1000 (case go_sendMessageIntervalMs opts of None \<Rightarrow> 1000 | Some ms \<Rightarrow> ms)
    \<le> attempts (li_id l) g ! j"
proof -
  have "row_ok opts g l"
    using governed_okD [OF run_ops_ok [OF assms(1) governed_ok_no_tables assms(2)]] assms(3,4) by blast
  then show ?thesis using assms(5-7) by (auto simp: row_ok_def paced_def sorted_wrt_iff_nth_less send_interval_def)
qed

text \<open>
  A granted permit implies the limiter was not QUOTA_BLOCKED, its cooldown was over, for
  SEND_MESSAGE the interval since the last request had passed, and the unexpired permits were
  fewer than both the effective and the technical maximum.
\<close>

theorem acquire_respects_block_and_cooldown:
  assumes "l \<in> set (gv_limiters g)" "limiter_key opts shop operation l"
    "\<forall>l' \<in> set (gv_limiters g). limiter_key opts shop operation l' \<longrightarrow> l' = l"
    "acquire opts lid pid shop operation owner now g = Inr (Acquired p eff, g')"
  shows "li_state l \<noteq> QUOTA_BLOCKED \<and> (case li_nextPermittedAt l of None \<Rightarrow> True | Some t \<Rightarrow> t \<le> now) \<and>
    (operation = SEND_MESSAGE \<longrightarrow> (case li_lastRequestAt l of None \<Rightarrow> True | Some t \<Rightarrow> t + send_interval opts \<le> now)) \<and>
    pt_limiterId p = li_id l \<and>
    int (length (filter (\<lambda>r. pm_expiresAt r > now) (permits_of (li_id l) g))) < min (li_effectiveConcurrency l) (technical_max opts operation)"
proof -
  have find: "List.find (limiter_key opts shop operation) (gv_limiters g) = Some l"
    using find_SomeD find_NoneD assms(1-3) by (metis option.exhaust)
  obtain l' g1 where up: "upsert_limiter opts lid shop operation g = Inr (l', g1)"
    using assms(4) by (auto simp: acquire_def split: sum.splits)
  have l': "li_id l' = li_id l" "li_state l' = li_state l" "li_nextPermittedAt l' = li_nextPermittedAt l"
      "li_lastRequestAt l' = li_lastRequestAt l" "gv_permits g1 = gv_permits g"
      "li_effectiveConcurrency l' = min (li_effectiveConcurrency l) (technical_max opts operation)"
    using up find by (auto simp: upsert_limiter_def Let_def split: if_splits)
  define g2 where "g2 = g1\<lparr>gv_permits := del_where (\<lambda>p. pm_limiterId p = li_id l' \<and> pm_expiresAt p \<le> now) (gv_permits g1)\<rparr>"
  have live: "permits_of (li_id l) g2 = filter (\<lambda>r. pm_expiresAt r > now) (permits_of (li_id l) g)"
    by (simp add: g2_def permits_of_def del_where_def l' conj_commute not_le cong: conj_cong)
  define l2 where "l2 = (if li_nextPermittedAt l' = None then l' else end_cooldown now l')"
  define g3 where "g3 = (if li_nextPermittedAt l' = None then g2 else update_limiter (li_id l') (\<lambda>_. l2) g2)"
  have "li_state l \<noteq> QUOTA_BLOCKED" "case li_nextPermittedAt l of None \<Rightarrow> True | Some t \<Rightarrow> t \<le> now"
    and adm: "admit opts pid operation owner now l2 g3 = Inr (Acquired p eff, g')"
    using assms(4) up l'(2,3) by (auto simp: acquire_def Let_def l2_def g3_def g2_def split: if_splits option.splits)
  moreover have l2: "li_id l2 = li_id l" "li_lastRequestAt l2 = li_lastRequestAt l"
      "li_effectiveConcurrency l2 = li_effectiveConcurrency l'"
    by (auto simp: l2_def l' end_cooldown_def split: option.splits)
  moreover have "permits_of (li_id l) g3 = permits_of (li_id l) g2" by (simp add: g3_def)
  ultimately show ?thesis using live l'(6)
    by (auto simp: admit_def grant_def Let_def not_le not_less split: if_splits option.splits)
qed

text \<open>
  The backoff is at least the capped exponential delay, at least the bounded Retry-After of
  the provider, and at most the larger of the cap and 24 hours.
\<close>

theorem backoff_is_bounded:
  assumes "0 \<le> baseMs" "0 \<le> capMs"
  shows "min capMs (baseMs * 2 ^ nat (min 20 (max 0 (failures - 1)))) \<le> exponentialBackoffWithJitter failures ra baseMs capMs rnd \<and>
    exponentialBackoffWithJitter failures ra baseMs capMs rnd \<le> max capMs (24 * 60 * 60000) \<and>
    (case boundedRetryAfter ra of None \<Rightarrow> True | Some r \<Rightarrow> r \<le> exponentialBackoffWithJitter failures ra baseMs capMs rnd)"
proof -
  let ?e = "baseMs * 2 ^ nat (min 20 (max 0 (failures - 1)))" and ?r = "case boundedRetryAfter ra of None \<Rightarrow> 0 | Some r \<Rightarrow> r"
  obtain j where j: "0 \<le> j" "exponentialBackoffWithJitter failures ra baseMs capMs rnd = max (min capMs (?e + j)) ?r"
    using backoff_jitter [of rnd] unfolding exponentialBackoffWithJitter_def Let_def by blast
  have "?r \<le> 24 * 60 * 60000" using boundedRetryAfter_bounds [of ra] by (auto simp: MAX_RETRY_AFTER_MS_def split: option.split)
  then show ?thesis using j backoff_retry [where ra = ra and n = failures and base = baseMs and cap = capMs and rnd = rnd] by (simp add: min_def max_def)
qed

text \<open>
  After throttle the limiter is THROTTLED, permits nothing before the delay and the Retry-
  After of the provider are over, never shortens a cooldown already set, and its effective
  concurrency is halved but at least 1.
\<close>

theorem throttle_honours_cooldowns:
  assumes "find_limiter (pt_limiterId p) g = Some l" "throttle p meta ra rnd now g = Inr ((delay, eff, next_at), g')"
  shows "\<exists>l'. find_limiter (pt_limiterId p) g' = Some l' \<and> li_state l' = THROTTLED \<and>
    li_nextPermittedAt l' = Some next_at \<and> now + delay \<le> next_at \<and>
    (case li_nextPermittedAt l of None \<Rightarrow> True | Some t \<Rightarrow> t \<le> next_at) \<and>
    (case boundedRetryAfter ra of None \<Rightarrow> True | Some r \<Rightarrow> now + r \<le> next_at) \<and>
    li_effectiveConcurrency l' = eff \<and> eff = max 1 (max 1 (li_effectiveConcurrency l) div 2)"
proof -
  have r: "delay = throttle_delay ra rnd l" "next_at = later (li_nextPermittedAt l) (now + delay)"
      "eff = decreasedConcurrency (li_effectiveConcurrency l)"
    and g': "g' = log_event (pt_limiterId p) ''THROTTLED'' meta now
      (update_limiter (pt_limiterId p) (throttled_limiter meta ra rnd now) (delete_permit p g))"
    using assms by (auto simp: throttle_def settle_def)
  have "find_limiter (pt_limiterId p) g' = Some (throttled_limiter meta ra rnd now l)"
    using assms(1) find_SomeD [OF assms(1) [unfolded find_limiter_def]]
    by (simp add: g' find_limiter_def find_upd_where)
  moreover have "case boundedRetryAfter ra of None \<Rightarrow> True | Some x \<Rightarrow> x \<le> delay"
    unfolding r throttle_delay_def by (rule backoff_retry)
  ultimately show ?thesis
    by (auto simp: throttled_limiter_def r later_def decreasedConcurrency_def split: option.splits)
qed

text \<open>
  healthy always leaves the limiter without a cooldown and in a state other than
  QUOTA_BLOCKED, even when it was blocked or throttled by a concurrent request.
\<close>

theorem healthy_response_lifts_block_and_cooldown:
  assumes "find_limiter (pt_limiterId p) g = Some l" "healthy p outcome meta now g = Inr g'"
  shows "\<exists>l'. find_limiter (pt_limiterId p) g' = Some l' \<and> li_state l' \<noteq> QUOTA_BLOCKED \<and> li_nextPermittedAt l' = None"
proof -
  have "g' = log_event (pt_limiterId p) outcome meta now
      (update_limiter (pt_limiterId p) (healthy_limiter meta now) (delete_permit p g))"
    using assms by (auto simp: healthy_def settle_def)
  then have "find_limiter (pt_limiterId p) g' = Some (healthy_limiter meta now l)"
    using assms(1) find_SomeD [OF assms(1) [unfolded find_limiter_def]] by (simp add: find_limiter_def find_upd_where)
  then show ?thesis by (auto simp: healthy_limiter_def split: prod.splits)
qed

text \<open>
  From effective concurrency 1, healthy responses raise the concurrency to the technical
  maximum m after exactly 0 + 1 + ... + (m - 1) of them.
\<close>

theorem healthy_responses_reach_the_maximum:
  assumes "1 \<le> m"
  shows "(ramp m ^^ (\<Sum>i<nat m. i)) (1, 0) = (m, 0)"
  using ramp_to [of "nat m" m] assms by simp

section \<open>A concrete run\<close>

text \<open>Two messages are admitted one and a half seconds apart; the first permit has been released.\<close>

definition example_options :: GovernorOptions where
  "example_options = \<lparr>go_provider = ''TIKTOK_SHOP'', go_appScope = ''app'', go_initialConcurrency = 4,
     go_technicalMaxConcurrency = 16, go_permitLeaseMs = 120000, go_sendMessageIntervalMs = None\<rparr>"

definition example_permit :: Permit where
  "example_permit = \<lparr>pt_id = ''P1'', pt_limiterId = ''L'', pt_owner = ''o1'', pt_operation = SEND_MESSAGE\<rparr>"

definition example_ops :: "GovernorOp list" where
  "example_ops = [Acquire ''L'' ''P1'' ''S'' SEND_MESSAGE ''o1'' 0, Release example_permit ''UNKNOWN'' no_meta 400,
     Acquire ''M'' ''P2'' ''S'' SEND_MESSAGE ''o2'' 1500]"

definition example_tables :: Governed where
  "example_tables = run_ops example_options example_ops no_tables"

definition example_limiter :: Limiter where
  "example_limiter = hd (gv_limiters example_tables)"

lemma example_options_ok: "options_ok example_options" "list_all named_outcome example_ops"
  by (simp_all add: options_ok_def governor_options_ok_def example_options_def example_ops_def)

lemma example_tables_value:
  "gv_limiters example_tables = [example_limiter] \<and> li_id example_limiter = ''L'' \<and>
   li_operation example_limiter = SEND_MESSAGE \<and> attempts ''L'' example_tables = [0, 1500] \<and>
   limiter_key example_options ''S'' SEND_MESSAGE example_limiter \<and> length (gv_permits example_tables) = 1"
  by code_simp

lemma example_limiter_in: "example_limiter \<in> set (gv_limiters example_tables)"
  by (simp add: example_tables_value)

lemma permits_stay_within_the_maximum_witness:
  "length (permits_of ''L'' example_tables) \<le> 1"
  using permits_stay_within_the_maximum [OF example_options_ok example_tables_def example_limiter_in] example_tables_value
  by (simp add: technical_max_def)

lemma send_admissions_are_spaced_witness:
  "attempts ''L'' example_tables ! 0 + 1000 \<le> attempts ''L'' example_tables ! 1"
  using send_admissions_are_spaced [OF example_options_ok example_tables_def example_limiter_in, of 0 1] example_tables_value
  by (simp add: example_options_def)

lemma example_acquire:
  "\<exists>p e g'. acquire example_options ''N'' ''P3'' ''S'' SEND_MESSAGE ''o3'' 200000 example_tables = Inr (Acquired p e, g')"
proof -
  have "(case acquire example_options ''N'' ''P3'' ''S'' SEND_MESSAGE ''o3'' 200000 example_tables of
     Inr (Acquired p e, g') \<Rightarrow> True | _ \<Rightarrow> False)" by code_simp
  then show ?thesis by (auto split: sum.splits PermitResult.splits prod.splits)
qed

lemma acquire_respects_block_and_cooldown_witness: "li_state example_limiter \<noteq> QUOTA_BLOCKED"
proof -
  have key: "limiter_key example_options ''S'' SEND_MESSAGE example_limiter"
    and only: "\<forall>l' \<in> set (gv_limiters example_tables). limiter_key example_options ''S'' SEND_MESSAGE l' \<longrightarrow> l' = example_limiter"
    using example_tables_value by simp_all
  obtain p e g' where "acquire example_options ''N'' ''P3'' ''S'' SEND_MESSAGE ''o3'' 200000 example_tables = Inr (Acquired p e, g')"
    using example_acquire by blast
  from acquire_respects_block_and_cooldown [OF example_limiter_in key only this] show ?thesis by blast
qed

lemma backoff_is_bounded_witness:
  "4000 \<le> exponentialBackoffWithJitter 3 None 1000 60000 (1 / 2)"
  using backoff_is_bounded [of 1000 60000 3 None "1 / 2"] by simp

definition blocked_tables :: Governed where
  "blocked_tables = update_limiter ''L'' (quota_limiter ''16030002'' ''shop quota'' no_meta 1600) example_tables"

lemma blocked_find:
  "find_limiter ''L'' blocked_tables = Some (quota_limiter ''16030002'' ''shop quota'' no_meta 1600 example_limiter)"
  using example_tables_value by (simp add: find_limiter_def blocked_tables_def)

lemma throttle_honours_cooldowns_witness:
  "\<exists>r g' l'. throttle example_permit no_meta (Some (Fin 5000)) 0 2000 blocked_tables = Inr (r, g') \<and>
     find_limiter ''L'' g' = Some l' \<and> (\<exists>t. li_nextPermittedAt l' = Some t \<and> 7000 \<le> t)"
proof -
  obtain delay eff next_at g' where r: "throttle example_permit no_meta (Some (Fin 5000)) 0 2000 blocked_tables = Inr ((delay, eff, next_at), g')"
    using blocked_find by (auto simp: throttle_def settle_def example_permit_def)
  have find: "find_limiter (pt_limiterId example_permit) blocked_tables
      = Some (quota_limiter ''16030002'' ''shop quota'' no_meta 1600 example_limiter)"
    using blocked_find by (simp add: example_permit_def)
  from throttle_honours_cooldowns [OF find r] r show ?thesis
    by (auto simp: example_permit_def MAX_RETRY_AFTER_MS_def)
qed

lemma healthy_response_lifts_block_and_cooldown_witness:
  "\<exists>g' l'. healthy example_permit ''ACCEPTED'' no_meta 2000 blocked_tables = Inr g' \<and>
     find_limiter ''L'' g' = Some l' \<and> li_state l' \<noteq> QUOTA_BLOCKED"
proof -
  obtain g' where r: "healthy example_permit ''ACCEPTED'' no_meta 2000 blocked_tables = Inr g'"
    using blocked_find by (auto simp: healthy_def settle_def example_permit_def)
  have find: "find_limiter (pt_limiterId example_permit) blocked_tables
      = Some (quota_limiter ''16030002'' ''shop quota'' no_meta 1600 example_limiter)"
    using blocked_find by (simp add: example_permit_def)
  from healthy_response_lifts_block_and_cooldown [OF find r] r show ?thesis by (auto simp: example_permit_def)
qed

lemma healthy_responses_reach_the_maximum_witness: "(ramp 4 ^^ (\<Sum>i<nat 4. i)) (1, 0) = (4, 0)"
  by (rule healthy_responses_reach_the_maximum) simp

end
