(* ===== verification/Partitions.thy ===== *)
theory Partitions
  imports Domain
begin

text \<open>
  The partitions of the marketplace crawl, \<open>apps/api/src/creator-database/marketplace-partitions.ts\<close>
  and \<open>retry-settings.ts\<close>: GMV and follower buckets, the splitting of follower ranges, the
  classification of a branch and the decision to expand it, the filters of a partition, the checks
  of a category selection against the catalog and the base rows of the second generation. A queue
  position is an unbounded integer (\<open>bigint\<close>).
\<close>

section \<open>Constants\<close>

definition CREATOR_FOLLOWER_HARD_FLOOR :: int where "CREATOR_FOLLOWER_HARD_FLOOR = 600"
definition BASE_QUEUE_GAP :: int where "BASE_QUEUE_GAP = 1000000"
definition DEFAULT_FIRST_SPLIT_MIN_WIDTH :: int where "DEFAULT_FIRST_SPLIT_MIN_WIDTH = 500"
definition DEFAULT_DEEP_SPLIT_MIN_INCREMENTAL_YIELD :: real where "DEFAULT_DEEP_SPLIT_MIN_INCREMENTAL_YIELD = 0.10"
definition DEFAULT_OBSERVED_SATURATION_MIN_ROWS :: int where "DEFAULT_OBSERVED_SATURATION_MIN_ROWS = 380"
definition DEFAULT_OBSERVED_SATURATION_MAX_ROWS :: int where "DEFAULT_OBSERVED_SATURATION_MAX_ROWS = 405"
definition DEFAULT_BRANCH_EVIDENCE_MIN_ROWS :: int where "DEFAULT_BRANCH_EVIDENCE_MIN_ROWS = 200"
definition DEFAULT_FIRST_SPLIT_MIN_UNIQUE_RATE :: real where "DEFAULT_FIRST_SPLIT_MIN_UNIQUE_RATE = 0.20"
definition DEFAULT_FIRST_SPLIT_MIN_NEW_PER_PAGE :: real where "DEFAULT_FIRST_SPLIT_MIN_NEW_PER_PAGE = 4"
definition DEFAULT_G4_RECURSION_MIN_UNIQUE_RATE :: real where "DEFAULT_G4_RECURSION_MIN_UNIQUE_RATE = 0.10"
definition DEFAULT_G4_RECURSION_MIN_NEW_PER_PAGE :: real where "DEFAULT_G4_RECURSION_MIN_NEW_PER_PAGE = 4"

datatype ProductionPartitionType = V2_SEED | ADAPTIVE_FOLLOWER | ADAPTIVE_GMV

datatype BranchClassification = UNCLASSIFIED | STRONG | PRODUCTIVE | MARGINAL | LOW_VALUE | EFFECTIVELY_DEAD

datatype ObservedSaturationState = UNKNOWN_SATURATION | OBSERVED_SATURATED | NOT_OBSERVED_SATURATED

record FollowerWidthRules =
  fw_from600 :: int
  fw_from1000 :: int
  fw_from10000 :: int
  fw_from100000 :: int
  fw_from1000000 :: int

definition DEFAULT_FOLLOWER_WIDTH_RULES :: FollowerWidthRules where
  "DEFAULT_FOLLOWER_WIDTH_RULES = \<lparr>fw_from600 = 50, fw_from1000 = 100, fw_from10000 = 1000,
     fw_from100000 = 10000, fw_from1000000 = 100000\<rparr>"

record CategoryNode =
  cn_categoryId :: ident
  cn_categoryName :: "string option"
  cn_parentCategoryId :: "ident option"
  cn_enabledForCreatorCrawl :: "bool option"
  cn_availableForCreatorFilter :: "bool option"
  cn_sortOrder :: "int option"

section \<open>GMV buckets\<close>

definition gmvBucketDefinition :: "string option \<Rightarrow> GmvBucket option" where
  "gmvBucketDefinition code = List.find (\<lambda>b. Some (gb_code b) = code) CREATOR_GMV_BUCKETS"

definition isSpecificGmvBucket :: "string option \<Rightarrow> bool" where
  "isSpecificGmvBucket code \<longleftrightarrow> gmvBucketDefinition code \<noteq> None"

definition isSpecificGmvPartition :: "string option \<Rightarrow> string option \<Rightarrow> bool" where
  "isSpecificGmvPartition gmvBucket gmvRange = (case gmvBucketDefinition gmvBucket of
     None \<Rightarrow> False | Some b \<Rightarrow> gmvRange = Some (gb_range b))"

definition join_colon :: "string list \<Rightarrow> string" where
  "join_colon parts = (case parts of [] \<Rightarrow> [] | p # ps \<Rightarrow> p @ concat (map (\<lambda>q. CHR '':'' # q) ps))"

definition specificGmvCombinationKey ::
  "ident option \<Rightarrow> ident option \<Rightarrow> int option \<Rightarrow> int option \<Rightarrow> string option \<Rightarrow> string option" where
  "specificGmvCombinationKey categoryId categoryChildId followersMin followersMax gmvBucket =
    (case (categoryId, categoryChildId, followersMin, gmvBucket) of
       (Some c, Some ch, Some lo, Some b) \<Rightarrow>
         if c = [] \<or> ch = [] \<or> \<not> isSpecificGmvBucket gmvBucket then None
         else Some (join_colon (map to_lower
           [c, ch, show_int lo, case followersMax of None \<Rightarrow> ''plus'' | Some hi \<Rightarrow> show_int hi, b]))
     | _ \<Rightarrow> None)"

section \<open>Follower ranges\<close>

definition followerBucketFor :: "int \<Rightarrow> FollowerBucket option" where
  "followerBucketFor n = List.find (\<lambda>b. n \<ge> fb_min b \<and>
     (case fb_max b of None \<Rightarrow> True | Some hi \<Rightarrow> n \<le> hi)) CREATOR_FOLLOWER_BUCKETS"

definition range_key :: "int \<Rightarrow> int option \<Rightarrow> string" where
  "range_key lo hi = ''f'' @ show_int lo @ ''-'' @ (case hi of None \<Rightarrow> ''plus'' | Some h \<Rightarrow> show_int h)"

definition partitionKeyV2 :: "ident \<Rightarrow> ident \<Rightarrow> int \<Rightarrow> int option \<Rightarrow> string option \<Rightarrow> string" where
  "partitionKeyV2 parentCategoryId childCategoryId lo hi gmvBucket =
    ''v2:'' @ to_lower parentCategoryId @ '':'' @ to_lower childCategoryId @ '':'' @ range_key lo hi @
    (case gmvBucket of None \<Rightarrow> [] | Some b \<Rightarrow> if b = [] then [] else CHR '':'' # to_lower b)"

definition adaptiveFollowerPartitionKey :: "string \<Rightarrow> int \<Rightarrow> int \<Rightarrow> string" where
  "adaptiveFollowerPartitionKey parentPartitionKey lo hi = ''v3:'' @ parentPartitionKey @ '':'' @ range_key lo (Some hi)"

definition adaptiveGmvPartitionKey :: "string \<Rightarrow> string \<Rightarrow> string" where
  "adaptiveGmvPartitionKey parentPartitionKey gmvBucket = ''v3:'' @ parentPartitionKey @ '':'' @ to_lower gmvBucket"

definition inclusiveFollowerWidth :: "int \<Rightarrow> int option \<Rightarrow> int option" where
  "inclusiveFollowerWidth lo hi = (case hi of None \<Rightarrow> None
     | Some h \<Rightarrow> if lo < CREATOR_FOLLOWER_HARD_FLOOR \<or> h < lo then None else Some (h - lo + 1))"

type_synonym bounds = "int \<times> int"

definition binaryFollowerRange :: "int \<Rightarrow> int option \<Rightarrow> (bounds \<times> bounds) option" where
  "binaryFollowerRange lo hi = (case (inclusiveFollowerWidth lo hi, hi) of
     (Some width, Some h) \<Rightarrow> if width < 2 then None
       else (let mid = (lo + h) div 2 in Some ((lo, mid), (mid + 1, h)))
   | _ \<Rightarrow> None)"

definition firstExploratoryFollowerSplit :: "int \<Rightarrow> int option \<Rightarrow> int \<Rightarrow> (bounds \<times> bounds) option" where
  "firstExploratoryFollowerSplit lo hi minimumWidth = (case inclusiveFollowerWidth lo hi of
     None \<Rightarrow> None | Some width \<Rightarrow> if width \<ge> minimumWidth then binaryFollowerRange lo hi else None)"

definition minimumFollowerWidth :: "int \<Rightarrow> FollowerWidthRules \<Rightarrow> int" where
  "minimumFollowerWidth lo rules =
    (if lo \<ge> 1000000 then fw_from1000000 rules
     else if lo \<ge> 100000 then fw_from100000 rules
     else if lo \<ge> 10000 then fw_from10000 rules
     else if lo \<ge> 1000 then fw_from1000 rules
     else fw_from600 rules)"

definition splitFollowerRange :: "int \<Rightarrow> int option \<Rightarrow> FollowerWidthRules \<Rightarrow> (bounds \<times> bounds) option" where
  "splitFollowerRange lo hi rules = (case inclusiveFollowerWidth lo hi of
     None \<Rightarrow> None
   | Some width \<Rightarrow> if width < minimumFollowerWidth lo rules * 2 then None else binaryFollowerRange lo hi)"

definition deeperFollowerSplit ::
  "int \<Rightarrow> int option \<Rightarrow> real option \<Rightarrow> FollowerWidthRules \<Rightarrow> real \<Rightarrow> (bounds \<times> bounds) option" where
  "deeperFollowerSplit lo hi incrementalYield rules minimumYield = (case incrementalYield of
     None \<Rightarrow> None | Some y \<Rightarrow> if y \<ge> minimumYield then splitFollowerRange lo hi rules else None)"

section \<open>Classification and expansion\<close>

definition observedSaturationState :: "bool \<Rightarrow> int \<Rightarrow> int \<Rightarrow> int \<Rightarrow> ObservedSaturationState" where
  "observedSaturationState completed rowsReturned minRows maxRows =
    (if \<not> completed then UNKNOWN_SATURATION
     else if rowsReturned \<ge> minRows \<and> rowsReturned \<le> maxRows then OBSERVED_SATURATED else NOT_OBSERVED_SATURATED)"

definition classifyIncrementalYield :: "jsnum option \<Rightarrow> BranchClassification" where
  "classifyIncrementalYield v = (case v of
     Some (Fin x) \<Rightarrow> (if x \<le> 0.02 then EFFECTIVELY_DEAD
       else if x < 0.05 then LOW_VALUE else if x < 0.10 then MARGINAL
       else if x < 0.20 then PRODUCTIVE else STRONG)
   | _ \<Rightarrow> UNCLASSIFIED)"

definition combinedIncrementalYield :: "(int \<times> int) list \<Rightarrow> real" where
  "combinedIncrementalYield children =
    (let rows = sum_list (map fst children) in
     if rows \<noteq> 0 then of_int (sum_list (map snd children)) / of_int rows else 0)"

datatype AdaptiveExpansion = ExpandFollower "bounds \<times> bounds" string | NoExpansion string

record ExpansionInput =
  ei_partitionType :: ProductionPartitionType
  ei_observedSaturationState :: ObservedSaturationState
  ei_followersMin :: int
  ei_followersMax :: "int option"
  ei_yield :: "real option"
  ei_rowsReturned :: int
  ei_successfulPages :: int
  ei_uniqueCreatorsAdded :: int
  ei_followerSplitExplored :: bool
  ei_followerRecursionTerminal :: bool
  ei_gmvSplitCreated :: bool
  ei_gmvBucket :: "string option"
  ei_gmvRange :: "string option"

definition ratio :: "int \<Rightarrow> int \<Rightarrow> real" where
  "ratio n d = (if d \<noteq> 0 then of_int n / of_int d else 0)"

text \<open>The decision for a range that can be split and has enough rows (lines 144 to 170).\<close>

definition branch_expansion :: "ExpansionInput \<Rightarrow> bounds \<times> bounds \<Rightarrow> real \<Rightarrow> AdaptiveExpansion" where
  "branch_expansion inp bounds deepMinimumYield =
    (let uniqueRate = ratio (ei_uniqueCreatorsAdded inp) (ei_rowsReturned inp);
         newPerPage = ratio (ei_uniqueCreatorsAdded inp) (ei_successfulPages inp);
         saturated = ei_observedSaturationState inp = OBSERVED_SATURATED
     in if ei_gmvBucket inp = Some ''G4'' then
          (if uniqueRate \<ge> DEFAULT_G4_RECURSION_MIN_UNIQUE_RATE \<and> newPerPage \<ge> DEFAULT_G4_RECURSION_MIN_NEW_PER_PAGE
           then ExpandFollower bounds ''G4_EXCEPTIONAL_EVIDENCE'' else NoExpansion ''G4_EVIDENCE_GATE_NOT_MET'')
        else if ei_gmvBucket inp = Some ''G3'' then
          (if uniqueRate \<ge> DEFAULT_FIRST_SPLIT_MIN_UNIQUE_RATE \<and> newPerPage \<ge> DEFAULT_FIRST_SPLIT_MIN_NEW_PER_PAGE
           then ExpandFollower bounds ''G3_LOCAL_PRODUCTIVITY_OVERRIDE'' else NoExpansion ''G3_LOCAL_EVIDENCE_NOT_PRODUCTIVE'')
        else if ei_gmvBucket inp \<noteq> Some ''G1'' \<and> ei_gmvBucket inp \<noteq> Some ''G2'' then NoExpansion ''UNSUPPORTED_GMV_BRANCH''
        else if ei_partitionType inp = V2_SEED then
          (if saturated \<or> uniqueRate \<ge> DEFAULT_FIRST_SPLIT_MIN_UNIQUE_RATE \<or> newPerPage \<ge> DEFAULT_FIRST_SPLIT_MIN_NEW_PER_PAGE
           then ExpandFollower bounds ''G1_G2_FIRST_SPLIT_EVIDENCE'' else NoExpansion ''FIRST_SPLIT_EVIDENCE_NOT_PRODUCTIVE'')
        else (case ei_yield inp of
            None \<Rightarrow> NoExpansion ''NOT_FOLLOWER_RECURSION''
          | Some y \<Rightarrow>
            (if ei_partitionType inp \<noteq> ADAPTIVE_FOLLOWER then NoExpansion ''NOT_FOLLOWER_RECURSION''
             else if y \<ge> deepMinimumYield \<and> newPerPage \<ge> DEFAULT_FIRST_SPLIT_MIN_NEW_PER_PAGE
               \<and> (saturated \<or> uniqueRate \<ge> DEFAULT_FIRST_SPLIT_MIN_UNIQUE_RATE)
             then ExpandFollower bounds ''G1_G2_DEEP_PRODUCTIVITY'' else NoExpansion ''DEEPER_EVIDENCE_NOT_PRODUCTIVE'')))"

definition adaptiveExpansion :: "ExpansionInput \<Rightarrow> FollowerWidthRules \<Rightarrow> real \<Rightarrow> int \<Rightarrow> AdaptiveExpansion" where
  "adaptiveExpansion inp rules deepMinimumYield minimumEvidenceRows =
    (if \<not> isSpecificGmvPartition (ei_gmvBucket inp) (ei_gmvRange inp) then NoExpansion ''UNSUPPORTED_GMV_BRANCH''
     else if ei_followerRecursionTerminal inp then NoExpansion ''ALREADY_TERMINAL''
     else if ei_gmvSplitCreated inp \<or> ei_followerSplitExplored inp then NoExpansion ''ALREADY_EXPLORED''
     else case splitFollowerRange (ei_followersMin inp) (ei_followersMax inp) rules of
       None \<Rightarrow> NoExpansion ''RANGE_AT_MINIMUM_WIDTH''
     | Some bounds \<Rightarrow>
       (if ei_rowsReturned inp < minimumEvidenceRows then NoExpansion ''INSUFFICIENT_SAMPLE''
        else branch_expansion inp bounds deepMinimumYield))"

section \<open>Filters and the category catalog\<close>

definition empty_filters :: CreatorFilters where
  "empty_filters = \<lparr>cf_keyword = None, cf_categoryIds = None, cf_minFollowers = None, cf_maxFollowers = None,
     cf_minGmv = None, cf_maxGmv = None, cf_gmvCurrency = None, cf_minUnitsSold = None, cf_minAvgVideoViews = None,
     cf_minAvgLiveViewers = None, cf_minEngagementRate = None, cf_marketplaceCategory = None,
     cf_marketplaceGmvRanges = None\<rparr>"

definition partitionFilters ::
  "ident option \<Rightarrow> ident list \<Rightarrow> int option \<Rightarrow> int option \<Rightarrow> string option \<Rightarrow> string option \<Rightarrow> CreatorFilters result" where
  "partitionFilters categoryId categoryChildIds followersMin followersMax gmvBucket gmvRange =
    (case (categoryId, followersMin) of
       (Some c, Some lo) \<Rightarrow>
         if c = [] then Inl ''Structured Marketplace partition is missing documented filters''
         else (case gmvBucketDefinition gmvBucket of
             None \<Rightarrow> Inl ''Specific documented GMV bucket is required for Marketplace discovery''
           | Some gmv \<Rightarrow>
             (if gmvRange \<noteq> Some (gb_range gmv)
              then Inl ''Specific documented GMV bucket is required for Marketplace discovery''
              else Inr (empty_filters\<lparr>cf_marketplaceCategory := Some (c, Some categoryChildIds),
                  cf_minFollowers := Some (of_int lo), cf_maxFollowers := map_option of_int followersMax,
                  cf_marketplaceGmvRanges := Some [gb_range gmv]\<rparr>)))
     | _ \<Rightarrow> Inl ''Structured Marketplace partition is missing documented filters'')"

text \<open>A \<open>Map\<close> built from a list keeps the last node of an id.\<close>

definition catalog_node :: "CategoryNode list \<Rightarrow> ident \<Rightarrow> CategoryNode option" where
  "catalog_node catalog i = List.find (\<lambda>n. cn_categoryId n = i) (rev catalog)"

fun check_children :: "CategoryNode list \<Rightarrow> ident \<Rightarrow> ident list \<Rightarrow> unit result" where
  "check_children catalog parentCategoryId [] = Inr ()"
| "check_children catalog parentCategoryId (childId # rest) =
    (case catalog_node catalog childId of
       None \<Rightarrow> Inl ''Marketplace category child must be exactly one catalog level below its parent''
     | Some child \<Rightarrow>
       (if cn_parentCategoryId child \<noteq> Some parentCategoryId
        then Inl ''Marketplace category child must be exactly one catalog level below its parent''
        else if cn_availableForCreatorFilter child = Some False
        then Inl ''Marketplace category child is disabled or stale''
        else check_children catalog parentCategoryId rest))"

definition validateMarketplaceCategorySelection :: "ident \<Rightarrow> ident list \<Rightarrow> CategoryNode list \<Rightarrow> unit result" where
  "validateMarketplaceCategorySelection parentCategoryId childCategoryIds catalog =
    (case catalog_node catalog parentCategoryId of
       None \<Rightarrow> Inl ''Marketplace partition category is absent from the verified TikTok catalog''
     | Some parent \<Rightarrow>
       (if cn_parentCategoryId parent \<noteq> None then Inl ''Marketplace partition parent must be a verified root category''
        else if cn_enabledForCreatorCrawl parent = Some False
        then Inl ''Marketplace partition category is not enabled for creator crawling''
        else if childCategoryIds = []
        then Inl ''Marketplace partition category requires at least one verified immediate child''
        else if \<not> distinct childCategoryIds then Inl ''Marketplace partition category contains duplicate child IDs''
        else check_children catalog parentCategoryId childCategoryIds))"

definition validateV2CategorySelection :: "ident \<Rightarrow> ident list \<Rightarrow> CategoryNode list \<Rightarrow> unit result" where
  "validateV2CategorySelection parentCategoryId childCategoryIds catalog =
    (if length childCategoryIds \<noteq> 1 then Inl ''V2 Marketplace partition must contain exactly one immediate child category''
     else validateMarketplaceCategorySelection parentCategoryId childCategoryIds catalog)"

definition catalog_cmp :: "CategoryNode \<Rightarrow> CategoryNode \<Rightarrow> int" where
  "catalog_cmp = cmp_then (cmp_by (\<lambda>n. case cn_sortOrder n of None \<Rightarrow> 0 | Some k \<Rightarrow> k))
     (\<lambda>a b. locale_compare (cn_categoryId a) (cn_categoryId b))"

definition children_of :: "ident \<Rightarrow> CategoryNode list \<Rightarrow> CategoryNode list" where
  "children_of parentCategoryId catalog = js_sort catalog_cmp
     (filter (\<lambda>n. cn_parentCategoryId n = Some parentCategoryId \<and> cn_availableForCreatorFilter n \<noteq> Some False) catalog)"

definition categoryChildSnapshot :: "ident \<Rightarrow> CategoryNode list \<Rightarrow> ident list result" where
  "categoryChildSnapshot parentCategoryId catalog =
    (let childIds = map cn_categoryId (children_of parentCategoryId catalog)
     in case validateMarketplaceCategorySelection parentCategoryId childIds catalog of
          Inl e \<Rightarrow> Inl e | Inr _ \<Rightarrow> Inr childIds)"

section \<open>Base rows of the second generation\<close>

record BaseRow =
  br_partitionKey :: string
  br_parentCategoryId :: ident
  br_parentCategoryName :: string
  br_childCategoryId :: ident
  br_childCategoryName :: string
  br_followerBucket :: string
  br_followersMin :: int
  br_followersMax :: "int option"
  br_gmvBucket :: string
  br_gmvRange :: string
  br_queuePosition :: int

definition node_name :: "CategoryNode \<Rightarrow> string" where
  "node_name n = (case cn_categoryName n of None \<Rightarrow> cn_categoryId n | Some s \<Rightarrow> s)"

definition base_row :: "CategoryNode \<Rightarrow> CategoryNode \<Rightarrow> FollowerBucket \<Rightarrow> GmvBucket \<Rightarrow> int \<Rightarrow> BaseRow" where
  "base_row parent child bucket gmv pushed =
    \<lparr>br_partitionKey = partitionKeyV2 (cn_categoryId parent) (cn_categoryId child) (fb_min bucket) (fb_max bucket) (Some (gb_code gmv)),
     br_parentCategoryId = cn_categoryId parent, br_parentCategoryName = node_name parent,
     br_childCategoryId = cn_categoryId child, br_childCategoryName = node_name child,
     br_followerBucket = fb_code bucket, br_followersMin = fb_min bucket, br_followersMax = fb_max bucket,
     br_gmvBucket = gb_code gmv, br_gmvRange = gb_range gmv, br_queuePosition = (pushed + 1) * BASE_QUEUE_GAP\<rparr>"

definition crawl_parents :: "CategoryNode list \<Rightarrow> CategoryNode list" where
  "crawl_parents catalog = js_sort catalog_cmp (filter (\<lambda>n. cn_parentCategoryId n = None
     \<and> cn_enabledForCreatorCrawl n \<noteq> Some False \<and> cn_availableForCreatorFilter n \<noteq> Some False) catalog)"

text \<open>The nested loops run over these combinations, in this order; each pushes one row.\<close>

definition base_combinations :: "CategoryNode list \<Rightarrow> (CategoryNode \<times> CategoryNode \<times> FollowerBucket \<times> GmvBucket) list" where
  "base_combinations catalog = concat (map (\<lambda>parent. concat (map (\<lambda>child. concat (map (\<lambda>bucket.
      map (\<lambda>gmv. (parent, child, bucket, gmv)) CREATOR_GMV_BUCKETS) CREATOR_FOLLOWER_BUCKETS))
    (children_of (cn_categoryId parent) catalog))) (crawl_parents catalog))"

fun push_rows :: "(CategoryNode \<times> CategoryNode \<times> FollowerBucket \<times> GmvBucket) list \<Rightarrow> BaseRow list \<Rightarrow> BaseRow list result" where
  "push_rows [] rows = Inr rows"
| "push_rows ((parent, child, bucket, gmv) # rest) rows =
    (if fb_min bucket < CREATOR_FOLLOWER_HARD_FLOOR then Inl ''V2 follower partition violates the hard floor''
     else push_rows rest (rows @ [base_row parent child bucket gmv (int (length rows))]))"

definition v2BasePartitionRows :: "CategoryNode list \<Rightarrow> BaseRow list result" where
  "v2BasePartitionRows catalog = push_rows (base_combinations catalog) []"

section \<open>Labels\<close>

text \<open>The dash and the arrow of the labels are written as their bytes in UTF-8.\<close>

definition en_dash :: string where "en_dash = [CHR 0xE2, CHR 0x80, CHR 0x93]"
definition right_arrow :: string where "right_arrow = [CHR 0xE2, CHR 0x86, CHR 0x92]"

function group_thousands :: "int \<Rightarrow> string" where
  "group_thousands n = (if n < 1000 then show_nonneg n
     else group_thousands (n div 1000) @ '','' @ pad_left 3 (CHR ''0'') (show_nonneg (n mod 1000)))"
  by auto
termination by (relation "measure nat") auto

declare group_thousands.simps [simp del]

definition to_locale_string :: "int \<Rightarrow> string" where
  "to_locale_string i = (if i < 0 then ''-'' else []) @ group_thousands \<bar>i\<bar>"

definition followerRangeLabel :: "int option \<Rightarrow> int option \<Rightarrow> string" where
  "followerRangeLabel lo hi = (case lo of None \<Rightarrow> ''All''
     | Some l \<Rightarrow> (case hi of None \<Rightarrow> to_locale_string l @ ''+''
         | Some h \<Rightarrow> to_locale_string l @ '' '' @ en_dash @ '' '' @ to_locale_string h))"

definition partitionLabel :: "string \<Rightarrow> string option \<Rightarrow> int option \<Rightarrow> int option \<Rightarrow> string option \<Rightarrow> string" where
  "partitionLabel categoryName categoryChildName followersMin followersMax gmvBucket =
    (if truthy categoryChildName then categoryName @ '' '' @ right_arrow @ '' '' @ the categoryChildName else categoryName)
    @ '' / '' @ followerRangeLabel followersMin followersMax
    @ '' / '' @ (case gmvBucketDefinition gmvBucket of None \<Rightarrow> ''All GMV'' | Some b \<Rightarrow> gb_label b)"

section \<open>Retry settings\<close>

definition DEFAULT_MARKETPLACE_RETRY_DELAY_SECONDS :: int where "DEFAULT_MARKETPLACE_RETRY_DELAY_SECONDS = 3"
definition MIN_MARKETPLACE_RETRY_DELAY_SECONDS :: int where "MIN_MARKETPLACE_RETRY_DELAY_SECONDS = 1"
definition MAX_MARKETPLACE_RETRY_DELAY_SECONDS :: int where "MAX_MARKETPLACE_RETRY_DELAY_SECONDS = 2147483647"
definition CREATOR_MARKETPLACE_RETRY_MS :: int where "CREATOR_MARKETPLACE_RETRY_MS = 5000"

definition marketplaceRetryDelayMs :: "int \<Rightarrow> int" where
  "marketplaceRetryDelayMs seconds = seconds * 1000"

datatype SettingValue = NumberValue jsnum | StringValue string | OtherValue

definition parseMarketplaceRetryDelaySeconds :: "SettingValue \<Rightarrow> int option" where
  "parseMarketplaceRetryDelaySeconds v =
    (let candidate = (case v of NumberValue n \<Rightarrow> n
         | StringValue s \<Rightarrow> if js_trim s \<noteq> [] \<and> list_all is_digit (js_trim s)
             then Fin (of_nat (digits_val 0 (js_trim s))) else NaN
         | OtherValue \<Rightarrow> NaN)
     in case candidate of
          Fin x \<Rightarrow> if js_is_integer x \<and> \<bar>x\<bar> \<le> MAX_SAFE_INTEGER \<and> x \<ge> of_int MIN_MARKETPLACE_RETRY_DELAY_SECONDS
                     \<and> x \<le> of_int MAX_MARKETPLACE_RETRY_DELAY_SECONDS then Some \<lfloor>x\<rfloor> else None
        | _ \<Rightarrow> None)"

section \<open>Lemmas: ranges\<close>

lemma splitFollowerRange_SomeD:
  assumes "splitFollowerRange lo (Some hi) rules = Some ((a, b), (c, d))"
  shows "a = lo" "b = (lo + hi) div 2" "c = b + 1" "d = hi" "600 \<le> lo" "lo \<le> b" "c \<le> hi"
    "minimumFollowerWidth lo rules * 2 \<le> hi - lo + 1"
proof -
  have *: "a = lo \<and> b = (lo + hi) div 2 \<and> c = b + 1 \<and> d = hi \<and> 600 \<le> lo \<and> 2 \<le> hi - lo + 1 \<and>
      minimumFollowerWidth lo rules * 2 \<le> hi - lo + 1"
    using assms by (auto simp: splitFollowerRange_def binaryFollowerRange_def inclusiveFollowerWidth_def
      CREATOR_FOLLOWER_HARD_FLOOR_def Let_def split: if_splits)
  then show "a = lo" "b = (lo + hi) div 2" "c = b + 1" "d = hi" "600 \<le> lo"
    "minimumFollowerWidth lo rules * 2 \<le> hi - lo + 1" by blast+
  show "lo \<le> b" "c \<le> hi" using * by linarith+
qed

lemma split_smaller:
  assumes "splitFollowerRange lo (Some hi) rules = Some ((a, b), (c, d))"
  shows "nat (b - a) < nat (hi - lo) \<and> nat (d - c) < nat (hi - lo)"
  using splitFollowerRange_SomeD [OF assms] by linarith

text \<open>
  The ranges the crawl ends up with when every range that can be split is split: the children of a
  partition are expanded in their turn.
\<close>

function split_leaves :: "FollowerWidthRules \<Rightarrow> int \<Rightarrow> int \<Rightarrow> bounds list" where
  "split_leaves rules lo hi = (case splitFollowerRange lo (Some hi) rules of
     None \<Rightarrow> [(lo, hi)]
   | Some ((a, b), (c, d)) \<Rightarrow> split_leaves rules a b @ split_leaves rules c d)"
  by auto
termination
  by (relation "measure (\<lambda>(rules, lo, hi). nat (hi - lo))") (auto dest: split_smaller)

declare split_leaves.simps [simp del]

lemma split_leaves_tile: "concat (map (\<lambda>(a, b). [a..b]) (split_leaves rules lo hi)) = [lo..hi]"
proof (induction rules lo hi rule: split_leaves.induct)
  case (1 rules lo hi)
  show ?case
  proof (cases "splitFollowerRange lo (Some hi) rules")
    case None
    then show ?thesis by (simp add: split_leaves.simps)
  next
    case (Some r)
    then obtain a b c d where r: "r = ((a, b), (c, d))" by (metis surj_pair)
    note s = splitFollowerRange_SomeD [OF Some [unfolded r]]
    have "[lo..hi] = [lo..b] @ [b + 1..hi]" by (rule upto_split2) (use s in simp_all)
    then show ?thesis using 1 Some r s by (simp add: split_leaves.simps [of rules lo hi])
  qed
qed

lemma split_leaves_final:
  "(a, b) \<in> set (split_leaves rules lo hi) \<Longrightarrow> splitFollowerRange a (Some b) rules = None"
  by (induction rules lo hi rule: split_leaves.induct)
    (subst (asm) (3) split_leaves.simps, auto split: option.splits)

section \<open>Lemmas: buckets\<close>

definition bucket_contains :: "FollowerBucket \<Rightarrow> int \<Rightarrow> bool" where
  "bucket_contains b n \<longleftrightarrow> n \<ge> fb_min b \<and> (case fb_max b of None \<Rightarrow> True | Some hi \<Rightarrow> n \<le> hi)"

fun tiled_from :: "int \<Rightarrow> FollowerBucket list \<Rightarrow> bool" where
  "tiled_from lo [] \<longleftrightarrow> False"
| "tiled_from lo (b # bs) \<longleftrightarrow> fb_min b = lo \<and>
     (case fb_max b of None \<Rightarrow> bs = [] | Some hi \<Rightarrow> lo \<le> hi \<and> tiled_from (hi + 1) bs)"

lemma tiled_below: "tiled_from lo bs \<Longrightarrow> b \<in> set bs \<Longrightarrow> lo \<le> fb_min b"
  by (induction lo bs rule: tiled_from.induct) (auto split: option.splits)

lemma tiled_find:
  "tiled_from lo bs \<Longrightarrow> lo \<le> n \<Longrightarrow> List.find (\<lambda>b. bucket_contains b n) bs \<noteq> None"
proof (induction lo bs rule: tiled_from.induct)
  case (2 lo c bs)
  show ?case
  proof (cases "bucket_contains c n")
    case False
    then obtain hi where "fb_max c = Some hi" "hi < n" "tiled_from (hi + 1) bs"
      using 2(2,3) by (auto simp: bucket_contains_def split: option.splits)
    then show ?thesis using 2(1) False by simp
  qed simp
qed simp

lemma tiled_unique:
  "tiled_from lo bs \<Longrightarrow> b \<in> set bs \<Longrightarrow> bucket_contains b n \<Longrightarrow> List.find (\<lambda>b. bucket_contains b n) bs = Some b"
proof (induction lo bs rule: tiled_from.induct)
  case (2 lo c bs)
  show ?case
  proof (cases "b = c")
    case False
    then have b: "b \<in> set bs" using 2 by simp
    then obtain hi where hi: "fb_max c = Some hi" "tiled_from (hi + 1) bs"
      using 2 by (auto split: option.splits)
    have "\<not> bucket_contains c n" using tiled_below [OF hi(2) b] 2(4) hi(1) by (simp add: bucket_contains_def)
    then show ?thesis using 2 hi b by simp
  qed (use 2 in simp)
qed simp

lemma follower_buckets_tiled: "tiled_from 600 CREATOR_FOLLOWER_BUCKETS"
  by (simp add: CREATOR_FOLLOWER_BUCKETS_def follower_bucket_def)

lemma followerBucketFor_alt: "followerBucketFor n = List.find (\<lambda>b. bucket_contains b n) CREATOR_FOLLOWER_BUCKETS"
  by (simp add: followerBucketFor_def bucket_contains_def)

section \<open>Lemmas: expansion\<close>

lemma branch_expansion_same: "branch_expansion inp b y = ExpandFollower bs reason \<Longrightarrow> b = bs"
  by (auto simp: branch_expansion_def Let_def split: if_splits option.splits)

lemma branch_expansion_high:
  assumes "branch_expansion inp b y = ExpandFollower bs reason"
  shows "ei_gmvBucket inp = Some ''G4'' \<Longrightarrow>
       0.10 \<le> ratio (ei_uniqueCreatorsAdded inp) (ei_rowsReturned inp) \<and> 4 \<le> ratio (ei_uniqueCreatorsAdded inp) (ei_successfulPages inp)"
    and "ei_gmvBucket inp = Some ''G3'' \<Longrightarrow>
       0.20 \<le> ratio (ei_uniqueCreatorsAdded inp) (ei_rowsReturned inp) \<and> 4 \<le> ratio (ei_uniqueCreatorsAdded inp) (ei_successfulPages inp)"
  using assms
  by (simp_all add: branch_expansion_def Let_def DEFAULT_G4_RECURSION_MIN_UNIQUE_RATE_def
      DEFAULT_G4_RECURSION_MIN_NEW_PER_PAGE_def DEFAULT_FIRST_SPLIT_MIN_UNIQUE_RATE_def
      DEFAULT_FIRST_SPLIT_MIN_NEW_PER_PAGE_def split: if_splits)

lemma branch_expansion_low:
  assumes "branch_expansion inp b y = ExpandFollower bs reason" "ei_partitionType inp \<noteq> V2_SEED"
    "ei_gmvBucket inp = Some ''G1'' \<or> ei_gmvBucket inp = Some ''G2''"
  shows "(\<exists>x. ei_yield inp = Some x \<and> y \<le> x) \<and> 4 \<le> ratio (ei_uniqueCreatorsAdded inp) (ei_successfulPages inp)"
  using assms
  by (elim disjE) (simp_all add: branch_expansion_def Let_def DEFAULT_FIRST_SPLIT_MIN_NEW_PER_PAGE_def
      split: if_splits option.splits)

section \<open>Lemmas: base rows\<close>

lemma colon_split:
  "CHR '':'' \<notin> set a \<Longrightarrow> CHR '':'' \<notin> set a' \<Longrightarrow> a @ CHR '':'' # b = a' @ CHR '':'' # b' \<longleftrightarrow> a = a' \<and> b = b'"
proof (induction a arbitrary: a')
  case Nil
  then show ?case by (cases a') auto
next
  case (Cons c a)
  then show ?case by (cases a') auto
qed

definition bucket_range_key :: "FollowerBucket \<Rightarrow> string" where
  "bucket_range_key b = range_key (fb_min b) (fb_max b)"

lemma bucket_keys:
  "distinct (map bucket_range_key CREATOR_FOLLOWER_BUCKETS) \<and>
   list_all (\<lambda>b. CHR '':'' \<notin> set (bucket_range_key b) \<and> 600 \<le> fb_min b) CREATOR_FOLLOWER_BUCKETS \<and>
   distinct (map (\<lambda>g. to_lower (gb_code g)) CREATOR_GMV_BUCKETS) \<and>
   list_all (\<lambda>g. gb_code g \<noteq> []) CREATOR_GMV_BUCKETS"
  by code_simp

lemma lower_char_colon [simp]: "lower_char c = CHR '':'' \<longleftrightarrow> c = CHR '':''"
proof -
  have "of_char (char_of (code_of c + 32) :: char) = (58 :: nat) \<Longrightarrow> code_of c \<le> 90 \<Longrightarrow> 65 \<le> code_of c \<Longrightarrow> False"
    by simp
  then have "char_of (code_of c + 32) = CHR '':'' \<Longrightarrow> code_of c \<le> 90 \<Longrightarrow> 65 \<le> code_of c \<Longrightarrow> False" by auto
  moreover have "code_of (CHR '':'') = 58" by (simp add: code_of_def)
  ultimately show ?thesis by (auto simp: lower_char_def)
qed

lemma to_lower_no_colon: "CHR '':'' \<notin> set (to_lower s) \<longleftrightarrow> CHR '':'' \<notin> set s"
proof -
  have "CHR '':'' \<in> lower_char ` set s \<longleftrightarrow> CHR '':'' \<in> set s"
    using lower_char_colon by (metis image_iff)
  then show ?thesis by (simp add: to_lower_def)
qed

lemma push_rows_ok:
  "list_all (\<lambda>(p, c, b, g). 600 \<le> fb_min b) cs \<Longrightarrow>
   \<exists>new. push_rows cs rows = Inr (rows @ new) \<and> length new = length cs \<and>
     (\<forall>i < length cs. new ! i = (case cs ! i of (p, c, b, g) \<Rightarrow> base_row p c b g (int (length rows + i))))"
proof (induction cs arbitrary: rows)
  case (Cons x cs)
  obtain p c b g where x: "x = (p, c, b, g)" by (metis surj_pair)
  obtain new where new: "push_rows cs (rows @ [base_row p c b g (int (length rows))]) = Inr ((rows @ [base_row p c b g (int (length rows))]) @ new)"
      "length new = length cs"
      "\<forall>i < length cs. new ! i = (case cs ! i of (p', c', b', g') \<Rightarrow>
         base_row p' c' b' g' (int (length (rows @ [base_row p c b g (int (length rows))]) + i)))"
    using Cons.IH [of "rows @ [base_row p c b g (int (length rows))]"] Cons.prems by (auto simp: x)
  show ?case
    by (rule exI [of _ "base_row p c b g (int (length rows)) # new"])
      (use new Cons.prems in \<open>auto simp: x CREATOR_FOLLOWER_HARD_FLOOR_def nth_Cons algebra_simps split: nat.split\<close>)
qed simp

definition combination_key :: "CategoryNode \<times> CategoryNode \<times> FollowerBucket \<times> GmvBucket \<Rightarrow> string" where
  "combination_key x = (case x of (p, c, b, g) \<Rightarrow>
     partitionKeyV2 (cn_categoryId p) (cn_categoryId c) (fb_min b) (fb_max b) (Some (gb_code g)))"

lemma distinct_concat_map:
  "distinct xs \<Longrightarrow> (\<And>x. x \<in> set xs \<Longrightarrow> distinct (f x)) \<Longrightarrow>
   (\<And>x y z. x \<in> set xs \<Longrightarrow> y \<in> set xs \<Longrightarrow> z \<in> set (f x) \<Longrightarrow> z \<in> set (f y) \<Longrightarrow> x = y) \<Longrightarrow>
   distinct (concat (map f xs))"
proof (induction xs)
  case (Cons x xs)
  have "set (f x) \<inter> set (concat (map f xs)) = {}"
    using Cons.prems(1) Cons.prems(3) [of x] by fastforce
  moreover have "distinct (concat (map f xs))" by (rule Cons.IH) (use Cons.prems in auto)
  ultimately show ?case using Cons.prems(2) [of x] by simp
qed simp

lemma base_combinations_mem:
  "(p, c, b, g) \<in> set (base_combinations catalog) \<longleftrightarrow> p \<in> set (crawl_parents catalog) \<and>
     c \<in> set (children_of (cn_categoryId p) catalog) \<and> b \<in> set CREATOR_FOLLOWER_BUCKETS \<and> g \<in> set CREATOR_GMV_BUCKETS"
  by (auto simp: base_combinations_def)

lemma distinct_buckets: "distinct CREATOR_FOLLOWER_BUCKETS" "distinct CREATOR_GMV_BUCKETS"
  using bucket_keys by (auto simp: distinct_map)

lemma distinct_base_combinations:
  assumes "distinct catalog"
  shows "distinct (base_combinations catalog)"
  unfolding base_combinations_def
  by (intro distinct_concat_map)
    (use assms distinct_buckets in \<open>auto simp: crawl_parents_def children_of_def distinct_js_sort distinct_map inj_on_def\<close>)

definition clean_id :: "ident \<Rightarrow> bool" where
  "clean_id i \<longleftrightarrow> CHR '':'' \<notin> set i"

lemma combination_key_inj:
  assumes "inj_on (\<lambda>n. to_lower (cn_categoryId n)) (set catalog)" "\<forall>n \<in> set catalog. clean_id (cn_categoryId n)"
  shows "inj_on combination_key (set (base_combinations catalog))"
proof (rule inj_onI)
  fix x y assume xy: "x \<in> set (base_combinations catalog)" "y \<in> set (base_combinations catalog)" and eq: "combination_key x = combination_key y"
  obtain p c b g where x: "x = (p, c, b, g)" by (metis surj_pair)
  obtain p' c' b' g' where y: "y = (p', c', b', g')" by (metis surj_pair)
  have mem: "p \<in> set catalog" "c \<in> set catalog" "b \<in> set CREATOR_FOLLOWER_BUCKETS" "g \<in> set CREATOR_GMV_BUCKETS"
      "p' \<in> set catalog" "c' \<in> set catalog" "b' \<in> set CREATOR_FOLLOWER_BUCKETS" "g' \<in> set CREATOR_GMV_BUCKETS"
    using xy by (simp_all add: x y base_combinations_mem crawl_parents_def children_of_def)
  have clean: "CHR '':'' \<notin> set (to_lower (cn_categoryId n))" if "n \<in> set catalog" for n
    using assms(2) that by (simp add: to_lower_no_colon clean_id_def)
  have keys: "CHR '':'' \<notin> set (bucket_range_key b)" "CHR '':'' \<notin> set (bucket_range_key b')" "gb_code g \<noteq> []" "gb_code g' \<noteq> []"
    using bucket_keys mem by (auto simp: list_all_iff)
  have "to_lower (cn_categoryId p) @ CHR '':'' # (to_lower (cn_categoryId c) @ CHR '':'' # (bucket_range_key b @ CHR '':'' # to_lower (gb_code g)))
    = to_lower (cn_categoryId p') @ CHR '':'' # (to_lower (cn_categoryId c') @ CHR '':'' # (bucket_range_key b' @ CHR '':'' # to_lower (gb_code g')))"
    using eq keys by (simp add: x y combination_key_def partitionKeyV2_def bucket_range_key_def)
  then have "to_lower (cn_categoryId p) = to_lower (cn_categoryId p')" "to_lower (cn_categoryId c) = to_lower (cn_categoryId c')"
    "bucket_range_key b = bucket_range_key b'" "to_lower (gb_code g) = to_lower (gb_code g')"
    using clean mem keys by (simp_all add: colon_split)
  then show "x = y" using assms(1) mem bucket_keys by (simp add: x y inj_on_def distinct_map)
qed

section \<open>Properties\<close>

text \<open>
  Splitting a follower range again and again gives leaves that tile the range: concatenated
  they list every count of the range once in order, and none of them can be split further.
\<close>

theorem recursive_splitting_tiles_the_range:
  "concat (map (\<lambda>(a, b). [a..b]) (split_leaves rules lo hi)) = [lo..hi] \<and>
   list_all (\<lambda>(a, b). splitFollowerRange a (Some b) rules = None) (split_leaves rules lo hi)"
  using split_leaves_tile split_leaves_final by (fastforce simp: list_all_iff)

text \<open>
  The halves of a split are adjacent, cover the range, differ in width by at most one and
  each has at least the minimum width of its range.
\<close>

theorem split_halves_keep_the_minimum_width:
  assumes "splitFollowerRange lo (Some hi) rules = Some ((a, b), (c, d))"
  shows "a = lo \<and> c = b + 1 \<and> d = hi \<and> minimumFollowerWidth lo rules \<le> b - a + 1 \<and> minimumFollowerWidth lo rules \<le> d - c + 1
    \<and> \<bar>(b - a) - (d - c)\<bar> \<le> 1"
  using splitFollowerRange_SomeD [OF assms] by (intro conjI) linarith+

text \<open>
  Every follower count from 600 on lies in exactly one bucket, the one followerBucketFor
  finds, and no smaller count lies in any.
\<close>

theorem follower_buckets_partition_the_counts:
  "(followerBucketFor n = None \<longleftrightarrow> n < 600) \<and>
   (followerBucketFor n = Some b \<longleftrightarrow> b \<in> set CREATOR_FOLLOWER_BUCKETS \<and> fb_min b \<le> n \<and>
      (case fb_max b of None \<Rightarrow> True | Some hi \<Rightarrow> n \<le> hi))"
proof -
  have none: "followerBucketFor n = None \<longleftrightarrow> n < 600"
  proof
    assume "followerBucketFor n = None"
    then show "n < 600" using tiled_find [OF follower_buckets_tiled, of n] by (cases "n < 600") (auto simp: followerBucketFor_alt)
  next
    assume n: "n < 600"
    have "\<not> bucket_contains c n" if "c \<in> set CREATOR_FOLLOWER_BUCKETS" for c
      using tiled_below [OF follower_buckets_tiled that] n by (simp add: bucket_contains_def)
    then show "followerBucketFor n = None" unfolding followerBucketFor_alt find_None_iff by blast
  qed
  have "followerBucketFor n = Some b \<longleftrightarrow> b \<in> set CREATOR_FOLLOWER_BUCKETS \<and> bucket_contains b n"
    unfolding followerBucketFor_alt using find_SomeD tiled_unique [OF follower_buckets_tiled] by metis
  then show ?thesis using none by (simp add: bucket_contains_def)
qed

text \<open>
  adaptiveExpansion expands a partition only into the halves splitFollowerRange gives, only
  for a documented GMV bucket, never twice, and only with enough rows and the productivity its GMV
  branch asks for.
\<close>

theorem expansion_needs_evidence:
  assumes "adaptiveExpansion inp rules deepYield minRows = ExpandFollower bs reason"
  shows "splitFollowerRange (ei_followersMin inp) (ei_followersMax inp) rules = Some bs \<and>
    isSpecificGmvPartition (ei_gmvBucket inp) (ei_gmvRange inp) \<and>
    \<not> ei_followerRecursionTerminal inp \<and> \<not> ei_gmvSplitCreated inp \<and> \<not> ei_followerSplitExplored inp \<and>
    minRows \<le> ei_rowsReturned inp \<and>
    (ei_gmvBucket inp = Some ''G4'' \<longrightarrow>
       0.10 \<le> ratio (ei_uniqueCreatorsAdded inp) (ei_rowsReturned inp) \<and> 4 \<le> ratio (ei_uniqueCreatorsAdded inp) (ei_successfulPages inp)) \<and>
    (ei_gmvBucket inp = Some ''G3'' \<longrightarrow>
       0.20 \<le> ratio (ei_uniqueCreatorsAdded inp) (ei_rowsReturned inp) \<and> 4 \<le> ratio (ei_uniqueCreatorsAdded inp) (ei_successfulPages inp)) \<and>
    (ei_gmvBucket inp = Some ''G1'' \<or> ei_gmvBucket inp = Some ''G2'' \<longrightarrow> ei_partitionType inp \<noteq> V2_SEED \<longrightarrow>
       (\<exists>y. ei_yield inp = Some y \<and> deepYield \<le> y) \<and> 4 \<le> ratio (ei_uniqueCreatorsAdded inp) (ei_successfulPages inp))"
proof -
  from assms have gates: "isSpecificGmvPartition (ei_gmvBucket inp) (ei_gmvRange inp)"
    "\<not> ei_followerRecursionTerminal inp" "\<not> ei_gmvSplitCreated inp" "\<not> ei_followerSplitExplored inp"
    by (auto simp: adaptiveExpansion_def split: if_splits)
  with assms obtain bounds where b: "splitFollowerRange (ei_followersMin inp) (ei_followersMax inp) rules = Some bounds"
    "minRows \<le> ei_rowsReturned inp" "branch_expansion inp bounds deepYield = ExpandFollower bs reason"
    by (auto simp: adaptiveExpansion_def split: if_splits option.splits)
  then show ?thesis using gates branch_expansion_same [OF b(3)] branch_expansion_high [OF b(3)] branch_expansion_low [OF b(3)]
    by auto
qed

text \<open>
  For a catalog whose ids are clean and distinct up to case, v2BasePartitionRows returns one
  row for each combination of parent, child, follower and GMV bucket, with pairwise distinct
  partition keys, queue positions that are the multiples of 1000000 in order, and no row below 600
  followers.
\<close>

theorem base_rows_are_distinct_and_ordered:
  assumes "distinct catalog" "inj_on (\<lambda>n. to_lower (cn_categoryId n)) (set catalog)"
    "\<forall>n \<in> set catalog. clean_id (cn_categoryId n)"
  shows "\<exists>rows. v2BasePartitionRows catalog = Inr rows \<and> distinct (map br_partitionKey rows) \<and>
    map br_queuePosition rows = map (\<lambda>i. (int i + 1) * 1000000) [0..<length rows] \<and>
    (\<forall>r \<in> set rows. 600 \<le> br_followersMin r) \<and> length rows = length (base_combinations catalog)"
proof -
  let ?cs = "base_combinations catalog"
  have floor: "list_all (\<lambda>(p, c, b, g). 600 \<le> fb_min b) ?cs"
    using bucket_keys by (auto simp: list_all_iff base_combinations_mem)
  obtain rows where rows: "v2BasePartitionRows catalog = Inr rows" "length rows = length ?cs"
    "\<forall>i < length ?cs. rows ! i = (case ?cs ! i of (p, c, b, g) \<Rightarrow> base_row p c b g (int i))"
    using push_rows_ok [OF floor, of "[]"] by (auto simp: v2BasePartitionRows_def)
  have keys: "map br_partitionKey rows = map combination_key ?cs"
    by (rule nth_equalityI) (use rows in \<open>auto simp: combination_key_def base_row_def split: prod.splits\<close>)
  have "distinct (map combination_key ?cs)"
    using combination_key_inj [OF assms(2,3)] distinct_base_combinations [OF assms(1)] by (simp add: distinct_map)
  moreover have "map br_queuePosition rows = map (\<lambda>i. (int i + 1) * 1000000) [0..<length rows]"
    by (rule nth_equalityI) (use rows in \<open>auto simp: base_row_def BASE_QUEUE_GAP_def split: prod.splits\<close>)
  moreover have "600 \<le> br_followersMin r" if "r \<in> set rows" for r
  proof -
    from that have "\<exists>i < length rows. rows ! i = r" by (simp only: in_set_conv_nth)
    then obtain i where "i < length rows" "r = rows ! i" by blast
    moreover obtain p c b g where "?cs ! i = (p, c, b, g)" by (metis surj_pair)
    moreover have "case ?cs ! i of (p, c, b, g) \<Rightarrow> 600 \<le> fb_min b"
      using floor \<open>i < length rows\<close> rows(2) by (simp add: list_all_length)
    ultimately show ?thesis using rows(2,3) by (simp add: base_row_def)
  qed
  ultimately show ?thesis using rows(1,2) by (intro exI [of _ rows]) (simp add: keys)
qed

section \<open>Concrete instances\<close>

lemma split_halves_keep_the_minimum_width_witness:
  "50 \<le> 699 - 600 + (1 :: int) \<and> 50 \<le> 799 - 700 + (1 :: int) \<and>
   splitFollowerRange 600 (Some 799) DEFAULT_FOLLOWER_WIDTH_RULES = Some ((600, 699), (700, 799))"
proof -
  have s: "splitFollowerRange 600 (Some 799) DEFAULT_FOLLOWER_WIDTH_RULES = Some ((600, 699), (700, 799))"
    by code_simp
  from split_halves_keep_the_minimum_width [OF s] s show ?thesis
    by (simp add: minimumFollowerWidth_def DEFAULT_FOLLOWER_WIDTH_RULES_def)
qed

definition example_expansion :: ExpansionInput where
  "example_expansion = \<lparr>ei_partitionType = ADAPTIVE_FOLLOWER, ei_observedSaturationState = OBSERVED_SATURATED,
     ei_followersMin = 600, ei_followersMax = Some 799, ei_yield = Some (1 / 5), ei_rowsReturned = 400,
     ei_successfulPages = 20, ei_uniqueCreatorsAdded = 100, ei_followerSplitExplored = False,
     ei_followerRecursionTerminal = False, ei_gmvSplitCreated = False, ei_gmvBucket = Some ''G2'',
     ei_gmvRange = Some ''GMV_RANGE_100_1000''\<rparr>"

lemma example_expands:
  "adaptiveExpansion example_expansion DEFAULT_FOLLOWER_WIDTH_RULES (1 / 10) 200
     = ExpandFollower ((600, 699), (700, 799)) ''G1_G2_DEEP_PRODUCTIVITY''"
  by code_simp

lemma expansion_needs_evidence_witness:
  "200 \<le> ei_rowsReturned example_expansion \<and> \<not> ei_followerSplitExplored example_expansion"
  using expansion_needs_evidence [OF example_expands] by blast

definition example_catalog :: "CategoryNode list" where
  "example_catalog =
    [\<lparr>cn_categoryId = ''10'', cn_categoryName = None, cn_parentCategoryId = None, cn_enabledForCreatorCrawl = None,
      cn_availableForCreatorFilter = None, cn_sortOrder = None\<rparr>,
     \<lparr>cn_categoryId = ''101'', cn_categoryName = None, cn_parentCategoryId = Some ''10'', cn_enabledForCreatorCrawl = None,
      cn_availableForCreatorFilter = None, cn_sortOrder = None\<rparr>]"

lemma base_rows_are_distinct_and_ordered_witness:
  "\<exists>rows. v2BasePartitionRows example_catalog = Inr rows \<and> distinct (map br_partitionKey rows) \<and> length rows = 100"
proof -
  have "distinct example_catalog" "inj_on (\<lambda>n. to_lower (cn_categoryId n)) (set example_catalog)"
    "\<forall>n \<in> set example_catalog. clean_id (cn_categoryId n)"
    by (simp_all add: example_catalog_def inj_on_def clean_id_def to_lower_def lower_char_def code_of_def)
  from base_rows_are_distinct_and_ordered [OF this] obtain rows where
    "v2BasePartitionRows example_catalog = Inr rows" "distinct (map br_partitionKey rows)"
    "length rows = length (base_combinations example_catalog)" by blast
  moreover have "length (base_combinations example_catalog) = 100"
    by (simp add: base_combinations_def crawl_parents_def children_of_def example_catalog_def length_concat comp_def
        CREATOR_FOLLOWER_BUCKETS_def CREATOR_GMV_BUCKETS_def)
  ultimately show ?thesis by auto
qed

lemma recursive_splitting_example:
  "split_leaves DEFAULT_FOLLOWER_WIDTH_RULES 600 799 = [(600, 649), (650, 699), (700, 749), (750, 799)]"
  by code_simp

end
