(* ===== verification/Scheduler.thy ===== *)
theory Scheduler
  imports Partitions
begin

text \<open>
  The scheduler of the marketplace crawl, \<open>apps/api/src/creator-database/creator-scheduler.ts\<close>: which
  kind of partition a claim is for (\<open>schedulerSlot\<close>), the evidence a partition's category and follower
  band have gathered, the score and class this gives a partition, and the selection of the partition
  to crawl. Scores, rates and weights are real numbers, an absent date counts as minus infinity, and
  \<open>md5\<close> is a parameter that gives the bytes of a digest.
\<close>

section \<open>Constants and data\<close>

definition CATEGORY_MIN_EVIDENCE_ROWS :: real where "CATEGORY_MIN_EVIDENCE_ROWS = 1000"
definition FOLLOWER_MIN_EVIDENCE_ROWS :: real where "FOLLOWER_MIN_EVIDENCE_ROWS = 1000"
definition PRODUCTIVITY_HALF_LIFE_DAYS :: real where "PRODUCTIVITY_HALF_LIFE_DAYS = 14"
definition G4_PROBE_CADENCE :: jsnum where "G4_PROBE_CADENCE = Fin 100"
definition PRIMARY_SCHEDULER_CYCLE :: jsnum where "PRIMARY_SCHEDULER_CYCLE = Fin 10"
definition BRANCH_EVIDENCE_MIN_ROWS :: real where "BRANCH_EVIDENCE_MIN_ROWS = 200"

datatype SchedulerClass = HIGH | MEDIUM | EXPLORATION | LOW | EXPERIMENT_ONLY

datatype SchedulerSlot = PRIMARY_PRODUCTIVE | PRIMARY_EXPLORATION | G3_EXPLORATION | G4_PROBE

datatype CategoryCoverageMode = COVERAGE | BALANCED

record ProductivityEvidence =
  pe_rows :: real
  pe_newCreators :: real
  pe_yield :: "real option"

record SchedulerObservation =
  so_categoryChildId :: "ident option"
  so_followersMin :: "int option"
  so_followersMax :: "int option"
  so_gmvBucket :: "string option"
  so_rowsReturned :: real
  so_uniqueCreatorsAdded :: real
  so_lastSuccessAt :: "millis option"

record SchedulerPriorityInput =
  sp_partitionType :: ProductionPartitionType
  sp_adaptiveDepth :: int
  sp_branchClassification :: BranchClassification
  sp_expectedYield :: "real option"
  sp_expectedNewPerSuccessfulPage :: "real option"
  sp_observedSaturated :: bool
  sp_evidenceRows :: "real option"
  sp_gmvBucket :: "string option"
  sp_categoryEvidence :: ProductivityEvidence
  sp_followerEvidence :: ProductivityEvidence
  sp_globalEvidence :: ProductivityEvidence

record SchedulerPriority =
  pr_schedulerClass :: SchedulerClass
  pr_score :: real
  pr_reason :: string
  pr_categoryWeight :: real
  pr_followerWeight :: real

record 'c ScoredSchedulerCandidate =
  sc_candidate :: 'c
  sc_priority :: SchedulerPriority
  sc_queuePosition :: int
  sc_id :: ident
  sc_gmvBucket :: "string option"

record 'c CategoryExplorationCandidate =
  ce_candidate :: 'c
  ce_id :: ident
  ce_categoryId :: ident
  ce_categoryChildId :: ident
  ce_queuePosition :: int
  ce_parentSampledChildren :: int
  ce_parentLastExplorationClaimAt :: "millis option"
  ce_parentSortOrder :: int
  ce_childFirstSampledAt :: "millis option"
  ce_childLastSampledAt :: "millis option"
  ce_childLastExplorationClaimAt :: "millis option"
  ce_childSortOrder :: int

section \<open>Slots\<close>

definition g1G2FamilyKey :: "ident option \<Rightarrow> ident option \<Rightarrow> int option \<Rightarrow> int option \<Rightarrow> string option" where
  "g1G2FamilyKey categoryId categoryChildId followersMin followersMax =
    (if truthy categoryId \<and> truthy categoryChildId \<and> followersMin \<noteq> None
     then Some (to_lower (the categoryId) @ '':'' @ to_lower (the categoryChildId) @ '':'' @ show_int (the followersMin) @ '':''
        @ (case followersMax of None \<Rightarrow> ''plus'' | Some h \<Rightarrow> show_int h))
     else None)"

text \<open>\<open>digest()[0] % 2 === 0\<close>; the digest of MD5 is never empty.\<close>

definition designatedFirstG1G2Bucket :: "(string \<Rightarrow> nat list) \<Rightarrow> string \<Rightarrow> string" where
  "designatedFirstG1G2Bucket md5 familyKey = (case md5 familyKey of b # _ \<Rightarrow> if b mod 2 = 0 then ''G1'' else ''G2'' | [] \<Rightarrow> ''G2'')"

definition clamp :: "real \<Rightarrow> real \<Rightarrow> real \<Rightarrow> real" where
  "clamp value minimum maximum = min maximum (max minimum value)"

definition rounded :: "real \<Rightarrow> real" where
  "rounded value = of_int (js_round (value * 10 ^ 6)) / 10 ^ 6"

definition integer_from :: "int \<Rightarrow> jsnum \<Rightarrow> int option" where
  "integer_from least n = (case n of Fin x \<Rightarrow> if js_is_integer x \<and> of_int least \<le> x then Some \<lfloor>x\<rfloor> else None | _ \<Rightarrow> None)"

definition slot_of :: "int \<Rightarrow> CategoryCoverageMode \<Rightarrow> int \<Rightarrow> int \<Rightarrow> SchedulerSlot" where
  "slot_of claimSequence coverageMode g4ProbeCadence primaryCycle =
    (if claimSequence mod g4ProbeCadence = 0 then G4_PROBE
     else (let position = (claimSequence - 1) mod primaryCycle + 1;
               productiveShare = (if coverageMode = COVERAGE then 4 / 10 else 6 / 10 :: real)
           in if position \<le> \<lfloor>of_int primaryCycle * productiveShare\<rfloor> then PRIMARY_PRODUCTIVE
              else if position \<le> \<lfloor>of_int primaryCycle * (9 / 10 :: real)\<rfloor> then PRIMARY_EXPLORATION
              else G3_EXPLORATION))"

definition schedulerSlot :: "jsnum \<Rightarrow> CategoryCoverageMode \<Rightarrow> jsnum \<Rightarrow> jsnum \<Rightarrow> SchedulerSlot result" where
  "schedulerSlot claimSequence coverageMode g4ProbeCadence primaryCycle =
    (case integer_from 1 claimSequence of None \<Rightarrow> Inl ''Scheduler claim sequence must be a positive integer''
     | Some n \<Rightarrow> (case integer_from 100 g4ProbeCadence of None \<Rightarrow> Inl ''G4 probe cadence must be at least 100 claims''
        | Some cadence \<Rightarrow> (case integer_from 10 primaryCycle of None \<Rightarrow> Inl ''Primary scheduler cycle must be at least ten claims''
           | Some cycle \<Rightarrow> Inr (slot_of n coverageMode cadence cycle))))"

section \<open>Exploration of categories\<close>

definition nullableDateValue :: "millis option \<Rightarrow> jsnum" where
  "nullableDateValue d = (case d of None \<Rightarrow> NegInf | Some t \<Rightarrow> Fin (of_int t))"

definition cmp_date :: "('c \<Rightarrow> millis option) \<Rightarrow> 'c \<Rightarrow> 'c \<Rightarrow> int" where
  "cmp_date f a b = js_diff_sign (nullableDateValue (f a)) (nullableDateValue (f b))"

definition exploration_cmp :: "'c CategoryExplorationCandidate \<Rightarrow> 'c CategoryExplorationCandidate \<Rightarrow> int" where
  "exploration_cmp =
    cmp_then (cmp_by ce_parentSampledChildren) (cmp_then (cmp_date ce_parentLastExplorationClaimAt)
   (cmp_then (cmp_by ce_parentSortOrder) (cmp_then (cmp_date ce_childLastSampledAt)
   (cmp_then (cmp_date ce_childLastExplorationClaimAt) (cmp_then (cmp_by ce_childSortOrder)
   (cmp_then (cmp_by ce_queuePosition) (\<lambda>a b. locale_compare (ce_id a) (ce_id b))))))))"

definition exploration_pool :: "'c CategoryExplorationCandidate list \<Rightarrow> CategoryCoverageMode \<Rightarrow> 'c CategoryExplorationCandidate list" where
  "exploration_pool candidates mode =
    (let untouched = filter (\<lambda>c. ce_childFirstSampledAt c = None) candidates
     in if mode = COVERAGE \<and> untouched \<noteq> [] then untouched else candidates)"

definition first_of :: "'a list \<Rightarrow> 'a option" where
  "first_of xs = (case xs of [] \<Rightarrow> None | x # _ \<Rightarrow> Some x)"

definition selectCategoryExplorationCandidate ::
  "'c CategoryExplorationCandidate list \<Rightarrow> CategoryCoverageMode \<Rightarrow> 'c CategoryExplorationCandidate option" where
  "selectCategoryExplorationCandidate candidates mode = first_of (js_sort exploration_cmp (exploration_pool candidates mode))"

section \<open>Evidence\<close>

definition decayFactor :: "millis option \<Rightarrow> millis \<Rightarrow> real" where
  "decayFactor lastSuccessAt now = (case lastSuccessAt of None \<Rightarrow> 1
     | Some t \<Rightarrow> (let ageDays = of_int (max 0 (now - t)) / 86400000 in 2 powr (- ageDays / PRODUCTIVITY_HALF_LIFE_DAYS)))"

definition followerOverlapWeight :: "int option \<Rightarrow> int option \<Rightarrow> int option \<Rightarrow> int option \<Rightarrow> real" where
  "followerOverlapWeight targetMin targetMax observedMin observedMax =
    (case (targetMin, observedMin) of
       (Some tmin, Some omin) \<Rightarrow>
         (case observedMax of
            None \<Rightarrow> if targetMax = None then (if tmin = omin then 1 else 0) else 0
          | Some omax \<Rightarrow>
              (let overlapMin = max tmin omin;
                   overlapMax = min (case targetMax of None \<Rightarrow> omax | Some t \<Rightarrow> t) omax
               in if overlapMax < overlapMin then 0
                  else of_int (overlapMax - overlapMin + 1) / of_int (omax - omin + 1)))
     | _ \<Rightarrow> 0)"

fun add_evidence :: "(SchedulerObservation \<Rightarrow> real) \<Rightarrow> millis \<Rightarrow> SchedulerObservation list \<Rightarrow> real \<times> real \<Rightarrow> real \<times> real" where
  "add_evidence contribution now [] acc = acc"
| "add_evidence contribution now (ob # obs) (rows, new) =
    (let share = clamp (contribution ob) 0 1; weight = share * decayFactor (so_lastSuccessAt ob) now
     in if share = 0 \<or> so_rowsReturned ob \<le> 0 then add_evidence contribution now obs (rows, new)
        else add_evidence contribution now obs (rows + so_rowsReturned ob * weight, new + so_uniqueCreatorsAdded ob * weight))"

definition aggregateEvidence :: "SchedulerObservation list \<Rightarrow> millis \<Rightarrow> (SchedulerObservation \<Rightarrow> real) \<Rightarrow> ProductivityEvidence" where
  "aggregateEvidence observations now contribution =
    (let (rows, new) = add_evidence contribution now observations (0, 0)
     in \<lparr>pe_rows = rows, pe_newCreators = new, pe_yield = (if rows > 0 then Some (new / rows) else None)\<rparr>)"

definition branchObservations :: "SchedulerObservation list \<Rightarrow> string option \<Rightarrow> SchedulerObservation list" where
  "branchObservations observations gmvBucket =
    (if truthy gmvBucket then filter (\<lambda>ob. so_gmvBucket ob = gmvBucket) observations else observations)"

definition categoryEvidence :: "SchedulerObservation list \<Rightarrow> ident option \<Rightarrow> millis \<Rightarrow> string option \<Rightarrow> ProductivityEvidence" where
  "categoryEvidence observations categoryChildId now gmvBucket =
    aggregateEvidence (branchObservations observations gmvBucket) now
      (\<lambda>ob. if categoryChildId \<noteq> None \<and> so_categoryChildId ob = categoryChildId then 1 else 0)"

definition followerEvidence :: "SchedulerObservation list \<Rightarrow> int option \<Rightarrow> int option \<Rightarrow> millis \<Rightarrow> string option \<Rightarrow> ProductivityEvidence" where
  "followerEvidence observations followersMin followersMax now gmvBucket =
    aggregateEvidence (branchObservations observations gmvBucket) now
      (\<lambda>ob. followerOverlapWeight followersMin followersMax (so_followersMin ob) (so_followersMax ob))"

datatype EvidenceKind = CATEGORY | FOLLOWER

definition softProductivityWeight :: "ProductivityEvidence \<Rightarrow> ProductivityEvidence \<Rightarrow> EvidenceKind \<Rightarrow> real" where
  "softProductivityWeight evidence globalEvidence kind =
    (let minimumRows = (if kind = CATEGORY then CATEGORY_MIN_EVIDENCE_ROWS else FOLLOWER_MIN_EVIDENCE_ROWS)
     in case (pe_yield evidence, pe_yield globalEvidence) of
       (Some y, Some g) \<Rightarrow>
         if pe_rows evidence < minimumRows then 0
         else (let confidence = clamp (pe_rows evidence / 5000) 0 1;
                   relative = (y - g) / max (1 / 20) g;
                   raw = relative * (if kind = CATEGORY then 400 else 250) * confidence
               in rounded (clamp raw (if kind = CATEGORY then - 450 else - 250) (if kind = CATEGORY then 250 else 200)))
     | _ \<Rightarrow> 0)"

section \<open>Priorities\<close>

fun classificationSignal :: "BranchClassification \<Rightarrow> real" where
  "classificationSignal STRONG = 500"
| "classificationSignal PRODUCTIVE = 250"
| "classificationSignal MARGINAL = - 100"
| "classificationSignal LOW_VALUE = - 1200"
| "classificationSignal EFFECTIVELY_DEAD = - 1800"
| "classificationSignal UNCLASSIFIED = 0"

definition depthSignal :: "int \<Rightarrow> real" where
  "depthSignal depth = (if depth \<le> 0 then 0 else if depth = 1 then 100 else if depth = 2 then 300
     else if depth = 3 then 325 else 100)"

definition signalDescription :: "real \<Rightarrow> string \<Rightarrow> string option" where
  "signalDescription weight noun =
    (if weight \<le> - 150 then Some (''weak '' @ noun @ '' penalty'')
     else if weight \<ge> 100 then Some (''strong '' @ noun @ '' signal'') else None)"

fun classification_words :: "BranchClassification \<Rightarrow> string" where
  "classification_words UNCLASSIFIED = ''UNCLASSIFIED''"
| "classification_words STRONG = ''STRONG''"
| "classification_words PRODUCTIVE = ''PRODUCTIVE''"
| "classification_words MARGINAL = ''MARGINAL''"
| "classification_words LOW_VALUE = ''LOW VALUE''"
| "classification_words EFFECTIVELY_DEAD = ''EFFECTIVELY DEAD''"

fun join_parts :: "string list \<Rightarrow> string" where
  "join_parts [] = []"
| "join_parts [p] = p"
| "join_parts (p # ps) = p @ ''; '' @ join_parts ps"

definition or_zero :: "real option \<Rightarrow> real" where
  "or_zero x = (case x of None \<Rightarrow> 0 | Some v \<Rightarrow> v)"

definition authoritative_low :: "SchedulerPriorityInput \<Rightarrow> bool" where
  "authoritative_low inp \<longleftrightarrow> sp_branchClassification inp = LOW_VALUE \<or> sp_branchClassification inp = EFFECTIVELY_DEAD"

definition productive_at :: "real \<Rightarrow> SchedulerPriorityInput \<Rightarrow> bool" where
  "productive_at yield inp \<longleftrightarrow> or_zero (sp_evidenceRows inp) \<ge> BRANCH_EVIDENCE_MIN_ROWS \<and>
     or_zero (sp_expectedYield inp) \<ge> yield \<and> or_zero (sp_expectedNewPerSuccessfulPage inp) \<ge> 4"

definition adaptive_class :: "SchedulerPriorityInput \<Rightarrow> SchedulerClass" where
  "adaptive_class inp =
    (if authoritative_low inp then LOW
     else if sp_gmvBucket inp = Some ''G3'' then (if productive_at (2 / 10) inp then MEDIUM else LOW)
     else if productive_at (1 / 10) inp then HIGH else MEDIUM)"

definition adaptive_score :: "SchedulerPriorityInput \<Rightarrow> real \<Rightarrow> real \<Rightarrow> real" where
  "adaptive_score inp categoryWeight followerWeight =
    1000 + depthSignal (sp_adaptiveDepth inp) + classificationSignal (sp_branchClassification inp)
    + clamp (or_zero (sp_expectedYield inp)) 0 (6 / 10) * 1000
    + clamp (or_zero (sp_expectedNewPerSuccessfulPage inp)) 0 20 * 20
    + (if sp_observedSaturated inp then 75 else 0) + categoryWeight + followerWeight"

definition adaptive_reason :: "SchedulerPriorityInput \<Rightarrow> real \<Rightarrow> real \<Rightarrow> string" where
  "adaptive_reason inp categoryWeight followerWeight =
    join_parts (filter (\<lambda>p. p \<noteq> []) (map (\<lambda>p. case p of None \<Rightarrow> [] | Some s \<Rightarrow> s)
      [Some (if authoritative_low inp then classification_words (sp_branchClassification inp) @ '' branch override''
         else if sp_gmvBucket inp = Some ''G3'' \<and> adaptive_class inp = MEDIUM
         then ''High GMV branch promoted by '' @ show_int (js_round (or_zero (sp_evidenceRows inp))) @ '' local rows''
         else if adaptive_class inp = HIGH
         then ''Depth '' @ show_int (sp_adaptiveDepth inp) @ '' productive Low/Medium branch''
         else ''Depth '' @ show_int (sp_adaptiveDepth inp) @ '' ''
            @ (if productive_at (1 / 10) inp then ''promising'' else ''unproven'') @ '' adaptive branch''),
       signalDescription categoryWeight ''category'',
       signalDescription followerWeight ''follower band'']))"

definition seed_priority :: "SchedulerPriorityInput \<Rightarrow> real \<Rightarrow> real \<Rightarrow> SchedulerPriority" where
  "seed_priority inp categoryWeight followerWeight =
    (if sp_gmvBucket inp = Some ''G3''
     then \<lparr>pr_schedulerClass = LOW, pr_score = - 500, pr_reason = ''High GMV lower-priority exploration'',
        pr_categoryWeight = categoryWeight, pr_followerWeight = followerWeight\<rparr>
     else \<lparr>pr_schedulerClass = EXPLORATION, pr_score = 100,
        pr_reason = (case signalDescription categoryWeight ''category'' of
            None \<Rightarrow> ''Low/Medium exploration slot''
          | Some penalty \<Rightarrow> ''Low/Medium exploration slot; '' @ penalty @ '' recorded but quota preserved''),
        pr_categoryWeight = categoryWeight, pr_followerWeight = followerWeight\<rparr>)"

definition scoreSchedulerPriority :: "SchedulerPriorityInput \<Rightarrow> SchedulerPriority" where
  "scoreSchedulerPriority inp =
    (let categoryWeight = softProductivityWeight (sp_categoryEvidence inp) (sp_globalEvidence inp) CATEGORY;
         followerWeight = softProductivityWeight (sp_followerEvidence inp) (sp_globalEvidence inp) FOLLOWER
     in if sp_gmvBucket inp = Some ''G4''
        then \<lparr>pr_schedulerClass = EXPERIMENT_ONLY, pr_score = - 10000,
          pr_reason = ''Very High retained for deterministic rare probing only'',
          pr_categoryWeight = categoryWeight, pr_followerWeight = followerWeight\<rparr>
        else if sp_partitionType inp = V2_SEED then seed_priority inp categoryWeight followerWeight
        else \<lparr>pr_schedulerClass = adaptive_class inp, pr_score = rounded (adaptive_score inp categoryWeight followerWeight),
          pr_reason = adaptive_reason inp categoryWeight followerWeight,
          pr_categoryWeight = categoryWeight, pr_followerWeight = followerWeight\<rparr>)"

section \<open>Selection\<close>

text \<open>\<open>classes.indexOf\<close>, for classes that occur in the list.\<close>

fun index_in :: "SchedulerClass list \<Rightarrow> SchedulerClass \<Rightarrow> int" where
  "index_in [] c = - 1"
| "index_in (x # xs) c = (if x = c then 0 else if index_in xs c = - 1 then - 1 else 1 + index_in xs c)"

definition candidate_cmp :: "SchedulerClass list \<Rightarrow> 'c ScoredSchedulerCandidate \<Rightarrow> 'c ScoredSchedulerCandidate \<Rightarrow> int" where
  "candidate_cmp classes =
    cmp_then (cmp_by (\<lambda>c. index_in classes (pr_schedulerClass (sc_priority c))))
   (cmp_then (cmp_by (\<lambda>c. - pr_score (sc_priority c)))
   (cmp_then (cmp_by sc_queuePosition) (\<lambda>a b. locale_compare (sc_id a) (sc_id b))))"

definition ordered :: "'c ScoredSchedulerCandidate list \<Rightarrow> SchedulerClass list \<Rightarrow> 'c ScoredSchedulerCandidate list" where
  "ordered candidates classes = js_sort (candidate_cmp classes)
     (filter (\<lambda>c. pr_schedulerClass (sc_priority c) \<in> set classes) candidates)"

definition in_bucket :: "string list \<Rightarrow> 'c ScoredSchedulerCandidate list \<Rightarrow> 'c ScoredSchedulerCandidate list" where
  "in_bucket codes = filter (\<lambda>c. \<exists>g \<in> set codes. sc_gmvBucket c = Some g)"

definition selection_pools :: "'c ScoredSchedulerCandidate list \<Rightarrow> SchedulerSlot \<Rightarrow> 'c ScoredSchedulerCandidate list list" where
  "selection_pools candidates slot =
    (let primary = in_bucket [''G1'', ''G2''] candidates;
         g3 = in_bucket [''G3''] candidates;
         g4 = in_bucket [''G4''] candidates;
         productivePrimary = ordered primary [HIGH];
         unknownPrimary = ordered primary (if slot = PRIMARY_EXPLORATION then [EXPLORATION, MEDIUM] else [MEDIUM, EXPLORATION]);
         productiveG3 = ordered g3 [HIGH, MEDIUM];
         generalG3 = ordered g3 [EXPLORATION, LOW];
         lowPrimary = ordered primary [LOW]
     in if slot = G4_PROBE
        then [ordered g4 [EXPERIMENT_ONLY], productivePrimary, unknownPrimary, productiveG3, generalG3, lowPrimary]
        else if slot = G3_EXPLORATION then [productiveG3, generalG3, productivePrimary, unknownPrimary, lowPrimary]
        else if slot = PRIMARY_EXPLORATION then [unknownPrimary, productivePrimary, productiveG3, generalG3, lowPrimary]
        else [productivePrimary, unknownPrimary, productiveG3, generalG3, lowPrimary])"

definition selectSchedulerCandidate :: "'c ScoredSchedulerCandidate list \<Rightarrow> SchedulerSlot \<Rightarrow> 'c ScoredSchedulerCandidate option" where
  "selectSchedulerCandidate candidates slot =
    Option.bind (List.find (\<lambda>pool. pool \<noteq> []) (selection_pools candidates slot)) first_of"

fun class_lower :: "SchedulerClass \<Rightarrow> string" where
  "class_lower HIGH = ''high''"
| "class_lower MEDIUM = ''medium''"
| "class_lower EXPLORATION = ''exploration''"
| "class_lower LOW = ''low''"
| "class_lower EXPERIMENT_ONLY = ''experiment_only''"

text \<open>The dash of the message, as the bytes of its UTF-8 form.\<close>

definition em_dash :: string where "em_dash = [CHR 0xE2, CHR 0x80, CHR 0x94]"

definition schedulerSelectionMessage :: "SchedulerPriority \<Rightarrow> ProductionPartitionType \<Rightarrow> int \<Rightarrow> string" where
  "schedulerSelectionMessage priority partitionType depth =
    (if pr_schedulerClass priority = EXPERIMENT_ONLY
     then ''Selected Very High partition '' @ em_dash @ '' deterministic rare probe''
     else if pr_schedulerClass priority = EXPLORATION
     then ''Selected Low/Medium seed '' @ em_dash @ '' exploration quota''
     else ''Selected '' @ (if partitionType = ADAPTIVE_GMV then ''GMV adaptive'' else ''adaptive Depth '' @ show_int depth)
       @ '' partition '' @ em_dash @ '' '' @ class_lower (pr_schedulerClass priority) @ '' expected discovery yield'')"

section \<open>The slots repeat and no slot is starved\<close>

lemma integer_from_nat [simp]: "of_int least \<le> real n \<Longrightarrow> integer_from least (Fin (real n)) = Some (int n)"
  by (simp add: integer_from_def js_is_integer_def)

lemma integer_from_cadence [simp]: "integer_from 100 G4_PROBE_CADENCE = Some 100" "integer_from 10 PRIMARY_SCHEDULER_CYCLE = Some 10"
  using integer_from_nat [of 100 100] integer_from_nat [of 10 10]
  by (simp_all add: G4_PROBE_CADENCE_def PRIMARY_SCHEDULER_CYCLE_def)

lemma schedulerSlot_default:
  "1 \<le> n \<Longrightarrow> schedulerSlot (Fin (real n)) mode G4_PROBE_CADENCE PRIMARY_SCHEDULER_CYCLE = Inr (slot_of (int n) mode 100 10)"
  by (simp add: schedulerSlot_def)

lemma slot_of_default:
  "slot_of n mode 100 10 = (if n mod 100 = 0 then G4_PROBE
     else if (n - 1) mod 10 < (if mode = COVERAGE then 4 else 6) then PRIMARY_PRODUCTIVE
     else if (n - 1) mod 10 < 9 then PRIMARY_EXPLORATION else G3_EXPLORATION)"
  by (auto simp: slot_of_def Let_def)

lemma slot_of_periodic: "slot_of (100 * m + n) mode 100 10 = slot_of n mode 100 10"
proof -
  have "100 * m + n - 1 = n - 1 + 10 * (10 * m)" by simp
  then have "(100 * m + n - 1) mod 10 = (n - 1) mod 10" by (simp only: mod_mult_self2)
  moreover have "(100 * m + n) mod 100 = n mod 100" by simp
  ultimately show ?thesis by (simp only: slot_of_default)
qed

definition slot_count :: "CategoryCoverageMode \<Rightarrow> nat \<Rightarrow> SchedulerSlot \<Rightarrow> nat" where
  "slot_count mode m s = length (filter (\<lambda>n. schedulerSlot (Fin (real n)) mode G4_PROBE_CADENCE PRIMARY_SCHEDULER_CYCLE = Inr s)
     [100 * m + 1..<100 * m + 101])"

lemma slot_count_period: "slot_count mode m s = length (filter (\<lambda>n. slot_of (int n) mode 100 10 = s) [1..<101])"
proof -
  have eq: "[100 * m + 1..<100 * m + 101] = map (\<lambda>k. 100 * m + k) [1..<101]"
    by (rule nth_equalityI) (simp_all add: nth_append)
  have "schedulerSlot (Fin (real (100 * m + k))) mode G4_PROBE_CADENCE PRIMARY_SCHEDULER_CYCLE = Inr (slot_of (int k) mode 100 10)"
    if "k \<in> set [1..<101]" for k
    using schedulerSlot_default [of "100 * m + k" mode] slot_of_periodic [of "int m" "int k" mode] that by (simp del: of_nat_add) simp
  then have "filter (\<lambda>k. schedulerSlot (Fin (real (100 * m + k))) mode G4_PROBE_CADENCE PRIMARY_SCHEDULER_CYCLE = Inr s) [1..<101]
    = filter (\<lambda>k. slot_of (int k) mode 100 10 = s) [1..<101]"
    by (intro filter_cong) (simp_all del: of_nat_add)
  then show ?thesis unfolding slot_count_def eq filter_map o_def by simp
qed

lemma slots_of_period:
  "map (\<lambda>n. slot_of (int n) COVERAGE 100 10) [1..<101] =
     concat (replicate 9 (replicate 4 PRIMARY_PRODUCTIVE @ replicate 5 PRIMARY_EXPLORATION @ [G3_EXPLORATION]))
     @ replicate 4 PRIMARY_PRODUCTIVE @ replicate 5 PRIMARY_EXPLORATION @ [G4_PROBE]"
  "map (\<lambda>n. slot_of (int n) BALANCED 100 10) [1..<101] =
     concat (replicate 9 (replicate 6 PRIMARY_PRODUCTIVE @ replicate 3 PRIMARY_EXPLORATION @ [G3_EXPLORATION]))
     @ replicate 6 PRIMARY_PRODUCTIVE @ replicate 3 PRIMARY_EXPLORATION @ [G4_PROBE]"
  unfolding slot_of_default by code_simp+

lemma slot_count_map: "slot_count mode m s = length (filter (\<lambda>t. t = s) (map (\<lambda>n. slot_of (int n) mode 100 10) [1..<101]))"
  unfolding slot_count_period filter_map o_def by simp

text \<open>
  Of any 100 consecutive claims counted from a multiple of 100, exactly 40 go to productive
  and 50 to exploring slots of G1 and G2 in coverage mode (60 and 30 otherwise), 9 to G3 and 1 to
  the G4 probe.
\<close>

theorem slots_are_shared_out:
  "map (slot_count mode m) [PRIMARY_PRODUCTIVE, PRIMARY_EXPLORATION, G3_EXPLORATION, G4_PROBE]
    = (if mode = COVERAGE then [40, 50, 9, 1] else [60, 30, 9, 1])"
  by (cases mode; hypsubst; simp only: list.map slot_count_map slots_of_period; simp add: eval_nat_numeral)

section \<open>The selection\<close>

lemma first_of_sorted:
  assumes cmp: "comparator cmp ok" and ok: "\<forall>x \<in> set xs. ok x" and c: "first_of (js_sort cmp xs) = Some c"
  shows "c \<in> set xs" and "d \<in> set xs \<Longrightarrow> cmp c d \<le> 0"
proof -
  obtain rest where rest: "js_sort cmp xs = c # rest" using c by (auto simp: first_of_def split: list.splits)
  have sets: "set xs = insert c (set rest)" using set_js_sort [of cmp xs] rest by simp
  then show c_in: "c \<in> set xs" by simp
  have "cmp c c \<le> 0" using comparator.cmp_total [OF cmp] ok c_in by blast
  moreover have "\<forall>d \<in> set rest. cmp c d \<le> 0" using comparator.sorted_js_sort [OF cmp ok] rest by simp
  ultimately show "d \<in> set xs \<Longrightarrow> cmp c d \<le> 0" using sets by auto
qed

lemma first_of_None [simp]: "first_of xs = None \<longleftrightarrow> xs = []"
  by (simp add: first_of_def split: list.splits)

lemma first_of_pools: "Option.bind (List.find (\<lambda>pool. pool \<noteq> []) pools) first_of = None \<longleftrightarrow> (\<forall>pool \<in> set pools. pool = [])"
  by (induction pools) auto

lemma comparator_date: "comparator (cmp_date f) (\<lambda>_. True)"
  by unfold_locales (auto simp: cmp_date_def nullableDateValue_def js_diff_sign_def split: option.splits if_splits)

lemma comparator_exploration: "comparator exploration_cmp (\<lambda>_. True)"
  unfolding exploration_cmp_def
  by (intro comparator_cmp_then comparator_cmp_by comparator_date comparator_locale_by)

lemma comparator_candidate: "comparator (candidate_cmp classes) (\<lambda>_. True)"
  unfolding candidate_cmp_def by (intro comparator_cmp_then comparator_cmp_by comparator_locale_by)

interpretation exploration: comparator exploration_cmp "\<lambda>_. True" by (rule comparator_exploration)

interpretation candidates: comparator "candidate_cmp classes" "\<lambda>_. True" by (rule comparator_candidate)

lemma cmp_then_le: "cmp_then (cmp_by f) d x y \<le> 0 \<Longrightarrow> f x \<le> f y"
  by (auto simp: cmp_then_def cmp_by_def split: if_splits)

lemma cmp_then_rest: "cmp_then (cmp_by f) d x y \<le> 0 \<Longrightarrow> f x = f y \<Longrightarrow> d x y \<le> 0"
  by (auto simp: cmp_then_def cmp_by_def split: if_splits)

text \<open>
  The category explored next is a candidate; in coverage mode it has never been sampled as
  long as there is such a candidate, and no candidate of the pool has a parent with fewer sampled
  children.
\<close>

theorem exploration_is_fair:
  assumes "selectCategoryExplorationCandidate candidates mode = Some c"
  shows "c \<in> set candidates \<and>
    (mode = COVERAGE \<and> (\<exists>d \<in> set candidates. ce_childFirstSampledAt d = None) \<longrightarrow> ce_childFirstSampledAt c = None) \<and>
    (\<forall>d \<in> set (exploration_pool candidates mode). ce_parentSampledChildren c \<le> ce_parentSampledChildren d)"
proof -
  note c = first_of_sorted [OF comparator_exploration, of "exploration_pool candidates mode" c]
  have "c \<in> set (exploration_pool candidates mode)"
    using c(1) assms by (simp add: selectCategoryExplorationCandidate_def)
  moreover have "\<forall>d \<in> set (exploration_pool candidates mode). ce_parentSampledChildren c \<le> ce_parentSampledChildren d"
    using c(2) assms by (auto simp: selectCategoryExplorationCandidate_def exploration_cmp_def intro: cmp_then_le)
  ultimately show ?thesis
    by (auto simp: exploration_pool_def Let_def filter_empty_conv split: if_splits)
qed

definition ladder :: "SchedulerSlot \<Rightarrow> (string list \<times> SchedulerClass list) list" where
  "ladder slot =
    (let primary = [''G1'', ''G2''];
         unknown = (primary, if slot = PRIMARY_EXPLORATION then [EXPLORATION, MEDIUM] else [MEDIUM, EXPLORATION])
     in if slot = G4_PROBE
        then [([''G4''], [EXPERIMENT_ONLY]), (primary, [HIGH]), unknown, ([''G3''], [HIGH, MEDIUM]), ([''G3''], [EXPLORATION, LOW]), (primary, [LOW])]
        else if slot = G3_EXPLORATION
        then [([''G3''], [HIGH, MEDIUM]), ([''G3''], [EXPLORATION, LOW]), (primary, [HIGH]), unknown, (primary, [LOW])]
        else if slot = PRIMARY_EXPLORATION
        then [unknown, (primary, [HIGH]), ([''G3''], [HIGH, MEDIUM]), ([''G3''], [EXPLORATION, LOW]), (primary, [LOW])]
        else [(primary, [HIGH]), unknown, ([''G3''], [HIGH, MEDIUM]), ([''G3''], [EXPLORATION, LOW]), (primary, [LOW])])"

definition on_rung :: "string list \<times> SchedulerClass list \<Rightarrow> 'c ScoredSchedulerCandidate \<Rightarrow> bool" where
  "on_rung = (\<lambda>(buckets, classes) c. (\<exists>g \<in> set buckets. sc_gmvBucket c = Some g) \<and> pr_schedulerClass (sc_priority c) \<in> set classes)"

lemma selection_pools_ladder:
  "selection_pools candidates slot = map (\<lambda>r. ordered (in_bucket (fst r) candidates) (snd r)) (ladder slot)"
  by (simp add: selection_pools_def ladder_def Let_def)

lemma set_rung: "set (ordered (in_bucket buckets candidates) classes) = {c \<in> set candidates. on_rung (buckets, classes) c}"
  by (auto simp: ordered_def in_bucket_def on_rung_def)

text \<open>The ladder of a slot: rungs are tried in turn, the first that is not empty gives the candidate.\<close>

lemma find_first:
  assumes "List.find P (map f rs) = Some y"
  shows "\<exists>i < length rs. y = f (rs ! i) \<and> P y \<and> (\<forall>j < i. \<not> P (f (rs ! j)))"
proof -
  obtain i where i: "i < length rs" "P (map f rs ! i)" "y = map f rs ! i" "\<forall>j < i. \<not> P (map f rs ! j)"
    using assms unfolding find_Some_iff by auto
  then show ?thesis by (intro exI [of _ i]) (auto simp: nth_map)
qed

text \<open>
  C31. The partition the scheduler selects for a slot comes from the first rung of the slot's
  ladder of GMV buckets and classes on which there is a candidate, and no candidate of its class
  there has a higher score, nor an equal one and an earlier place in the queue.
\<close>

theorem selection_takes_the_best:
  assumes "selectSchedulerCandidate candidates slot = Some c"
  shows "\<exists>i < length (ladder slot). c \<in> set candidates \<and> on_rung (ladder slot ! i) c \<and>
    (\<forall>d \<in> set candidates. (\<forall>j < i. \<not> on_rung (ladder slot ! j) d) \<and>
      (on_rung (ladder slot ! i) d \<and> pr_schedulerClass (sc_priority d) = pr_schedulerClass (sc_priority c) \<longrightarrow>
        pr_score (sc_priority d) \<le> pr_score (sc_priority c) \<and>
        (pr_score (sc_priority d) = pr_score (sc_priority c) \<longrightarrow> sc_queuePosition c \<le> sc_queuePosition d)))"
proof -
  let ?pool = "\<lambda>r. ordered (in_bucket (fst r) candidates) (snd r)"
  obtain pool where "List.find (\<lambda>p. p \<noteq> []) (map ?pool (ladder slot)) = Some pool" and c: "first_of pool = Some c"
    using assms by (auto simp: selectSchedulerCandidate_def selection_pools_ladder bind_eq_Some_conv)
  from find_first [OF this(1)] obtain i where i: "i < length (ladder slot)" "pool = ?pool (ladder slot ! i)"
    and empty: "\<forall>j < i. ?pool (ladder slot ! j) = []" by auto
  obtain buckets classes where r: "ladder slot ! i = (buckets, classes)" by (cases "ladder slot ! i")
  note best = first_of_sorted [OF comparator_candidate,
    of "filter (\<lambda>c. pr_schedulerClass (sc_priority c) \<in> set classes) (in_bucket buckets candidates)" classes c]
  have c': "first_of (js_sort (candidate_cmp classes)
     (filter (\<lambda>c. pr_schedulerClass (sc_priority c) \<in> set classes) (in_bucket buckets candidates))) = Some c"
    using c i(2) r by (simp add: ordered_def)
  have mem: "d \<in> set candidates \<Longrightarrow> on_rung (ladder slot ! i) d \<Longrightarrow>
    d \<in> set (filter (\<lambda>c. pr_schedulerClass (sc_priority c) \<in> set classes) (in_bucket buckets candidates))" for d
    using r by (auto simp: on_rung_def in_bucket_def)
  have le: "candidate_cmp classes c d \<le> 0" if "d \<in> set candidates" "on_rung (ladder slot ! i) d" for d
    using best(2) c' mem [OF that] by simp
  have "c \<in> set candidates \<and> on_rung (ladder slot ! i) c"
    using best(1) c' r by (auto simp: on_rung_def in_bucket_def)
  moreover have "\<not> on_rung (ladder slot ! j) d" if "d \<in> set candidates" "j < i" for d j
    using empty that set_rung [of "fst (ladder slot ! j)" candidates "snd (ladder slot ! j)"] by auto
  moreover have "pr_score (sc_priority d) \<le> pr_score (sc_priority c) \<and>
      (pr_score (sc_priority d) = pr_score (sc_priority c) \<longrightarrow> sc_queuePosition c \<le> sc_queuePosition d)"
    if "d \<in> set candidates" "on_rung (ladder slot ! i) d" "pr_schedulerClass (sc_priority d) = pr_schedulerClass (sc_priority c)" for d
  proof -
    note l = cmp_then_rest [OF le [OF that(1,2), unfolded candidate_cmp_def]]
    have "- pr_score (sc_priority c) \<le> - pr_score (sc_priority d)" using l that(3) by (auto dest: cmp_then_le)
    moreover have "pr_score (sc_priority d) = pr_score (sc_priority c) \<Longrightarrow> sc_queuePosition c \<le> sc_queuePosition d"
      using l that(3) by (auto dest: cmp_then_rest cmp_then_le)
    ultimately show ?thesis by simp
  qed
  ultimately show ?thesis using i(1) by (intro exI [of _ i]) simp
qed

definition schedulable :: "SchedulerSlot \<Rightarrow> 'c ScoredSchedulerCandidate \<Rightarrow> bool" where
  "schedulable slot c \<longleftrightarrow>
    (sc_gmvBucket c \<in> {Some ''G1'', Some ''G2'', Some ''G3''} \<and> pr_schedulerClass (sc_priority c) \<noteq> EXPERIMENT_ONLY) \<or>
    (slot = G4_PROBE \<and> sc_gmvBucket c = Some ''G4'' \<and> pr_schedulerClass (sc_priority c) = EXPERIMENT_ONLY)"

lemma schedulable_rung: "schedulable slot c \<longleftrightarrow> list_ex (\<lambda>r. on_rung r c) (ladder slot)"
  by (cases "pr_schedulerClass (sc_priority c)"; cases slot) (auto simp: schedulable_def ladder_def on_rung_def Let_def)

lemma selection_none: "selectSchedulerCandidate candidates slot = None \<longleftrightarrow> \<not> (\<exists>c \<in> set candidates. schedulable slot c)"
proof -
  have "selectSchedulerCandidate candidates slot = None \<longleftrightarrow>
    (\<forall>r \<in> set (ladder slot). set (ordered (in_bucket (fst r) candidates) (snd r)) = {})"
    by (simp add: selectSchedulerCandidate_def selection_pools_ladder first_of_pools)
  also have "\<dots> \<longleftrightarrow> \<not> (\<exists>c \<in> set candidates. schedulable slot c)"
    unfolding set_rung by (auto simp: list_ex_iff schedulable_rung)
  finally show ?thesis .
qed

lemma selection_mem:
  assumes "selectSchedulerCandidate candidates slot = Some c"
  shows "c \<in> set candidates \<and> schedulable slot c"
proof -
  obtain pool where pool: "List.find (\<lambda>p. p \<noteq> []) (map (\<lambda>r. ordered (in_bucket (fst r) candidates) (snd r)) (ladder slot)) = Some pool"
    and c: "first_of pool = Some c"
    using assms by (auto simp: selectSchedulerCandidate_def selection_pools_ladder bind_eq_Some_conv)
  obtain r where r: "r \<in> set (ladder slot)" "pool = ordered (in_bucket (fst r) candidates) (snd r)"
    using find_SomeD [OF pool] by auto
  have "c \<in> set pool" using c by (auto simp: first_of_def split: list.splits)
  then have "c \<in> set candidates \<and> on_rung r c" unfolding r(2) set_rung by (simp add: case_prod_beta)
  then show ?thesis using r(1) by (auto simp: schedulable_rung list_ex_iff)
qed

text \<open>
  For every slot the scheduler selects a partition exactly when some candidate may run there:
  a partition in G1, G2 or G3 that is not experiment-only, or, in a G4 probe slot, an experiment-
  only partition of G4; an empty preferred pool falls back to the next one, so no slot is wasted.
\<close>

theorem selection_never_starves:
  "selectSchedulerCandidate candidates slot = None \<longleftrightarrow> \<not> list_ex (schedulable slot) candidates"
  by (simp add: selection_none list_ex_iff)

section \<open>Bounds\<close>

lemma rounded_mono: "x \<le> y \<Longrightarrow> rounded x \<le> rounded y"
  by (simp add: rounded_def js_round_def divide_right_mono floor_mono)

lemma rounded_int: "rounded (of_int i) = of_int i"
proof -
  have "\<lfloor>of_int i * 10 ^ 6 + 1 / 2 :: real\<rfloor> = i * 10 ^ 6" by (simp add: floor_unique)
  then show ?thesis by (simp add: rounded_def js_round_def)
qed

lemma rounded_between: "of_int a \<le> x \<Longrightarrow> x \<le> of_int b \<Longrightarrow> of_int a \<le> rounded x \<and> rounded x \<le> of_int b"
  using rounded_mono [of "of_int a" x] rounded_mono [of x "of_int b"] by (simp add: rounded_int)

lemma clamp_between: "lo \<le> hi \<Longrightarrow> lo \<le> clamp x lo hi \<and> clamp x lo hi \<le> hi"
  by (auto simp: clamp_def)

lemma softProductivityWeight_bounds:
  "- 450 \<le> softProductivityWeight e g CATEGORY \<and> softProductivityWeight e g CATEGORY \<le> 250"
  "- 250 \<le> softProductivityWeight e g FOLLOWER \<and> softProductivityWeight e g FOLLOWER \<le> 200"
proof -
  have "- 450 \<le> rounded (clamp x (- 450) 250) \<and> rounded (clamp x (- 450) 250) \<le> 250" for x
    using rounded_between [of "- 450" "clamp x (- 450) 250" 250] clamp_between [of "- 450" 250 x] by simp
  moreover have "- 250 \<le> rounded (clamp x (- 250) 200) \<and> rounded (clamp x (- 250) 200) \<le> 200" for x
    using rounded_between [of "- 250" "clamp x (- 250) 200" 200] clamp_between [of "- 250" 200 x] by simp
  ultimately show
    "- 450 \<le> softProductivityWeight e g CATEGORY \<and> softProductivityWeight e g CATEGORY \<le> 250"
    "- 250 \<le> softProductivityWeight e g FOLLOWER \<and> softProductivityWeight e g FOLLOWER \<le> 200"
    by (auto simp: softProductivityWeight_def Let_def split: option.split)
qed

text \<open>
  The score of any partition lies between -10000 and 3350; for a partition that is neither a
  V2 seed nor in G4 it is at least -1500, and at most 1050 when its branch is effectively dead,
  however high its yields are reported.
\<close>

theorem score_is_bounded:
  "- 10000 \<le> pr_score (scoreSchedulerPriority inp) \<and> pr_score (scoreSchedulerPriority inp) \<le> 3350 \<and>
   (sp_partitionType inp \<noteq> V2_SEED \<longrightarrow> sp_gmvBucket inp \<noteq> Some ''G4'' \<longrightarrow> - 1500 \<le> pr_score (scoreSchedulerPriority inp) \<and>
     (sp_branchClassification inp = EFFECTIVELY_DEAD \<longrightarrow> pr_score (scoreSchedulerPriority inp) \<le> 1050))"
proof -
  let ?c = "softProductivityWeight (sp_categoryEvidence inp) (sp_globalEvidence inp) CATEGORY"
  let ?f = "softProductivityWeight (sp_followerEvidence inp) (sp_globalEvidence inp) FOLLOWER"
  let ?s = "adaptive_score inp ?c ?f"
  have d: "0 \<le> depthSignal (sp_adaptiveDepth inp) \<and> depthSignal (sp_adaptiveDepth inp) \<le> 325" by (simp add: depthSignal_def)
  have k: "- 1800 \<le> classificationSignal (sp_branchClassification inp) \<and> classificationSignal (sp_branchClassification inp) \<le> 500"
    by (cases "sp_branchClassification inp") simp_all
  note y = clamp_between [of 0 "6 / 10" "or_zero (sp_expectedYield inp)"]
  note n = clamp_between [of 0 20 "or_zero (sp_expectedNewPerSuccessfulPage inp)"]
  have s: "- 1500 \<le> ?s \<and> ?s \<le> 3350"
    using d k y n softProductivityWeight_bounds [of "sp_categoryEvidence inp" "sp_globalEvidence inp"]
      softProductivityWeight_bounds [of "sp_followerEvidence inp" "sp_globalEvidence inp"]
    by (simp add: adaptive_score_def)
  have dead: "?s \<le> 1050" if "sp_branchClassification inp = EFFECTIVELY_DEAD"
    using d y n softProductivityWeight_bounds [of "sp_categoryEvidence inp" "sp_globalEvidence inp"]
      softProductivityWeight_bounds [of "sp_followerEvidence inp" "sp_globalEvidence inp"] that
    by (simp add: adaptive_score_def)
  have r: "- 1500 \<le> rounded ?s \<and> rounded ?s \<le> 3350" using rounded_between [of "- 1500" ?s 3350] s by simp
  have "rounded ?s \<le> 1050" if "sp_branchClassification inp = EFFECTIVELY_DEAD"
    using rounded_between [of "- 1500" ?s 1050] s dead [OF that] by simp
  then show ?thesis using r by (simp add: scoreSchedulerPriority_def seed_priority_def Let_def)
qed

section \<open>Witnesses\<close>

definition example_choice :: "ident \<Rightarrow> string \<Rightarrow> SchedulerClass \<Rightarrow> real \<Rightarrow> unit ScoredSchedulerCandidate" where
  "example_choice i g c score = \<lparr>sc_candidate = (), sc_priority = \<lparr>pr_schedulerClass = c, pr_score = score, pr_reason = [],
     pr_categoryWeight = 0, pr_followerWeight = 0\<rparr>, sc_queuePosition = 1, sc_id = i, sc_gmvBucket = Some g\<rparr>"

definition example_choices :: "unit ScoredSchedulerCandidate list" where
  "example_choices = [example_choice ''a'' ''G3'' LOW 900, example_choice ''b'' ''G1'' HIGH 800, example_choice ''c'' ''G2'' HIGH 1200]"

lemma example_selected: "selectSchedulerCandidate example_choices PRIMARY_PRODUCTIVE = Some (example_choice ''c'' ''G2'' HIGH 1200)"
  by (simp add: selectSchedulerCandidate_def selection_pools_def ordered_def in_bucket_def example_choices_def example_choice_def
      first_of_def candidate_cmp_def cmp_then_def cmp_by_def)

lemma selection_takes_the_best_witness:
  "\<exists>i < length (ladder PRIMARY_PRODUCTIVE). on_rung (ladder PRIMARY_PRODUCTIVE ! i) (example_choice ''c'' ''G2'' HIGH 1200)"
  using selection_takes_the_best [OF example_selected] by blast

definition example_child :: "ident \<Rightarrow> millis option \<Rightarrow> int \<Rightarrow> unit CategoryExplorationCandidate" where
  "example_child i sampled children = \<lparr>ce_candidate = (), ce_id = i, ce_categoryId = ''p'', ce_categoryChildId = i, ce_queuePosition = 1,
     ce_parentSampledChildren = children, ce_parentLastExplorationClaimAt = None, ce_parentSortOrder = 0,
     ce_childFirstSampledAt = sampled, ce_childLastSampledAt = sampled, ce_childLastExplorationClaimAt = None, ce_childSortOrder = 0\<rparr>"

lemma exploration_is_fair_witness:
  "ce_childFirstSampledAt (example_child ''y'' None 3) = None \<and>
   selectCategoryExplorationCandidate [example_child ''x'' (Some 5) 1, example_child ''y'' None 3] COVERAGE = Some (example_child ''y'' None 3)"
proof -
  have sel: "selectCategoryExplorationCandidate [example_child ''x'' (Some 5) 1, example_child ''y'' None 3] COVERAGE
    = Some (example_child ''y'' None 3)"
    by (simp add: selectCategoryExplorationCandidate_def exploration_pool_def first_of_def example_child_def)
  from exploration_is_fair [OF sel] have "ce_childFirstSampledAt (example_child ''y'' None 3) = None"
    by (simp add: example_child_def)
  with sel show ?thesis by simp
qed

definition example_dead :: SchedulerPriorityInput where
  "example_dead = \<lparr>sp_partitionType = ADAPTIVE_FOLLOWER, sp_adaptiveDepth = 3, sp_branchClassification = EFFECTIVELY_DEAD,
     sp_expectedYield = Some 1, sp_expectedNewPerSuccessfulPage = Some 30, sp_observedSaturated = True, sp_evidenceRows = Some 500,
     sp_gmvBucket = Some ''G1'', sp_categoryEvidence = \<lparr>pe_rows = 0, pe_newCreators = 0, pe_yield = None\<rparr>,
     sp_followerEvidence = \<lparr>pe_rows = 0, pe_newCreators = 0, pe_yield = None\<rparr>,
     sp_globalEvidence = \<lparr>pe_rows = 0, pe_newCreators = 0, pe_yield = None\<rparr>\<rparr>"

lemma score_is_bounded_witness: "pr_score (scoreSchedulerPriority example_dead) \<le> 1050"
  using score_is_bounded [of example_dead] by (simp add: example_dead_def)

end
