(* ===== verification/CrawlRows.thy ===== *)
theory CrawlRows
  imports Scheduler
begin

text \<open>
  The rows of the marketplace crawl (\<open>packages/db/prisma/schema.prisma\<close>): its job, the partitions it
  searches, the pages it has received, the category catalog and the log of events. Columns of a
  partition that are written together are records of their own. Decimal columns are real numbers,
  the payload of a page is the list of candidates it encodes, and \<open>createdAt\<close> and \<open>updatedAt\<close>, which
  order nothing here, are left out.
\<close>

datatype CreatorSyncState = IDLE | RUNNING | PAUSED | WAITING | EXHAUSTED | ERROR

datatype SyncPageState = RECEIVED | COMMITTED

datatype PartitionStatus = QUEUED | STARTING | RUNNING | WAITING_RETRY | SATURATED | SPLIT | COMPLETE | PAUSED | ERROR
  | SUPERSEDED | DEEPLY_SATURATED | DISABLED_BY_STRATEGY | EXPERIMENT_ONLY

text \<open>The types of a partition: those of production, and two that are no longer crawled.\<close>

datatype PartitionType = LEGACY | EXPERIMENT | Production ProductionPartitionType

record SchedulerColumns =
  sd_class :: "SchedulerClass option"
  sd_claimSequence :: "int option"
  sd_categoryRows :: "real option"
  sd_categoryYield :: "real option"
  sd_categoryWeight :: "real option"
  sd_followerRows :: "real option"
  sd_followerYield :: "real option"
  sd_followerWeight :: "real option"
  sd_ancestorYield :: "real option"
  sd_newPerSuccessfulPage :: "real option"
  sd_familyKey :: "string option"
  sd_g1G2FirstBucket :: "string option"
  sd_wasFirstG1G2Sibling :: bool
  sd_isG4Probe :: bool
  sd_wasCategoryExploration :: bool
  sd_coverageMode :: bool

record SplitColumns =
  sl_decisionReason :: "string option"
  sl_parentRows :: "int option"
  sl_parentUniqueRate :: "real option"
  sl_parentNewPerPage :: "real option"
  sl_parentObservedSaturated :: "bool option"

record SearchPartition =
  pt_id :: ident
  pt_creatorSyncJobId :: ident
  pt_partitionKey :: string
  pt_generation :: int
  pt_partitionType :: PartitionType
  pt_adaptiveDepth :: int
  pt_categoryId :: "ident option"
  pt_categoryName :: string
  pt_categoryChildId :: "ident option"
  pt_categoryChildName :: "string option"
  pt_categoryChildIds :: "ident list"
  pt_followerBucket :: "string option"
  pt_followersMin :: "int option"
  pt_followersMax :: "int option"
  pt_gmvBucket :: "string option"
  pt_gmvRange :: "string option"
  pt_parentPartitionId :: "ident option"
  pt_status :: PartitionStatus
  pt_queuePosition :: int
  pt_searchKey :: "string option"
  pt_nextPageToken :: "string option"
  pt_pagesCompleted :: int
  pt_rowsReturned :: int
  pt_uniqueCreatorsAdded :: int
  pt_duplicates :: int
  pt_marketplaceRequests :: int
  pt_throttleAttempts :: int
  pt_newCreatorsPerRequest :: "real option"
  pt_duplicateRate :: "real option"
  pt_originalYield :: "real option"
  pt_incrementalYield :: "real option"
  pt_combinedChildIncrementalYield :: "real option"
  pt_observedSaturationState :: ObservedSaturationState
  pt_branchClassification :: BranchClassification
  pt_mayStillBeDense :: bool
  pt_followerSplitExplored :: bool
  pt_followerRecursionTerminal :: bool
  pt_followerRecursionStopReason :: "string option"
  pt_gmvSplitCreated :: bool
  pt_priorityScore :: real
  pt_priorityReason :: "string option"
  pt_priorityUpdatedAt :: "millis option"
  pt_scheduler :: SchedulerColumns
  pt_split :: SplitColumns
  pt_businessRetryCount :: int
  pt_businessRetryPage :: "int option"
  pt_startedAt :: "millis option"
  pt_completedAt :: "millis option"
  pt_lastRequestAt :: "millis option"
  pt_lastSuccessAt :: "millis option"
  pt_lastError :: "string option"

record SyncJob =
  cj_id :: ident
  cj_shopId :: ident
  cj_state :: CreatorSyncState
  cj_searchKey :: "string option"
  cj_nextPageToken :: "string option"
  cj_pagesCompleted :: int
  cj_creatorsFetched :: int
  cj_creatorsFetchedThisRun :: int
  cj_pauseRequested :: bool
  cj_marketplaceRetryDelaySeconds :: int
  cj_nextAttemptAt :: "millis option"
  cj_startedAt :: "millis option"
  cj_lastPageAt :: "millis option"
  cj_lastSuccessAt :: "millis option"
  cj_lastError :: "string option"
  cj_lastProviderCode :: "string option"
  cj_currentStage :: string
  cj_lastAttemptAt :: "millis option"
  cj_lastResponseAt :: "millis option"
  cj_lastAttemptPage :: "int option"
  cj_lastHttpStatus :: "int option"
  cj_lastTikTokCode :: "string option"
  cj_lastSafeError :: "string option"
  cj_lastCreatorsReturned :: "int option"
  cj_lastCreatorsAdded :: "int option"
  cj_lastDuplicates :: "int option"
  cj_spreadsheetId :: string
  cj_sheetImportedAt :: "millis option"
  cj_leaseId :: "ident option"
  cj_leaseExpiresAt :: "millis option"
  cj_currentPartitionId :: "ident option"
  cj_crawlerGeneration :: int
  cj_partitionClaimSequence :: int
  cj_categoryCoverageCompletedAt :: "millis option"

record SyncPage =
  sg_id :: ident
  sg_creatorSyncJobId :: ident
  sg_creatorSearchPartitionId :: "ident option"
  sg_state :: SyncPageState
  sg_pageNumber :: int
  sg_requestToken :: string
  sg_nextToken :: "string option"
  sg_searchKey :: string
  sg_providerHasMore :: bool
  sg_creatorsReturned :: int
  sg_newUniqueCreators :: "int option"
  sg_duplicateRows :: "int option"
  sg_newCreatorOpenIds :: "ident list"
  sg_payload :: "CreatorCandidate list"
  sg_databasePersistedAt :: "millis option"
  sg_sheetsAttemptCount :: int
  sg_nextSheetsAttemptAt :: "millis option"
  sg_sheetsFirstFailureAt :: "millis option"
  sg_sheetsLastAttemptAt :: "millis option"
  sg_lastSheetsHttpStatus :: "int option"
  sg_lastSheetsApiCode :: "string option"
  sg_lastSheetsRetryable :: "bool option"
  sg_lastSheetsError :: "string option"
  sg_receivedAt :: millis
  sg_committedAt :: "millis option"

record MarketplaceCategory =
  mc_shopId :: ident
  mc_categoryId :: ident
  mc_categoryName :: string
  mc_parentCategoryId :: "ident option"
  mc_level :: int
  mc_enabledForCreatorCrawl :: bool
  mc_availableForCreatorFilter :: bool
  mc_sortOrder :: int
  mc_isLeaf :: bool
  mc_creatorFirstSampledAt :: "millis option"
  mc_creatorLastSampledAt :: "millis option"
  mc_creatorExplorationClaimCount :: int
  mc_creatorLastExplorationClaimAt :: "millis option"
  mc_fetchedAt :: millis

record SyncEvent =
  se_creatorSyncJobId :: ident
  se_creatorSearchPartitionId :: "ident option"
  se_partitionKey :: "string option"
  se_partitionLabel :: "string option"
  se_stage :: string
  se_pageNumber :: "int option"
  se_httpStatus :: "int option"
  se_tiktokCode :: "string option"
  se_googleApiCode :: "string option"
  se_retryable :: "bool option"
  se_safeMessage :: "string option"
  se_creatorsReturned :: "int option"
  se_creatorsAdded :: "int option"
  se_duplicates :: "int option"
  se_nextAttemptAt :: "millis option"
  se_occurredAt :: millis

record CrawlTables =
  cw_jobs :: "SyncJob list"
  cw_partitions :: "SearchPartition list"
  cw_pages :: "SyncPage list"
  cw_categories :: "MarketplaceCategory list"
  cw_events :: "SyncEvent list"

definition no_crawl :: CrawlTables where
  "no_crawl = \<lparr>cw_jobs = [], cw_partitions = [], cw_pages = [], cw_categories = [], cw_events = []\<rparr>"

text \<open>What a search of the marketplace returns, and why the spreadsheet or the database refused.\<close>

record SearchPage =
  sr_creators :: "CreatorCandidate list"
  sr_nextPageToken :: "string option"
  sr_searchKey :: "string option"
  sr_hasMore :: bool

record SheetsFailure =
  gf_httpStatus :: "int option"
  gf_googleApiCode :: "string option"
  gf_retryable :: bool
  gf_safeReason :: "string option"

record DatabaseFailure =
  df_constraint :: "string option"
  df_field :: "string option"
  df_recordNumber :: "int option"
  df_totalRecords :: "int option"

end
