(* ===== verification/Store.thy ===== *)
theory Store
  imports Domain Throttle CrawlRows
begin

text \<open>
  The state the outreach services share: the rows of the database (\<open>packages/db/prisma/schema.prisma\<close>,
  the columns the modelled code reads or writes), the errors a call can throw, transactions, and
  programs whose database statements may interleave with those of other programs. A transaction
  is a function from the tables to an error or a result with new tables. A program is a tree of
  atomic actions; each sees the environment (clock, fresh identifiers, the answers of the provider
  and of the queue) and the world of that moment, so a run of several programs is an interleaving
  of their actions.
\<close>

section \<open>Rows\<close>

datatype Json = JNull | JBool bool | JNum real | JStr string | JArr "Json list" | JObj "(string \<times> Json) list"

text \<open>
  JSON objects: setting a key keeps its place, \<open>undefined\<close> fields are left out, and a value that is
  no object counts as an empty one.
\<close>

fun obj_put :: "string \<Rightarrow> Json \<Rightarrow> (string \<times> Json) list \<Rightarrow> (string \<times> Json) list" where
  "obj_put k v [] = [(k, v)]"
| "obj_put k v ((k', v') # xs) = (if k' = k then (k, v) # xs else (k', v') # obj_put k v xs)"

definition object_fields :: "Json \<Rightarrow> (string \<times> Json) list" where
  "object_fields j = (case j of JObj fs \<Rightarrow> fs | _ \<Rightarrow> [])"

definition json_opt :: "string \<Rightarrow> ('a \<Rightarrow> Json) \<Rightarrow> 'a option \<Rightarrow> (string \<times> Json) list" where
  "json_opt k f v = (case v of None \<Rightarrow> [] | Some a \<Rightarrow> [(k, f a)])"

text \<open>A candidate as JSON, the fields that are \<open>undefined\<close> or \<open>null\<close> left out.\<close>

definition money_json :: "Money \<Rightarrow> Json" where
  "money_json m = JObj [(''amount'', JStr (m_amount m)), (''currency'', JStr (m_currency m))]"

definition candidate_fields :: "'a CreatorCandidate_scheme \<Rightarrow> (string \<times> Json) list" where
  "candidate_fields e =
    [(''creatorOpenId'', JStr (cc_creatorOpenId e))] @ json_opt ''creatorUserId'' JStr (cc_creatorUserId e)
    @ json_opt ''username'' JStr (cc_username e) @ json_opt ''nickname'' JStr (cc_nickname e)
    @ json_opt ''avatarUrl'' JStr (cc_avatarUrl e) @ [(''categoryIds'', JArr (map JStr (cc_categoryIds e)))]
    @ json_opt ''followerCount'' JNum (cc_followerCount e) @ json_opt ''gmv'' money_json (cc_gmv e)
    @ json_opt ''unitsSold'' JNum (cc_unitsSold e) @ json_opt ''avgVideoViews'' JNum (cc_avgVideoViews e)
    @ json_opt ''avgLiveViewers'' JNum (cc_avgLiveViewers e) @ json_opt ''engagementRate'' JNum (cc_engagementRate e)
    @ json_opt ''liveGmv'' money_json (cc_liveGmv e) @ json_opt ''videoGmv'' money_json (cc_videoGmv e)
    @ json_opt ''gmvRange'' JStr (cc_gmvRange e) @ json_opt ''topAgeRanges'' (JArr \<circ> map JStr) (cc_topAgeRanges e)
    @ json_opt ''majorGender'' JStr (cc_majorGender e) @ json_opt ''majorGenderPercentage'' JNum (cc_majorGenderPercentage e)
    @ [(''selectionRegion'', JStr (cc_selectionRegion e)), (''discoveryOrdinal'', JNum (of_int (cc_discoveryOrdinal e)))]"

datatype HistorySyncState = QUEUED | RUNNING | BACKING_OFF | PAUSED | COMPLETE | FAILED

datatype HistorySyncMode = INITIAL_BACKFILL | INCREMENTAL

datatype HistorySyncPassKind = BACKFILL | HEAD | INCREMENTAL

datatype HistorySyncPhase = LIST | MESSAGES

datatype HistoryConversationWorkState = QUEUED | RUNNING | COMPLETE

datatype DiscoveryRunState = QUEUED | RUNNING | BACKING_OFF | COMPLETE | FAILED | CANCELLED

datatype CampaignState = DRAFT | DISCOVERING | PREVIEW_READY | PREVIEW_EXPIRED | FROZEN | QUEUED | RUNNING
  | PAUSE_REQUESTED | PAUSED | SAFETY_PAUSED | COMPLETED | COMPLETED_WITH_ERRORS | CANCELLED

datatype RecipientState = DISCOVERED | ELIGIBLE | SELECTED | RESERVED | QUEUED | PROCESSING | SENT | FAILED
  | RESTRICTED | DELIVERY_UNKNOWN | DELIVERY_UNKNOWN_UNRESOLVED | CANCELLED

datatype DeliveryState = PENDING | DISPATCHING | SENT | FAILED_RETRYABLE | FAILED_TERMINAL | RESTRICTED
  | DELIVERY_UNKNOWN | DELIVERY_UNKNOWN_UNRESOLVED | CANCELLED

datatype OutboxState = PENDING | ENQUEUED | COMPLETED | SAFETY_PAUSED

datatype ReconciliationState = PENDING | MATCHED | UNRESOLVED

record Shop =
  sh_id :: ident
  sh_timezone :: string
  sh_maxRecipientsPerCampaign :: int

record Creator =
  cr_id :: ident
  cr_creatorOpenId :: "ident option"
  cr_username :: "string option"
  cr_nickname :: "string option"
  cr_creatorUserId :: "ident option"
  cr_avatarUrl :: "string option"
  cr_selectionRegion :: string
  cr_creatorImId :: "ident option"
  cr_profileUri :: "string option"

record Contact =
  ct_shopId :: ident
  ct_creatorId :: ident
  ct_firstContactedAt :: "millis option"
  ct_lastContactedAt :: "millis option"
  ct_contactCount :: int
  ct_lastCampaignId :: "ident option"
  ct_lastDeliveryId :: "ident option"
  ct_doNotContact :: bool
  ct_unresolvedDelivery :: bool
  ct_historyCoverageStart :: "millis option"
  ct_latestReplyStatus :: string

record Conversation =
  cv_id :: ident
  cv_shopId :: ident
  cv_creatorId :: ident
  cv_externalConversationId :: ident
  cv_unreadCount :: int
  cv_lastSyncedAt :: "millis option"

record ConversationMessage =
  ms_conversationId :: ident
  ms_externalMessageId :: ident
  ms_direction :: Direction
  ms_content :: string
  ms_contentHash :: string
  ms_providerCreatedAt :: millis
  ms_importSource :: string

record HistoricalFact =
  hf_shopId :: ident
  hf_creatorOpenId :: "ident option"
  hf_sendStatus :: string
  hf_resolutionState :: string
  hf_identityKey :: string
  hf_externalMessageId :: "ident option"
  hf_contactedAt :: millis

record Campaign =
  ca_id :: ident
  ca_shopId :: ident
  ca_name :: string
  ca_productName :: string
  ca_targetCount :: int
  ca_candidateLimit :: int
  ca_cooldownDays :: int
  ca_messageTemplate :: string
  ca_filters :: CreatorFilters
  ca_rankingMetric :: RankingMetric
  ca_rankingDirection :: RankingDirection
  ca_state :: CampaignState
  ca_version :: int
  ca_summary :: Json
  ca_frozenAt :: "millis option"
  ca_freezeExpiresAt :: "millis option"
  ca_frozenFilters :: "(CreatorFilters \<times> int) option"
  ca_frozenTemplate :: "string option"
  ca_frozenContext :: "Json option"
  ca_dispatchCount :: int
  ca_safetyPauseReason :: "string option"

record Recipient =
  rc_id :: ident
  rc_campaignId :: ident
  rc_creatorId :: ident
  rc_discoveryOrdinal :: int
  rc_eligibility :: Eligibility
  rc_skipReason :: "string option"
  rc_skipDetail :: "string option"
  rc_rankingValue :: real
  rc_selected :: bool
  rc_frozenMessage :: "string option"
  rc_contentHash :: "string option"
  rc_creatorOpenIdSnapshot :: "ident option"
  rc_recipientSnapshot :: "Json option"
  rc_frozenRank :: "int option"
  rc_state :: RecipientState
  rc_snapshotId :: ident

record Reservation =
  rv_shopId :: ident
  rv_creatorId :: ident
  rv_campaignRecipientId :: ident
  rv_expiresAt :: millis

record Delivery =
  dl_id :: ident
  dl_campaignId :: ident
  dl_campaignRecipientId :: ident
  dl_conversationId :: "ident option"
  dl_deterministicKey :: string
  dl_contentHash :: string
  dl_state :: DeliveryState
  dl_externalMessageId :: "ident option"
  dl_providerRequestId :: "ident option"
  dl_attemptCount :: int
  dl_lastAttemptedAt :: "millis option"
  dl_firstDispatchedAt :: "millis option"
  dl_sentAt :: "millis option"
  dl_lastErrorCode :: "string option"
  dl_lastErrorDetail :: "string option"

record OutboxEntry =
  ob_id :: ident
  ob_campaignId :: ident
  ob_deliveryId :: ident
  ob_recipientId :: ident
  ob_deterministicJobId :: string
  ob_state :: OutboxState
  ob_enqueueAttempts :: int
  ob_availableAt :: millis
  ob_enqueuedAt :: "millis option"
  ob_lastError :: "string option"

record Attempt =
  at_id :: ident
  at_deliveryId :: ident
  at_attemptNumber :: int
  at_outcome :: string
  at_providerCode :: "string option"
  at_providerHttpStatus :: "int option"
  at_providerRequestId :: "ident option"
  at_startedAt :: millis
  at_completedAt :: "millis option"

record ReconciliationRun =
  rr_deliveryId :: ident
  rr_attemptNumber :: int
  rr_state :: ReconciliationState
  rr_matchedMessageId :: "ident option"
  rr_evidence :: Json
  rr_scheduledFor :: millis
  rr_completedAt :: "millis option"

record DispatchEvent =
  de_shopId :: ident
  de_campaignId :: ident
  de_deliveryId :: ident
  de_dispatchedAt :: millis

record DailyUsage =
  du_shopId :: ident
  du_shopDate :: millis
  du_dispatchCount :: int

record AuditEvent =
  au_shopId :: ident
  au_campaignId :: "ident option"
  au_eventType :: string
  au_payload :: Json

text \<open>
  What a preview is built from. The amount of a snapshot is the text its decimal prints; a stored
  candidate is the JSON of a creator candidate, which may name the snapshot it was taken from.
\<close>

record Snapshot =
  sn_id :: ident
  sn_creatorId :: ident
  sn_shopId :: "ident option"
  sn_followerCount :: "real option"
  sn_categoryIds :: Json
  sn_gmvAmount :: "string option"
  sn_gmvCurrency :: "string option"
  sn_unitsSold :: "real option"
  sn_avgVideoViews :: "real option"
  sn_avgLiveViewers :: "real option"
  sn_engagementRate :: "real option"
  sn_metrics :: Json
  sn_rawPayload :: Json
  sn_sourceFetchedAt :: millis
  sn_sourcePageKey :: "string option"

record ProviderIdentity =
  pv_creatorId :: ident
  pv_provider :: string
  pv_identityType :: string
  pv_identifier :: ident
  pv_linkState :: string
  pv_evidenceType :: string

record IdentityAudit =
  ia_action :: string
  ia_sourceCreatorId :: ident
  ia_targetCreatorId :: "ident option"
  ia_evidenceType :: string
  ia_evidence :: Json

record StoredCandidate = CreatorCandidate +
  dc_snapshotId :: "ident option"

record DiscoveryRun =
  dr_id :: ident
  dr_campaignId :: ident
  dr_shopId :: ident
  dr_state :: DiscoveryRunState
  dr_requestedTarget :: int
  dr_candidateLimit :: int
  dr_pagesFetched :: int
  dr_candidatesFetched :: int
  dr_nextAttemptAt :: "millis option"
  dr_consecutiveThrottleCount :: int
  dr_totalProviderRequests :: int
  dr_lastProviderCode :: "string option"
  dr_failureCategory :: "string option"
  dr_providerHasMore :: bool
  dr_leaseId :: "ident option"
  dr_leaseExpiresAt :: "millis option"
  dr_createdAt :: millis
  dr_updatedAt :: millis
  dr_completedAt :: "millis option"

record DiscoveryCandidate =
  dk_discoveryRunId :: ident
  dk_creatorOpenId :: ident
  dk_discoveryOrdinal :: int
  dk_candidate :: StoredCandidate

text \<open>The import of the conversation history: one job per shop, and the conversations of a page.\<close>

record HistoryJob =
  hj_id :: ident
  hj_shopId :: ident
  hj_state :: HistorySyncState
  hj_mode :: HistorySyncMode
  hj_passKind :: HistorySyncPassKind
  hj_phase :: HistorySyncPhase
  hj_pageSequence :: int
  hj_pagesProcessed :: int
  hj_conversationsDiscovered :: int
  hj_conversationsImported :: int
  hj_conversationsCompleted :: int
  hj_messagesImported :: int
  hj_totalProviderRequests :: int
  hj_consecutiveFailureCount :: int
  hj_cursorRecoveryCount :: int
  hj_backfillPagesSinceHead :: int
  hj_incrementalPageIndex :: int
  hj_backfillPageToken :: "string option"
  hj_incrementalPageToken :: "string option"
  hj_pendingNextPageToken :: "string option"
  hj_pendingHasMore :: "bool option"
  hj_lastProviderCode :: "string option"
  hj_lastErrorCategory :: "string option"
  hj_lastSuccessfulProviderRequestAt :: "millis option"
  hj_nextAttemptAt :: "millis option"
  hj_leaseOwner :: "ident option"
  hj_leaseExpiresAt :: "millis option"
  hj_startedAt :: "millis option"
  hj_initialCompletedAt :: "millis option"
  hj_completedAt :: "millis option"
  hj_createdAt :: millis

record HistoryWork =
  hw_id :: ident
  hw_historySyncJobId :: ident
  hw_pageSequence :: int
  hw_externalConversationId :: ident
  hw_creatorImId :: ident
  hw_username :: "string option"
  hw_avatarUrl :: "string option"
  hw_unreadCount :: int
  hw_state :: HistoryConversationWorkState
  hw_messagePageToken :: "string option"
  hw_messagesImported :: int
  hw_providerRequests :: int
  hw_completedAt :: "millis option"
  hw_createdAt :: millis

record SyncRun =
  sy_shopId :: ident
  sy_source :: string
  sy_state :: string
  sy_conversationsScanned :: int
  sy_messagesImported :: int
  sy_startedAt :: "millis option"
  sy_completedAt :: "millis option"

record Tables =
  tb_shops :: "Shop list"
  tb_creators :: "Creator list"
  tb_contacts :: "Contact list"
  tb_conversations :: "Conversation list"
  tb_messages :: "ConversationMessage list"
  tb_facts :: "HistoricalFact list"
  tb_campaigns :: "Campaign list"
  tb_recipients :: "Recipient list"
  tb_reservations :: "Reservation list"
  tb_deliveries :: "Delivery list"
  tb_outbox :: "OutboxEntry list"
  tb_attempts :: "Attempt list"
  tb_runs :: "ReconciliationRun list"
  tb_dispatches :: "DispatchEvent list"
  tb_usage :: "DailyUsage list"
  tb_audit :: "AuditEvent list"
  tb_governed :: Governed
  tb_snapshots :: "Snapshot list"
  tb_identities :: "ProviderIdentity list"
  tb_discoveryRuns :: "DiscoveryRun list"
  tb_candidates :: "DiscoveryCandidate list"
  tb_identityAudits :: "IdentityAudit list"
  tb_historyJobs :: "HistoryJob list"
  tb_historyWork :: "HistoryWork list"
  tb_syncRuns :: "SyncRun list"
  tb_crawl :: CrawlTables

section \<open>Errors and answers of the provider\<close>

datatype OutboundErrorKind = AUTH | PERMISSION | QUOTA | RESTRICTED | RETRYABLE | PROVIDER | MALFORMED_RESPONSE

record OutboundError =
  oer_kind :: OutboundErrorKind
  oer_providerCode :: "int option"
  oer_requestId :: "ident option"
  oer_message :: string
  oer_retryAfterMs :: "int option"
  oer_httpStatus :: "int option"

text \<open>The errors of the read adapter, and what its conversation and message pages hold.\<close>

datatype TikTokReadOperation = GET_AUTHORIZED_SHOPS | GET_CATEGORIES | SEARCH_CREATORS | GET_CREATOR_PERFORMANCE
  | LIST_CONVERSATIONS | LIST_MESSAGES

record TikTokApiError =
  te_kind :: string
  te_operation :: TikTokReadOperation
  te_httpStatus :: "int option"
  te_providerCode :: "int option"
  te_requestId :: "ident option"
  te_message :: string
  te_retryAfterMs :: "int option"
  te_nextPermittedAt :: "millis option"
  te_locallyBlocked :: bool

record ProviderConversation =
  pc_id :: ident
  pc_creatorOpenId :: "ident option"
  pc_creatorImId :: ident
  pc_username :: "string option"
  pc_avatarUrl :: "string option"
  pc_unreadCount :: "int option"

record ProviderMessage =
  pm_id :: ident
  pm_direction :: Direction
  pm_content :: string
  pm_createdAt :: millis

record 'a ProviderPage =
  pp_items :: "'a list"
  pp_nextPageToken :: "string option"
  pp_hasMore :: bool

definition no_page :: "'a ProviderPage" where
  "no_page = \<lparr>pp_items = [], pp_nextPageToken = None, pp_hasMore = False\<rparr>"

datatype HttpKind = BadRequest | NotFound | Conflict | Unprocessable | ServiceUnavailable

text \<open>
  What a call can throw: an error of the database client, a lost connection, an error of the
  outbound or the read adapter, an HTTP exception, \<open>DelayedError\<close> (the job was moved to be run again after the
  delay) and any other \<open>Error\<close> with its message. \<open>Stopped\<close> is no error of the code: it cuts off a
  run in a loop that would go on, and nothing catches it.
\<close>

datatype Err = DbError db_error | DbUnavailable | AdapterError OutboundError | ReadError TikTokApiError | HttpError HttpKind string
  | Delayed int | PlainError string | SheetsError SheetsFailure | PersistenceError DatabaseFailure | StageError string string | Stopped

datatype SendMessageResult =
    MessageSent ident ident "int option"
  | MessageUnknown ident "int option"
  | RetryableResult ident string "int option" "int option"
  | QuotaLimited ident string "int option" "int option"
  | MessageRestricted ident string "int option"

text \<open>
  What became of a request to send a message: an answer of the adapter, an error thrown by it, or
  any other error. The adapter reports a refusal when it asks for a retry or reports a quota, or throws an
  error of authorization, permission or quota; which answers of the provider these are says \<open>Adapter\<close>.
  Whether a message the provider has refused arrived nonetheless the program cannot know, and nothing is assumed of it.
\<close>

datatype SendOutcome = Answered SendMessageResult | Threw Err

fun refused :: "SendOutcome \<Rightarrow> bool" where
  "refused (Answered (RetryableResult _ _ _ _)) \<longleftrightarrow> True"
| "refused (Answered (QuotaLimited _ _ _ _)) \<longleftrightarrow> True"
| "refused (Answered _) \<longleftrightarrow> False"
| "refused (Threw (AdapterError e)) \<longleftrightarrow> oer_kind e \<in> {AUTH, PERMISSION, QUOTA}"
| "refused (Threw _) \<longleftrightarrow> False"

section \<open>Transactions\<close>

type_synonym 'a tx = "Tables \<Rightarrow> Err + 'a \<times> Tables"

definition tx_return :: "'a \<Rightarrow> 'a tx" where "tx_return a db = Inr (a, db)"

definition tx_throw :: "Err \<Rightarrow> 'a tx" where "tx_throw e db = Inl e"

definition tx_bind :: "'a tx \<Rightarrow> ('a \<Rightarrow> 'b tx) \<Rightarrow> 'b tx" where
  "tx_bind t k db = (case t db of Inl e \<Rightarrow> Inl e | Inr (a, db') \<Rightarrow> k a db')"

definition tx_read :: "(Tables \<Rightarrow> 'a) \<Rightarrow> 'a tx" where "tx_read f db = Inr (f db, db)"

definition tx_modify :: "(Tables \<Rightarrow> Tables) \<Rightarrow> unit tx" where "tx_modify f db = Inr ((), f db)"

definition tx_guard :: "bool \<Rightarrow> Err \<Rightarrow> unit tx" where
  "tx_guard b e db = (if b then Inr ((), db) else Inl e)"

fun tx_seq :: "unit tx list \<Rightarrow> unit tx" where
  "tx_seq [] = tx_return ()"
| "tx_seq (t # ts) = tx_bind t (\<lambda>_. tx_seq ts)"

fun tx_each :: "('a \<Rightarrow> unit tx) \<Rightarrow> 'a list \<Rightarrow> unit tx" where
  "tx_each f [] = tx_return ()"
| "tx_each f (a # as) = tx_bind (f a) (\<lambda>_. tx_each f as)"

text \<open>\<open>update\<close> and \<open>findUniqueOrThrow\<close> fail on a missing row; \<open>updateMany\<close> and \<open>deleteMany\<close> do not.\<close>

definition tx_found :: "'a option \<Rightarrow> 'a tx" where
  "tx_found r db = (case r of None \<Rightarrow> Inl (DbError RecordNotFound) | Some a \<Rightarrow> Inr (a, db))"

definition find_campaign :: "ident \<Rightarrow> Tables \<Rightarrow> Campaign option" where
  "find_campaign i db = List.find (\<lambda>c. ca_id c = i) (tb_campaigns db)"

definition find_recipient :: "ident \<Rightarrow> Tables \<Rightarrow> Recipient option" where
  "find_recipient i db = List.find (\<lambda>r. rc_id r = i) (tb_recipients db)"

definition find_delivery :: "ident \<Rightarrow> Tables \<Rightarrow> Delivery option" where
  "find_delivery i db = List.find (\<lambda>d. dl_id d = i) (tb_deliveries db)"

definition delivery_of :: "ident \<Rightarrow> Tables \<Rightarrow> Delivery option" where
  "delivery_of recipientId db = List.find (\<lambda>d. dl_campaignRecipientId d = recipientId) (tb_deliveries db)"

definition find_reservation :: "ident \<Rightarrow> Tables \<Rightarrow> Reservation option" where
  "find_reservation recipientId db = List.find (\<lambda>r. rv_campaignRecipientId r = recipientId) (tb_reservations db)"

definition find_contact :: "ident \<Rightarrow> ident \<Rightarrow> Tables \<Rightarrow> Contact option" where
  "find_contact shopId creatorId db =
    List.find (\<lambda>c. ct_shopId c = shopId \<and> ct_creatorId c = creatorId) (tb_contacts db)"

definition find_creator :: "ident \<Rightarrow> Tables \<Rightarrow> Creator option" where
  "find_creator i db = List.find (\<lambda>c. cr_id c = i) (tb_creators db)"

definition find_shop :: "ident \<Rightarrow> Tables \<Rightarrow> Shop option" where
  "find_shop i db = List.find (\<lambda>s. sh_id s = i) (tb_shops db)"

definition find_conversation :: "ident \<Rightarrow> Tables \<Rightarrow> Conversation option" where
  "find_conversation i db = List.find (\<lambda>c. cv_id c = i) (tb_conversations db)"

definition update_campaign :: "ident \<Rightarrow> (Campaign \<Rightarrow> Campaign) \<Rightarrow> unit tx" where
  "update_campaign i f db = (case find_campaign i db of None \<Rightarrow> Inl (DbError RecordNotFound)
     | Some _ \<Rightarrow> Inr ((), db\<lparr>tb_campaigns := upd_where (\<lambda>c. ca_id c = i) f (tb_campaigns db)\<rparr>))"

definition update_recipient :: "ident \<Rightarrow> (Recipient \<Rightarrow> Recipient) \<Rightarrow> unit tx" where
  "update_recipient i f db = (case find_recipient i db of None \<Rightarrow> Inl (DbError RecordNotFound)
     | Some _ \<Rightarrow> Inr ((), db\<lparr>tb_recipients := upd_where (\<lambda>r. rc_id r = i) f (tb_recipients db)\<rparr>))"

definition update_delivery :: "ident \<Rightarrow> (Delivery \<Rightarrow> Delivery) \<Rightarrow> unit tx" where
  "update_delivery i f db = (case find_delivery i db of None \<Rightarrow> Inl (DbError RecordNotFound)
     | Some _ \<Rightarrow> Inr ((), db\<lparr>tb_deliveries := upd_where (\<lambda>d. dl_id d = i) f (tb_deliveries db)\<rparr>))"

definition update_attempt :: "ident \<Rightarrow> (Attempt \<Rightarrow> Attempt) \<Rightarrow> unit tx" where
  "update_attempt i f db = (if List.find (\<lambda>a. at_id a = i) (tb_attempts db) = None then Inl (DbError RecordNotFound)
     else Inr ((), db\<lparr>tb_attempts := upd_where (\<lambda>a. at_id a = i) f (tb_attempts db)\<rparr>))"

definition update_run :: "ident \<Rightarrow> int \<Rightarrow> (ReconciliationRun \<Rightarrow> ReconciliationRun) \<Rightarrow> unit tx" where
  "update_run i n f db =
    (if List.find (\<lambda>r. rr_deliveryId r = i \<and> rr_attemptNumber r = n) (tb_runs db) = None then Inl (DbError RecordNotFound)
     else Inr ((), db\<lparr>tb_runs := upd_where (\<lambda>r. rr_deliveryId r = i \<and> rr_attemptNumber r = n) f (tb_runs db)\<rparr>))"

definition update_campaigns :: "(Campaign \<Rightarrow> bool) \<Rightarrow> (Campaign \<Rightarrow> Campaign) \<Rightarrow> unit tx" where
  "update_campaigns P f = tx_modify (\<lambda>db. db\<lparr>tb_campaigns := upd_where P f (tb_campaigns db)\<rparr>)"

definition update_recipients :: "(Recipient \<Rightarrow> bool) \<Rightarrow> (Recipient \<Rightarrow> Recipient) \<Rightarrow> unit tx" where
  "update_recipients P f = tx_modify (\<lambda>db. db\<lparr>tb_recipients := upd_where P f (tb_recipients db)\<rparr>)"

definition update_outbox :: "(OutboxEntry \<Rightarrow> bool) \<Rightarrow> (OutboxEntry \<Rightarrow> OutboxEntry) \<Rightarrow> unit tx" where
  "update_outbox P f = tx_modify (\<lambda>db. db\<lparr>tb_outbox := upd_where P f (tb_outbox db)\<rparr>)"

definition delete_reservations :: "(Reservation \<Rightarrow> bool) \<Rightarrow> unit tx" where
  "delete_reservations P = tx_modify (\<lambda>db. db\<lparr>tb_reservations := del_where P (tb_reservations db)\<rparr>)"

definition audit :: "ident \<Rightarrow> ident \<Rightarrow> string \<Rightarrow> Json \<Rightarrow> unit tx" where
  "audit shopId campaignId eventType payload = tx_modify (\<lambda>db. db\<lparr>tb_audit := tb_audit db @
     [\<lparr>au_shopId = shopId, au_campaignId = Some campaignId, au_eventType = eventType, au_payload = payload\<rparr>]\<rparr>)"

text \<open>The upsert of a contact: the update on an existing row, else the row to create.\<close>

definition upsert_contact :: "ident \<Rightarrow> ident \<Rightarrow> (Contact \<Rightarrow> Contact) \<Rightarrow> Contact \<Rightarrow> unit tx" where
  "upsert_contact shopId creatorId f new = tx_modify (\<lambda>db. db\<lparr>tb_contacts :=
     (if find_contact shopId creatorId db = None then tb_contacts db @ [new]
      else upd_where (\<lambda>c. ct_shopId c = shopId \<and> ct_creatorId c = creatorId) f (tb_contacts db))\<rparr>)"

definition new_contact :: "ident \<Rightarrow> ident \<Rightarrow> Contact" where
  "new_contact shopId creatorId = \<lparr>ct_shopId = shopId, ct_creatorId = creatorId, ct_firstContactedAt = None,
     ct_lastContactedAt = None, ct_contactCount = 0, ct_lastCampaignId = None, ct_lastDeliveryId = None,
     ct_doNotContact = False, ct_unresolvedDelivery = False, ct_historyCoverageStart = None,
     ct_latestReplyStatus = ''NONE''\<rparr>"

section \<open>Programs\<close>

record Job =
  jb_name :: string
  jb_jobId :: string
  jb_target :: ident
  jb_attemptNumber :: int
  jb_delay :: int

text \<open>
  The world: the tables, the jobs handed to the queue, and the requests to send a message that were made, each with
  its delivery and its outcome. The last list is not state of the program; it records what was asked of the provider.
\<close>

record World =
  w_tables :: Tables
  w_jobs :: "Job list"
  w_requests :: "(ident \<times> SendOutcome) list"

record Env =
  e_now :: millis
  e_fresh :: "nat \<Rightarrow> ident"
  e_random :: real
  e_dbDown :: bool
  e_queueDown :: "string option"
  e_jobState :: "string option"
  e_conversation :: "Err + ident"
  e_send :: SendOutcome
  e_conversations :: "string option \<Rightarrow> Err + ProviderConversation ProviderPage"
  e_messages :: "ident \<Rightarrow> ident \<Rightarrow> string option \<Rightarrow> Err + ProviderMessage ProviderPage"
  e_search :: "CreatorFilters \<Rightarrow> string option \<Rightarrow> string option \<Rightarrow> Err + SearchPage"
  e_readSheet :: "string \<Rightarrow> Err + CreatorCandidate list"
  e_reconcileSheet :: "string \<Rightarrow> CreatorCandidate list \<Rightarrow> Err + unit"

datatype 'a prog = Return 'a | Throw Err | Act "Env \<Rightarrow> World \<Rightarrow> 'a prog \<times> World"

primrec p_bind :: "'a prog \<Rightarrow> ('a \<Rightarrow> 'b prog) \<Rightarrow> 'b prog" where
  "p_bind (Return a) k = k a"
| "p_bind (Throw e) k = Throw e"
| "p_bind (Act f) k = Act (\<lambda>env w. map_prod (\<lambda>p. p_bind p k) id (f env w))"

primrec p_catch :: "'a prog \<Rightarrow> (Err \<Rightarrow> 'a prog) \<Rightarrow> 'a prog" where
  "p_catch (Return a) h = Return a"
| "p_catch (Throw e) h = (if e = Stopped then Throw e else h e)"
| "p_catch (Act f) h = Act (\<lambda>env w. map_prod (\<lambda>p. p_catch p h) id (f env w))"

definition p_then :: "'a prog \<Rightarrow> 'b prog \<Rightarrow> 'b prog" where
  "p_then p q = p_bind p (\<lambda>_. q)"

fun p_seq :: "unit prog list \<Rightarrow> unit prog" where
  "p_seq [] = Return ()"
| "p_seq (p # ps) = p_then p (p_seq ps)"

fun p_each :: "('a \<Rightarrow> unit prog) \<Rightarrow> 'a list \<Rightarrow> unit prog" where
  "p_each f [] = Return ()"
| "p_each f (a # as) = p_then (f a) (p_each f as)"

text \<open>One database transaction; the connection may be lost, then nothing happens.\<close>

definition transact :: "(Env \<Rightarrow> 'a tx) \<Rightarrow> 'a prog" where
  "transact t = Act (\<lambda>env w. if e_dbDown env then (Throw DbUnavailable, w)
     else case t env (w_tables w) of Inl e \<Rightarrow> (Throw e, w)
       | Inr (a, tables) \<Rightarrow> (Return a, w\<lparr>w_tables := tables\<rparr>))"

text \<open>The clock, and handing a job to the queue, which may fail.\<close>

definition clock :: "millis prog" where
  "clock = Act (\<lambda>env w. (Return (e_now env), w))"

definition add_job :: "Job \<Rightarrow> unit prog" where
  "add_job j = Act (\<lambda>env w. case e_queueDown env of Some m \<Rightarrow> (Throw (PlainError m), w)
     | None \<Rightarrow> (Return (), w\<lparr>w_jobs := w_jobs w @ [j]\<rparr>))"

text \<open>A run of one program alone: every action takes the next environment.\<close>

fun p_run :: "Env list \<Rightarrow> 'a prog \<Rightarrow> World \<Rightarrow> 'a prog \<times> World" where
  "p_run (env # envs) (Act f) w = (case f env w of (p, w') \<Rightarrow> p_run envs p w')"
| "p_run envs p w = (p, w)"

section \<open>Lemmas: transactions and programs\<close>

lemma tx_simps [simp]:
  "tx_return a db = Inr (a, db)" "tx_throw e db = Inl e" "tx_read f db = Inr (f db, db)"
  "tx_modify g db = Inr ((), g db)"
  by (simp_all add: tx_return_def tx_throw_def tx_read_def tx_modify_def)

lemma tx_bind_InrE:
  assumes "tx_bind t k db = Inr (b, db'')"
  obtains a db' where "t db = Inr (a, db')" "k a db' = Inr (b, db'')"
  using assms by (auto simp: tx_bind_def split: sum.splits)

lemma tx_bind_simps [simp]:
  "t db = Inr (a, db') \<Longrightarrow> tx_bind t k db = k a db'" "t db = Inl e \<Longrightarrow> tx_bind t k db = Inl e"
  by (simp_all add: tx_bind_def)

lemma tx_bind_read [simp]: "tx_bind (tx_read f) k db = k (f db) db"
  by (simp add: tx_bind_def)

lemma tx_bind_found [simp]:
  "tx_bind (tx_bind (tx_read f) tx_found) k db = (case f db of None \<Rightarrow> Inl (DbError RecordNotFound) | Some a \<Rightarrow> k a db)"
  by (simp add: tx_bind_def tx_found_def split: option.split)

lemma tx_bind_guard: "tx_bind (tx_guard b e) k db = (if b then k () db else Inl e)"
  by (simp add: tx_bind_def tx_guard_def)

lemma tx_guard_simps [simp]: "b \<Longrightarrow> tx_guard b e db = Inr ((), db)" "\<not> b \<Longrightarrow> tx_guard b e db = Inl e"
  by (simp_all add: tx_guard_def)

lemma prog_induct [case_names Return Throw Act]:
  assumes "\<And>a. P (Return a)" "\<And>e. P (Throw e)" "\<And>f. (\<And>env w. P (fst (f env w))) \<Longrightarrow> P (Act f)"
  shows "P p"
proof (induction p)
  case (Act f)
  have "P (fst (f env w))" for env w by (rule Act [of "f env" "f env w"]) (auto simp: fsts.simps prod_set_defs)
  then show ?case by (rule assms(3))
qed (rule assms)+

lemma p_bind_assoc: "p_bind (p_bind p k) l = p_bind p (\<lambda>a. p_bind (k a) l)"
  by (induction p rule: prog_induct) (simp_all add: fun_eq_iff prod_eq_iff)

lemma p_bind_Return [simp]: "p_bind p Return = p"
  by (induction p rule: prog_induct) (simp_all add: fun_eq_iff prod_eq_iff)

end
