(* ===== verification/Ownership.thy ===== *)
theory Ownership
  imports Store
begin

text \<open>
  The protocol by which the message of a delivery is sent again only after a refusal. A delivery is claimable while its state lets a
  worker begin a dispatch. The worker that claims it holds it: only the holder may make it
  claimable again and only the holder may ask the provider to send its message, and unless that
  request is refused it holds nothing any more. \<open>follows\<close> says that a program keeps to this
  protocol whatever the other programs do in between; \<open>system\<close> is the interleaving of any number
  of programs, with crashes, and the theorems of the locale \<open>protocol\<close> say which requests it may make.
\<close>

section \<open>Claimable deliveries\<close>

definition claimable_state :: "DeliveryState \<Rightarrow> bool" where
  "claimable_state s \<longleftrightarrow> s = DeliveryState.PENDING \<or> s = FAILED_RETRYABLE"

definition claimable :: "Tables \<Rightarrow> ident \<Rightarrow> bool" where
  "claimable db i \<longleftrightarrow> (\<exists>d \<in> set (tb_deliveries db). dl_id d = i \<and> claimable_state (dl_state d))"

definition delivery_ids :: "Tables \<Rightarrow> ident set" where
  "delivery_ids db = dl_id ` set (tb_deliveries db)"

text \<open>A change of the tables that makes no existing delivery claimable and forgets none.\<close>

definition no_new_claims :: "Tables \<Rightarrow> Tables \<Rightarrow> bool" where
  "no_new_claims db db' \<longleftrightarrow> delivery_ids db \<subseteq> delivery_ids db' \<and>
     (\<forall>i. claimable db' i \<longrightarrow> i \<in> delivery_ids db \<longrightarrow> claimable db i)"

datatype role = Idle | Holding ident

definition step_ok :: "role \<Rightarrow> World \<Rightarrow> World \<Rightarrow> role \<Rightarrow> bool" where
  "step_ok r w w' r' \<longleftrightarrow>
     delivery_ids (w_tables w) \<subseteq> delivery_ids (w_tables w') \<and>
     (\<forall>i. claimable (w_tables w') i \<longrightarrow> i \<in> delivery_ids (w_tables w) \<longrightarrow>
        claimable (w_tables w) i \<or> r = Holding i \<and> r' = Idle) \<and>
     (\<forall>i. r' = Holding i \<longrightarrow> i \<in> delivery_ids (w_tables w') \<and> \<not> claimable (w_tables w') i \<and>
        (r = Holding i \<or> claimable (w_tables w) i)) \<and>
     (w_requests w' = w_requests w \<or>
      (\<exists>i answer. r = Holding i \<and> r' = (if refused answer then r else Idle) \<and>
         w_requests w' = w_requests w @ [(i, answer)] \<and> w_tables w' = w_tables w))"

text \<open>
  The world a holder can rely on: its delivery exists and is not claimable.
\<close>

definition relies :: "role \<Rightarrow> World \<Rightarrow> bool" where
  "relies r w \<longleftrightarrow> (\<forall>i. r = Holding i \<longrightarrow> i \<in> delivery_ids (w_tables w) \<and> \<not> claimable (w_tables w) i)"

primrec follows :: "'a prog \<Rightarrow> role \<Rightarrow> (role \<Rightarrow> 'a \<Rightarrow> bool) \<Rightarrow> (role \<Rightarrow> Err \<Rightarrow> bool) \<Rightarrow> bool" where
  "follows (Return a) r Q E \<longleftrightarrow> Q r a"
| "follows (Throw e) r Q E \<longleftrightarrow> E r e"
| "follows (Act f) r Q E \<longleftrightarrow> (\<forall>env w. relies r w \<longrightarrow>
     (case map_prod follows id (f env w) of (p, w') \<Rightarrow> \<exists>r'. step_ok r w w' r' \<and> p r' Q E))"

definition anyhow :: "role \<Rightarrow> 'a \<Rightarrow> bool" where "anyhow r a \<longleftrightarrow> True"

definition still :: "role \<Rightarrow> role \<Rightarrow> 'a \<Rightarrow> bool" where "still r r' a \<longleftrightarrow> r' = r"

lemma anyhow_simp [simp]: "anyhow r a" by (simp add: anyhow_def)

lemma follows_Act:
  "follows (Act f) r Q E \<longleftrightarrow> (\<forall>env w. relies r w \<longrightarrow> (\<exists>r'. step_ok r w (snd (f env w)) r' \<and> follows (fst (f env w)) r' Q E))"
  by (simp add: case_prod_beta)

declare follows.simps(3) [simp del]

section \<open>Rules for programs\<close>

lemma follows_weaken:
  "follows p r Q E \<Longrightarrow> (\<And>r a. Q r a \<Longrightarrow> Q' r a) \<Longrightarrow> (\<And>r e. E r e \<Longrightarrow> E' r e) \<Longrightarrow> follows p r Q' E'"
proof (induction p arbitrary: r rule: prog_induct)
  case (Act f)
  then show ?case unfolding follows_Act by blast
qed auto

lemma follows_bind:
  "follows p r (\<lambda>r' a. follows (k a) r' Q E) E \<Longrightarrow> follows (p_bind p k) r Q E"
proof (induction p arbitrary: r rule: prog_induct)
  case (Act f)
  then show ?case unfolding p_bind.simps follows_Act fst_map_prod snd_map_prod id_apply by blast
qed auto

lemma follows_then:
  "follows p r (\<lambda>r' _. follows q r' Q E) E \<Longrightarrow> follows (p_then p q) r Q E"
  unfolding p_then_def by (rule follows_bind)

lemma follows_catch:
  "follows p r Q (\<lambda>r' e. if e = Stopped then E r' e else follows (h e) r' Q E) \<Longrightarrow> follows (p_catch p h) r Q E"
proof (induction p arbitrary: r rule: prog_induct)
  case (Act f)
  then show ?case unfolding p_catch.simps follows_Act fst_map_prod snd_map_prod id_apply by blast
qed (auto split: if_splits)

lemma follows_seq:
  "(\<And>p. p \<in> set ps \<Longrightarrow> follows p r (still r) E) \<Longrightarrow> follows (p_seq ps) r (still r) E"
  unfolding still_def
proof (induction ps)
  case (Cons p ps)
  have "follows p r (\<lambda>r' _. follows (p_seq ps) r' (\<lambda>r' a. r' = r) E) E"
    by (rule follows_weaken [OF Cons.prems]) (use Cons in auto)
  then show ?case by (simp add: follows_then)
qed simp

lemma follows_each:
  "(\<And>a. a \<in> set as \<Longrightarrow> follows (f a) r (still r) E) \<Longrightarrow> follows (p_each f as) r (still r) E"
  unfolding still_def
proof (induction as)
  case (Cons a as)
  have "follows (f a) r (\<lambda>r' _. follows (p_each f as) r' (\<lambda>r' a. r' = r) E) E"
    by (rule follows_weaken [OF Cons.prems]) (use Cons in auto)
  then show ?case by (simp add: follows_then)
qed simp

lemma step_ok_refl: "relies r w \<Longrightarrow> step_ok r w w r"
  by (auto simp: step_ok_def relies_def)

lemma step_ok_same_tables:
  "relies r w \<Longrightarrow> w_tables w' = w_tables w \<Longrightarrow> w_requests w' = w_requests w \<Longrightarrow> step_ok r w w' r"
  by (auto simp: step_ok_def relies_def)

lemma step_ok_no_new_claims:
  assumes "relies r w" "no_new_claims (w_tables w) (w_tables w')" "w_requests w' = w_requests w"
  shows "step_ok r w w' r"
  using assms by (auto simp: step_ok_def relies_def no_new_claims_def)

lemma follows_clock [simp]: "follows clock r (still r) E"
  by (simp add: clock_def follows_Act still_def) (blast intro: step_ok_refl)

lemma follows_add_job: "(\<And>m. E r (PlainError m)) \<Longrightarrow> follows (add_job j) r (still r) E"
  unfolding add_job_def follows_Act by (auto intro!: exI [of _ r] step_ok_same_tables simp: still_def split: option.split)

lemma follows_transact:
  assumes "E r DbUnavailable"
    "\<And>env tables e. t env tables = Inl e \<Longrightarrow> E r e"
    "\<And>env w a tables. relies r w \<Longrightarrow> t env (w_tables w) = Inr (a, tables) \<Longrightarrow> \<exists>r'. step_ok r w (w\<lparr>w_tables := tables\<rparr>) r' \<and> Q r' a"
  shows "follows (transact t) r Q E"
  unfolding transact_def follows_Act
proof (intro allI impI)
  fix env w assume w: "relies r w"
  let ?f = "if e_dbDown env then (Throw DbUnavailable, w)
     else case t env (w_tables w) of Inl e \<Rightarrow> (Throw e, w) | Inr (a, tables) \<Rightarrow> (Return a, w\<lparr>w_tables := tables\<rparr>)"
  show "\<exists>r'. step_ok r w (snd ?f) r' \<and> follows (fst ?f) r' Q E"
  proof (cases "e_dbDown env \<or> (\<exists>e. t env (w_tables w) = Inl e)")
    case True
    then show ?thesis using assms(1,2) step_ok_refl [OF w] by (intro exI [of _ r]) auto
  next
    case False
    then obtain a tables where "t env (w_tables w) = Inr (a, tables)"
      by (cases "t env (w_tables w)") auto
    then show ?thesis using assms(3) [OF w] False by simp
  qed
qed

section \<open>Transactions that claim nothing\<close>

lemma no_new_claims_refl [simp]: "no_new_claims db db"
  by (simp add: no_new_claims_def)

lemma no_new_claims_trans: "no_new_claims a b \<Longrightarrow> no_new_claims b c \<Longrightarrow> no_new_claims a c"
  by (auto simp: no_new_claims_def)

lemma no_new_claims_same: "tb_deliveries db' = tb_deliveries db \<Longrightarrow> no_new_claims db db'"
  by (simp add: no_new_claims_def claimable_def delivery_ids_def)

text \<open>
  The contract of a transaction that any program may run at any time: it makes no existing
  delivery claimable.
\<close>

locale claimless =
  fixes t :: "Tables \<Rightarrow> Err + 'a \<times> Tables"
  assumes claims_nothing: "t db = Inr (a, db') \<Longrightarrow> no_new_claims db db'"

lemma claimless_bind:
  assumes "claimless t" "\<And>a. claimless (k a)"
  shows "claimless (tx_bind t k)"
proof
  fix db a db' assume "tx_bind t k db = Inr (a, db')"
  then show "no_new_claims db db'"
    using claimless.claims_nothing [OF assms(1)] claimless.claims_nothing [OF assms(2)]
    by (elim tx_bind_InrE) (blast intro: no_new_claims_trans)
qed

lemma claimless_if: "claimless t \<Longrightarrow> claimless u \<Longrightarrow> claimless (if b then t else u)"
  by simp

lemma claimless_basic [simp]:
  "claimless (tx_return a)" "claimless (tx_throw e)" "claimless (tx_read f)" "claimless (tx_guard b e)" "claimless (tx_found x)"
  by (auto simp: claimless_def tx_guard_def tx_found_def split: if_splits option.splits)

lemma claimless_modify: "(\<And>db. tb_deliveries (f db) = tb_deliveries db) \<Longrightarrow> claimless (tx_modify f)"
  by (auto simp: claimless_def no_new_claims_same)

lemma claimless_seq: "(\<And>t. t \<in> set ts \<Longrightarrow> claimless t) \<Longrightarrow> claimless (tx_seq ts)"
  by (induction ts) (auto intro: claimless_bind)

lemma claimless_each: "(\<And>a. a \<in> set as \<Longrightarrow> claimless (f a)) \<Longrightarrow> claimless (tx_each f as)"
  by (induction as) (auto intro: claimless_bind)

lemma claimless_tables [simp]:
  "claimless (update_campaign i fc)" "claimless (update_recipient i fr)" "claimless (update_attempt i fa)"
  "claimless (update_run i n fn)" "claimless (update_campaigns Pc fc)" "claimless (update_recipients Pr fr)"
  "claimless (update_outbox Po fo)" "claimless (delete_reservations Pv)" "claimless (audit s c ty pl)"
  "claimless (upsert_contact s cr f new)"
  by (auto simp: claimless_def update_campaign_def update_recipient_def update_attempt_def update_run_def
      update_campaigns_def update_recipients_def update_outbox_def delete_reservations_def audit_def upsert_contact_def
      intro!: no_new_claims_same split: option.splits if_splits)

lemma claimable_upd:
  "claimable (db\<lparr>tb_deliveries := upd_where P f (tb_deliveries db)\<rparr>) i \<Longrightarrow> (\<And>d. dl_id (f d) = dl_id d) \<Longrightarrow>
   (\<And>d. P d \<Longrightarrow> claimable_state (dl_state (f d)) \<Longrightarrow> claimable_state (dl_state d)) \<Longrightarrow> claimable db i"
  by (force simp: claimable_def set_upd_where split: if_splits)

lemma delivery_ids_upd:
  assumes "\<And>d. dl_id (f d) = dl_id d"
  shows "delivery_ids (db\<lparr>tb_deliveries := upd_where P f (tb_deliveries db)\<rparr>) = delivery_ids db"
proof -
  have "map dl_id (upd_where P f (tb_deliveries db)) = map dl_id (tb_deliveries db)"
    by (rule map_upd_where_id) (rule assms)
  then show ?thesis unfolding delivery_ids_def by (simp flip: set_map)
qed

lemma no_new_claims_upd:
  assumes "\<And>d. dl_id (f d) = dl_id d"
    "\<And>d. P d \<Longrightarrow> claimable_state (dl_state (f d)) \<Longrightarrow> claimable_state (dl_state d)"
  shows "no_new_claims db (db\<lparr>tb_deliveries := upd_where P f (tb_deliveries db)\<rparr>)"
  using claimable_upd [where P = P and f = f and db = db] assms by (auto simp: no_new_claims_def delivery_ids_upd)

lemma claimless_update_delivery:
  assumes "\<And>d. dl_id (f d) = dl_id d" "\<And>d. claimable_state (dl_state (f d)) \<Longrightarrow> claimable_state (dl_state d)"
  shows "claimless (update_delivery i f)"
  by (auto simp: claimless_def update_delivery_def intro!: no_new_claims_upd assms split: option.splits)

lemma claimless_option:
  "claimless t \<Longrightarrow> (\<And>a. claimless (f a)) \<Longrightarrow> claimless (case x of None \<Rightarrow> t | Some a \<Rightarrow> f a)"
  by (cases x) auto

lemmas claimless_intros = claimless_bind claimless_if claimless_option claimless_seq claimless_each claimless_modify
  claimless_update_delivery

text \<open>A program runs such a transaction in any role.\<close>

lemma follows_claimless:
  assumes "\<And>env. claimless (t env)" "\<And>e. E r e"
  shows "follows (transact t) r (still r) E"
  by (rule follows_transact)
    (use assms step_ok_no_new_claims claimless.claims_nothing in \<open>fastforce simp: still_def\<close>)+

text \<open>
  Programs that keep the role they started in, whatever it is; \<open>keeps_rules\<close> collects what shows it
  of composed programs. A program that only has to follow the protocol is \<open>sound\<close> in its role.
\<close>

named_theorems keeps_rules

definition keeps :: "'a prog \<Rightarrow> bool" where
  "keeps p \<longleftrightarrow> (\<forall>r. follows p r (still r) (still r))"

definition sound :: "role \<Rightarrow> 'a prog \<Rightarrow> bool" where
  "sound r p \<longleftrightarrow> follows p r anyhow anyhow"

lemma keeps_Return [keeps_rules]: "keeps (Return a)" by (simp add: keeps_def still_def)

lemma keeps_Throw [keeps_rules]: "keeps (Throw e)" by (simp add: keeps_def still_def)

lemma follows_keeps:
  "keeps p \<Longrightarrow> (\<And>a. Q r a) \<Longrightarrow> (\<And>e. E r e) \<Longrightarrow> follows p r Q E"
  unfolding keeps_def by (rule follows_weaken [of p r "still r" "still r"]) (auto simp: still_def)

lemma follows_keeps_bind:
  "keeps p \<Longrightarrow> (\<And>a. follows (k a) r Q E) \<Longrightarrow> (\<And>e. E r e) \<Longrightarrow> follows (p_bind p k) r Q E"
  by (rule follows_bind, rule follows_keeps)

lemma follows_keeps_then:
  "keeps p \<Longrightarrow> follows q r Q E \<Longrightarrow> (\<And>e. E r e) \<Longrightarrow> follows (p_then p q) r Q E"
  unfolding p_then_def by (rule follows_keeps_bind)

lemma follows_keeps_catch:
  assumes "keeps p" "\<And>a. Q r a" "\<And>e. follows (h e) r Q E" "\<And>e. E r e"
  shows "follows (p_catch p h) r Q E"
  by (rule follows_catch, rule follows_keeps [OF assms(1)]) (auto simp: assms(2-))

lemma keeps_bind [keeps_rules]: "keeps p \<Longrightarrow> (\<And>a. keeps (k a)) \<Longrightarrow> keeps (p_bind p k)"
  unfolding keeps_def by (blast intro: follows_keeps_bind [unfolded keeps_def] still_def [THEN iffD2])

lemma keeps_then [keeps_rules]: "keeps p \<Longrightarrow> keeps q \<Longrightarrow> keeps (p_then p q)"
  unfolding p_then_def by (rule keeps_bind)

lemma keeps_catch [keeps_rules]: "keeps p \<Longrightarrow> (\<And>e. keeps (h e)) \<Longrightarrow> keeps (p_catch p h)"
  unfolding keeps_def
  by (intro allI follows_keeps_catch) (auto simp: keeps_def still_def)

lemma keeps_if [keeps_rules]: "(b \<Longrightarrow> keeps p) \<Longrightarrow> (\<not> b \<Longrightarrow> keeps q) \<Longrightarrow> keeps (if b then p else q)"
  by simp

lemma keeps_seq: "(\<And>p. p \<in> set ps \<Longrightarrow> keeps p) \<Longrightarrow> keeps (p_seq ps)"
  unfolding keeps_def by (blast intro: follows_seq)

lemma keeps_each [keeps_rules]: "(\<And>a. keeps (f a)) \<Longrightarrow> keeps (p_each f as)"
  unfolding keeps_def by (blast intro: follows_each)

lemma keeps_transact [keeps_rules]: "(\<And>env. claimless (t env)) \<Longrightarrow> keeps (transact t)"
  unfolding keeps_def by (blast intro: follows_claimless still_def [THEN iffD2])

lemma keeps_clock [keeps_rules]: "keeps clock" by (simp add: keeps_def)

lemma keeps_add_job [keeps_rules]: "keeps (add_job j)"
  unfolding keeps_def by (auto intro: follows_add_job simp: still_def)

lemma keeps_silent:
  "(\<And>env w. w_tables (snd (f env w)) = w_tables w \<and> w_requests (snd (f env w)) = w_requests w \<and> keeps (fst (f env w))) \<Longrightarrow>
   keeps (Act f)"
  unfolding keeps_def follows_Act by (blast intro: step_ok_same_tables)

lemma sound_keeps: "keeps p \<Longrightarrow> sound r p"
  by (simp add: sound_def follows_keeps)

lemma sound_bind: "keeps p \<Longrightarrow> (\<And>a. sound r (k a)) \<Longrightarrow> sound r (p_bind p k)"
  by (simp add: sound_def follows_keeps_bind)

lemma sound_then: "keeps p \<Longrightarrow> sound r q \<Longrightarrow> sound r (p_then p q)"
  by (simp add: sound_def follows_keeps_then)

text \<open>A program that ends its hold on a delivery and goes on without one.\<close>

lemma sound_end:
  "follows p r (\<lambda>r' _. r' = Idle) anyhow \<Longrightarrow> sound Idle q \<Longrightarrow> sound r (p_then p q)"
  unfolding sound_def by (rule follows_then, erule follows_weaken) auto

section \<open>What every action of a program does\<close>

text \<open>Every action a program can do, whatever the environments and the other programs do, is in the relation.\<close>

primrec steps :: "(World \<Rightarrow> World \<Rightarrow> bool) \<Rightarrow> 'a prog \<Rightarrow> bool" where
  "steps R (Return a) \<longleftrightarrow> True"
| "steps R (Throw e) \<longleftrightarrow> True"
| "steps R (Act f) \<longleftrightarrow> (\<forall>env w. case map_prod (steps R) id (f env w) of (p, w') \<Rightarrow> p \<and> R w w')"

lemma steps_Act: "steps R (Act f) \<longleftrightarrow> (\<forall>env w. steps R (fst (f env w)) \<and> R w (snd (f env w)))"
  by (simp add: case_prod_beta)

declare steps.simps(3) [simp del]

lemma steps_bind: "steps R p \<Longrightarrow> (\<And>a. steps R (k a)) \<Longrightarrow> steps R (p_bind p k)"
  by (induction p rule: prog_induct) (auto simp: steps_Act)

lemma steps_read_bind:
  "(\<And>db. steps R (k (f db))) \<Longrightarrow> reflp R \<Longrightarrow> steps R (p_bind (transact (\<lambda>env. tx_read f)) k)"
  by (auto simp: transact_def steps_Act elim: reflpE)

lemma steps_then: "steps R p \<Longrightarrow> steps R q \<Longrightarrow> steps R (p_then p q)"
  by (simp add: p_then_def steps_bind)

lemma steps_run:
  assumes "reflp R" "transp R" "steps R p"
  shows "R w (snd (p_run envs p w))"
  using assms(3)
proof (induction envs p w rule: p_run.induct)
  case (1 env envs f w)
  then have "R w (snd (f env w))" "R (snd (f env w)) (snd (p_run envs (fst (f env w)) (snd (f env w))))"
    by (auto simp: steps_Act)
  then show ?case using assms(2) by (auto simp: case_prod_beta elim: transpE)
qed (use assms(1) in \<open>auto elim: reflpE\<close>)

lemma steps_catch: "steps R p \<Longrightarrow> (\<And>e. steps R (h e)) \<Longrightarrow> steps R (p_catch p h)"
  by (induction p rule: prog_induct) (auto simp: steps_Act)

lemma steps_transact:
  assumes "reflp R" "\<And>env w a tables. t env (w_tables w) = Inr (a, tables) \<Longrightarrow> R w (w\<lparr>w_tables := tables\<rparr>)"
  shows "steps R (transact t)"
  using assms by (auto simp: transact_def steps_Act elim: reflpE split: sum.split)

lemma steps_clock: "reflp R \<Longrightarrow> steps R clock"
  by (auto simp: clock_def steps_Act elim: reflpE)

section \<open>Interleavings\<close>

text \<open>
  Any number of programs run at the same time. A new one may begin whenever it likes, one of the
  running ones does its next action, one ends or is killed between two of its actions.
\<close>

inductive system :: "unit prog set \<Rightarrow> World \<Rightarrow> World \<Rightarrow> (nat \<rightharpoonup> unit prog) \<Rightarrow> bool"
  for programs :: "unit prog set" and start :: World where
  initial: "system programs start start Map.empty"
| spawn: "system programs start w ts \<Longrightarrow> p \<in> programs \<Longrightarrow> ts t = None \<Longrightarrow> system programs start w (ts(t \<mapsto> p))"
| step: "system programs start w ts \<Longrightarrow> ts t = Some (Act f) \<Longrightarrow>
    system programs start (snd (f env w)) (ts(t \<mapsto> fst (f env w)))"
| gone: "system programs start w ts \<Longrightarrow> system programs start w (ts(t := None))"

text \<open>A request for a delivery is made again only when every earlier one was refused.\<close>

definition repeats_ok :: "(ident \<times> SendOutcome) list \<Rightarrow> bool" where
  "repeats_ok requests \<longleftrightarrow> (\<forall>m n. m < n \<and> n < length requests \<and> fst (requests ! m) = fst (requests ! n) \<longrightarrow> refused (snd (requests ! m)))"

lemma repeats_ok_snoc:
  assumes "repeats_ok requests" "\<And>b. (i, b) \<in> set requests \<Longrightarrow> refused b"
  shows "repeats_ok (requests @ [(i, answer)])"
  unfolding repeats_ok_def
proof (intro allI impI, elim conjE)
  fix m n assume n: "m < n" "n < length (requests @ [(i, answer)])"
    and same: "fst ((requests @ [(i, answer)]) ! m) = fst ((requests @ [(i, answer)]) ! n)"
  show "refused (snd ((requests @ [(i, answer)]) ! m))"
  proof (cases "n < length requests")
    case True
    then show ?thesis using assms(1) n same unfolding repeats_ok_def by (auto simp: nth_append)
  next
    case False
    then have m: "m < length requests" "fst (requests ! m) = i" using n same by (auto simp: nth_append)
    then have "(i, snd (requests ! m)) \<in> set requests" by (metis nth_mem prod.collapse)
    then show ?thesis using assms(2) m by (simp add: nth_append)
  qed
qed

definition roles_ok :: "World \<Rightarrow> (nat \<rightharpoonup> unit prog) \<Rightarrow> (nat \<Rightarrow> role) \<Rightarrow> bool" where
  "roles_ok w ts R \<longleftrightarrow>
     (\<forall>t p. ts t = Some p \<longrightarrow> follows p (R t) anyhow anyhow) \<and> (\<forall>t. ts t = None \<longrightarrow> R t = Idle) \<and>
     (\<forall>t. relies (R t) w) \<and>
     (\<forall>t i answer. R t = Holding i \<longrightarrow> (i, answer) \<in> set (w_requests w) \<longrightarrow> refused answer) \<and>
     (\<forall>t u i. R t = Holding i \<longrightarrow> R u = Holding i \<longrightarrow> t = u) \<and>
     repeats_ok (w_requests w) \<and>
     (\<forall>i answer. (i, answer) \<in> set (w_requests w) \<longrightarrow> \<not> refused answer \<longrightarrow> i \<in> delivery_ids (w_tables w) \<and> \<not> claimable (w_tables w) i)"

lemma roles_ok_step:
  assumes R: "roles_ok w ts R" and s: "step_ok (R t) w w' r'" and p: "follows p' r' anyhow anyhow" and t: "ts t \<noteq> None"
  shows "roles_ok w' (ts(t \<mapsto> p')) (R(t := r'))"
proof -
  let ?R = "R(t := r')"
  have rel: "\<And>u. relies (R u) w" and held: "\<And>u i a. R u = Holding i \<Longrightarrow> (i, a) \<in> set (w_requests w) \<Longrightarrow> refused a"
    and uniq: "\<And>u v i. R u = Holding i \<Longrightarrow> R v = Holding i \<Longrightarrow> u = v"
    and settled: "\<And>i a. (i, a) \<in> set (w_requests w) \<Longrightarrow> \<not> refused a \<Longrightarrow> i \<in> delivery_ids (w_tables w) \<and> \<not> claimable (w_tables w) i"
    and rep: "repeats_ok (w_requests w)"
    using R unfolding roles_ok_def by blast+
  have ids: "\<And>i. i \<in> delivery_ids (w_tables w) \<Longrightarrow> i \<in> delivery_ids (w_tables w')"
    and new: "\<And>i. claimable (w_tables w') i \<Longrightarrow> i \<in> delivery_ids (w_tables w) \<Longrightarrow>
        claimable (w_tables w) i \<or> R t = Holding i \<and> r' = Idle"
    and hold: "\<And>i. r' = Holding i \<Longrightarrow> i \<in> delivery_ids (w_tables w') \<and> \<not> claimable (w_tables w') i \<and>
        (R t = Holding i \<or> claimable (w_tables w) i)"
    and log: "w_requests w' = w_requests w \<or> (\<exists>i a. R t = Holding i \<and> r' = (if refused a then R t else Idle) \<and>
        w_requests w' = w_requests w @ [(i, a)] \<and> w_tables w' = w_tables w)"
    using s unfolding step_ok_def by blast+
  have others: "relies (?R u) w'" for u
  proof (cases "u = t")
    case False
    have "i \<in> delivery_ids (w_tables w') \<and> \<not> claimable (w_tables w') i" if "R u = Holding i" for i
      using that rel [of u] ids [of i] new [of i] uniq [of u i t] False by (auto simp: relies_def)
    then show ?thesis using False by (simp add: relies_def)
  qed (use hold in \<open>simp add: relies_def\<close>)
  have old: "refused a" if "?R u = Holding i" "(i, a) \<in> set (w_requests w)" for u i a
    using that held [of u i a] held [of t i a] hold [of i] settled [of i a] by (cases "u = t") auto
  have free: "refused a" if h: "?R u = Holding i" "(i, a) \<in> set (w_requests w')" for u i a
    using log
  proof (elim disjE exE conjE)
    fix j b assume j: "R t = Holding j" "r' = (if refused b then R t else Idle)" "w_requests w' = w_requests w @ [(j, b)]"
    then show ?thesis using h old [of u i a] uniq [of u i t] by (cases "u = t") (auto split: if_splits)
  qed (use h old in auto)
  have one: "u = v" if "?R u = Holding i" "?R v = Holding i" for u v i
    using that uniq [of u i v] uniq [of u i t] uniq [of v i t] hold [of i] rel [of u] rel [of v]
    by (auto simp: relies_def split: if_splits)
  have closed: "i \<in> delivery_ids (w_tables w') \<and> \<not> claimable (w_tables w') i" if h: "(i, a) \<in> set (w_requests w')" "\<not> refused a" for i a
    using log
  proof (elim disjE exE conjE)
    assume "w_requests w' = w_requests w"
    then show ?thesis using h settled [of i a] ids new [of i] held [of t i a] by auto
  next
    fix j b assume j: "R t = Holding j" "w_requests w' = w_requests w @ [(j, b)]" "w_tables w' = w_tables w"
    then show ?thesis using h settled [of i a] rel [of t] by (auto simp: relies_def)
  qed
  have "repeats_ok (w_requests w')"
    using log
  proof (elim disjE exE conjE)
    fix j b assume "R t = Holding j" "w_requests w' = w_requests w @ [(j, b)]"
    then show ?thesis using repeats_ok_snoc [OF rep] held [of t j] by simp
  qed (use rep in simp)
  moreover have "follows q (?R u) anyhow anyhow" if "(ts(t \<mapsto> p')) u = Some q" for u q
    using that p R by (cases "u = t") (auto simp: roles_ok_def)
  moreover have "?R u = Idle" if "(ts(t \<mapsto> p')) u = None" for u
    using that R by (cases "u = t") (auto simp: roles_ok_def)
  ultimately show ?thesis unfolding roles_ok_def using others free one closed by blast
qed

lemma roles_ok_drop: "roles_ok w ts R \<Longrightarrow> roles_ok w (ts(t := None)) (R(t := Idle))"
  by (auto simp: roles_ok_def relies_def split: if_splits)

text \<open>The contract of a set of programs: each of them keeps to the protocol.\<close>

locale protocol =
  fixes programs :: "unit prog set"
  assumes all_follow: "p \<in> programs \<Longrightarrow> follows p Idle anyhow anyhow"
begin

lemma roles_exist:
  "system programs start w ts \<Longrightarrow> w_requests start = [] \<Longrightarrow> \<exists>R. roles_ok w ts R"
proof (induction rule: system.induct)
  case initial
  then show ?case by (intro exI [of _ "\<lambda>_. Idle"]) (auto simp: roles_ok_def relies_def repeats_ok_def)
next
  case (spawn w ts p t)
  then obtain R where "roles_ok w ts R" by blast
  moreover from this spawn have "R t = Idle" by (simp add: roles_ok_def)
  ultimately show ?case using all_follow [OF spawn(2)] by (intro exI [of _ R]) (auto simp: roles_ok_def)
next
  case (step w ts t f env)
  then obtain R where R: "roles_ok w ts R" by blast
  then have "follows (Act f) (R t) anyhow anyhow" "relies (R t) w" using step(2) by (auto simp: roles_ok_def)
  then obtain r' where "step_ok (R t) w (snd (f env w)) r'" "follows (fst (f env w)) r' anyhow anyhow"
    by (auto simp: follows_Act)
  then show ?case using roles_ok_step [OF R] step(2) by blast
next
  case (gone w ts t)
  then show ?case using roles_ok_drop by blast
qed

lemma requests_repeat_ok: "system programs start w ts \<Longrightarrow> w_requests start = [] \<Longrightarrow> repeats_ok (w_requests w)"
  using roles_exist by (auto simp: roles_ok_def)

lemma unrefused_not_claimable:
  "system programs start w ts \<Longrightarrow> w_requests start = [] \<Longrightarrow> (i, answer) \<in> set (w_requests w) \<Longrightarrow> \<not> refused answer \<Longrightarrow>
   \<not> claimable (w_tables w) i"
  using roles_exist unfolding roles_ok_def by blast

end

end
