(* ===== verification/Dispatch.thy ===== *)
theory Dispatch
  imports Ownership
begin

text \<open>
  The worker's dispatch policy: \<open>apps/worker/src/dispatch-safety.ts\<close> (the transaction that claims a
  delivery after checking everything again), \<open>delivery-policy.ts\<close> (what to do with a delivery found
  in a state, the recovery of a dispatch that was cut off), \<open>campaign-completion.ts\<close> and
  \<open>outbound-mvp-policy.ts\<close>. The calendar date of a shop (\<open>Intl.DateTimeFormat\<close>) is a parameter.
\<close>

section \<open>delivery-policy.ts\<close>

datatype DeliveryAction = DISPATCH | RECOVER_AS_UNKNOWN | SKIP

definition deliveryAction :: "DeliveryState \<Rightarrow> DeliveryAction" where
  "deliveryAction state =
    (if state = DISPATCHING then RECOVER_AS_UNKNOWN
     else if state \<in> {DeliveryState.SENT, DeliveryState.RESTRICTED, FAILED_TERMINAL, DeliveryState.CANCELLED,
        DeliveryState.DELIVERY_UNKNOWN, DeliveryState.DELIVERY_UNKNOWN_UNRESOLVED} then SKIP
     else DISPATCH)"

text \<open>
  What \<open>processSend\<close> loads at its start: the recipient with its creator, campaign, shop and delivery.
  The rows are a snapshot; the tables move on.
\<close>

record Loaded =
  lo_recipient :: Recipient
  lo_creator :: Creator
  lo_campaign :: Campaign
  lo_shop :: Shop
  lo_delivery :: Delivery

definition recover_tx :: "Loaded \<Rightarrow> unit tx" where
  "recover_tx r = tx_seq
    [update_delivery (dl_id (lo_delivery r)) (\<lambda>d. d\<lparr>dl_state := DeliveryState.DELIVERY_UNKNOWN,
       dl_lastErrorDetail := Some ''Worker restarted after dispatch began''\<rparr>),
     update_recipient (rc_id (lo_recipient r)) (\<lambda>x. x\<lparr>rc_state := RecipientState.DELIVERY_UNKNOWN\<rparr>),
     upsert_contact (ca_shopId (lo_campaign r)) (rc_creatorId (lo_recipient r))
       (\<lambda>c. c\<lparr>ct_unresolvedDelivery := True, ct_lastDeliveryId := Some (dl_id (lo_delivery r))\<rparr>)
       ((new_contact (ca_shopId (lo_campaign r)) (rc_creatorId (lo_recipient r)))
          \<lparr>ct_unresolvedDelivery := True, ct_lastDeliveryId := Some (dl_id (lo_delivery r))\<rparr>),
     update_outbox (\<lambda>e. ob_recipientId e = rc_id (lo_recipient r)) (\<lambda>e. e\<lparr>ob_state := OutboxState.COMPLETED\<rparr>)]"

definition recoverDispatchingDelivery :: "Loaded \<Rightarrow> unit prog" where
  "recoverDispatchingDelivery r = transact (\<lambda>env. recover_tx r)"

section \<open>campaign-completion.ts\<close>

definition TERMINAL_RECIPIENT_STATES :: "RecipientState list" where
  "TERMINAL_RECIPIENT_STATES = [RecipientState.SENT, RecipientState.RESTRICTED, FAILED,
     RecipientState.DELIVERY_UNKNOWN_UNRESOLVED, RecipientState.CANCELLED]"

definition allFrozenRecipientsTerminal :: "RecipientState list \<Rightarrow> bool" where
  "allFrozenRecipientsTerminal states \<longleftrightarrow>
     length states > 0 \<and> list_all (\<lambda>s. s \<in> set TERMINAL_RECIPIENT_STATES) states"

record Completion =
  cp_completedSuccessfully :: bool
  cp_sent :: int
  cp_restricted :: int
  cp_failed :: int
  cp_safetyCancelled :: int
  cp_unresolved :: int
  cp_otherTerminal :: int
  cp_terminalRecipients :: int

definition campaignCompletionSummary :: "RecipientState list \<Rightarrow> Completion" where
  "campaignCompletionSummary states =
    (let sent = count_where (\<lambda>s. s = RecipientState.SENT) states;
         failed = count_where (\<lambda>s. s = FAILED) states;
         restricted = count_where (\<lambda>s. s = RecipientState.RESTRICTED) states;
         safetyCancelled = count_where (\<lambda>s. s = RecipientState.CANCELLED) states;
         unresolved = count_where (\<lambda>s. s = RecipientState.DELIVERY_UNKNOWN_UNRESOLVED) states;
         total = int (length states)
     in \<lparr>cp_completedSuccessfully = (total > 0 \<and> sent = total), cp_sent = sent, cp_restricted = restricted,
         cp_failed = failed, cp_safetyCancelled = safetyCancelled, cp_unresolved = unresolved,
         cp_otherTerminal = total - sent - failed - restricted - safetyCancelled - unresolved,
         cp_terminalRecipients = total\<rparr>)"

section \<open>outbound-mvp-policy.ts\<close>

datatype SendException = RETRYABLE_PRE_SEND | UNKNOWN_OUTCOME

definition classifySendException :: "bool \<Rightarrow> bool \<Rightarrow> SendException" where
  "classifySendException transmitted responseKnown =
    (if transmitted \<and> \<not> responseKnown then UNKNOWN_OUTCOME else RETRYABLE_PRE_SEND)"

definition shouldAutoRetryDelivery :: "DeliveryState \<Rightarrow> bool" where
  "shouldAutoRetryDelivery state \<longleftrightarrow> state \<in> {DeliveryState.PENDING, FAILED_RETRYABLE}"

definition completionState :: "RecipientState list \<Rightarrow> CampaignState option" where
  "completionState states =
    (if states = [] \<or> list_ex (\<lambda>s. s \<in> {RESERVED, RecipientState.QUEUED, PROCESSING, RecipientState.DELIVERY_UNKNOWN}) states
     then None
     else Some (if list_all (\<lambda>s. s = RecipientState.SENT) states then CampaignState.COMPLETED else COMPLETED_WITH_ERRORS))"

section \<open>dispatch-safety.ts\<close>

datatype DispatchClaim = Claimed int | NotClaimed bool "string option"

definition cooldown_cutoff :: "millis \<Rightarrow> int \<Rightarrow> millis" where
  "cooldown_cutoff now cooldownDays = now - cooldownDays * 86400000"

text \<open>The checks of lines 25 to 44: the reason to cancel the recipient, if there is one.\<close>

definition dispatch_exclusion ::
  "Loaded \<Rightarrow> millis \<Rightarrow> Campaign \<Rightarrow> Delivery \<Rightarrow> Recipient \<Rightarrow> Reservation option \<Rightarrow> Contact option \<Rightarrow> (string \<times> string) option" where
  "dispatch_exclusion r now campaign delivery recipient reservation contact =
    (if (case contact of None \<Rightarrow> False | Some c \<Rightarrow> ct_doNotContact c)
     then Some (''DO_NOT_CONTACT'', ''Creator was marked do-not-contact after campaign queueing'')
     else if (case contact of None \<Rightarrow> False
        | Some c \<Rightarrow> ct_unresolvedDelivery c \<and> ct_lastDeliveryId c \<noteq> Some (dl_id delivery))
     then Some (''DELIVERY_UNKNOWN'', ''Creator has an unresolved delivery from another outreach delivery'')
     else if (case reservation of None \<Rightarrow> True
        | Some v \<Rightarrow> rv_expiresAt v \<le> now \<or> rv_shopId v \<noteq> ca_shopId campaign
            \<or> rv_creatorId v \<noteq> rc_creatorId (lo_recipient r)
            \<or> rv_campaignRecipientId v \<noteq> rc_id recipient \<or> rc_campaignId recipient \<noteq> ca_id campaign)
     then Some (''RESERVATION_INVALID'', ''The active reservation no longer belongs to this campaign recipient'')
     else (case contact of None \<Rightarrow> None
        | Some c \<Rightarrow>
          (let ownConfirmedContact = ct_lastCampaignId c = Some (ca_id campaign) \<and> ct_lastDeliveryId c = Some (dl_id delivery)
           in case ct_lastContactedAt c of None \<Rightarrow> None
              | Some t \<Rightarrow> if \<not> ownConfirmedContact \<and> t > cooldown_cutoff now (ca_cooldownDays campaign)
                  then Some (''COOLDOWN_CHANGED'', ''An external contact at '' @ to_iso_string t @ '' made dispatch unsafe'')
                  else None)))"

definition exclude_tx :: "Loaded \<Rightarrow> Campaign \<Rightarrow> Delivery \<Rightarrow> Recipient \<Rightarrow> string \<Rightarrow> string \<Rightarrow> unit tx" where
  "exclude_tx r campaign delivery recipient reason detail = tx_seq
    [update_delivery (dl_id delivery) (\<lambda>d. d\<lparr>dl_state := FAILED_TERMINAL,
       dl_lastErrorCode := Some (''SAFETY_'' @ reason), dl_lastErrorDetail := Some detail\<rparr>),
     update_recipient (rc_id recipient) (\<lambda>x. x\<lparr>rc_state := RecipientState.CANCELLED, rc_eligibility := EXCLUDED,
       rc_skipReason := Some reason, rc_skipDetail := Some detail\<rparr>),
     delete_reservations (\<lambda>v. rv_campaignRecipientId v = rc_id recipient),
     update_outbox (\<lambda>e. ob_recipientId e = rc_id recipient)
       (\<lambda>e. e\<lparr>ob_state := OutboxState.COMPLETED, ob_lastError := Some (''Safety cancellation: '' @ reason)\<rparr>),
     audit (ca_shopId campaign) (ca_id campaign) ''RECIPIENT_CANCELLED_PRE_DISPATCH''
       (JObj [(''recipientId'', JStr (rc_id recipient)), (''creatorId'', JStr (rc_creatorId (lo_recipient r))),
              (''deliveryId'', JStr (dl_id delivery)), (''reason'', JStr reason), (''detail'', JStr detail)])]"

definition count_dispatch :: "ident \<Rightarrow> millis \<Rightarrow> DailyUsage list \<Rightarrow> DailyUsage list" where
  "count_dispatch shopId date rows =
    (if List.find (\<lambda>u. du_shopId u = shopId \<and> du_shopDate u = date) rows = None
     then rows @ [\<lparr>du_shopId = shopId, du_shopDate = date, du_dispatchCount = 1\<rparr>]
     else upd_where (\<lambda>u. du_shopId u = shopId \<and> du_shopDate u = date)
            (\<lambda>u. u\<lparr>du_dispatchCount := du_dispatchCount u + 1\<rparr>) rows)"

definition begin_dispatch_tx :: "Loaded \<Rightarrow> millis \<Rightarrow> millis \<Rightarrow> Campaign \<Rightarrow> Delivery \<Rightarrow> unit tx" where
  "begin_dispatch_tx r date now campaign delivery = tx_seq
    [tx_modify (\<lambda>db. db\<lparr>tb_usage := count_dispatch (ca_shopId campaign) date (tb_usage db)\<rparr>),
     tx_modify (\<lambda>db. db\<lparr>tb_dispatches := tb_dispatches db @ [\<lparr>de_shopId = ca_shopId campaign, de_campaignId = ca_id campaign,
       de_deliveryId = dl_id (lo_delivery r), de_dispatchedAt = now\<rparr>]\<rparr>),
     update_campaign (ca_id campaign) (\<lambda>c. c\<lparr>ca_dispatchCount := ca_dispatchCount c + 1, ca_state := RUNNING\<rparr>),
     update_delivery (dl_id (lo_delivery r)) (\<lambda>d. d\<lparr>dl_state := DISPATCHING,
       dl_firstDispatchedAt := Some (case dl_firstDispatchedAt delivery of None \<Rightarrow> now | Some t \<Rightarrow> t),
       dl_lastAttemptedAt := Some now, dl_attemptCount := dl_attemptCount d + 1\<rparr>),
     update_recipient (rc_id (lo_recipient r)) (\<lambda>x. x\<lparr>rc_state := PROCESSING\<rparr>)]"

definition reserve_tx :: "(millis \<Rightarrow> string \<Rightarrow> millis) \<Rightarrow> Loaded \<Rightarrow> millis \<Rightarrow> DispatchClaim tx" where
  "reserve_tx shopDate r now =
    tx_bind (tx_bind (tx_read (find_campaign (rc_campaignId (lo_recipient r)))) tx_found) (\<lambda>campaign.
    tx_bind (tx_bind (tx_read (find_delivery (dl_id (lo_delivery r)))) tx_found) (\<lambda>currentDelivery.
      if dl_state currentDelivery \<notin> {DeliveryState.PENDING, FAILED_RETRYABLE} then tx_return (NotClaimed False None)
      else if ca_state campaign \<notin> {CampaignState.QUEUED, RUNNING} then tx_return (NotClaimed False None)
      else
        tx_bind (tx_bind (tx_read (find_recipient (rc_id (lo_recipient r)))) tx_found) (\<lambda>currentRecipient.
        tx_bind (tx_read (find_reservation (rc_id (lo_recipient r)))) (\<lambda>reservation.
        tx_bind (tx_read (find_contact (ca_shopId campaign) (rc_creatorId (lo_recipient r)))) (\<lambda>contact.
          case dispatch_exclusion r now campaign currentDelivery currentRecipient reservation contact of
            Some (reason, detail) \<Rightarrow>
              tx_bind (exclude_tx r campaign currentDelivery currentRecipient reason detail)
                (\<lambda>_. tx_return (NotClaimed True (Some reason)))
          | None \<Rightarrow>
              tx_bind (tx_bind (tx_read (find_shop (ca_shopId campaign))) tx_found) (\<lambda>shop.
              tx_bind (begin_dispatch_tx r (shopDate now (sh_timezone shop)) now campaign currentDelivery)
                (\<lambda>_. tx_return (Claimed (dl_attemptCount currentDelivery + 1))))))))) "

definition reserveDispatchSlot :: "(millis \<Rightarrow> string \<Rightarrow> millis) \<Rightarrow> Loaded \<Rightarrow> DispatchClaim prog" where
  "reserveDispatchSlot shopDate r = transact (\<lambda>env. reserve_tx shopDate r (e_now env))"

section \<open>Lemmas: the claim\<close>

lemma reserve_txE:
  assumes "reserve_tx sd r now db = Inr (c, db')"
  obtains (refused) "c = NotClaimed False None" "db' = db"
  | (excluded) campaign delivery recipient reason detail where
      "find_campaign (rc_campaignId (lo_recipient r)) db = Some campaign" "find_delivery (dl_id (lo_delivery r)) db = Some delivery"
      "find_recipient (rc_id (lo_recipient r)) db = Some recipient"
      "claimable_state (dl_state delivery)" "ca_state campaign \<in> {CampaignState.QUEUED, RUNNING}"
      "dispatch_exclusion r now campaign delivery recipient (find_reservation (rc_id (lo_recipient r)) db)
         (find_contact (ca_shopId campaign) (rc_creatorId (lo_recipient r)) db) = Some (reason, detail)"
      "exclude_tx r campaign delivery recipient reason detail db = Inr ((), db')" "c = NotClaimed True (Some reason)"
  | (claimed) campaign delivery recipient and shop :: Shop where
      "find_campaign (rc_campaignId (lo_recipient r)) db = Some campaign" "find_delivery (dl_id (lo_delivery r)) db = Some delivery"
      "find_recipient (rc_id (lo_recipient r)) db = Some recipient"
      "claimable_state (dl_state delivery)" "ca_state campaign \<in> {CampaignState.QUEUED, RUNNING}"
      "dispatch_exclusion r now campaign delivery recipient (find_reservation (rc_id (lo_recipient r)) db)
         (find_contact (ca_shopId campaign) (rc_creatorId (lo_recipient r)) db) = None"
      "begin_dispatch_tx r (sd now (sh_timezone shop)) now campaign delivery db = Inr ((), db')"
      "c = Claimed (dl_attemptCount delivery + 1)"
proof -
  obtain campaign where campaign: "find_campaign (rc_campaignId (lo_recipient r)) db = Some campaign"
    using assms by (auto simp: reserve_tx_def split: option.splits)
  moreover obtain delivery where delivery: "find_delivery (dl_id (lo_delivery r)) db = Some delivery"
    using assms campaign by (auto simp: reserve_tx_def split: option.splits)
  show thesis
  proof (cases "claimable_state (dl_state delivery) \<and> (ca_state campaign = CampaignState.QUEUED \<or> ca_state campaign = RUNNING)")
    case False
    then show thesis using assms refused campaign delivery
      by (auto simp: reserve_tx_def claimable_state_def split: if_splits)
  next
    case True
    then have active: "dl_state delivery = DeliveryState.PENDING \<or> dl_state delivery = FAILED_RETRYABLE"
      "ca_state campaign = CampaignState.QUEUED \<or> ca_state campaign = RUNNING" by (auto simp: claimable_state_def)
    then obtain recipient where recipient: "find_recipient (rc_id (lo_recipient r)) db = Some recipient"
      using assms campaign delivery by (auto simp: reserve_tx_def split: option.splits)
    let ?x = "dispatch_exclusion r now campaign delivery recipient (find_reservation (rc_id (lo_recipient r)) db)
         (find_contact (ca_shopId campaign) (rc_creatorId (lo_recipient r)) db)"
    show thesis
    proof (cases ?x)
      case None
      then obtain shop where "find_shop (ca_shopId campaign) db = Some shop"
        using assms active campaign delivery recipient by (auto simp: reserve_tx_def split: option.splits)
      then show thesis using assms None claimed [OF campaign delivery recipient] True active campaign delivery recipient
        by (auto simp: reserve_tx_def elim!: tx_bind_InrE)
    next
      case (Some y)
      then obtain reason detail where "?x = Some (reason, detail)" by (cases y) auto
      then show thesis using assms excluded [OF campaign delivery recipient] True active campaign delivery recipient
        by (auto simp: reserve_tx_def elim!: tx_bind_InrE)
    qed
  qed
qed

lemma exclude_tx_claims_nothing: "claimless (exclude_tx r campaign delivery recipient reason detail)"
  unfolding exclude_tx_def
  by (rule claimless_seq) (auto intro: claimless_update_delivery simp: claimable_state_def)

interpretation recovery: claimless "recover_tx r"
  unfolding recover_tx_def
  by (rule claimless_seq) (auto intro: claimless_update_delivery simp: claimable_state_def)

text \<open>What the beginning of a dispatch does to the deliveries.\<close>

lemma begin_dispatch_deliveries:
  assumes "begin_dispatch_tx r date now campaign delivery db = Inr ((), db')"
  shows "tb_deliveries db' = upd_where (\<lambda>d. dl_id d = dl_id (lo_delivery r)) (\<lambda>d. d\<lparr>dl_state := DISPATCHING,
       dl_firstDispatchedAt := Some (case dl_firstDispatchedAt delivery of None \<Rightarrow> now | Some t \<Rightarrow> t),
       dl_lastAttemptedAt := Some now, dl_attemptCount := dl_attemptCount d + 1\<rparr>) (tb_deliveries db)"
  using assms
  by (auto simp: begin_dispatch_tx_def update_campaign_def update_delivery_def update_recipient_def find_delivery_def
      find_recipient_def find_campaign_def elim!: tx_bind_InrE split: option.splits)

lemma follows_reserveDispatchSlot:
  "follows (reserveDispatchSlot sd r) Idle
     (\<lambda>role c. role = (case c of Claimed _ \<Rightarrow> Holding (dl_id (lo_delivery r)) | NotClaimed _ _ \<Rightarrow> Idle)) (\<lambda>role e. role = Idle)"
  unfolding reserveDispatchSlot_def
proof (rule follows_transact)
  fix env w c tables
  assume w: "relies Idle w" and res: "reserve_tx sd r (e_now env) (w_tables w) = Inr (c, tables)"
  let ?i = "dl_id (lo_delivery r)" and ?w = "w\<lparr>w_tables := tables\<rparr>"
  show "\<exists>r'. step_ok Idle w ?w r' \<and> r' = (case c of Claimed _ \<Rightarrow> Holding ?i | NotClaimed _ _ \<Rightarrow> Idle)"
    using res
  proof (cases rule: reserve_txE)
    case refused
    then show ?thesis using step_ok_no_new_claims [OF w, of ?w] by simp
  next
    case (excluded campaign delivery recipient reason detail)
    have "no_new_claims (w_tables w) tables"
      by (rule claimless.claims_nothing [OF exclude_tx_claims_nothing excluded(7)])
    then show ?thesis using step_ok_no_new_claims [OF w, of ?w] excluded by simp
  next
    case (claimed campaign delivery recipient shop)
    note dl = begin_dispatch_deliveries [OF claimed(7)]
    have i: "?i \<in> delivery_ids (w_tables w)" "claimable (w_tables w) ?i"
      using find_SomeD [OF claimed(2) [unfolded find_delivery_def]] claimed(4)
      by (auto simp: delivery_ids_def claimable_def intro: rev_image_eqI)
    have ids: "delivery_ids tables = delivery_ids (w_tables w)"
    proof -
      have "map dl_id (tb_deliveries tables) = map dl_id (tb_deliveries (w_tables w))" by (simp add: dl map_upd_where_id)
      then show ?thesis unfolding delivery_ids_def by (metis list.set_map)
    qed
    have "claimable tables j \<Longrightarrow> j \<noteq> ?i \<and> claimable (w_tables w) j" for j
      by (auto simp: claimable_def dl set_upd_where claimable_state_def split: if_splits)
    then have "step_ok Idle w ?w (Holding ?i)" using i ids by (auto simp: step_ok_def)
    then show ?thesis using claimed by simp
  qed
qed simp_all

section \<open>Properties\<close>

lemma exclusion_None:
  assumes "dispatch_exclusion r now campaign delivery recipient reservation contact = None"
  shows "(case contact of None \<Rightarrow> True | Some k \<Rightarrow> \<not> ct_doNotContact k \<and>
       (ct_unresolvedDelivery k \<longrightarrow> ct_lastDeliveryId k = Some (dl_id delivery)) \<and>
       (case ct_lastContactedAt k of None \<Rightarrow> True | Some t \<Rightarrow> t \<le> cooldown_cutoff now (ca_cooldownDays campaign) \<or>
          ct_lastCampaignId k = Some (ca_id campaign) \<and> ct_lastDeliveryId k = Some (dl_id delivery)))"
    and "\<exists>v. reservation = Some v \<and> now < rv_expiresAt v \<and> rv_shopId v = ca_shopId campaign \<and>
       rv_creatorId v = rc_creatorId (lo_recipient r) \<and> rv_campaignRecipientId v = rc_id recipient \<and>
       rc_campaignId recipient = ca_id campaign"
  using assms by (auto simp: dispatch_exclusion_def Let_def not_le split: option.splits if_splits)

text \<open>
  C2. reserveDispatchSlot claims a delivery only when the campaign is QUEUED or RUNNING, the
  delivery is PENDING or FAILED_RETRYABLE, the recipient holds an unexpired reservation of the
  same shop and creator, and the creator is not do-not-contact, has no unresolved delivery of
  another outreach, and no contact within the cooldown other than this very delivery; the delivery
  then is DISPATCHING with the next attempt number.
\<close>

theorem claim_needs_every_guard:
  assumes "reserve_tx sd r now db = Inr (Claimed n, db')"
  shows "\<exists>campaign delivery v. find_campaign (rc_campaignId (lo_recipient r)) db = Some campaign \<and>
    (ca_state campaign = CampaignState.QUEUED \<or> ca_state campaign = RUNNING) \<and>
    find_delivery (dl_id (lo_delivery r)) db = Some delivery \<and>
    (dl_state delivery = DeliveryState.PENDING \<or> dl_state delivery = FAILED_RETRYABLE) \<and>
    find_reservation (rc_id (lo_recipient r)) db = Some v \<and> now < rv_expiresAt v \<and>
    rv_shopId v = ca_shopId campaign \<and> rv_creatorId v = rc_creatorId (lo_recipient r) \<and>
    (case find_contact (ca_shopId campaign) (rc_creatorId (lo_recipient r)) db of None \<Rightarrow> True
     | Some k \<Rightarrow> \<not> ct_doNotContact k \<and>
        (\<not> ct_unresolvedDelivery k \<or> ct_lastDeliveryId k = Some (dl_id delivery)) \<and>
        (case ct_lastContactedAt k of None \<Rightarrow> True
         | Some t \<Rightarrow> t \<le> now - ca_cooldownDays campaign * 86400000 \<or>
            ct_lastCampaignId k = Some (ca_id campaign) \<and> ct_lastDeliveryId k = Some (dl_id delivery))) \<and>
    n = dl_attemptCount delivery + 1 \<and>
    map_option dl_state (find_delivery (dl_id (lo_delivery r)) db') = Some DISPATCHING"
  using assms
proof (cases rule: reserve_txE)
  case (claimed campaign delivery recipient shop)
  note x = exclusion_None [OF claimed(6)]
  obtain v where v: "find_reservation (rc_id (lo_recipient r)) db = Some v" "now < rv_expiresAt v"
    "rv_shopId v = ca_shopId campaign" "rv_creatorId v = rc_creatorId (lo_recipient r)" using x(2) by blast
  have "map_option dl_state (find_delivery (dl_id (lo_delivery r)) db') = Some DISPATCHING"
    using claimed(2) find_SomeD [OF claimed(2) [unfolded find_delivery_def]]
    by (simp add: find_delivery_def begin_dispatch_deliveries [OF claimed(7)] find_upd_where)
  then show ?thesis using claimed v x(1)
    by (intro exI [of _ campaign] exI [of _ delivery] exI [of _ v])
      (auto simp: claimable_state_def cooldown_cutoff_def split: option.splits)
qed simp_all

text \<open>
  A pre-dispatch exclusion marks the delivery FAILED_TERMINAL and the recipient CANCELLED and
  deletes the reservation.
\<close>

theorem excluded_recipient_is_closed:
  assumes "reserve_tx sd r now db = Inr (NotClaimed True reason, db')"
  shows "map_option dl_state (find_delivery (dl_id (lo_delivery r)) db') = Some FAILED_TERMINAL \<and>
    map_option rc_state (find_recipient (rc_id (lo_recipient r)) db') = Some RecipientState.CANCELLED \<and>
    find_reservation (rc_id (lo_recipient r)) db' = None"
  using assms
proof (cases rule: reserve_txE)
  case (excluded campaign delivery recipient reason' detail)
  have d: "dl_id delivery = dl_id (lo_delivery r)" and rec: "rc_id recipient = rc_id (lo_recipient r)"
    using find_SomeD [OF excluded(2) [unfolded find_delivery_def]] find_SomeD [OF excluded(3) [unfolded find_recipient_def]]
    by auto
  show ?thesis using excluded(2,3,7) d rec
    by (auto simp: exclude_tx_def update_delivery_def update_recipient_def find_delivery_def find_recipient_def
        delete_reservations_def update_outbox_def audit_def find_reservation_def find_None_iff find_upd_where
        elim!: tx_bind_InrE split: option.splits)
qed simp_all

lemma terminal_partition:
  "list_all (\<lambda>s. s \<in> set TERMINAL_RECIPIENT_STATES) states \<Longrightarrow>
   count_where (\<lambda>s. s = RecipientState.SENT) states + count_where (\<lambda>s. s = RecipientState.RESTRICTED) states
     + count_where (\<lambda>s. s = FAILED) states + count_where (\<lambda>s. s = RecipientState.CANCELLED) states
     + count_where (\<lambda>s. s = RecipientState.DELIVERY_UNKNOWN_UNRESOLVED) states = int (length states)"
  by (induction states) (auto simp: TERMINAL_RECIPIENT_STATES_def count_where_def)

lemma terminal_not_pending:
  "list_all (\<lambda>s. s \<in> set TERMINAL_RECIPIENT_STATES) states \<Longrightarrow>
   \<not> list_ex (\<lambda>s. s \<in> {RESERVED, RecipientState.QUEUED, PROCESSING, RecipientState.DELIVERY_UNKNOWN}) states"
  by (induction states) (auto simp: TERMINAL_RECIPIENT_STATES_def)

lemma all_counted: "count_where P xs = int (length xs) \<longleftrightarrow> list_all P xs"
proof (induction xs)
  case (Cons x xs)
  moreover have "int (length (filter P xs)) \<noteq> 1 + int (length xs)" using length_filter_le [of P xs] by linarith
  ultimately show ?case by (auto simp: count_where_def)
qed (simp add: count_where_def)

text \<open>
  When all frozen recipients are terminal, the summary accounts for every one of them,
  nothing is counted as other, and the state the worker derives from it is the one completionState
  gives.
\<close>

theorem completion_summary_is_complete:
  assumes "allFrozenRecipientsTerminal states"
  shows "cp_otherTerminal (campaignCompletionSummary states) = 0 \<and>
    cp_sent (campaignCompletionSummary states) + cp_restricted (campaignCompletionSummary states)
      + cp_failed (campaignCompletionSummary states) + cp_safetyCancelled (campaignCompletionSummary states)
      + cp_unresolved (campaignCompletionSummary states) = int (length states) \<and>
    completionState states = Some (if cp_completedSuccessfully (campaignCompletionSummary states)
      then CampaignState.COMPLETED else COMPLETED_WITH_ERRORS)"
proof -
  have t: "length states > 0" "list_all (\<lambda>s. s \<in> set TERMINAL_RECIPIENT_STATES) states"
    using assms by (auto simp: allFrozenRecipientsTerminal_def)
  have "completionState states = Some (if cp_completedSuccessfully (campaignCompletionSummary states)
      then CampaignState.COMPLETED else COMPLETED_WITH_ERRORS)"
    using t(1) terminal_not_pending [OF t(2)] all_counted [of "\<lambda>s. s = RecipientState.SENT" states]
    by (simp add: completionState_def campaignCompletionSummary_def Let_def)
  then show ?thesis using terminal_partition [OF t(2)] by (simp add: campaignCompletionSummary_def Let_def)
qed

section \<open>A small world\<close>

text \<open>
  One shop with one queued campaign of two recipients; the deliveries are those of an outreach that
  has just been queued. The witnesses of the theories that follow run the programs on it.
\<close>

definition ex_campaign :: Campaign where
  "ex_campaign = \<lparr>ca_id = ''k1'', ca_shopId = ''s1'', ca_name = ''Launch'', ca_productName = ''Mat'', ca_targetCount = 2,
     ca_candidateLimit = 10, ca_cooldownDays = 30, ca_messageTemplate = ''Hello'', ca_filters = no_filters,
     ca_rankingMetric = FOLLOWERS, ca_rankingDirection = DESC, ca_state = CampaignState.QUEUED, ca_version = 3,
     ca_summary = JObj [], ca_frozenAt = Some 1000, ca_freezeExpiresAt = None, ca_frozenFilters = None,
     ca_frozenTemplate = Some ''Hello'', ca_frozenContext = None, ca_dispatchCount = 0, ca_safetyPauseReason = None\<rparr>"

definition ex_recipient :: "ident \<Rightarrow> ident \<Rightarrow> Recipient" where
  "ex_recipient i creator = \<lparr>rc_id = i, rc_campaignId = ''k1'', rc_creatorId = creator, rc_discoveryOrdinal = 0,
     rc_eligibility = Eligibility.ELIGIBLE, rc_skipReason = None, rc_skipDetail = None, rc_rankingValue = 5, rc_selected = True,
     rc_frozenMessage = Some ''Hello'', rc_contentHash = Some ''h'', rc_creatorOpenIdSnapshot = Some (''open-'' @ creator),
     rc_recipientSnapshot = None, rc_frozenRank = Some 1, rc_state = RecipientState.QUEUED,
     rc_snapshotId = ''sn-'' @ creator\<rparr>"

definition ex_delivery :: "ident \<Rightarrow> ident \<Rightarrow> Delivery" where
  "ex_delivery i recipient = \<lparr>dl_id = i, dl_campaignId = ''k1'', dl_campaignRecipientId = recipient, dl_conversationId = None,
     dl_deterministicKey = i, dl_contentHash = ''h'', dl_state = DeliveryState.PENDING, dl_externalMessageId = None,
     dl_providerRequestId = None, dl_attemptCount = 0, dl_lastAttemptedAt = None, dl_firstDispatchedAt = None,
     dl_sentAt = None, dl_lastErrorCode = None, dl_lastErrorDetail = None\<rparr>"

definition ex_outbox :: "ident \<Rightarrow> ident \<Rightarrow> ident \<Rightarrow> OutboxEntry" where
  "ex_outbox i delivery recipient = \<lparr>ob_id = i, ob_campaignId = ''k1'', ob_deliveryId = delivery, ob_recipientId = recipient,
     ob_deterministicJobId = ''send-'' @ recipient, ob_state = OutboxState.ENQUEUED, ob_enqueueAttempts = 1,
     ob_availableAt = 1000, ob_enqueuedAt = Some 1000, ob_lastError = None\<rparr>"

definition ex_creator :: "ident \<Rightarrow> Creator" where
  "ex_creator i = \<lparr>cr_id = i, cr_creatorOpenId = Some (''open-'' @ i), cr_username = Some i, cr_nickname = None,
     cr_creatorUserId = None, cr_avatarUrl = None, cr_selectionRegion = ''ID'', cr_creatorImId = None, cr_profileUri = None\<rparr>"

definition ex_reservation :: "ident \<Rightarrow> ident \<Rightarrow> Reservation" where
  "ex_reservation creator recipient = \<lparr>rv_shopId = ''s1'', rv_creatorId = creator, rv_campaignRecipientId = recipient,
     rv_expiresAt = 9000000\<rparr>"

definition ex_tables :: Tables where
  "ex_tables = \<lparr>tb_shops = [\<lparr>sh_id = ''s1'', sh_timezone = ''Europe/Rome'', sh_maxRecipientsPerCampaign = 100\<rparr>],
     tb_creators = [ex_creator ''c1'', ex_creator ''c2''], tb_contacts = [], tb_conversations = [], tb_messages = [],
     tb_facts = [], tb_campaigns = [ex_campaign],
     tb_recipients = [ex_recipient ''r1'' ''c1'', ex_recipient ''r2'' ''c2''],
     tb_reservations = [ex_reservation ''c1'' ''r1'', ex_reservation ''c2'' ''r2''],
     tb_deliveries = [ex_delivery ''d1'' ''r1'', ex_delivery ''d2'' ''r2''],
     tb_outbox = [ex_outbox ''o1'' ''d1'' ''r1'', ex_outbox ''o2'' ''d2'' ''r2''], tb_attempts = [], tb_runs = [],
     tb_dispatches = [], tb_usage = [], tb_audit = [], tb_governed = no_tables,
     tb_snapshots = [], tb_identities = [], tb_discoveryRuns = [], tb_candidates = [], tb_identityAudits = [],
     tb_historyJobs = [], tb_historyWork = [], tb_syncRuns = [], tb_crawl = no_crawl\<rparr>"

definition ex_loaded :: Loaded where
  "ex_loaded = \<lparr>lo_recipient = ex_recipient ''r1'' ''c1'', lo_creator = ex_creator ''c1'', lo_campaign = ex_campaign,
     lo_shop = \<lparr>sh_id = ''s1'', sh_timezone = ''Europe/Rome'', sh_maxRecipientsPerCampaign = 100\<rparr>,
     lo_delivery = ex_delivery ''d1'' ''r1''\<rparr>"

lemmas ex_defs = ex_campaign_def ex_recipient_def ex_delivery_def ex_outbox_def ex_creator_def ex_reservation_def
  ex_tables_def ex_loaded_def

lemma ex_finds:
  "find_campaign ''k1'' ex_tables = Some ex_campaign" "find_delivery ''d1'' ex_tables = Some (ex_delivery ''d1'' ''r1'')"
  "find_recipient ''r1'' ex_tables = Some (ex_recipient ''r1'' ''c1'')"
  "find_reservation ''r1'' ex_tables = Some (ex_reservation ''c1'' ''r1'')"
  "find_contact ''s1'' ''c1'' ex_tables = None"
  "find_shop ''s1'' ex_tables = Some \<lparr>sh_id = ''s1'', sh_timezone = ''Europe/Rome'', sh_maxRecipientsPerCampaign = 100\<rparr>"
  by (simp_all add: find_campaign_def find_delivery_def find_recipient_def find_reservation_def find_contact_def
      find_shop_def ex_defs)

lemma ex_claim: "\<exists>db. reserve_tx (\<lambda>now zone. 0) ex_loaded 2000 ex_tables = Inr (Claimed 1, db)"
  by (simp add: reserve_tx_def ex_finds ex_defs(1,2,3,6,8) dispatch_exclusion_def begin_dispatch_tx_def update_campaign_def
      update_delivery_def update_recipient_def find_campaign_def find_delivery_def find_recipient_def ex_tables_def find_reservation_def find_contact_def find_shop_def)

lemma ex_excluded: "\<exists>db. reserve_tx (\<lambda>now zone. 0) ex_loaded 9000000 ex_tables = Inr (NotClaimed True (Some ''RESERVATION_INVALID''), db)"
  by (simp add: reserve_tx_def ex_finds ex_defs(1,2,3,6,8) dispatch_exclusion_def exclude_tx_def update_campaign_def
      update_delivery_def update_recipient_def find_campaign_def find_delivery_def find_recipient_def ex_tables_def find_reservation_def find_contact_def find_shop_def delete_reservations_def update_outbox_def audit_def)

lemma claim_needs_every_guard_witness:
  "\<exists>db campaign v. reserve_tx (\<lambda>now zone. 0) ex_loaded 2000 ex_tables = Inr (Claimed 1, db) \<and>
     find_campaign ''k1'' ex_tables = Some campaign \<and> ca_state campaign = CampaignState.QUEUED \<and>
     find_reservation ''r1'' ex_tables = Some v \<and> 2000 < rv_expiresAt v \<and>
     map_option dl_state (find_delivery ''d1'' db) = Some DISPATCHING"
proof -
  obtain db where db: "reserve_tx (\<lambda>now zone. 0) ex_loaded 2000 ex_tables = Inr (Claimed 1, db)" using ex_claim by blast
  show ?thesis using db claim_needs_every_guard [OF db] by (auto simp: ex_finds ex_defs(1,2,3,8))
qed

lemma excluded_recipient_is_closed_witness:
  "\<exists>db. reserve_tx (\<lambda>now zone. 0) ex_loaded 9000000 ex_tables = Inr (NotClaimed True (Some ''RESERVATION_INVALID''), db) \<and>
     map_option dl_state (find_delivery ''d1'' db) = Some FAILED_TERMINAL \<and> find_reservation ''r1'' db = None"
proof -
  obtain db where db: "reserve_tx (\<lambda>now zone. 0) ex_loaded 9000000 ex_tables = Inr (NotClaimed True (Some ''RESERVATION_INVALID''), db)"
    using ex_excluded by blast
  show ?thesis using db excluded_recipient_is_closed [OF db] by (simp add: ex_defs(2,3,8))
qed

lemma completion_summary_is_complete_witness:
  "completionState [RecipientState.SENT, RecipientState.CANCELLED] = Some COMPLETED_WITH_ERRORS"
  using completion_summary_is_complete [of "[RecipientState.SENT, RecipientState.CANCELLED]"]
  by (simp add: allFrozenRecipientsTerminal_def TERMINAL_RECIPIENT_STATES_def campaignCompletionSummary_def count_where_def)

end
