(* ===== verification/Outbox.thy ===== *)
theory Outbox
  imports Ownership
begin

text \<open>
  The queue outbox and the expiry of frozen campaigns: \<open>apps/api/src/shared.ts\<close>, whose two sweeps
  both the API server and (with small differences) the maintenance sweep of the worker run. The
  BullMQ queue answers through the environment: whether it can be reached and the state of a job.
\<close>

section \<open>Calls of the queue\<close>

datatype OutboundMode = READ_ONLY | MOCK | LIVE

definition job_state :: "string \<Rightarrow> string option prog" where
  "job_state jobId = Act (\<lambda>env w. (case e_queueDown env of Some m \<Rightarrow> Throw (PlainError m) | None \<Rightarrow> Return (e_jobState env), w))"

definition remove_job :: "string \<Rightarrow> unit prog" where
  "remove_job jobId = Act (\<lambda>env w. case e_queueDown env of Some m \<Rightarrow> (Throw (PlainError m), w)
     | None \<Rightarrow> (Return (), w\<lparr>w_jobs := del_where (\<lambda>j. jb_jobId j = jobId) (w_jobs w)\<rparr>))"

definition send_job :: "string \<Rightarrow> ident \<Rightarrow> Job" where
  "send_job jobId recipientId = \<lparr>jb_name = ''send'', jb_jobId = jobId, jb_target = recipientId, jb_attemptNumber = 0, jb_delay = 0\<rparr>"

text \<open>The message of an error; what a library says is a parameter.\<close>

definition error_message :: "(Err \<Rightarrow> string) \<Rightarrow> Err \<Rightarrow> string" where
  "error_message library e = (case e of AdapterError x \<Rightarrow> oer_message x | PlainError m \<Rightarrow> m | HttpError _ m \<Rightarrow> m
     | _ \<Rightarrow> library e)"

section \<open>Expiry of frozen campaigns\<close>

definition expired_frozen :: "millis \<Rightarrow> Campaign \<Rightarrow> bool" where
  "expired_frozen now c \<longleftrightarrow> ca_state c = FROZEN \<and> (case ca_freezeExpiresAt c of None \<Rightarrow> False | Some t \<Rightarrow> t \<le> now)"

definition reserved_in :: "ident \<Rightarrow> Tables \<Rightarrow> Reservation \<Rightarrow> bool" where
  "reserved_in campaignId db v \<longleftrightarrow> (case find_recipient (rv_campaignRecipientId v) db of
     None \<Rightarrow> False | Some r \<Rightarrow> rc_campaignId r = campaignId)"

definition release_reservations :: "ident \<Rightarrow> unit tx" where
  "release_reservations campaignId = tx_modify (\<lambda>db. db\<lparr>tb_reservations := del_where (reserved_in campaignId db) (tb_reservations db)\<rparr>)"

definition expire_one :: "millis \<Rightarrow> Campaign \<Rightarrow> unit tx" where
  "expire_one now c =
    tx_bind (tx_read (\<lambda>db. list_ex (\<lambda>k. ca_id k = ca_id c \<and> expired_frozen now k) (tb_campaigns db))) (\<lambda>changed.
      if \<not> changed then tx_return ()
      else tx_seq
        [update_campaigns (\<lambda>k. ca_id k = ca_id c \<and> expired_frozen now k)
           (\<lambda>k. k\<lparr>ca_state := PREVIEW_EXPIRED, ca_version := ca_version k + 1\<rparr>),
         release_reservations (ca_id c),
         update_recipients (\<lambda>r. rc_campaignId r = ca_id c \<and> rc_state r = RESERVED)
           (\<lambda>r. r\<lparr>rc_state := SELECTED, rc_frozenMessage := None, rc_contentHash := None\<rparr>),
         audit (ca_shopId c) (ca_id c) ''CAMPAIGN_FREEZE_EXPIRED''
           (JObj [(''expiredAt'', JStr (to_iso_string now)), (''reservationsReleased'', JBool True)])])"

definition expire_tx :: "millis \<Rightarrow> int tx" where
  "expire_tx now = tx_bind (tx_read (\<lambda>db. filter (expired_frozen now) (tb_campaigns db))) (\<lambda>expired.
     tx_bind (tx_each (expire_one now) expired) (\<lambda>_. tx_return (int (length expired))))"

definition expireFrozenCampaigns :: "int prog" where
  "expireFrozenCampaigns = p_bind clock (\<lambda>now. transact (\<lambda>env. expire_tx now))"

section \<open>Entries of the outbox\<close>

definition active_campaign :: "ident \<Rightarrow> Tables \<Rightarrow> bool" where
  "active_campaign i db \<longleftrightarrow> (case find_campaign i db of None \<Rightarrow> False
     | Some c \<Rightarrow> ca_state c = CampaignState.QUEUED \<or> ca_state c = RUNNING)"

text \<open>The queued recipients of active campaigns that have a delivery, up to the limit.\<close>

definition queued_recipients :: "nat \<Rightarrow> Tables \<Rightarrow> (Recipient \<times> Delivery) list" where
  "queued_recipients limit db = take limit (List.map_filter
     (\<lambda>r. if rc_state r = RecipientState.QUEUED \<and> active_campaign (rc_campaignId r) db
          then map_option (Pair r) (delivery_of (rc_id r) db) else None) (tb_recipients db))"

definition new_entry :: "ident \<Rightarrow> Recipient \<Rightarrow> Delivery \<Rightarrow> millis \<Rightarrow> OutboxEntry" where
  "new_entry i r d now = \<lparr>ob_id = i, ob_campaignId = rc_campaignId r, ob_deliveryId = dl_id d, ob_recipientId = rc_id r,
     ob_deterministicJobId = ''send-'' @ rc_id r, ob_state = OutboxState.PENDING, ob_enqueueAttempts = 0,
     ob_availableAt = now, ob_enqueuedAt = None, ob_lastError = None\<rparr>"

definition upsert_entry :: "(OutboxEntry \<Rightarrow> OutboxEntry) \<Rightarrow> Recipient \<Rightarrow> Delivery \<Rightarrow> ident \<Rightarrow> millis \<Rightarrow> OutboxEntry tx" where
  "upsert_entry f r d i now =
    tx_bind (tx_read (\<lambda>db. List.find (\<lambda>e. ob_recipientId e = rc_id r) (tb_outbox db))) (\<lambda>found.
      case found of
        Some e \<Rightarrow> tx_bind (update_outbox (\<lambda>x. ob_recipientId x = rc_id r) f) (\<lambda>_. tx_return (f e))
      | None \<Rightarrow>
          tx_bind (tx_read (\<lambda>db. List.find (\<lambda>e. ob_id e = i \<or> ob_deliveryId e = dl_id d) (tb_outbox db))) (\<lambda>clash.
          tx_bind (tx_guard (clash = None) (DbError UniqueViolation)) (\<lambda>_.
          tx_bind (tx_modify (\<lambda>db. db\<lparr>tb_outbox := tb_outbox db @ [new_entry i r d now]\<rparr>)) (\<lambda>_.
          tx_return (new_entry i r d now)))))"

definition entry_recipient_queued :: "Tables \<Rightarrow> OutboxEntry \<Rightarrow> bool" where
  "entry_recipient_queued db e \<longleftrightarrow> (case find_delivery (ob_deliveryId e) db of None \<Rightarrow> False
     | Some d \<Rightarrow> (case find_recipient (dl_campaignRecipientId d) db of None \<Rightarrow> False
        | Some r \<Rightarrow> rc_state r = RecipientState.QUEUED))"

definition open_entry :: "OutboxEntry \<Rightarrow> bool" where
  "open_entry e \<longleftrightarrow> ob_state e = OutboxState.PENDING \<or> ob_state e = ENQUEUED"

definition mark_enqueued :: "ident \<Rightarrow> int \<Rightarrow> unit prog" where
  "mark_enqueued i increment = transact (\<lambda>env. tx_modify (\<lambda>db. db\<lparr>tb_outbox := upd_where
     (\<lambda>e. ob_id e = i \<and> open_entry e \<and> entry_recipient_queued db e)
     (\<lambda>e. e\<lparr>ob_state := ENQUEUED, ob_enqueuedAt := Some (e_now env),
            ob_enqueueAttempts := ob_enqueueAttempts e + increment, ob_lastError := None\<rparr>) (tb_outbox db)\<rparr>))"

definition update_entry :: "ident \<Rightarrow> (OutboxEntry \<Rightarrow> OutboxEntry) \<Rightarrow> unit tx" where
  "update_entry i f db = (if List.find (\<lambda>e. ob_id e = i) (tb_outbox db) = None then Inl (DbError RecordNotFound)
     else Inr ((), db\<lparr>tb_outbox := upd_where (\<lambda>e. ob_id e = i) f (tb_outbox db)\<rparr>))"

text \<open>
  The attempt to hand one entry to the queue: an existing job that has ended is removed first, any
  other existing job is left (\<open>busy\<close> is what happens then).
\<close>

definition hand_over :: "OutboxEntry \<Rightarrow> bool prog \<Rightarrow> bool prog" where
  "hand_over e busy =
    (let enqueue = p_then (add_job (send_job (ob_deterministicJobId e) (ob_recipientId e)))
           (p_then (mark_enqueued (ob_id e) 1) (Return True))
     in p_bind (job_state (ob_deterministicJobId e)) (\<lambda>state.
          case state of None \<Rightarrow> enqueue
          | Some s \<Rightarrow> if s = ''completed'' \<or> s = ''failed'' then p_then (remove_job (ob_deterministicJobId e)) enqueue
                     else busy))"

fun enqueue_all :: "(Err \<Rightarrow> string) \<Rightarrow> OutboxEntry list \<Rightarrow> int \<Rightarrow> int \<Rightarrow> (int \<times> int) prog" where
  "enqueue_all library [] enqueued failed = Return (enqueued, failed)"
| "enqueue_all library (e # es) enqueued failed =
    p_bind (p_catch
        (p_bind (hand_over e (p_then (mark_enqueued (ob_id e) 0) (Return False)))
          (\<lambda>added. Return (if added then (enqueued + 1, failed) else (enqueued, failed))))
        (\<lambda>err. p_bind clock (\<lambda>now. p_then (transact (\<lambda>env. update_entry (ob_id e) (\<lambda>x. x\<lparr>ob_state := OutboxState.PENDING,
             ob_enqueueAttempts := ob_enqueueAttempts x + 1, ob_availableAt := now + 5000,
             ob_lastError := Some (error_message library err)\<rparr>))) (Return (enqueued, failed + 1)))))
      (\<lambda>(enqueued', failed'). enqueue_all library es enqueued' failed')"

definition due_entries :: "nat \<Rightarrow> millis \<Rightarrow> Tables \<Rightarrow> OutboxEntry list" where
  "due_entries limit now db = take limit (filter
     (\<lambda>e. open_entry e \<and> ob_availableAt e \<le> now \<and> active_campaign (ob_campaignId e) db \<and> entry_recipient_queued db e)
     (tb_outbox db))"

definition reconcileOutbox :: "OutboundMode \<Rightarrow> nat \<Rightarrow> (Err \<Rightarrow> string) \<Rightarrow> (int \<times> int) prog" where
  "reconcileOutbox mode limit library =
    (if mode = READ_ONLY then Return (0, 0)
     else p_bind (transact (\<lambda>env. tx_read (queued_recipients limit))) (\<lambda>missing.
       p_then (p_each (\<lambda>(r, d). p_bind (transact (\<lambda>env. upsert_entry id r d (e_fresh env 0) (e_now env))) (\<lambda>_. Return ())) missing)
         (p_bind (transact (\<lambda>env. tx_read (due_entries limit (e_now env)))) (\<lambda>entries.
           enqueue_all library entries 0 0))))"

section \<open>Lemmas: the sweeps claim nothing\<close>

interpretation expiry: claimless "expire_tx now" for now
  unfolding expire_tx_def expire_one_def release_reservations_def
  by (auto intro!: claimless_intros)

lemma claimless_upsert_entry [simp]: "claimless (upsert_entry f r d i now)"
  unfolding upsert_entry_def by (auto intro!: claimless_intros)

lemma claimless_update_entry [simp]: "claimless (update_entry i f)"
  by (auto simp: claimless_def update_entry_def intro!: no_new_claims_same split: if_splits)

lemma keeps_queue [keeps_rules]: "keeps (job_state jobId)" "keeps (remove_job jobId)"
  unfolding job_state_def remove_job_def
  by (auto intro!: keeps_silent keeps_rules split: option.split)

lemma keeps_mark_enqueued [keeps_rules]: "keeps (mark_enqueued i n)"
  unfolding mark_enqueued_def by (auto intro!: keeps_rules claimless_modify)

lemma keeps_hand_over [keeps_rules]: "keeps busy \<Longrightarrow> keeps (hand_over e busy)"
  unfolding hand_over_def Let_def by (auto intro!: keeps_rules split: option.split)

lemma keeps_enqueue_all [keeps_rules]: "keeps (enqueue_all library es n m)"
  by (induction library es n m rule: enqueue_all.induct) (auto intro!: keeps_rules)

lemma keeps_reconcileOutbox [keeps_rules]: "keeps (reconcileOutbox mode limit library)"
  unfolding reconcileOutbox_def by (auto intro!: keeps_rules)

lemma keeps_expireFrozenCampaigns [keeps_rules]: "keeps expireFrozenCampaigns"
  unfolding expireFrozenCampaigns_def by (auto intro!: keeps_rules expiry.claimless_axioms)

end
