(* ===== verification/Worker.thy ===== *)
theory Worker
  imports Dispatch Outbox
begin

text \<open>
  The outbound worker, \<open>apps/worker/src/main.ts\<close>: the send job, the reconciliation job and the
  maintenance sweep, as programs over the shared world. Every statement on the database outside a
  transaction is an action of its own, so other programs may run between any two of them. The
  adapter and the queue answer through the environment. Timers, logging and start-up are left out;
  a timer only lets other programs run. A \<open>finally\<close> that releases an unsettled permit is written
  where the permit is unsettled (\<open>unsettled\<close>).
\<close>

section \<open>Configuration and jobs\<close>

text \<open>
  The configuration. \<open>wc_shopDate\<close> is the calendar date of an instant in a time zone and
  \<open>wc_libraryMessage\<close> the message of an error made by a library, neither of which is code of the
  repository. \<open>wc_waitTries\<close> cuts off the waiting loop, which would otherwise go on for ever.
\<close>

record WorkerConfig =
  wc_mode :: OutboundMode
  wc_governor :: GovernorOptions
  wc_instance :: string
  wc_reconciliationDelays :: "int list"
  wc_reconcileBatchSize :: nat
  wc_shopDate :: "millis \<Rightarrow> string \<Rightarrow> millis"
  wc_libraryMessage :: "Err \<Rightarrow> string"
  wc_waitTries :: nat

record SendJob =
  sj_recipientId :: ident
  sj_attemptsMade :: int
  sj_attempts :: "int option"
  sj_hasToken :: bool

definition mutationCapability :: "OutboundMode \<Rightarrow> bool" where
  "mutationCapability mode \<longleftrightarrow> mode \<noteq> READ_ONLY"

fun kind_name :: "OutboundErrorKind \<Rightarrow> string" where
  "kind_name AUTH = ''AUTH''" | "kind_name PERMISSION = ''PERMISSION''" | "kind_name QUOTA = ''QUOTA''"
| "kind_name RESTRICTED = ''RESTRICTED''" | "kind_name RETRYABLE = ''RETRYABLE''" | "kind_name PROVIDER = ''PROVIDER''"
| "kind_name MALFORMED_RESPONSE = ''MALFORMED_RESPONSE''"

fun kind_lower :: "OutboundErrorKind \<Rightarrow> string" where
  "kind_lower AUTH = ''auth''" | "kind_lower PERMISSION = ''permission''" | "kind_lower QUOTA = ''quota''"
| "kind_lower RESTRICTED = ''restricted''" | "kind_lower RETRYABLE = ''retryable''" | "kind_lower PROVIDER = ''provider''"
| "kind_lower MALFORMED_RESPONSE = ''malformed_response''"

text \<open>\<open>String(error.providerCode ?? fallback)\<close>, and a string that is present and not empty.\<close>

definition code_or :: "string \<Rightarrow> OutboundError \<Rightarrow> string" where
  "code_or fallback e = (case oer_providerCode e of Some n \<Rightarrow> show_int n | None \<Rightarrow> fallback)"

definition truthy :: "string option \<Rightarrow> string option" where
  "truthy s = (case s of Some (c # cs) \<Rightarrow> Some (c # cs) | _ \<Rightarrow> None)"

section \<open>Calls of the governor\<close>

definition governed :: "(Governed \<Rightarrow> db_error + 'a \<times> Governed) \<Rightarrow> 'a tx" where
  "governed f db = (case f (tb_governed db) of Inl e \<Rightarrow> Inl (DbError e)
     | Inr (a, g) \<Rightarrow> Inr (a, db\<lparr>tb_governed := g\<rparr>))"

definition governed_unit :: "(Governed \<Rightarrow> db_error + Governed) \<Rightarrow> unit tx" where
  "governed_unit f = governed (\<lambda>g. map_sum id (Pair ()) (f g))"

definition acquire_permit :: "WorkerConfig \<Rightarrow> ident \<Rightarrow> Operation \<Rightarrow> string \<Rightarrow> PermitResult prog" where
  "acquire_permit cfg shopId operation owner = transact (\<lambda>env.
     governed (acquire (wc_governor cfg) (e_fresh env 0) (e_fresh env 1) shopId operation owner (e_now env)))"

definition healthy_permit :: "Permit \<Rightarrow> string \<Rightarrow> ResponseMeta \<Rightarrow> unit prog" where
  "healthy_permit p outcome meta = transact (\<lambda>env. governed_unit (healthy p outcome meta (e_now env)))"

definition throttle_permit :: "Permit \<Rightarrow> ResponseMeta \<Rightarrow> int option \<Rightarrow> int prog" where
  "throttle_permit p meta retryAfterMs = p_bind (transact (\<lambda>env. governed
     (throttle p meta (map_option (Fin \<circ> of_int) retryAfterMs) (e_random env) (e_now env)))) (\<lambda>(delay, _). Return delay)"

definition transient_permit :: "Permit \<Rightarrow> ResponseMeta \<Rightarrow> int prog" where
  "transient_permit p meta = p_bind (transact (\<lambda>env. governed
     (transientFailure p meta (e_random env) (e_now env)))) (\<lambda>(delay, _). Return delay)"

definition quota_permit :: "Permit \<Rightarrow> string \<Rightarrow> string \<Rightarrow> ResponseMeta \<Rightarrow> unit prog" where
  "quota_permit p code detail meta = transact (\<lambda>env. governed_unit (quotaBlocked p code detail meta (e_now env)))"

definition release_permit :: "Permit \<Rightarrow> string \<Rightarrow> ResponseMeta \<Rightarrow> unit prog" where
  "release_permit p outcome meta = transact (\<lambda>env. governed_unit (release p outcome meta (e_now env)))"

text \<open>The \<open>finally\<close> clause, on the part of the code where the permit is not settled yet.\<close>

definition unsettled :: "Permit \<Rightarrow> 'a prog \<Rightarrow> 'a prog" where
  "unsettled p q = p_catch q (\<lambda>e. p_then (p_catch (release_permit p ''LOCAL_FAILURE'' no_meta) (\<lambda>_. Return ())) (Throw e))"

section \<open>Calls of the queue and of the adapter\<close>

definition delayJob :: "SendJob \<Rightarrow> int \<Rightarrow> 'a prog" where
  "delayJob job delayMs =
    (if \<not> sj_hasToken job then Throw (PlainError ''Active job has no token'')
     else Act (\<lambda>env w. (Throw (case e_queueDown env of Some m \<Rightarrow> PlainError m | None \<Rightarrow> Delayed delayMs), w)))"

definition create_conversation :: "ident \<Rightarrow> ident prog" where
  "create_conversation creatorOpenId =
    Act (\<lambda>env w. (case e_conversation env of Inl e \<Rightarrow> Throw e | Inr c \<Rightarrow> Return c, w))"

definition send_message :: "ident \<Rightarrow> ident \<Rightarrow> ident \<Rightarrow> string \<Rightarrow> SendOutcome prog" where
  "send_message deliveryId conversationId creatorOpenId content = Act (\<lambda>env w. (Return (e_send env),
     w\<lparr>w_requests := w_requests w @ [(deliveryId, e_send env)]\<rparr>))"

section \<open>Loading a recipient\<close>

text \<open>The foreign keys guarantee that the rows included with a recipient exist; its delivery may not.\<close>

definition load_recipient :: "Recipient \<Rightarrow> Delivery \<Rightarrow> Tables \<Rightarrow> Loaded option" where
  "load_recipient r d db =
    (case (find_creator (rc_creatorId r) db, find_campaign (rc_campaignId r) db) of
       (Some c, Some k) \<Rightarrow> (case find_shop (ca_shopId k) db of
          Some s \<Rightarrow> Some \<lparr>lo_recipient = r, lo_creator = c, lo_campaign = k, lo_shop = s, lo_delivery = d\<rparr>
        | None \<Rightarrow> None)
     | _ \<Rightarrow> None)"

definition load_send :: "ident \<Rightarrow> Tables \<Rightarrow> Loaded option" where
  "load_send recipientId db =
    (case (find_recipient recipientId db, delivery_of recipientId db) of
       (Some r, Some d) \<Rightarrow> load_recipient r d db
     | _ \<Rightarrow> None)"

section \<open>Outcomes of a delivery\<close>

definition unknown_states :: "DeliveryState set" where
  "unknown_states = {DeliveryState.DELIVERY_UNKNOWN, DeliveryState.DELIVERY_UNKNOWN_UNRESOLVED}"

text \<open>The two counts that decide whether the contact keeps its mark for an unresolved delivery.\<close>

definition other_unknown_deliveries :: "Loaded \<Rightarrow> Tables \<Rightarrow> int" where
  "other_unknown_deliveries r db = count_where (\<lambda>d. dl_id d \<noteq> dl_id (lo_delivery r) \<and> dl_state d \<in> unknown_states \<and>
     (case find_recipient (dl_campaignRecipientId d) db of None \<Rightarrow> False
      | Some x \<Rightarrow> rc_creatorId x = rc_creatorId (lo_recipient r)) \<and>
     (case find_campaign (dl_campaignId d) db of None \<Rightarrow> False
      | Some k \<Rightarrow> ca_shopId k = ca_shopId (lo_campaign r))) (tb_deliveries db)"

definition historical_unknown_facts :: "Loaded \<Rightarrow> Tables \<Rightarrow> int" where
  "historical_unknown_facts r db = count_where (\<lambda>f. hf_shopId f = ca_shopId (lo_campaign r) \<and>
     hf_creatorOpenId f = cr_creatorOpenId (lo_creator r) \<and> hf_sendStatus f = ''UNKNOWN'' \<and>
     hf_resolutionState f = ''MATCHED'') (tb_facts db)"

definition mark_sent_contact :: "Loaded \<Rightarrow> millis \<Rightarrow> bool \<Rightarrow> Contact option \<Rightarrow> unit tx" where
  "mark_sent_contact r now unresolved previous =
    (let first = (case Option.bind previous ct_firstContactedAt of None \<Rightarrow> now | Some t \<Rightarrow> t) in
     upsert_contact (ca_shopId (lo_campaign r)) (rc_creatorId (lo_recipient r))
       (\<lambda>c. c\<lparr>ct_firstContactedAt := Some first, ct_lastContactedAt := Some now, ct_contactCount := ct_contactCount c + 1,
              ct_lastCampaignId := Some (rc_campaignId (lo_recipient r)), ct_lastDeliveryId := Some (dl_id (lo_delivery r)),
              ct_unresolvedDelivery := unresolved\<rparr>)
       ((new_contact (ca_shopId (lo_campaign r)) (rc_creatorId (lo_recipient r)))
          \<lparr>ct_firstContactedAt := Some now, ct_lastContactedAt := Some now, ct_contactCount := 1,
           ct_lastCampaignId := Some (rc_campaignId (lo_recipient r)), ct_lastDeliveryId := Some (dl_id (lo_delivery r)),
           ct_unresolvedDelivery := unresolved\<rparr>))"

definition mark_sent_tx :: "Loaded \<Rightarrow> ident \<Rightarrow> ident \<Rightarrow> ident option \<Rightarrow> millis \<Rightarrow> unit tx" where
  "mark_sent_tx r conversationId externalMessageId requestId now =
    tx_bind (tx_read (find_contact (ca_shopId (lo_campaign r)) (rc_creatorId (lo_recipient r)))) (\<lambda>previous.
    tx_bind (tx_read (\<lambda>db. list_ex (\<lambda>d. dl_id d \<noteq> dl_id (lo_delivery r) \<and> dl_externalMessageId d = Some externalMessageId)
       (tb_deliveries db))) (\<lambda>clash.
    tx_bind (tx_guard (\<not> clash) (DbError UniqueViolation)) (\<lambda>_.
    tx_bind (update_delivery (dl_id (lo_delivery r)) (\<lambda>d. d\<lparr>dl_state := DeliveryState.SENT, dl_conversationId := Some conversationId,
       dl_externalMessageId := Some externalMessageId, dl_providerRequestId := keep requestId (dl_providerRequestId d),
       dl_sentAt := Some now\<rparr>)) (\<lambda>_.
    tx_bind (update_recipient (rc_id (lo_recipient r)) (\<lambda>x. x\<lparr>rc_state := RecipientState.SENT\<rparr>)) (\<lambda>_.
    tx_bind (tx_read (\<lambda>db. other_unknown_deliveries r db > 0 \<or> historical_unknown_facts r db > 0)) (\<lambda>unresolved.
    tx_seq
      [mark_sent_contact r now unresolved previous,
       delete_reservations (\<lambda>v. rv_campaignRecipientId v = rc_id (lo_recipient r)),
       update_outbox (\<lambda>e. ob_recipientId e = rc_id (lo_recipient r)) (\<lambda>e. e\<lparr>ob_state := OutboxState.COMPLETED\<rparr>)]))))))"

definition markSent :: "Loaded \<Rightarrow> ident \<Rightarrow> ident \<Rightarrow> ident option \<Rightarrow> unit prog" where
  "markSent r conversationId externalMessageId requestId =
    p_bind clock (\<lambda>now. transact (\<lambda>env. mark_sent_tx r conversationId externalMessageId requestId now))"

definition reconciliation_delay :: "int list \<Rightarrow> int \<Rightarrow> int" where
  "reconciliation_delay delays attemptNumber =
    (let i = min (attemptNumber - 1) (int (length delays) - 1)
     in if 0 \<le> i \<and> i < int (length delays) then delays ! nat i else 300000)"

definition upsert_run :: "ident \<Rightarrow> int \<Rightarrow> millis \<Rightarrow> unit tx" where
  "upsert_run deliveryId attemptNumber scheduledFor = tx_modify (\<lambda>db. db\<lparr>tb_runs :=
     (if List.find (\<lambda>r. rr_deliveryId r = deliveryId \<and> rr_attemptNumber r = attemptNumber) (tb_runs db) = None
      then tb_runs db @ [\<lparr>rr_deliveryId = deliveryId, rr_attemptNumber = attemptNumber, rr_state = ReconciliationState.PENDING,
             rr_matchedMessageId = None, rr_evidence = JObj [], rr_scheduledFor = scheduledFor, rr_completedAt = None\<rparr>]
      else upd_where (\<lambda>r. rr_deliveryId r = deliveryId \<and> rr_attemptNumber r = attemptNumber)
             (\<lambda>r. r\<lparr>rr_scheduledFor := scheduledFor\<rparr>) (tb_runs db))\<rparr>)"

definition scheduleReconciliation :: "WorkerConfig \<Rightarrow> ident \<Rightarrow> int \<Rightarrow> unit prog" where
  "scheduleReconciliation cfg deliveryId attemptNumber =
    (let delay = reconciliation_delay (wc_reconciliationDelays cfg) attemptNumber in
     p_bind clock (\<lambda>now.
     p_then (transact (\<lambda>env. upsert_run deliveryId attemptNumber (now + delay)))
       (add_job \<lparr>jb_name = ''reconcile'', jb_jobId = ''reconcile-'' @ deliveryId @ ''-'' @ show_int attemptNumber,
          jb_target = deliveryId, jb_attemptNumber = attemptNumber, jb_delay = delay\<rparr>)))"

definition terminal_failure_tx :: "Loaded \<Rightarrow> string \<Rightarrow> string \<Rightarrow> unit tx" where
  "terminal_failure_tx r errorCode errorDetail = tx_seq
    [update_delivery (dl_id (lo_delivery r)) (\<lambda>d. d\<lparr>dl_state := FAILED_TERMINAL, dl_lastErrorCode := Some errorCode,
       dl_lastErrorDetail := Some errorDetail\<rparr>),
     update_recipient (rc_id (lo_recipient r)) (\<lambda>x. x\<lparr>rc_state := FAILED, rc_skipReason := Some errorCode,
       rc_skipDetail := Some errorDetail\<rparr>),
     delete_reservations (\<lambda>v. rv_campaignRecipientId v = rc_id (lo_recipient r)),
     update_outbox (\<lambda>e. ob_recipientId e = rc_id (lo_recipient r)) (\<lambda>e. e\<lparr>ob_state := OutboxState.COMPLETED\<rparr>)]"

definition markTerminalFailure :: "Loaded \<Rightarrow> string \<Rightarrow> string \<Rightarrow> unit prog" where
  "markTerminalFailure r errorCode errorDetail = transact (\<lambda>env. terminal_failure_tx r errorCode errorDetail)"

definition delivery_unknown_tx :: "Loaded \<Rightarrow> ident \<Rightarrow> ident option \<Rightarrow> string \<Rightarrow> int option \<Rightarrow> millis \<Rightarrow> unit tx" where
  "delivery_unknown_tx r attemptId requestId detail httpStatus now = tx_seq
    [update_attempt attemptId (\<lambda>a. a\<lparr>at_outcome := ''DELIVERY_UNKNOWN'', at_providerRequestId := keep requestId (at_providerRequestId a),
       at_providerCode := Some ''DELIVERY_UNKNOWN'', at_providerHttpStatus := keep httpStatus (at_providerHttpStatus a),
       at_completedAt := Some now\<rparr>),
     update_delivery (dl_id (lo_delivery r)) (\<lambda>d. d\<lparr>dl_state := DeliveryState.DELIVERY_UNKNOWN,
       dl_providerRequestId := keep requestId (dl_providerRequestId d),
       dl_lastErrorCode := Some ''DELIVERY_UNKNOWN'', dl_lastErrorDetail := Some detail\<rparr>),
     update_recipient (rc_id (lo_recipient r)) (\<lambda>x. x\<lparr>rc_state := RecipientState.DELIVERY_UNKNOWN\<rparr>),
     upsert_contact (ca_shopId (lo_campaign r)) (rc_creatorId (lo_recipient r))
       (\<lambda>c. c\<lparr>ct_unresolvedDelivery := True, ct_lastDeliveryId := Some (dl_id (lo_delivery r))\<rparr>)
       ((new_contact (ca_shopId (lo_campaign r)) (rc_creatorId (lo_recipient r)))
          \<lparr>ct_unresolvedDelivery := True, ct_lastDeliveryId := Some (dl_id (lo_delivery r))\<rparr>),
     update_outbox (\<lambda>e. ob_recipientId e = rc_id (lo_recipient r)) (\<lambda>e. e\<lparr>ob_state := OutboxState.COMPLETED\<rparr>)]"

definition markDeliveryUnknown :: "WorkerConfig \<Rightarrow> Loaded \<Rightarrow> ident \<Rightarrow> ident option \<Rightarrow> string \<Rightarrow> int option \<Rightarrow> unit prog" where
  "markDeliveryUnknown cfg r attemptId requestId detail httpStatus =
    p_then (transact (\<lambda>env. delivery_unknown_tx r attemptId requestId detail httpStatus (e_now env)))
      (scheduleReconciliation cfg (dl_id (lo_delivery r)) 1)"

definition restricted_tx :: "Loaded \<Rightarrow> string \<Rightarrow> unit tx" where
  "restricted_tx r errorCode = tx_seq
    [update_delivery (dl_id (lo_delivery r)) (\<lambda>d. d\<lparr>dl_state := DeliveryState.RESTRICTED, dl_lastErrorCode := Some errorCode,
       dl_lastErrorDetail := Some ''Creator is not currently messageable''\<rparr>),
     update_recipient (rc_id (lo_recipient r)) (\<lambda>x. x\<lparr>rc_state := RecipientState.RESTRICTED, rc_skipReason := Some errorCode,
       rc_skipDetail := Some ''Creator is not currently messageable''\<rparr>),
     delete_reservations (\<lambda>v. rv_campaignRecipientId v = rc_id (lo_recipient r)),
     update_outbox (\<lambda>e. ob_recipientId e = rc_id (lo_recipient r)) (\<lambda>e. e\<lparr>ob_state := OutboxState.COMPLETED\<rparr>)]"

definition markRestricted :: "Loaded \<Rightarrow> string \<Rightarrow> unit prog" where
  "markRestricted r errorCode = transact (\<lambda>env. restricted_tx r errorCode)"

definition retryable_tx :: "Loaded \<Rightarrow> string \<Rightarrow> string \<Rightarrow> unit tx" where
  "retryable_tx r errorCode errorDetail = tx_seq
    [update_delivery (dl_id (lo_delivery r)) (\<lambda>d. d\<lparr>dl_state := FAILED_RETRYABLE, dl_lastErrorCode := Some errorCode,
       dl_lastErrorDetail := Some errorDetail\<rparr>),
     update_recipient (rc_id (lo_recipient r)) (\<lambda>x. x\<lparr>rc_state := RecipientState.QUEUED\<rparr>)]"

definition makeDeliveryRetryable :: "Loaded \<Rightarrow> string \<Rightarrow> string \<Rightarrow> unit prog" where
  "makeDeliveryRetryable r errorCode errorDetail = transact (\<lambda>env. retryable_tx r errorCode errorDetail)"

section \<open>Effects on the campaign\<close>

definition completion_json :: "Completion \<Rightarrow> Json" where
  "completion_json c = JObj [(''completedSuccessfully'', JBool (cp_completedSuccessfully c)), (''sent'', JNum (of_int (cp_sent c))),
     (''restricted'', JNum (of_int (cp_restricted c))), (''failed'', JNum (of_int (cp_failed c))),
     (''safetyCancelled'', JNum (of_int (cp_safetyCancelled c))), (''unresolved'', JNum (of_int (cp_unresolved c))),
     (''otherTerminal'', JNum (of_int (cp_otherTerminal c))), (''terminalRecipients'', JNum (of_int (cp_terminalRecipients c)))]"

definition frozen_states :: "ident \<Rightarrow> Tables \<Rightarrow> RecipientState list" where
  "frozen_states campaignId db = map rc_state
     (filter (\<lambda>r. rc_campaignId r = campaignId \<and> rc_selected r \<and> rc_frozenMessage r \<noteq> None) (tb_recipients db))"

definition completeCampaignIfDone :: "ident \<Rightarrow> unit prog" where
  "completeCampaignIfDone campaignId =
    p_bind (transact (\<lambda>env. tx_read (frozen_states campaignId))) (\<lambda>states.
      if \<not> allFrozenRecipientsTerminal states then Return ()
      else let completion = campaignCompletionSummary states in
        p_bind (transact (\<lambda>env. tx_bind (tx_read (find_campaign campaignId)) tx_found)) (\<lambda>campaign.
          if ca_state campaign = CampaignState.CANCELLED then Return ()
          else transact (\<lambda>env. update_campaign campaignId (\<lambda>c. c\<lparr>
            ca_state := (if cp_completedSuccessfully completion then CampaignState.COMPLETED else COMPLETED_WITH_ERRORS),
            ca_summary := JObj (obj_put ''completion'' (completion_json completion) (object_fields (ca_summary campaign)))\<rparr>))))"

definition entry_of_shop :: "ident \<Rightarrow> Tables \<Rightarrow> OutboxEntry \<Rightarrow> bool" where
  "entry_of_shop shopId db e \<longleftrightarrow> (case find_campaign (ob_campaignId e) db of None \<Rightarrow> False | Some k \<Rightarrow> ca_shopId k = shopId)"

definition pause_shop_tx :: "Loaded \<Rightarrow> string \<Rightarrow> string \<Rightarrow> Json \<Rightarrow> unit tx" where
  "pause_shop_tx r reason eventType payload = tx_seq
    [update_campaigns (\<lambda>c. ca_shopId c = ca_shopId (lo_campaign r) \<and> ca_state c \<in> {CampaignState.QUEUED, RUNNING})
       (\<lambda>c. c\<lparr>ca_state := CampaignState.SAFETY_PAUSED, ca_safetyPauseReason := Some reason, ca_version := ca_version c + 1\<rparr>),
     tx_modify (\<lambda>db. db\<lparr>tb_outbox := upd_where
       (\<lambda>e. entry_of_shop (ca_shopId (lo_campaign r)) db e \<and> ob_state e \<in> {OutboxState.PENDING, OutboxState.ENQUEUED})
       (\<lambda>e. e\<lparr>ob_state := OutboxState.SAFETY_PAUSED, ob_lastError := Some reason\<rparr>) (tb_outbox db)\<rparr>),
     audit (ca_shopId (lo_campaign r)) (rc_campaignId (lo_recipient r)) eventType payload]"

definition pauseShopForProviderFailure :: "Loaded \<Rightarrow> OutboundError \<Rightarrow> unit prog" where
  "pauseShopForProviderFailure r e = transact (\<lambda>env. pause_shop_tx r
     (''TikTok '' @ kind_lower (oer_kind e) @ '' failure paused outbound; operator action is required'')
     ''OUTBOUND_PROVIDER_SAFETY_PAUSED''
     (JObj ((''kind'', JStr (kind_name (oer_kind e))) # json_opt ''providerCode'' (JNum \<circ> of_int) (oer_providerCode e)
        @ json_opt ''requestId'' JStr (oer_requestId e))))"

fun operation_name :: "Operation \<Rightarrow> string" where
  "operation_name CREATE_CONVERSATION = ''CREATE_CONVERSATION''" | "operation_name SEND_MESSAGE = ''SEND_MESSAGE''"

definition pauseShopForProviderQuota :: "Loaded \<Rightarrow> string \<Rightarrow> Operation \<Rightarrow> unit prog" where
  "pauseShopForProviderQuota r errorCode operation = transact (\<lambda>env. pause_shop_tx r
     (''TikTok outbound IM quota '' @ errorCode @ '' blocked outbound; provider recovery or operator action is required'')
     ''OUTBOUND_PROVIDER_IM_QUOTA_BLOCKED''
     (JObj [(''providerCode'', JStr errorCode), (''operation'', JStr (operation_name operation))]))"

section \<open>Steps of processSend\<close>

definition create_attempt :: "ident \<Rightarrow> int \<Rightarrow> ident prog" where
  "create_attempt deliveryId attemptNumber = transact (\<lambda>env.
     tx_bind (tx_read (\<lambda>db. List.find (\<lambda>a. at_id a = e_fresh env 0 \<or> at_deliveryId a = deliveryId \<and> at_attemptNumber a = attemptNumber) (tb_attempts db)))
       (\<lambda>clash. tx_bind (tx_guard (clash = None) (DbError UniqueViolation)) (\<lambda>_.
        tx_bind (tx_modify (\<lambda>db. db\<lparr>tb_attempts := tb_attempts db @ [\<lparr>at_id = e_fresh env 0, at_deliveryId = deliveryId,
          at_attemptNumber = attemptNumber, at_outcome = ''STARTED'', at_providerCode = None, at_providerHttpStatus = None,
          at_providerRequestId = None, at_startedAt = e_now env, at_completedAt = None\<rparr>]\<rparr>)) (\<lambda>_.
        tx_return (e_fresh env 0)))))"

definition settle_attempt :: "ident \<Rightarrow> string \<Rightarrow> string \<Rightarrow> int option \<Rightarrow> ident option \<Rightarrow> unit prog" where
  "settle_attempt attemptId outcome code httpStatus requestId = transact (\<lambda>env. update_attempt attemptId (\<lambda>a. a\<lparr>
     at_outcome := outcome, at_providerCode := Some code, at_providerHttpStatus := keep httpStatus (at_providerHttpStatus a),
     at_providerRequestId := keep requestId (at_providerRequestId a), at_completedAt := Some (e_now env)\<rparr>))"

definition upsert_conversation :: "Loaded \<Rightarrow> ident \<Rightarrow> ident prog" where
  "upsert_conversation r external = transact (\<lambda>env.
     tx_bind (tx_read (\<lambda>db. List.find (\<lambda>c. cv_externalConversationId c = external) (tb_conversations db))) (\<lambda>found.
       case found of Some c \<Rightarrow> tx_return (cv_id c)
       | None \<Rightarrow> tx_bind (tx_modify (\<lambda>db. db\<lparr>tb_conversations := tb_conversations db @ [\<lparr>cv_id = e_fresh env 0,
              cv_shopId = ca_shopId (lo_campaign r), cv_creatorId = rc_creatorId (lo_recipient r),
              cv_externalConversationId = external, cv_unreadCount = 0, cv_lastSyncedAt = None\<rparr>]\<rparr>)) (\<lambda>_. tx_return (e_fresh env 0))))"

definition create_message :: "ident \<Rightarrow> Loaded \<Rightarrow> string \<Rightarrow> string \<Rightarrow> unit prog" where
  "create_message conversationId r content contentHash = transact (\<lambda>env.
     let external = ''mock_reconciled_'' @ dl_id (lo_delivery r) in
     tx_bind (tx_read (\<lambda>db. List.find (\<lambda>m. ms_externalMessageId m = external) (tb_messages db))) (\<lambda>clash.
     tx_bind (tx_guard (clash = None) (DbError UniqueViolation)) (\<lambda>_.
     tx_modify (\<lambda>db. db\<lparr>tb_messages := tb_messages db @ [\<lparr>ms_conversationId = conversationId, ms_externalMessageId = external,
       ms_direction = OUTBOUND, ms_content = content, ms_contentHash = contentHash, ms_providerCreatedAt = e_now env,
       ms_importSource = ''MOCK_PROVIDER_RECONCILIATION''\<rparr>]\<rparr>))))"

definition adapter_throttled :: "Err \<Rightarrow> bool" where
  "adapter_throttled e = (case e of
     AdapterError x \<Rightarrow> oer_kind x = RETRYABLE \<and> isProviderThrottle (oer_httpStatus x) (map_option show_int (oer_providerCode x))
   | _ \<Rightarrow> False)"

definition adapter_retryable :: "Err \<Rightarrow> bool" where
  "adapter_retryable e = (case e of AdapterError x \<Rightarrow> oer_kind x = RETRYABLE | _ \<Rightarrow> True)"

text \<open>The end of the handler for a failed conversation (lines 377 to 405).\<close>

definition conversation_retry ::
  "WorkerConfig \<Rightarrow> SendJob \<Rightarrow> Loaded \<Rightarrow> Permit \<Rightarrow> ident \<Rightarrow> bool \<Rightarrow> Err \<Rightarrow> string \<Rightarrow> ResponseMeta \<Rightarrow> unit prog" where
  "conversation_retry cfg job r createPermit attemptId finalAttempt e code meta =
    (let throttled = adapter_throttled e; detail = error_message (wc_libraryMessage cfg) e;
         retryAfter = (case e of AdapterError x \<Rightarrow> oer_retryAfterMs x | _ \<Rightarrow> None);
         status = (case e of AdapterError x \<Rightarrow> oer_httpStatus x | _ \<Rightarrow> None);
         request = (case e of AdapterError x \<Rightarrow> oer_requestId x | _ \<Rightarrow> None)
     in p_bind (unsettled createPermit
          (if throttled then p_bind (throttle_permit createPermit meta retryAfter) (\<lambda>d. Return (Some d))
           else if adapter_retryable e then p_bind (transient_permit createPermit meta) (\<lambda>d. Return (Some d))
           else p_then (healthy_permit createPermit ''RESTRICTED'' meta) (Return None)))
        (\<lambda>providerDelayMs.
          p_then (settle_attempt attemptId (if throttled \<or> \<not> finalAttempt then ''FAILED_RETRYABLE'' else ''FAILED_TERMINAL'') code status request)
            (if \<not> throttled \<and> finalAttempt
             then p_then (markTerminalFailure r ''CONVERSATION_SETUP_FAILED'' detail) (completeCampaignIfDone (rc_campaignId (lo_recipient r)))
             else p_then (makeDeliveryRetryable r code detail)
               (if throttled then delayJob job (case providerDelayMs of None \<Rightarrow> 1000 | Some d \<Rightarrow> d) else Throw e))))"

text \<open>The handler for a failed conversation (lines 350 to 406).\<close>

definition conversation_failed ::
  "WorkerConfig \<Rightarrow> SendJob \<Rightarrow> Loaded \<Rightarrow> Permit \<Rightarrow> ident \<Rightarrow> bool \<Rightarrow> Err \<Rightarrow> unit prog" where
  "conversation_failed cfg job r createPermit attemptId finalAttempt e =
    (case e of
       AdapterError x \<Rightarrow>
         (let code = code_or (kind_name (oer_kind x)) x; meta = \<lparr>mt_httpStatus = oer_httpStatus x, mt_businessCode = Some code\<rparr>
          in if oer_kind x = QUOTA
             then p_seq [unsettled createPermit (quota_permit createPermit code ''TikTok reported that the shop has reached its IM quota'' meta),
               settle_attempt attemptId ''FAILED_RETRYABLE'' code (oer_httpStatus x) (oer_requestId x),
               makeDeliveryRetryable r code ''Provider shop IM quota is blocked'',
               pauseShopForProviderQuota r code CREATE_CONVERSATION]
             else if oer_kind x \<in> {AUTH, PERMISSION}
             then p_seq [unsettled createPermit (release_permit createPermit ''AUTH_OR_PERMISSION'' meta),
               settle_attempt attemptId ''FAILED_RETRYABLE'' code (oer_httpStatus x) (oer_requestId x),
               makeDeliveryRetryable r code ''Provider authorization or permission requires operator action'',
               pauseShopForProviderFailure r x]
             else if oer_kind x = RESTRICTED
             then p_seq [unsettled createPermit (healthy_permit createPermit ''RESTRICTED'' meta),
               settle_attempt attemptId ''FAILED_TERMINAL'' (code_or ''RESTRICTED'' x) (oer_httpStatus x) (oer_requestId x),
               markRestricted r (code_or ''RESTRICTED'' x),
               completeCampaignIfDone (rc_campaignId (lo_recipient r))]
             else conversation_retry cfg job r createPermit attemptId finalAttempt e code meta)
     | _ \<Rightarrow> conversation_retry cfg job r createPermit attemptId finalAttempt e ''CONVERSATION_SETUP_FAILED'' no_meta)"

text \<open>The conversation at the provider; \<open>None\<close> when the handler has ended the job (lines 346 to 406).\<close>

definition setup_conversation ::
  "WorkerConfig \<Rightarrow> SendJob \<Rightarrow> Loaded \<Rightarrow> ident \<Rightarrow> Permit \<Rightarrow> ident \<Rightarrow> bool \<Rightarrow> ident option prog" where
  "setup_conversation cfg job r creatorOpenId createPermit attemptId finalAttempt =
    p_catch
      (p_bind (create_conversation creatorOpenId) (\<lambda>c.
         p_then (healthy_permit createPermit ''ACCEPTED'' \<lparr>mt_httpStatus = None, mt_businessCode = Some ''0''\<rparr>) (Return (Some c))))
      (\<lambda>e. p_then (conversation_failed cfg job r createPermit attemptId finalAttempt e) (Return None))"

definition persist_conversation :: "Loaded \<Rightarrow> ident \<Rightarrow> ident \<Rightarrow> ident prog" where
  "persist_conversation r attemptId external =
    p_catch
      (p_bind (upsert_conversation r external) (\<lambda>conversationId.
         p_then (transact (\<lambda>env. update_delivery (dl_id (lo_delivery r)) (\<lambda>d. d\<lparr>dl_conversationId := Some conversationId\<rparr>)))
           (Return conversationId)))
      (\<lambda>e. p_then (settle_attempt attemptId ''FAILED_RETRYABLE'' ''LOCAL_CONVERSATION_PERSISTENCE_FAILED'' None None)
        (p_then (makeDeliveryRetryable r ''LOCAL_CONVERSATION_PERSISTENCE_FAILED''
           ''Conversation persistence failed before Send Message was attempted'') (Throw e)))"

fun waitForSendPermitWhileCampaignActive :: "nat \<Rightarrow> WorkerConfig \<Rightarrow> Loaded \<Rightarrow> int \<Rightarrow> Permit option prog" where
  "waitForSendPermitWhileCampaignActive 0 cfg r attemptNumber = Throw Stopped"
| "waitForSendPermitWhileCampaignActive (Suc n) cfg r attemptNumber =
    p_bind (acquire_permit cfg (ca_shopId (lo_campaign r)) SEND_MESSAGE
      (wc_instance cfg @ '':'' @ dl_id (lo_delivery r) @ '':'' @ show_int attemptNumber @ '':send'')) (\<lambda>result.
    case result of Acquired permit _ \<Rightarrow> Return (Some permit)
    | Denied _ _ _ _ \<Rightarrow>
        p_bind (transact (\<lambda>env. tx_bind (tx_read (find_campaign (rc_campaignId (lo_recipient r)))) tx_found)) (\<lambda>campaign.
          if ca_state campaign \<notin> {CampaignState.QUEUED, RUNNING} then Return None
          else waitForSendPermitWhileCampaignActive n cfg r attemptNumber))"

section \<open>Send Message\<close>

text \<open>The adapter threw (lines 431 to 463).\<close>

definition send_threw :: "WorkerConfig \<Rightarrow> Loaded \<Rightarrow> Permit \<Rightarrow> ident \<Rightarrow> Err \<Rightarrow> unit prog" where
  "send_threw cfg r sendPermit attemptId e =
    (case e of
       AdapterError x \<Rightarrow>
         (if oer_kind x \<in> {AUTH, PERMISSION}
          then (let code = code_or (kind_name (oer_kind x)) x in p_seq
            [unsettled sendPermit (release_permit sendPermit ''AUTH_OR_PERMISSION'' \<lparr>mt_httpStatus = oer_httpStatus x, mt_businessCode = Some code\<rparr>),
             settle_attempt attemptId ''FAILED_RETRYABLE'' code (oer_httpStatus x) (oer_requestId x),
             makeDeliveryRetryable r code ''Provider authorization or permission requires operator action'',
             pauseShopForProviderFailure r x])
          else if oer_kind x = QUOTA
          then (let code = code_or ''PROVIDER_IM_QUOTA'' x in p_seq
            [unsettled sendPermit (quota_permit sendPermit code ''TikTok reported a shop IM quota'' \<lparr>mt_httpStatus = oer_httpStatus x, mt_businessCode = Some code\<rparr>),
             settle_attempt attemptId ''FAILED_RETRYABLE'' code (oer_httpStatus x) (oer_requestId x),
             makeDeliveryRetryable r code ''Provider shop IM quota is blocked'',
             pauseShopForProviderQuota r code SEND_MESSAGE])
          else (let code = code_or (kind_name (oer_kind x)) x in p_seq
            [unsettled sendPermit (healthy_permit sendPermit ''RESTRICTED'' \<lparr>mt_httpStatus = oer_httpStatus x, mt_businessCode = Some code\<rparr>),
             settle_attempt attemptId ''FAILED_TERMINAL'' code (oer_httpStatus x) (oer_requestId x),
             markTerminalFailure r code ''TikTok definitively rejected the message request'',
             completeCampaignIfDone (rc_campaignId (lo_recipient r))]))
     | _ \<Rightarrow> p_seq
         [unsettled sendPermit (release_permit sendPermit ''DELIVERY_UNKNOWN'' no_meta),
          markDeliveryUnknown cfg r attemptId None (error_message (wc_libraryMessage cfg) e) None,
          completeCampaignIfDone (rc_campaignId (lo_recipient r))])"

text \<open>\<open>numeric % 74 === 0\<close> for the last five characters of the Open ID, in the mock mode.\<close>

definition mock_reconciles :: "WorkerConfig \<Rightarrow> ident \<Rightarrow> bool" where
  "mock_reconciles cfg creatorOpenId \<longleftrightarrow> wc_mode cfg = MOCK \<and>
     (case js_number (drop (length creatorOpenId - 5) creatorOpenId) of
        Fin x \<Rightarrow> x / 74 = of_int \<lfloor>x / 74\<rfloor> | _ \<Rightarrow> False)"

text \<open>The answer asks for another try (lines 498 to 513).\<close>

definition send_retryable ::
  "WorkerConfig \<Rightarrow> SendJob \<Rightarrow> Loaded \<Rightarrow> Permit \<Rightarrow> ident \<Rightarrow> bool \<Rightarrow> ident \<Rightarrow> string \<Rightarrow> int option \<Rightarrow> int option \<Rightarrow> unit prog" where
  "send_retryable cfg job r sendPermit attemptId finalAttempt requestId errorCode retryAfterMs httpStatus =
    (let throttled = isProviderThrottle httpStatus (Some errorCode);
         meta = \<lparr>mt_httpStatus = httpStatus, mt_businessCode = Some errorCode\<rparr>
     in p_bind (unsettled sendPermit
          (if throttled then throttle_permit sendPermit meta retryAfterMs else transient_permit sendPermit meta)) (\<lambda>delayMs.
        p_then (settle_attempt attemptId (if throttled \<or> \<not> finalAttempt then ''FAILED_RETRYABLE'' else ''FAILED_TERMINAL'')
            errorCode httpStatus (Some requestId))
          (if \<not> throttled \<and> finalAttempt
           then markTerminalFailure r errorCode ''Retry budget exhausted without a confirmed dispatch''
           else p_then (makeDeliveryRetryable r errorCode (''Provider retry scheduled after '' @ show_int delayMs @ ''ms''))
             (if throttled then delayJob job delayMs else Throw (PlainError errorCode)))))"

text \<open>The adapter answered (lines 464 to 515).\<close>

definition send_answered ::
  "WorkerConfig \<Rightarrow> SendJob \<Rightarrow> Loaded \<Rightarrow> ident \<Rightarrow> Permit \<Rightarrow> ident \<Rightarrow> ident \<Rightarrow> string \<Rightarrow> string \<Rightarrow> bool \<Rightarrow> SendMessageResult \<Rightarrow> unit prog" where
  "send_answered cfg job r creatorOpenId sendPermit attemptId conversationId content contentHash finalAttempt result =
    (let complete = completeCampaignIfDone (rc_campaignId (lo_recipient r)) in
     case result of
       MessageSent messageId requestId httpStatus \<Rightarrow> p_seq
         [unsettled sendPermit (healthy_permit sendPermit ''ACCEPTED'' \<lparr>mt_httpStatus = httpStatus, mt_businessCode = Some ''0''\<rparr>),
          settle_attempt attemptId ''SENT'' ''0'' httpStatus (Some requestId),
          markSent r conversationId messageId (Some requestId), complete]
     | MessageUnknown requestId httpStatus \<Rightarrow> p_seq
         [unsettled sendPermit (release_permit sendPermit ''DELIVERY_UNKNOWN'' \<lparr>mt_httpStatus = httpStatus, mt_businessCode = None\<rparr>),
          markDeliveryUnknown cfg r attemptId (Some requestId)
            ''Provider response did not establish whether the message was accepted'' httpStatus,
          (if mock_reconciles cfg creatorOpenId then create_message conversationId r content contentHash else Return ()),
          complete]
     | MessageRestricted requestId errorCode httpStatus \<Rightarrow> p_seq
         [unsettled sendPermit (healthy_permit sendPermit ''RESTRICTED'' \<lparr>mt_httpStatus = httpStatus, mt_businessCode = Some errorCode\<rparr>),
          settle_attempt attemptId ''FAILED_TERMINAL'' errorCode httpStatus (Some requestId),
          markRestricted r errorCode, complete]
     | QuotaLimited requestId errorCode retryAfterMs httpStatus \<Rightarrow> p_seq
         [unsettled sendPermit (quota_permit sendPermit errorCode ''TikTok reported that outbound IM quota is blocked''
            \<lparr>mt_httpStatus = httpStatus, mt_businessCode = Some errorCode\<rparr>),
          settle_attempt attemptId ''FAILED_RETRYABLE'' errorCode httpStatus (Some requestId),
          makeDeliveryRetryable r errorCode ''Provider shop IM quota is blocked'',
          pauseShopForProviderQuota r errorCode SEND_MESSAGE]
     | RetryableResult requestId errorCode retryAfterMs httpStatus \<Rightarrow> p_seq
         [send_retryable cfg job r sendPermit attemptId finalAttempt requestId errorCode retryAfterMs httpStatus, complete])"

definition send_stage ::
  "WorkerConfig \<Rightarrow> SendJob \<Rightarrow> Loaded \<Rightarrow> ident \<Rightarrow> string \<Rightarrow> string \<Rightarrow> ident \<Rightarrow> bool \<Rightarrow> ident \<Rightarrow> ident \<Rightarrow> Permit \<Rightarrow> unit prog" where
  "send_stage cfg job r creatorOpenId content contentHash attemptId finalAttempt external conversationId sendPermit =
    p_bind (send_message (dl_id (lo_delivery r)) external creatorOpenId content) (\<lambda>outcome.
      case outcome of Threw e \<Rightarrow> send_threw cfg r sendPermit attemptId e
      | Answered result \<Rightarrow>
          send_answered cfg job r creatorOpenId sendPermit attemptId conversationId content contentHash finalAttempt result)"

text \<open>The campaign is no longer active: nothing is sent (lines 420 to 425).\<close>

definition paused_before_send :: "Loaded \<Rightarrow> ident \<Rightarrow> unit prog" where
  "paused_before_send r attemptId = p_seq
    [settle_attempt attemptId ''FAILED_RETRYABLE'' ''CAMPAIGN_PAUSED_BEFORE_SEND'' None None,
     makeDeliveryRetryable r ''CAMPAIGN_PAUSED_BEFORE_SEND'' ''Campaign paused before Send Message acquired a provider permit'',
     transact (\<lambda>env. update_campaigns (\<lambda>c. ca_id c = rc_campaignId (lo_recipient r) \<and> ca_state c = PAUSE_REQUESTED)
       (\<lambda>c. c\<lparr>ca_state := PAUSED\<rparr>))]"

section \<open>processSend\<close>

text \<open>The delivery is claimed (lines 340 to 516).\<close>

definition dispatch_claimed ::
  "WorkerConfig \<Rightarrow> SendJob \<Rightarrow> Loaded \<Rightarrow> ident \<Rightarrow> string \<Rightarrow> string \<Rightarrow> Permit \<Rightarrow> int \<Rightarrow> unit prog" where
  "dispatch_claimed cfg job r creatorOpenId content contentHash createPermit attemptNumber =
    (let finalAttempt = sj_attemptsMade job + 1 \<ge> (case sj_attempts job of None \<Rightarrow> 1 | Some n \<Rightarrow> n) in
     p_bind (unsettled createPermit (create_attempt (dl_id (lo_delivery r)) attemptNumber)) (\<lambda>attemptId.
     p_bind (setup_conversation cfg job r creatorOpenId createPermit attemptId finalAttempt) (\<lambda>provider.
       case provider of None \<Rightarrow> Return ()
       | Some external \<Rightarrow>
           p_bind (persist_conversation r attemptId external) (\<lambda>conversationId.
           p_bind (waitForSendPermitWhileCampaignActive (wc_waitTries cfg) cfg r attemptNumber) (\<lambda>permit.
             case permit of None \<Rightarrow> paused_before_send r attemptId
             | Some sendPermit \<Rightarrow>
                 send_stage cfg job r creatorOpenId content contentHash attemptId finalAttempt external conversationId sendPermit)))))"

text \<open>A permit for the conversation is granted (lines 326 to 338).\<close>

definition dispatch_permitted ::
  "WorkerConfig \<Rightarrow> SendJob \<Rightarrow> Loaded \<Rightarrow> ident \<Rightarrow> string \<Rightarrow> string \<Rightarrow> Permit \<Rightarrow> unit prog" where
  "dispatch_permitted cfg job r creatorOpenId content contentHash createPermit =
    p_bind (p_catch (reserveDispatchSlot (wc_shopDate cfg) r)
        (\<lambda>e. p_then (release_permit createPermit ''NOT_DISPATCHED'' no_meta) (Throw e))) (\<lambda>claim.
      case claim of
        NotClaimed cancelled _ \<Rightarrow> p_then (release_permit createPermit ''NOT_DISPATCHED'' no_meta)
          (if cancelled then completeCampaignIfDone (rc_campaignId (lo_recipient r)) else Return ())
      | Claimed attemptNumber \<Rightarrow> dispatch_claimed cfg job r creatorOpenId content contentHash createPermit attemptNumber)"

definition dispatch_loaded :: "WorkerConfig \<Rightarrow> SendJob \<Rightarrow> Loaded \<Rightarrow> string \<Rightarrow> string \<Rightarrow> unit prog" where
  "dispatch_loaded cfg job r content contentHash =
    (case deliveryAction (dl_state (lo_delivery r)) of
       SKIP \<Rightarrow> Return ()
     | RECOVER_AS_UNKNOWN \<Rightarrow> p_then (recoverDispatchingDelivery r) (scheduleReconciliation cfg (dl_id (lo_delivery r)) 1)
     | DISPATCH \<Rightarrow>
         if ca_state (lo_campaign r) \<in> {PAUSE_REQUESTED, PAUSED}
         then p_then (if ca_state (lo_campaign r) = PAUSE_REQUESTED
             then transact (\<lambda>env. update_campaign (rc_campaignId (lo_recipient r)) (\<lambda>c. c\<lparr>ca_state := PAUSED\<rparr>)) else Return ())
           (delayJob job 5000)
         else if ca_state (lo_campaign r) = CampaignState.SAFETY_PAUSED then Return ()
         else (case truthy (rc_creatorOpenIdSnapshot (lo_recipient r)) of
             None \<Rightarrow> p_then (markTerminalFailure r ''INVALID_MESSAGING_ID'' ''Creator has no Marketplace Open ID'')
               (completeCampaignIfDone (rc_campaignId (lo_recipient r)))
           | Some creatorOpenId \<Rightarrow>
               p_bind (acquire_permit cfg (ca_shopId (lo_campaign r)) CREATE_CONVERSATION
                 (wc_instance cfg @ '':'' @ dl_id (lo_delivery r) @ '':'' @ show_int (dl_attemptCount (lo_delivery r) + 1) @ '':create''))
               (\<lambda>result. case result of Denied delayMs _ _ _ \<Rightarrow> delayJob job delayMs
                | Acquired createPermit _ \<Rightarrow> dispatch_permitted cfg job r creatorOpenId content contentHash createPermit)))"

definition processSend :: "WorkerConfig \<Rightarrow> SendJob \<Rightarrow> unit prog" where
  "processSend cfg job =
    (if \<not> mutationCapability (wc_mode cfg) then Throw (PlainError ''OUTBOUND_DISABLED: worker dispatch is unavailable'')
     else p_bind (transact (\<lambda>env. tx_read (load_send (sj_recipientId job)))) (\<lambda>loaded.
       case loaded of None \<Rightarrow> Return ()
       | Some r \<Rightarrow> (case (truthy (rc_frozenMessage (lo_recipient r)), truthy (rc_contentHash (lo_recipient r))) of
            (Some content, Some contentHash) \<Rightarrow> dispatch_loaded cfg job r content contentHash
          | _ \<Rightarrow> Return ())))"

section \<open>processReconciliation\<close>

record Unknown =
  un_loaded :: Loaded
  un_conversation :: Conversation
  un_messages :: "ConversationMessage list"
  un_dispatchedAt :: millis

definition load_unknown :: "ident \<Rightarrow> Tables \<Rightarrow> Unknown option" where
  "load_unknown deliveryId db =
    (case find_delivery deliveryId db of None \<Rightarrow> None
     | Some d \<Rightarrow>
         if dl_state d \<noteq> DeliveryState.DELIVERY_UNKNOWN then None
         else (case (Option.bind (dl_conversationId d) (\<lambda>i. find_conversation i db), dl_firstDispatchedAt d,
                 find_recipient (dl_campaignRecipientId d) db) of
            (Some c, Some t, Some r) \<Rightarrow> map_option (\<lambda>l. \<lparr>un_loaded = l, un_conversation = c,
                un_messages = filter (\<lambda>m. ms_conversationId m = cv_id c) (tb_messages db), un_dispatchedAt = t\<rparr>)
              (load_recipient r d db)
          | _ \<Rightarrow> None))"

definition linked_messages :: "Tables \<Rightarrow> ident set" where
  "linked_messages db = set (List.map_filter dl_externalMessageId (tb_deliveries db))"

definition reconcile_unknown :: "Unknown \<Rightarrow> ident set \<Rightarrow> ReconciliationOutcome" where
  "reconcile_unknown u linked = reconcileUnknownDelivery (cv_externalConversationId (un_conversation u))
     (dl_contentHash (lo_delivery (un_loaded u))) (un_dispatchedAt u)
     (map (\<lambda>m. \<lparr>rm_id = ms_externalMessageId m, rm_conversationId = cv_externalConversationId (un_conversation u),
        rm_direction = ms_direction m, rm_contentHash = ms_contentHash m, rm_createdAt = ms_providerCreatedAt m\<rparr>)
       (un_messages u)) linked"

definition run_unresolved :: "ident \<Rightarrow> int \<Rightarrow> string \<Rightarrow> millis \<Rightarrow> unit tx" where
  "run_unresolved deliveryId attemptNumber reason now = update_run deliveryId attemptNumber
     (\<lambda>x. x\<lparr>rr_state := ReconciliationState.UNRESOLVED, rr_completedAt := Some now,
            rr_evidence := JObj [(''reason'', JStr reason)]\<rparr>)"

definition unresolved_tx :: "Loaded \<Rightarrow> int \<Rightarrow> string \<Rightarrow> millis \<Rightarrow> unit tx" where
  "unresolved_tx r attemptNumber reason now = tx_seq
    [run_unresolved (dl_id (lo_delivery r)) attemptNumber reason now,
     update_delivery (dl_id (lo_delivery r)) (\<lambda>d. d\<lparr>dl_state := DeliveryState.DELIVERY_UNKNOWN_UNRESOLVED,
       dl_lastErrorDetail := Some reason\<rparr>),
     update_recipient (dl_campaignRecipientId (lo_delivery r)) (\<lambda>x. x\<lparr>rc_state := RecipientState.DELIVERY_UNKNOWN_UNRESOLVED\<rparr>),
     delete_reservations (\<lambda>v. rv_campaignRecipientId v = dl_campaignRecipientId (lo_delivery r))]"

definition settle_unknown :: "WorkerConfig \<Rightarrow> Unknown \<Rightarrow> int \<Rightarrow> ReconciliationOutcome \<Rightarrow> unit prog" where
  "settle_unknown cfg u attemptNumber outcome =
    (let r = un_loaded u; deliveryId = dl_id (lo_delivery r) in
     case outcome of
       ReconciliationOutcome.MATCHED messageId \<Rightarrow> p_then
         (transact (\<lambda>env. update_run deliveryId attemptNumber (\<lambda>x. x\<lparr>rr_state := ReconciliationState.MATCHED,
            rr_matchedMessageId := Some messageId, rr_completedAt := Some (e_now env),
            rr_evidence := JObj [(''exactContentHash'', JBool True), (''uniqueMatch'', JBool True)]\<rparr>)))
         (markSent r (cv_id (un_conversation u)) messageId (Some ''mock-reconciliation''))
     | ReconciliationOutcome.UNRESOLVED reason \<Rightarrow>
         if attemptNumber < 3 then p_then
           (transact (\<lambda>env. run_unresolved deliveryId attemptNumber reason (e_now env)))
           (scheduleReconciliation cfg deliveryId (attemptNumber + 1))
         else transact (\<lambda>env. unresolved_tx r attemptNumber reason (e_now env)))"

definition processReconciliation :: "WorkerConfig \<Rightarrow> ident \<Rightarrow> int \<Rightarrow> unit prog" where
  "processReconciliation cfg deliveryId attemptNumber =
    p_bind (transact (\<lambda>env. tx_read (load_unknown deliveryId))) (\<lambda>found.
      case found of None \<Rightarrow> Return ()
      | Some u \<Rightarrow>
          p_bind (transact (\<lambda>env. tx_read linked_messages)) (\<lambda>linked.
          p_then (settle_unknown cfg u attemptNumber (reconcile_unknown u linked))
            (completeCampaignIfDone (dl_campaignId (lo_delivery (un_loaded u))))))"

section \<open>maintenanceSweep and the jobs of the worker\<close>

definition settled_states :: "DeliveryState set" where
  "settled_states = {DeliveryState.SENT, DeliveryState.RESTRICTED, FAILED_TERMINAL, DeliveryState.DELIVERY_UNKNOWN,
     DeliveryState.DELIVERY_UNKNOWN_UNRESOLVED, DeliveryState.CANCELLED}"

definition complete_settled :: "unit tx" where
  "complete_settled = tx_modify (\<lambda>db. db\<lparr>tb_outbox := upd_where
     (\<lambda>e. open_entry e \<and> (case find_delivery (ob_deliveryId e) db of None \<Rightarrow> False | Some d \<Rightarrow> dl_state d \<in> settled_states))
     (\<lambda>e. e\<lparr>ob_state := OutboxState.COMPLETED, ob_lastError := None\<rparr>) (tb_outbox db)\<rparr>)"

definition requeue :: "WorkerConfig \<Rightarrow> Recipient \<Rightarrow> Delivery \<Rightarrow> unit prog" where
  "requeue cfg r d =
    p_bind (transact (\<lambda>env. upsert_entry id r d (e_fresh env 0) (e_now env))) (\<lambda>entry.
      if \<not> open_entry entry then Return ()
      else p_catch (p_bind (hand_over entry (Return False)) (\<lambda>_. Return ()))
        (\<lambda>err. transact (\<lambda>env. update_entry (ob_id entry) (\<lambda>e. e\<lparr>ob_state := OutboxState.PENDING,
           ob_enqueueAttempts := ob_enqueueAttempts e + 1,
           ob_lastError := Some (error_message (wc_libraryMessage cfg) err)\<rparr>))))"

definition maintenanceSweep :: "WorkerConfig \<Rightarrow> unit prog" where
  "maintenanceSweep cfg =
    p_bind clock (\<lambda>now.
    p_then (transact (\<lambda>env. complete_settled))
    (p_bind (transact (\<lambda>env. expire_tx now)) (\<lambda>_.
     p_bind (transact (\<lambda>env. tx_read (queued_recipients (wc_reconcileBatchSize cfg)))) (\<lambda>recipients.
     p_each (\<lambda>(r, d). requeue cfg r d) recipients))))"

text \<open>The statement of the heartbeat that writes the limiters; the rest of it only reports.\<close>

definition publishHeartbeat_limiters :: "WorkerConfig \<Rightarrow> unit prog" where
  "publishHeartbeat_limiters cfg = transact (\<lambda>env. tx_modify (\<lambda>db.
     db\<lparr>tb_governed := heartbeat_limiters (go_appScope (wc_governor cfg)) (tb_governed db)\<rparr>))"

datatype WorkerJob = Send SendJob | Reconcile ident int

fun worker_job :: "WorkerConfig \<Rightarrow> WorkerJob \<Rightarrow> unit prog" where
  "worker_job cfg (Reconcile deliveryId attemptNumber) = processReconciliation cfg deliveryId attemptNumber"
| "worker_job cfg (Send job) = processSend cfg job"

inductive worker_program :: "WorkerConfig \<Rightarrow> unit prog \<Rightarrow> bool" for cfg :: WorkerConfig where
  worker_program_job: "worker_program cfg (worker_job cfg job)"
| worker_program_maintenance: "worker_program cfg (maintenanceSweep cfg)"
| worker_program_heartbeat: "worker_program cfg (publishHeartbeat_limiters cfg)"

section \<open>Lemmas: programs that keep their role\<close>

lemma claimless_governed [simp]: "claimless (governed f)"
  by (auto simp: claimless_def governed_def intro!: no_new_claims_same split: sum.splits)

lemma claimless_governed_unit [simp]: "claimless (governed_unit f)"
  by (simp add: governed_unit_def)

lemma keeps_governor [keeps_rules]:
  "keeps (acquire_permit cfg shopId operation owner)" "keeps (healthy_permit p outcome meta)"
  "keeps (throttle_permit p meta retryAfterMs)" "keeps (transient_permit p meta)"
  "keeps (quota_permit p code detail meta)" "keeps (release_permit p outcome meta)"
  unfolding acquire_permit_def healthy_permit_def throttle_permit_def transient_permit_def quota_permit_def release_permit_def
  by (auto intro!: keeps_rules)

lemma keeps_unsettled [keeps_rules]: "keeps q \<Longrightarrow> keeps (unsettled p q)"
  unfolding unsettled_def by (intro keeps_rules)

lemma keeps_delayJob [keeps_rules]: "keeps (delayJob job d)"
  unfolding delayJob_def by (auto intro!: keeps_silent keeps_rules)

lemma keeps_create_conversation [keeps_rules]: "keeps (create_conversation c)"
  unfolding create_conversation_def by (auto intro!: keeps_silent keeps_rules split: sum.split)

interpretation sent: claimless "mark_sent_tx r conversationId messageId requestId now" for r conversationId messageId requestId now
  unfolding mark_sent_tx_def mark_sent_contact_def Let_def
  by (auto intro!: claimless_intros simp: claimable_state_def)

interpretation terminal_failure: claimless "terminal_failure_tx r code detail" for r code detail
  unfolding terminal_failure_tx_def by (auto intro!: claimless_intros simp: claimable_state_def)

interpretation unknown: claimless "delivery_unknown_tx r attemptId requestId detail status now" for r attemptId requestId detail status now
  unfolding delivery_unknown_tx_def by (auto intro!: claimless_intros simp: claimable_state_def)

interpretation restricted: claimless "restricted_tx r code" for r code
  unfolding restricted_tx_def by (auto intro!: claimless_intros simp: claimable_state_def)

interpretation pause_shop: claimless "pause_shop_tx r reason eventType payload" for r reason eventType payload
  unfolding pause_shop_tx_def by (auto intro!: claimless_intros)

interpretation unresolved: claimless "unresolved_tx r n reason now" for r n reason now
  unfolding unresolved_tx_def run_unresolved_def by (auto intro!: claimless_intros simp: claimable_state_def)

lemmas worker_transactions = sent.claimless_axioms terminal_failure.claimless_axioms unknown.claimless_axioms
  restricted.claimless_axioms pause_shop.claimless_axioms unresolved.claimless_axioms recovery.claimless_axioms

lemma keeps_scheduleReconciliation [keeps_rules]: "keeps (scheduleReconciliation cfg i n)"
  unfolding scheduleReconciliation_def upsert_run_def Let_def by (auto intro!: keeps_rules claimless_modify)

lemma keeps_outcomes [keeps_rules]:
  "keeps (markSent r conversationId messageId requestId)" "keeps (markTerminalFailure r code detail)"
  "keeps (markDeliveryUnknown cfg r attemptId requestId detail status)" "keeps (markRestricted r code)"
  "keeps (pauseShopForProviderFailure r x)" "keeps (pauseShopForProviderQuota r code operation)"
  "keeps (recoverDispatchingDelivery r)"
  unfolding markSent_def markTerminalFailure_def markDeliveryUnknown_def markRestricted_def
    pauseShopForProviderFailure_def pauseShopForProviderQuota_def recoverDispatchingDelivery_def
  by (intro keeps_rules worker_transactions)+

lemma keeps_completeCampaignIfDone [keeps_rules]: "keeps (completeCampaignIfDone i)"
  unfolding completeCampaignIfDone_def Let_def by (auto intro!: keeps_rules claimless_intros)

lemma keeps_attempts [keeps_rules]:
  "keeps (create_attempt i n)" "keeps (settle_attempt a outcome code status request)"
  "keeps (upsert_conversation r external)" "keeps (create_message c r content hash)"
  unfolding create_attempt_def settle_attempt_def upsert_conversation_def create_message_def Let_def
  by (auto intro!: keeps_rules claimless_intros)

lemma keeps_waitForSendPermit [keeps_rules]: "keeps (waitForSendPermitWhileCampaignActive n cfg r attemptNumber)"
  by (induction n) (auto intro!: keeps_rules claimless_intros split: PermitResult.split)

lemma keeps_processReconciliation [keeps_rules]: "keeps (processReconciliation cfg i n)"
  unfolding processReconciliation_def settle_unknown_def run_unresolved_def Let_def
  by (auto intro!: keeps_rules worker_transactions split: option.split ReconciliationOutcome.split)

lemma keeps_maintenanceSweep [keeps_rules]: "keeps (maintenanceSweep cfg)"
  unfolding maintenanceSweep_def complete_settled_def requeue_def
  by (auto intro!: keeps_rules claimless_modify expiry.claimless_axioms)

lemma keeps_heartbeat [keeps_rules]: "keeps (publishHeartbeat_limiters cfg)"
  unfolding publishHeartbeat_limiters_def by (auto intro!: keeps_rules claimless_modify)

section \<open>Lemmas: the send job follows the protocol\<close>

lemma follows_makeDeliveryRetryable:
  "follows (makeDeliveryRetryable r code detail) (Holding (dl_id (lo_delivery r))) (\<lambda>role _. role = Idle) anyhow"
  unfolding makeDeliveryRetryable_def
proof (rule follows_transact)
  let ?i = "dl_id (lo_delivery r)" and ?f = "\<lambda>d. d\<lparr>dl_state := FAILED_RETRYABLE, dl_lastErrorCode := Some code, dl_lastErrorDetail := Some detail\<rparr>"
  fix env w u tables
  assume w: "relies (Holding ?i) w" and t: "retryable_tx r code detail (w_tables w) = Inr (u, tables)"
  then have tables: "tb_deliveries tables = upd_where (\<lambda>d. dl_id d = ?i) ?f (tb_deliveries (w_tables w))"
    by (auto simp: retryable_tx_def update_delivery_def update_recipient_def elim!: tx_bind_InrE split: option.splits)
  have ids: "delivery_ids tables = delivery_ids (w_tables w)"
    using delivery_ids_upd [of ?f "\<lambda>d. dl_id d = ?i" "w_tables w"] by (simp add: delivery_ids_def tables)
  have "claimable tables j \<Longrightarrow> claimable (w_tables w) j \<or> j = ?i" for j
    by (auto simp: claimable_def tables set_upd_where split: if_splits)
  then show "\<exists>r'. step_ok (Holding ?i) w (w\<lparr>w_tables := tables\<rparr>) r' \<and> r' = Idle"
    using ids by (auto simp: step_ok_def)
qed simp_all

lemma sound_retryable:
  "sound Idle q \<Longrightarrow> sound (Holding (dl_id (lo_delivery r))) (p_then (makeDeliveryRetryable r code detail) q)"
  by (rule sound_end [OF follows_makeDeliveryRetryable])

lemma sound_if: "(b \<Longrightarrow> sound r p) \<Longrightarrow> (\<not> b \<Longrightarrow> sound r q) \<Longrightarrow> sound r (if b then p else q)"
  by simp

lemma sound_then_keeps: "sound r p \<Longrightarrow> keeps q \<Longrightarrow> sound r (p_then p q)"
  unfolding sound_def by (rule follows_then, erule follows_weaken) (auto intro: follows_keeps)

lemmas sound_leaves = sound_keeps [OF keeps_Return] sound_keeps [OF keeps_Throw] sound_keeps [OF keeps_delayJob]
  sound_keeps [OF keeps_completeCampaignIfDone] sound_keeps [OF keeps_scheduleReconciliation]
  sound_keeps [OF keeps_outcomes(2)]

lemmas sound_rules = sound_leaves sound_if sound_bind sound_then sound_retryable

lemma sound_conversation_failed:
  "sound (Holding (dl_id (lo_delivery r))) (conversation_failed cfg job r createPermit attemptId finalAttempt e)"
  unfolding conversation_failed_def conversation_retry_def Let_def
  by (auto intro!: sound_rules keeps_rules split: Err.split)

lemma follows_setup_conversation:
  "follows (setup_conversation cfg job r creatorOpenId createPermit attemptId finalAttempt)
     (Holding (dl_id (lo_delivery r))) (\<lambda>role c. c \<noteq> None \<longrightarrow> role = Holding (dl_id (lo_delivery r))) anyhow"
  unfolding setup_conversation_def
proof (rule follows_catch, rule follows_keeps)
  fix e
  have "follows (p_then (conversation_failed cfg job r createPermit attemptId finalAttempt e) (Return (None :: ident option)))
     (Holding (dl_id (lo_delivery r))) (\<lambda>role c. c \<noteq> None \<longrightarrow> role = Holding (dl_id (lo_delivery r))) anyhow"
    using sound_conversation_failed [of r cfg job createPermit attemptId finalAttempt e] unfolding sound_def
    by (auto intro!: follows_then elim: follows_weaken)
  then show "if e = Stopped then anyhow (Holding (dl_id (lo_delivery r))) e
    else follows (p_then (conversation_failed cfg job r createPermit attemptId finalAttempt e) (Return (None :: ident option)))
     (Holding (dl_id (lo_delivery r))) (\<lambda>role c. c \<noteq> None \<longrightarrow> role = Holding (dl_id (lo_delivery r))) anyhow"
    by simp
qed (auto intro!: keeps_rules)

lemma follows_persist_conversation:
  "follows (persist_conversation r attemptId external) (Holding (dl_id (lo_delivery r)))
     (\<lambda>role c. role = Holding (dl_id (lo_delivery r))) anyhow"
  unfolding persist_conversation_def
proof (rule follows_keeps_catch)
  show "keeps (p_bind (upsert_conversation r external) (\<lambda>conversationId.
         p_then (transact (\<lambda>env. update_delivery (dl_id (lo_delivery r)) (\<lambda>d. d\<lparr>dl_conversationId := Some conversationId\<rparr>)))
           (Return conversationId)))"
    by (auto intro!: keeps_rules claimless_update_delivery)
  show "follows (p_then (settle_attempt attemptId ''FAILED_RETRYABLE'' ''LOCAL_CONVERSATION_PERSISTENCE_FAILED'' None None)
      (p_then (makeDeliveryRetryable r ''LOCAL_CONVERSATION_PERSISTENCE_FAILED''
         ''Conversation persistence failed before Send Message was attempted'') (Throw e)))
     (Holding (dl_id (lo_delivery r))) (\<lambda>role c. role = Holding (dl_id (lo_delivery r))) anyhow" for e
    by (intro follows_keeps_then keeps_attempts follows_then) (auto intro: follows_weaken [OF follows_makeDeliveryRetryable])
qed simp_all

lemma follows_send_message:
  "follows (send_message i conversationId creatorOpenId content) (Holding i)
     (\<lambda>role x. role = (if refused x then Holding i else Idle)) anyhow"
  unfolding send_message_def follows_Act
  by (auto intro!: exI [of _ "if refused _ then _ else _"] simp: step_ok_def relies_def)

lemma sound_send_threw:
  assumes "role = (if refused (Threw e) then Holding (dl_id (lo_delivery r)) else Idle)"
  shows "sound role (send_threw cfg r sendPermit attemptId e)"
  using assms unfolding send_threw_def Let_def
  by (auto intro!: sound_rules keeps_rules split: Err.split)

lemma sound_send_retryable:
  "sound (Holding (dl_id (lo_delivery r)))
     (send_retryable cfg job r sendPermit attemptId finalAttempt requestId errorCode retryAfterMs httpStatus)"
  unfolding send_retryable_def Let_def by (auto intro!: sound_rules keeps_rules)

lemma sound_send_answered:
  assumes "role = (if refused (Answered a) then Holding (dl_id (lo_delivery r)) else Idle)"
  shows "sound role (send_answered cfg job r creatorOpenId sendPermit attemptId conversationId content hash finalAttempt a)"
  using assms unfolding send_answered_def Let_def
  by (cases a) (auto intro!: sound_rules keeps_rules sound_then_keeps [OF sound_send_retryable])

lemma sound_send_stage:
  "sound (Holding (dl_id (lo_delivery r)))
     (send_stage cfg job r creatorOpenId content hash attemptId finalAttempt external conversationId sendPermit)"
  unfolding send_stage_def sound_def
  by (rule follows_bind, rule follows_weaken [OF follows_send_message])
    (auto simp: sound_send_threw [unfolded sound_def] sound_send_answered [unfolded sound_def] split: SendOutcome.split)

lemma sound_dispatch_claimed:
  "sound (Holding (dl_id (lo_delivery r))) (dispatch_claimed cfg job r creatorOpenId content hash createPermit n)"
proof -
  let ?H = "Holding (dl_id (lo_delivery r))"
  have send: "follows (p_bind (waitForSendPermitWhileCampaignActive (wc_waitTries cfg) cfg r n) (\<lambda>permit.
      case permit of None \<Rightarrow> paused_before_send r attemptId
      | Some sendPermit \<Rightarrow> send_stage cfg job r creatorOpenId content hash attemptId final external conversationId sendPermit))
      ?H anyhow anyhow" for attemptId final external conversationId
    unfolding paused_before_send_def using sound_send_stage
    by (auto intro!: sound_rules keeps_rules simp flip: sound_def split: option.split)
  have persist: "follows (p_bind (persist_conversation r attemptId external) (\<lambda>conversationId.
      p_bind (waitForSendPermitWhileCampaignActive (wc_waitTries cfg) cfg r n) (\<lambda>permit.
      case permit of None \<Rightarrow> paused_before_send r attemptId
      | Some sendPermit \<Rightarrow> send_stage cfg job r creatorOpenId content hash attemptId final external conversationId sendPermit)))
      ?H anyhow anyhow" for attemptId final external
    by (rule follows_bind, rule follows_weaken [OF follows_persist_conversation]) (auto simp: send)
  show ?thesis unfolding dispatch_claimed_def Let_def sound_def
    by (intro follows_keeps_bind keeps_unsettled keeps_attempts follows_bind follows_weaken [OF follows_setup_conversation])
      (auto simp: persist split: option.split)
qed

lemma sound_dispatch_permitted:
  "sound Idle (dispatch_permitted cfg job r creatorOpenId content hash createPermit)"
  unfolding dispatch_permitted_def sound_def
proof (rule follows_bind, rule follows_catch, rule follows_weaken [OF follows_reserveDispatchSlot])
  fix role and claim :: DispatchClaim
  assume "role = (case claim of Claimed _ \<Rightarrow> Holding (dl_id (lo_delivery r)) | NotClaimed _ _ \<Rightarrow> Idle)"
  then show "follows (case claim of
        NotClaimed cancelled _ \<Rightarrow> p_then (release_permit createPermit ''NOT_DISPATCHED'' no_meta)
          (if cancelled then completeCampaignIfDone (rc_campaignId (lo_recipient r)) else Return ())
      | Claimed attemptNumber \<Rightarrow> dispatch_claimed cfg job r creatorOpenId content hash createPermit attemptNumber) role anyhow anyhow"
    using sound_dispatch_claimed by (auto intro!: sound_keeps keeps_rules simp flip: sound_def split: DispatchClaim.split)
qed (auto intro!: follows_keeps_then keeps_governor)

lemma sound_processSend: "sound Idle (processSend cfg job)"
  unfolding processSend_def dispatch_loaded_def
  by (auto intro!: sound_bind sound_then sound_keeps [OF keeps_Return] sound_keeps [OF keeps_Throw] keeps_rules
      sound_dispatch_permitted sound_keeps [OF keeps_delayJob] sound_keeps [OF keeps_completeCampaignIfDone]
      sound_keeps [OF keeps_scheduleReconciliation]
      split: option.split DeliveryAction.split PermitResult.split)

lemma sound_worker_program: "worker_program cfg p \<Longrightarrow> sound Idle p"
proof (induction rule: worker_program.induct)
  case (worker_program_job job)
  then show ?case by (cases job) (auto simp: sound_processSend intro!: sound_keeps keeps_rules)
qed (auto intro!: sound_keeps keeps_rules)

section \<open>Lemmas: what the outcomes write\<close>

lemma find_contact_upsert:
  assumes "\<And>c. ct_shopId (f c) = ct_shopId c \<and> ct_creatorId (f c) = ct_creatorId c"
    and "ct_shopId new = shopId" "ct_creatorId new = creatorId" and "upsert_contact shopId creatorId f new db = Inr (u, db')"
  shows "find_contact shopId creatorId db' =
    Some (case find_contact shopId creatorId db of None \<Rightarrow> new | Some c \<Rightarrow> f c)"
proof (cases "find_contact shopId creatorId db")
  case None
  then show ?thesis using assms(2-)
    by (auto simp: upsert_contact_def find_contact_def find_append)
next
  case (Some c)
  then show ?thesis using assms(1,4) find_SomeD [OF Some [unfolded find_contact_def]]
    by (auto simp: upsert_contact_def find_contact_def find_upd_where)
qed

lemma mark_sent_effect:
  assumes "mark_sent_tx r conversationId messageId requestId now db = Inr (u, db')"
  shows "tb_campaigns db' = tb_campaigns db"
    "tb_reservations db' = del_where (\<lambda>v. rv_campaignRecipientId v = rc_id (lo_recipient r)) (tb_reservations db)"
    "tb_outbox db' = upd_where (\<lambda>e. ob_recipientId e = rc_id (lo_recipient r)) (\<lambda>e. e\<lparr>ob_state := OutboxState.COMPLETED\<rparr>) (tb_outbox db)"
    "tb_deliveries db' = upd_where (\<lambda>d. dl_id d = dl_id (lo_delivery r)) (\<lambda>d. d\<lparr>dl_state := DeliveryState.SENT,
       dl_conversationId := Some conversationId, dl_externalMessageId := Some messageId,
       dl_providerRequestId := keep requestId (dl_providerRequestId d), dl_sentAt := Some now\<rparr>) (tb_deliveries db)"
    "tb_recipients db' = upd_where (\<lambda>x. rc_id x = rc_id (lo_recipient r)) (\<lambda>x. x\<lparr>rc_state := RecipientState.SENT\<rparr>) (tb_recipients db)"
    "find_delivery (dl_id (lo_delivery r)) db \<noteq> None" "find_recipient (rc_id (lo_recipient r)) db \<noteq> None"
  using assms
  by (auto simp: mark_sent_tx_def mark_sent_contact_def update_delivery_def update_recipient_def delete_reservations_def
      update_outbox_def upsert_contact_def tx_guard_def Let_def find_delivery_def find_recipient_def find_contact_def
      elim!: tx_bind_InrE split: option.splits if_splits)

lemma mark_sent_contact_effect:
  assumes "mark_sent_tx r conversationId messageId requestId now db = Inr (u, db')"
  shows "\<exists>c. find_contact (ca_shopId (lo_campaign r)) (rc_creatorId (lo_recipient r)) db' = Some c \<and>
    ct_lastContactedAt c = Some now \<and> ct_lastDeliveryId c = Some (dl_id (lo_delivery r)) \<and>
    ct_lastCampaignId c = Some (rc_campaignId (lo_recipient r))"
proof -
  let ?s = "ca_shopId (lo_campaign r)" and ?c = "rc_creatorId (lo_recipient r)"
  obtain db1 db2 unresolved previous where u: "mark_sent_contact r now unresolved previous db1 = Inr ((), db2)"
    and "tb_contacts db' = tb_contacts db2"
    using assms by (auto simp: mark_sent_tx_def update_delivery_def update_recipient_def delete_reservations_def
      update_outbox_def tx_guard_def elim!: tx_bind_InrE split: option.splits if_splits)
  then have "find_contact ?s ?c db' = find_contact ?s ?c db2" by (simp add: find_contact_def)
  then show ?thesis
    using find_contact_upsert [OF _ _ _ u [unfolded mark_sent_contact_def Let_def]] by (auto simp: new_contact_def split: option.split)
qed

text \<open>What a claim requires of the contact of the creator.\<close>

lemma claimed_contact:
  assumes "reserve_tx sd r now db = Inr (Claimed n, db')"
    and "find_campaign (rc_campaignId (lo_recipient r)) db = Some k"
    and "find_contact (ca_shopId k) (rc_creatorId (lo_recipient r)) db = Some c"
  shows "\<not> ct_doNotContact c" "ct_unresolvedDelivery c \<Longrightarrow> ct_lastDeliveryId c = Some (dl_id (lo_delivery r))"
    "ct_lastContactedAt c = Some t \<Longrightarrow> ct_lastDeliveryId c = Some (dl_id (lo_delivery r)) \<or> t \<le> now - ca_cooldownDays k * 86400000"
proof -
  obtain delivery recipient where d: "find_delivery (dl_id (lo_delivery r)) db = Some delivery"
    and x: "dispatch_exclusion r now k delivery recipient (find_reservation (rc_id (lo_recipient r)) db) (Some c) = None"
    using assms by (cases rule: reserve_txE) auto
  have "dl_id delivery = dl_id (lo_delivery r)" using find_SomeD [OF d [unfolded find_delivery_def]] by simp
  then show "\<not> ct_doNotContact c" "ct_unresolvedDelivery c \<Longrightarrow> ct_lastDeliveryId c = Some (dl_id (lo_delivery r))"
    "ct_lastContactedAt c = Some t \<Longrightarrow> ct_lastDeliveryId c = Some (dl_id (lo_delivery r)) \<or> t \<le> now - ca_cooldownDays k * 86400000"
    using exclusion_None(1) [OF x] by (auto simp: cooldown_cutoff_def)
qed

lemma unknown_contact_effect:
  assumes "delivery_unknown_tx r attemptId requestId detail status now db = Inr (u, db')"
  shows "\<exists>c. find_contact (ca_shopId (lo_campaign r)) (rc_creatorId (lo_recipient r)) db' = Some c \<and>
    ct_unresolvedDelivery c \<and> ct_lastDeliveryId c = Some (dl_id (lo_delivery r))" "tb_campaigns db' = tb_campaigns db"
proof -
  let ?s = "ca_shopId (lo_campaign r)" and ?c = "rc_creatorId (lo_recipient r)"
  let ?f = "\<lambda>c. c\<lparr>ct_unresolvedDelivery := True, ct_lastDeliveryId := Some (dl_id (lo_delivery r))\<rparr>"
  obtain db1 db2 where u: "upsert_contact ?s ?c ?f (?f (new_contact ?s ?c)) db1 = Inr ((), db2)"
    and "tb_contacts db' = tb_contacts db2"
    using assms by (auto simp: delivery_unknown_tx_def update_outbox_def elim!: tx_bind_InrE)
  then have "find_contact ?s ?c db' = find_contact ?s ?c db2" by (simp add: find_contact_def)
  then show "\<exists>c. find_contact ?s ?c db' = Some c \<and>
    ct_unresolvedDelivery c \<and> ct_lastDeliveryId c = Some (dl_id (lo_delivery r))"
    using find_contact_upsert [OF _ _ _ u] by (auto simp: new_contact_def split: option.split)
  show "tb_campaigns db' = tb_campaigns db"
    using assms by (auto simp: delivery_unknown_tx_def update_attempt_def update_delivery_def update_recipient_def
      upsert_contact_def update_outbox_def elim!: tx_bind_InrE split: option.splits if_splits)
qed

section \<open>Properties\<close>

text \<open>
  C4. After markSent has committed for a delivery, no other delivery of the shop to the same
  creator can be claimed while the cooldown of its own campaign has not passed.
\<close>

theorem contacted_creator_is_left_alone:
  assumes "mark_sent_tx r conversationId messageId requestId sentAt db = Inr ((), db')"
    and "rc_creatorId (lo_recipient s) = rc_creatorId (lo_recipient r)" "dl_id (lo_delivery s) \<noteq> dl_id (lo_delivery r)"
    and "find_campaign (rc_campaignId (lo_recipient s)) db' = Some k" "ca_shopId k = ca_shopId (lo_campaign r)"
    and "now < sentAt + ca_cooldownDays k * 86400000"
  shows "reserve_tx shopDate s now db' \<noteq> Inr (Claimed n, db'')"
proof
  assume "reserve_tx shopDate s now db' = Inr (Claimed n, db'')"
  with mark_sent_contact_effect [OF assms(1)] show False
    using claimed_contact(3) [of shopDate s now db' n db'' k _ sentAt] assms by fastforce
qed

text \<open>The contact state of the creator is unresolved because of the delivery.\<close>

definition unresolved_contact :: "ident \<Rightarrow> ident \<Rightarrow> ident \<Rightarrow> Tables \<Rightarrow> bool" where
  "unresolved_contact shopId creatorId deliveryId db \<longleftrightarrow>
     (\<exists>c. find_contact shopId creatorId db = Some c \<and> ct_unresolvedDelivery c \<and> ct_lastDeliveryId c = Some deliveryId)"

text \<open>
  C3. markDeliveryUnknown leaves the contact state of the creator unresolved by its delivery, and
  in every state of the tables in which it still is (a reconciliation that finds the message, for
  one, clears it) no dispatch of another delivery to the same creator of the shop can be claimed,
  whatever its campaign and cooldown and whatever the time.
\<close>

theorem unknown_outcome_blocks_the_creator:
  assumes "delivery_unknown_tx r attemptId requestId detail status unknownAt db = Inr ((), db')"
    and "rc_creatorId (lo_recipient s) = rc_creatorId (lo_recipient r)" "dl_id (lo_delivery s) \<noteq> dl_id (lo_delivery r)"
    and "find_campaign (rc_campaignId (lo_recipient s)) db2 = Some k" "ca_shopId k = ca_shopId (lo_campaign r)"
  shows "unresolved_contact (ca_shopId (lo_campaign r)) (rc_creatorId (lo_recipient r)) (dl_id (lo_delivery r)) db' \<and>
    (unresolved_contact (ca_shopId (lo_campaign r)) (rc_creatorId (lo_recipient r)) (dl_id (lo_delivery r)) db2 \<longrightarrow>
       reserve_tx shopDate s now db2 \<noteq> Inr (Claimed n, db3))"
proof (intro conjI impI notI)
  show "unresolved_contact (ca_shopId (lo_campaign r)) (rc_creatorId (lo_recipient r)) (dl_id (lo_delivery r)) db'"
    using unknown_contact_effect(1) [OF assms(1)] by (simp add: unresolved_contact_def)
next
  assume "unresolved_contact (ca_shopId (lo_campaign r)) (rc_creatorId (lo_recipient r)) (dl_id (lo_delivery r)) db2"
    and "reserve_tx shopDate s now db2 = Inr (Claimed n, db3)"
  then show False
    using claimed_contact(2) [of shopDate s now db2 n db3 k] assms by (fastforce simp: unresolved_contact_def)
qed

section \<open>Reconciliation ends\<close>

text \<open>A program that hands over only jobs of a kind.\<close>

definition adds_jobs :: "(Job \<Rightarrow> bool) \<Rightarrow> World \<Rightarrow> World \<Rightarrow> bool" where
  "adds_jobs P w w' \<longleftrightarrow> (\<exists>js. w_jobs w' = w_jobs w @ js \<and> list_all P js)"

lemma adds_jobs_refl: "reflp (adds_jobs P)"
  by (auto simp: adds_jobs_def intro!: reflpI exI [of _ "[]"])

lemma adds_jobs_trans: "transp (adds_jobs P)"
proof (rule transpI)
  fix u v w assume "adds_jobs P u v" "adds_jobs P v w"
  then obtain js ks where "w_jobs v = w_jobs u @ js" "list_all P js" "w_jobs w = w_jobs v @ ks" "list_all P ks"
    by (auto simp: adds_jobs_def)
  then show "adds_jobs P u w" unfolding adds_jobs_def by (intro exI [of _ "js @ ks"]) simp
qed

lemma adds_jobs_same: "w_jobs w' = w_jobs w \<Longrightarrow> adds_jobs P w w'"
  by (auto simp: adds_jobs_def intro!: exI [of _ "[]"])

lemma adds_jobs_transact: "steps (adds_jobs P) (transact t)"
  by (auto simp: transact_def steps_Act intro!: adds_jobs_same split: sum.split)

lemma adds_jobs_clock: "steps (adds_jobs P) clock"
  by (auto simp: clock_def steps_Act intro!: adds_jobs_same)

lemma adds_jobs_add: "P j \<Longrightarrow> steps (adds_jobs P) (add_job j)"
  by (auto simp: add_job_def steps_Act adds_jobs_def intro: exI [of _ "[]"] split: option.split)

lemmas adds_jobs_rules = steps_bind steps_then adds_jobs_transact adds_jobs_clock

lemma reconciliation_jobs:
  "steps (adds_jobs (\<lambda>j. jb_name j = ''reconcile'' \<and> jb_target j = i \<and> jb_attemptNumber j = n + 1 \<and> n + 1 \<le> 3))
     (processReconciliation cfg i n)"
proof -
  let ?P = "\<lambda>j. jb_name j = ''reconcile'' \<and> jb_target j = i \<and> jb_attemptNumber j = n + 1 \<and> n + 1 \<le> 3"
  have complete: "steps (adds_jobs P) (completeCampaignIfDone k)" for k P
    unfolding completeCampaignIfDone_def Let_def by (auto intro!: adds_jobs_rules)
  have target: "load_unknown i db = Some u \<Longrightarrow> dl_id (lo_delivery (un_loaded u)) = i" for u db
    by (auto simp: load_unknown_def load_recipient_def find_delivery_def dest!: find_SomeD split: option.splits if_splits)
  have "steps (adds_jobs ?P) (settle_unknown cfg u n outcome)" if "dl_id (lo_delivery (un_loaded u)) = i" for u outcome
    unfolding settle_unknown_def Let_def that markSent_def scheduleReconciliation_def
    by (auto intro!: adds_jobs_rules adds_jobs_add split: ReconciliationOutcome.split)
  then show ?thesis unfolding processReconciliation_def
    by (intro steps_read_bind adds_jobs_refl) (auto intro!: adds_jobs_rules complete dest!: target split: option.split)
qed

text \<open>
  C37. A reconciliation job schedules further jobs only for its own delivery, with the next
  attempt number, and never beyond the third attempt: reconciliation of a delivery ends.
\<close>

theorem reconciliation_is_bounded:
  "\<exists>js. w_jobs (snd (p_run envs (processReconciliation cfg i n) w)) = w_jobs w @ js \<and>
    (\<forall>j \<in> set js. jb_name j = ''reconcile'' \<and> jb_target j = i \<and> jb_attemptNumber j = n + 1 \<and> n + 1 \<le> 3)"
  using steps_run [OF adds_jobs_refl adds_jobs_trans reconciliation_jobs, of i n w envs cfg]
  by (auto simp: adds_jobs_def list_all_iff)

section \<open>Nothing is sent again after a crash\<close>

definition sends_nothing :: "World \<Rightarrow> World \<Rightarrow> bool" where
  "sends_nothing w w' \<longleftrightarrow> w_requests w' = w_requests w"

lemma sends_nothing_refl: "reflp sends_nothing" by (simp add: sends_nothing_def reflp_def)

lemma sends_nothing_trans: "transp sends_nothing" by (simp add: sends_nothing_def transp_def)

lemma sends_nothing_basic:
  "steps sends_nothing (transact t)" "steps sends_nothing clock" "steps sends_nothing (add_job j)"
  by (auto simp: transact_def clock_def add_job_def steps_Act sends_nothing_def split: sum.split option.split)

lemmas sends_nothing_rules = steps_bind steps_then sends_nothing_basic

lemma skipped_sends_nothing:
  "dl_state (lo_delivery r) \<noteq> DeliveryState.PENDING \<Longrightarrow> dl_state (lo_delivery r) \<noteq> FAILED_RETRYABLE \<Longrightarrow>
   steps sends_nothing (dispatch_loaded cfg job r content contentHash)"
  by (cases "dl_state (lo_delivery r)")
    (auto simp: dispatch_loaded_def deliveryAction_def recoverDispatchingDelivery_def scheduleReconciliation_def Let_def
      intro!: sends_nothing_rules)

text \<open>
  C6. A send job that finds its delivery in any state but PENDING or FAILED_RETRYABLE - in
  particular DISPATCHING, left by a worker that stopped - never sends a message, whatever the
  provider and the queue do.
\<close>

theorem interrupted_dispatch_is_not_resent:
  assumes "load_send (sj_recipientId job) (w_tables w) = Some r"
    and "dl_state (lo_delivery r) \<noteq> DeliveryState.PENDING" "dl_state (lo_delivery r) \<noteq> FAILED_RETRYABLE"
  shows "w_requests (snd (p_run envs (processSend cfg job) w)) = w_requests w"
proof (cases envs)
  case (Cons env envs')
  let ?R = "\<lambda>loaded. case loaded of None \<Rightarrow> Return ()
       | Some r \<Rightarrow> (case (truthy (rc_frozenMessage (lo_recipient r)), truthy (rc_contentHash (lo_recipient r))) of
            (Some content, Some contentHash) \<Rightarrow> dispatch_loaded cfg job r content contentHash | _ \<Rightarrow> Return ())"
  have "steps sends_nothing (?R (Some r))"
    using skipped_sends_nothing [OF assms(2,3)] by (auto split: option.split)
  then have "sends_nothing w (snd (p_run envs' (?R (Some r)) w))"
    by (rule steps_run [OF sends_nothing_refl sends_nothing_trans])
  then show ?thesis using assms(1) Cons
    by (simp add: processSend_def transact_def sends_nothing_def)
qed (simp add: processSend_def transact_def)

text \<open>
  C25. After markSent the delivery is SENT with the message id of the provider, the recipient is
  SENT, its reservation is gone, its outbox entries are COMPLETED and the contact state records
  the time and the delivery.
\<close>

theorem sent_message_is_settled:
  assumes "mark_sent_tx r conversationId messageId requestId now db = Inr ((), db')"
  shows "map_option dl_state (find_delivery (dl_id (lo_delivery r)) db') = Some DeliveryState.SENT \<and>
    map_option dl_externalMessageId (find_delivery (dl_id (lo_delivery r)) db') = Some (Some messageId) \<and>
    map_option rc_state (find_recipient (rc_id (lo_recipient r)) db') = Some RecipientState.SENT \<and>
    find_reservation (rc_id (lo_recipient r)) db' = None \<and>
    (\<forall>e \<in> set (tb_outbox db'). ob_recipientId e = rc_id (lo_recipient r) \<longrightarrow> ob_state e = OutboxState.COMPLETED) \<and>
    (\<exists>c. find_contact (ca_shopId (lo_campaign r)) (rc_creatorId (lo_recipient r)) db' = Some c \<and>
       ct_lastContactedAt c = Some now \<and> ct_lastDeliveryId c = Some (dl_id (lo_delivery r)))"
proof -
  note e = mark_sent_effect [OF assms]
  obtain d x where "find_delivery (dl_id (lo_delivery r)) db = Some d" "find_recipient (rc_id (lo_recipient r)) db = Some x"
    using e(6,7) by auto
  then show ?thesis using e(1-5) mark_sent_contact_effect [OF assms]
      find_SomeD [of _ "tb_deliveries db" d] find_SomeD [of _ "tb_recipients db" x]
    by (auto simp: find_delivery_def find_recipient_def find_reservation_def find_upd_where find_None_iff set_upd_where)
qed

section \<open>Runs on the small world\<close>

definition ex_options :: GovernorOptions where
  "ex_options = \<lparr>go_provider = ''TIKTOK_SHOP'', go_appScope = ''app'', go_initialConcurrency = 2, go_technicalMaxConcurrency = 4,
     go_permitLeaseMs = 60000, go_sendMessageIntervalMs = Some 1000\<rparr>"

definition ex_worker :: WorkerConfig where
  "ex_worker = \<lparr>wc_mode = LIVE, wc_governor = ex_options, wc_instance = ''w'', wc_reconciliationDelays = [300000, 1800000, 7200000],
     wc_reconcileBatchSize = 10, wc_shopDate = (\<lambda>now zone. 0), wc_libraryMessage = (\<lambda>e. []), wc_waitTries = 3\<rparr>"

definition ex_env :: "ident \<Rightarrow> SendOutcome \<Rightarrow> Env" where
  "ex_env i outcome = \<lparr>e_now = 2000, e_fresh = (\<lambda>n. i @ show_int (int n)), e_random = 0, e_dbDown = False, e_queueDown = None,
     e_jobState = None, e_conversation = Inr ''v1'', e_send = outcome, e_conversations = (\<lambda>_. Inr no_page), e_messages = (\<lambda>_ _ _. Inr no_page),
     e_search = (\<lambda>_ _ _. Inl Stopped), e_readSheet = (\<lambda>_. Inl Stopped), e_reconcileSheet = (\<lambda>_ _. Inl Stopped)\<rparr>"

definition ex_envs :: "SendOutcome \<Rightarrow> Env list" where
  "ex_envs outcome = map (\<lambda>c. ex_env [c] outcome) ''abcdefghijklmnopqrst''"

definition ex_world :: World where
  "ex_world = \<lparr>w_tables = ex_tables, w_jobs = [], w_requests = []\<rparr>"

definition ex_job :: SendJob where
  "ex_job = \<lparr>sj_recipientId = ''r1'', sj_attemptsMade = 0, sj_attempts = Some 4, sj_hasToken = True\<rparr>"

definition ex_run :: "SendOutcome \<Rightarrow> unit prog \<times> World" where
  "ex_run outcome = p_run (ex_envs outcome) (processSend ex_worker ex_job) ex_world"

definition ex_sent :: SendOutcome where "ex_sent = Answered (MessageSent ''m1'' ''q1'' (Some 200))"

definition ex_unknown :: SendOutcome where "ex_unknown = Answered (MessageUnknown ''q1'' (Some 200))"

definition ex_other :: Loaded where
  "ex_other = ex_loaded\<lparr>lo_delivery := ex_delivery ''d9'' ''r9''\<rparr>"

lemma ex_sent_requests: "w_requests (snd (ex_run ex_sent)) = [(''d1'', ex_sent)]"
  by code_simp

lemma ex_marked: "\<not> isl (mark_sent_tx ex_loaded ''v1'' ''m1'' None 2000 ex_tables)"
  by code_simp

definition ex_attempted :: Tables where
  "ex_attempted = ex_tables\<lparr>tb_attempts := [\<lparr>at_id = ''a1'', at_deliveryId = ''d1'', at_attemptNumber = 1, at_outcome = ''STARTED'',
     at_providerCode = None, at_providerHttpStatus = None, at_providerRequestId = None, at_startedAt = 2000, at_completedAt = None\<rparr>]\<rparr>"

lemma ex_marked_unknown: "\<not> isl (delivery_unknown_tx ex_loaded ''a1'' None ''timeout'' None 2000 ex_attempted)"
  by code_simp

lemma not_isl_unit: "\<not> isl r \<Longrightarrow> \<exists>db. r = Inr ((), db)"
  by (cases r) auto

lemma ex_other_facts:
  "rc_creatorId (lo_recipient ex_other) = rc_creatorId (lo_recipient ex_loaded)" "dl_id (lo_delivery ex_other) \<noteq> dl_id (lo_delivery ex_loaded)"
  "rc_campaignId (lo_recipient ex_other) = ''k1''" "ca_shopId ex_campaign = ca_shopId (lo_campaign ex_loaded)" "ca_cooldownDays ex_campaign = 30"
  by (simp_all add: ex_other_def ex_defs)

lemma contacted_creator_is_left_alone_witness:
  "\<exists>db. mark_sent_tx ex_loaded ''v1'' ''m1'' None 2000 ex_tables = Inr ((), db) \<and>
     (\<forall>n db'. reserve_tx (\<lambda>now zone. 0) ex_other 5000 db \<noteq> Inr (Claimed n, db'))"
proof -
  obtain db where m: "mark_sent_tx ex_loaded ''v1'' ''m1'' None 2000 ex_tables = Inr ((), db)"
    using not_isl_unit [OF ex_marked] by blast
  have k: "find_campaign (rc_campaignId (lo_recipient ex_other)) db = Some ex_campaign"
    using mark_sent_effect(1) [OF m] ex_finds(1) by (simp add: find_campaign_def ex_other_facts)
  show ?thesis using contacted_creator_is_left_alone [OF m ex_other_facts(1,2) k ex_other_facts(4)] m
    by (simp add: ex_other_facts(5))
qed

lemma unknown_outcome_blocks_the_creator_witness:
  "\<exists>db. delivery_unknown_tx ex_loaded ''a1'' None ''timeout'' None 2000 ex_attempted = Inr ((), db) \<and>
     (\<forall>now n db'. reserve_tx (\<lambda>now zone. 0) ex_other now db \<noteq> Inr (Claimed n, db'))"
proof -
  obtain db where m: "delivery_unknown_tx ex_loaded ''a1'' None ''timeout'' None 2000 ex_attempted = Inr ((), db)"
    using not_isl_unit [OF ex_marked_unknown] by blast
  have k: "find_campaign (rc_campaignId (lo_recipient ex_other)) db = Some ex_campaign"
    using unknown_contact_effect(2) [OF m] ex_finds(1) by (simp add: find_campaign_def ex_other_facts ex_attempted_def)
  show ?thesis using unknown_outcome_blocks_the_creator [OF m ex_other_facts(1,2) k ex_other_facts(4)] m by blast
qed

lemma sent_message_is_settled_witness:
  "\<exists>db. mark_sent_tx ex_loaded ''v1'' ''m1'' None 2000 ex_tables = Inr ((), db) \<and>
     map_option dl_state (find_delivery ''d1'' db) = Some DeliveryState.SENT \<and> find_reservation ''r1'' db = None"
proof -
  obtain db where m: "mark_sent_tx ex_loaded ''v1'' ''m1'' None 2000 ex_tables = Inr ((), db)"
    using not_isl_unit [OF ex_marked] by blast
  show ?thesis using sent_message_is_settled [OF m] m by (simp add: ex_loaded_def ex_delivery_def ex_recipient_def)
qed

text \<open>A delivery whose dispatch was cut off, and one whose outcome is unknown.\<close>

definition ex_world_with :: "DeliveryState \<Rightarrow> World" where
  "ex_world_with s = ex_world\<lparr>w_tables := ex_tables\<lparr>tb_deliveries :=
     [(ex_delivery ''d1'' ''r1'')\<lparr>dl_state := s, dl_conversationId := Some ''v1'', dl_firstDispatchedAt := Some 1000\<rparr>],
     tb_conversations := [\<lparr>cv_id = ''v1'', cv_shopId = ''s1'', cv_creatorId = ''c1'', cv_externalConversationId = ''x1'',
       cv_unreadCount = 0, cv_lastSyncedAt = None\<rparr>],
     tb_runs := [\<lparr>rr_deliveryId = ''d1'', rr_attemptNumber = 1, rr_state = ReconciliationState.PENDING, rr_matchedMessageId = None,
       rr_evidence = JObj [], rr_scheduledFor = 1000, rr_completedAt = None\<rparr>]\<rparr>\<rparr>"

lemma ex_loads: "\<exists>r. load_send ''r1'' (w_tables (ex_world_with DISPATCHING)) = Some r \<and> dl_state (lo_delivery r) = DISPATCHING"
  by (simp add: load_send_def load_recipient_def ex_world_with_def ex_world_def ex_defs find_recipient_def delivery_of_def
      find_creator_def find_campaign_def find_shop_def)

lemma interrupted_dispatch_is_not_resent_witness:
  "w_requests (snd (p_run (ex_envs ex_sent) (processSend ex_worker ex_job) (ex_world_with DISPATCHING))) = []"
proof -
  obtain r where r: "load_send ''r1'' (w_tables (ex_world_with DISPATCHING)) = Some r" "dl_state (lo_delivery r) = DISPATCHING"
    using ex_loads by blast
  have "sj_recipientId ex_job = ''r1''" "w_requests (ex_world_with DISPATCHING) = []"
    by (simp_all add: ex_job_def ex_world_with_def ex_world_def)
  then show ?thesis
    using interrupted_dispatch_is_not_resent [of ex_job "ex_world_with DISPATCHING" r "ex_envs ex_sent" ex_worker] r by simp
qed

lemma ex_reconciles:
  "length (w_jobs (snd (p_run (ex_envs ex_sent) (processReconciliation ex_worker ''d1'' 1) (ex_world_with DeliveryState.DELIVERY_UNKNOWN)))) = 1"
  by code_simp

lemma reconciliation_is_bounded_witness:
  "\<exists>j. w_jobs (snd (p_run (ex_envs ex_sent) (processReconciliation ex_worker ''d1'' 1) (ex_world_with DeliveryState.DELIVERY_UNKNOWN))) = [j] \<and>
     jb_target j = ''d1'' \<and> jb_attemptNumber j = 2"
  using ex_reconciles
    reconciliation_is_bounded [of "ex_envs ex_sent" ex_worker "''d1''" 1 "ex_world_with DeliveryState.DELIVERY_UNKNOWN"]
  by (auto simp: length_Suc_conv ex_world_with_def ex_world_def)

end
