(* ===== verification/Campaign.thy ===== *)
theory Campaign
  imports Dispatch Outbox
begin

text \<open>
  The campaigns of the API server: \<open>apps/api/src/outreach/outreach.service.ts\<close> (creation, freeze,
  queueing, send, pause, resume, cancel) and \<open>campaign-naming.ts\<close>. An operation is a program whose
  result is the campaign's view in the code; the view only reads and is left out, so it returns
  nothing here. The active shop, the report whether outbound is available, the digest of a message
  and the printing of a decimal are parameters.
\<close>

section \<open>campaign-naming.ts\<close>

text \<open>The calendar date in Jakarta, seven hours ahead of UTC all year, as \<open>YYYYMMDD\<close>.\<close>

definition campaignDateKeyWib :: "millis \<Rightarrow> string" where
  "campaignDateKeyWib now = filter is_digit (take 10 (to_iso_string (now + 7 * 3600000)))"

definition name_number :: "string \<Rightarrow> string \<Rightarrow> nat option" where
  "name_number dateKey name =
    (let prefix = dateKey @ ''_''; rest = drop (length prefix) name
     in if take (length prefix) name = prefix \<and> rest \<noteq> [] \<and> list_all is_digit rest then Some (digits_val 0 rest) else None)"

definition next_campaign_name :: "string \<Rightarrow> string list \<Rightarrow> string" where
  "next_campaign_name dateKey names =
    (let highest = fold max (List.map_filter (name_number dateKey) names) 0
     in dateKey @ ''_'' @ pad_left 3 (CHR ''0'') (show_int (int highest + 1)))"

definition allocateCampaignName :: "millis \<Rightarrow> string tx" where
  "allocateCampaignName now = tx_read (\<lambda>db. next_campaign_name (campaignDateKeyWib now) (map ca_name (tb_campaigns db)))"

section \<open>Creating a campaign\<close>

datatype AppMode = APP_MOCK | APP_READ_ONLY

record ApiConfig =
  ac_appMode :: AppMode
  ac_outboundMode :: OutboundMode
  ac_reconcileBatchSize :: nat
  ac_defaultTemplate :: string
  ac_activeShop :: "Tables \<Rightarrow> Err + Shop"
  ac_outboundReason :: "millis \<Rightarrow> Tables \<Rightarrow> string option"
  ac_sha256 :: "string \<Rightarrow> string"
  ac_showDecimal :: "real \<Rightarrow> string"
  ac_libraryMessage :: "Err \<Rightarrow> string"

record CampaignCreateInput =
  ci_productName :: "string option"
  ci_targetCount :: real
  ci_candidateLimit :: "real option"
  ci_cooldownDays :: real
  ci_messageTemplate :: "string option"
  ci_filters :: CreatorFilters
  ci_rankingMetric :: string
  ci_rankingDirection :: "string option"

definition parse_metric :: "string \<Rightarrow> RankingMetric option" where
  "parse_metric s = map_of [(''GMV'', GMV), (''UNITS_SOLD'', UNITS_SOLD), (''FOLLOWERS'', FOLLOWERS),
     (''AVG_VIDEO_VIEWS'', AVG_VIDEO_VIEWS), (''AVG_LIVE_VIEWERS'', AVG_LIVE_VIEWERS),
     (''ENGAGEMENT_RATE'', ENGAGEMENT_RATE), (''TIKTOK_RELEVANCE'', TIKTOK_RELEVANCE)] s"

definition bad_request :: "string + 'a \<Rightarrow> Err + 'a" where
  "bad_request r = (case r of Inl m \<Rightarrow> Inl (HttpError BadRequest m) | Inr a \<Rightarrow> Inr a)"

definition sample_values :: "string \<Rightarrow> MessageValues" where
  "sample_values productName = \<lparr>mv_creatorDisplayName = ''Creator'', mv_productName = productName,
     mv_campaignName = ''YYYYMMDD_001''\<rparr>"

definition trimmed :: "string option \<Rightarrow> string" where
  "trimmed s = (case s of None \<Rightarrow> [] | Some x \<Rightarrow> js_trim x)"

definition both_exceed :: "real option \<Rightarrow> real option \<Rightarrow> bool" where
  "both_exceed lo hi \<longleftrightarrow> (case (lo, hi) of (Some a, Some b) \<Rightarrow> a > b | _ \<Rightarrow> False)"

definition chosen_template :: "ApiConfig \<Rightarrow> CampaignCreateInput \<Rightarrow> string" where
  "chosen_template cfg input = (case ci_messageTemplate input of None \<Rightarrow> ac_defaultTemplate cfg
     | Some t \<Rightarrow> if js_trim t = [] then ac_defaultTemplate cfg else t)"

definition uses_gmv :: "CampaignCreateInput \<Rightarrow> bool" where
  "uses_gmv input \<longleftrightarrow> ci_rankingMetric input = ''GMV'' \<or> cf_minGmv (ci_filters input) \<noteq> None \<or> cf_maxGmv (ci_filters input) \<noteq> None"

text \<open>The currency of the filters belongs to the server: what the client sent is dropped.\<close>

definition server_filters :: "AppMode \<Rightarrow> CampaignCreateInput \<Rightarrow> CreatorFilters" where
  "server_filters mode input = (ci_filters input)\<lparr>cf_gmvCurrency :=
     (if \<not> uses_gmv input then None
      else case mode of APP_MOCK \<Rightarrow> Some ''IDR'' | APP_READ_ONLY \<Rightarrow> Some OUTREACH_GMV_CURRENCY)\<rparr>"

definition validate_create :: "ApiConfig \<Rightarrow> Shop \<Rightarrow> CampaignCreateInput \<Rightarrow> string + unit" where
  "validate_create cfg shop input =
    (let template = chosen_template cfg input; filters = ci_filters input in
     case assertCampaignWithinLimit (ci_targetCount input) (of_int (sh_maxRecipientsPerCampaign shop)) of
       Inl m \<Rightarrow> Inl m
     | Inr _ \<Rightarrow>
         if js_trim template = [] then Inl ''Message template is required''
         else case assertContactCooldownDays (ci_cooldownDays input) of
           Inl m \<Rightarrow> Inl m
         | Inr _ \<Rightarrow>
             if length template > 2000 then Inl ''Message template exceeds the mock provider limit of 2,000 characters''
             else if (case ci_candidateLimit input of None \<Rightarrow> False | Some l \<Rightarrow> \<not> js_is_integer l \<or> l < ci_targetCount input)
             then Inl ''Candidate limit must be an integer at least as large as the target''
             else if parse_metric (ci_rankingMetric input) = None then Inl ''Unsupported ranking metric''
             else if (case ci_rankingDirection input of None \<Rightarrow> False | Some d \<Rightarrow> d \<noteq> [] \<and> d \<notin> {''ASC'', ''DESC''})
             then Inl ''Unsupported ranking direction''
             else if both_exceed (cf_minFollowers filters) (cf_maxFollowers filters)
             then Inl ''Minimum followers cannot exceed maximum followers''
             else if both_exceed (cf_minGmv filters) (cf_maxGmv filters) then Inl ''Minimum GMV cannot exceed maximum GMV''
             else case renderMessage template (sample_values (trimmed (ci_productName input))) of
               Inl m \<Rightarrow> Inl m | Inr _ \<Rightarrow> Inr ())"

definition new_campaign :: "ApiConfig \<Rightarrow> Shop \<Rightarrow> CampaignCreateInput \<Rightarrow> ident \<Rightarrow> string \<Rightarrow> Campaign" where
  "new_campaign cfg shop input i name =
    (let target = \<lfloor>ci_targetCount input\<rfloor> in
     \<lparr>ca_id = i, ca_shopId = sh_id shop, ca_name = name, ca_productName = trimmed (ci_productName input), ca_targetCount = target,
      ca_candidateLimit = min 10000 (case ci_candidateLimit input of Some l \<Rightarrow> \<lfloor>l\<rfloor> | None \<Rightarrow> max (target * 2) (target + 500)),
      ca_cooldownDays = \<lfloor>ci_cooldownDays input\<rfloor>, ca_messageTemplate = chosen_template cfg input,
      ca_filters = server_filters (ac_appMode cfg) input,
      ca_rankingMetric = (case parse_metric (ci_rankingMetric input) of Some m \<Rightarrow> m | None \<Rightarrow> GMV),
      ca_rankingDirection = (if ci_rankingDirection input = Some ''ASC'' then ASC else DESC), ca_state = DRAFT, ca_version = 1,
      ca_summary = JObj [], ca_frozenAt = None, ca_freezeExpiresAt = None, ca_frozenFilters = None, ca_frozenTemplate = None,
      ca_frozenContext = None, ca_dispatchCount = 0, ca_safetyPauseReason = None\<rparr>)"

definition create_tx :: "ApiConfig \<Rightarrow> Shop \<Rightarrow> CampaignCreateInput \<Rightarrow> ident \<Rightarrow> millis \<Rightarrow> Campaign tx" where
  "create_tx cfg shop input i now =
    tx_bind (allocateCampaignName now) (\<lambda>name.
    tx_bind (tx_read (find_campaign i)) (\<lambda>clash.
    tx_bind (tx_guard (clash = None) (DbError UniqueViolation)) (\<lambda>_.
    tx_bind (tx_modify (\<lambda>db. db\<lparr>tb_campaigns := tb_campaigns db @ [new_campaign cfg shop input i name]\<rparr>)) (\<lambda>_.
    tx_return (new_campaign cfg shop input i name)))))"

definition from_sum :: "Err + 'a \<Rightarrow> 'a prog" where
  "from_sum r = (case r of Inl e \<Rightarrow> Throw e | Inr a \<Rightarrow> Return a)"

definition create :: "ApiConfig \<Rightarrow> CampaignCreateInput \<Rightarrow> Campaign prog" where
  "create cfg input =
    p_bind (p_bind (transact (\<lambda>env. tx_read (ac_activeShop cfg))) from_sum) (\<lambda>shop.
    p_bind (from_sum (bad_request (validate_create cfg shop input))) (\<lambda>_.
    transact (\<lambda>env. create_tx cfg shop input (e_fresh env 0) (e_now env))))"

definition validateCloneInput :: "string option \<Rightarrow> string \<Rightarrow> real \<Rightarrow> Shop \<Rightarrow> string + unit" where
  "validateCloneInput productName messageTemplate targetCount shop =
    (case assertCampaignWithinLimit targetCount (of_int (sh_maxRecipientsPerCampaign shop)) of
       Inl m \<Rightarrow> Inl m
     | Inr _ \<Rightarrow>
         if js_trim messageTemplate = [] then Inl ''Message template is required''
         else if length messageTemplate > 2000 then Inl ''Message template exceeds the provider limit of 2,000 characters''
         else case renderMessage messageTemplate (sample_values (trimmed productName)) of Inl m \<Rightarrow> Inl m | Inr _ \<Rightarrow> Inr ())"

section \<open>Shared steps\<close>

definition requiredCampaign :: "ident \<Rightarrow> Campaign prog" where
  "requiredCampaign i = p_bind (transact (\<lambda>env. tx_read (find_campaign i))) (\<lambda>c.
     case c of None \<Rightarrow> Throw (HttpError NotFound ''Campaign not found'') | Some x \<Rightarrow> Return x)"

definition requireOutboundAvailable :: "ApiConfig \<Rightarrow> unit prog" where
  "requireOutboundAvailable cfg = p_bind (transact (\<lambda>env. tx_read (ac_outboundReason cfg (e_now env)))) (\<lambda>reason.
     case reason of None \<Rightarrow> Return ()
     | Some m \<Rightarrow> Throw (HttpError ServiceUnavailable (''OUTBOUND_UNAVAILABLE: '' @ m)))"

definition sweep_and_require :: "ident \<Rightarrow> Campaign prog" where
  "sweep_and_require i = p_bind expireFrozenCampaigns (\<lambda>_. requiredCampaign i)"

section \<open>freeze\<close>

definition display_name :: "Creator \<Rightarrow> string" where
  "display_name c = (case cr_nickname c of Some n \<Rightarrow> n
     | None \<Rightarrow> (case cr_username c of Some u \<Rightarrow> u | None \<Rightarrow> ''there''))"

text \<open>The last check of a selected recipient: the reason and the detail to leave it out.\<close>

definition freeze_exclusion :: "millis \<Rightarrow> Contact option \<Rightarrow> bool \<Rightarrow> (string \<times> string option) option" where
  "freeze_exclusion cutoff contact reserved =
    (if (case contact of None \<Rightarrow> False | Some c \<Rightarrow> ct_doNotContact c) then Some (''DO_NOT_CONTACT'', None)
     else if (case contact of None \<Rightarrow> False | Some c \<Rightarrow> ct_unresolvedDelivery c) then Some (''DELIVERY_UNKNOWN'', None)
     else case Option.bind contact ct_lastContactedAt of
       Some t \<Rightarrow>
         if t > cutoff
         then Some (if Option.bind contact ct_lastCampaignId = None then ''COOLDOWN'' else ''CONTACTED_BY_APP_WITHIN_COOLDOWN'',
                Some (''Contact appeared after preview at '' @ to_iso_string t))
         else if reserved then Some (''ACTIVE_RESERVATION'', None) else None
     | None \<Rightarrow> if reserved then Some (''ACTIVE_RESERVATION'', None) else None)"

definition recipient_snapshot :: "ApiConfig \<Rightarrow> Recipient \<Rightarrow> Creator \<Rightarrow> ident \<Rightarrow> Json" where
  "recipient_snapshot cfg r c openId = JObj [(''creatorId'', JStr (rc_creatorId r)), (''creatorOpenId'', JStr openId),
     (''displayName'', JStr (display_name c)), (''username'', (case cr_username c of None \<Rightarrow> JNull | Some u \<Rightarrow> JStr u)),
     (''rankingValue'', JStr (ac_showDecimal cfg (rc_rankingValue r))),
     (''discoveryOrdinal'', JNum (of_int (rc_discoveryOrdinal r)))]"

definition freeze_exclude :: "Recipient \<Rightarrow> string \<Rightarrow> string option \<Rightarrow> unit tx" where
  "freeze_exclude r reason detail = update_recipient (rc_id r) (\<lambda>x. x\<lparr>rc_selected := False, rc_eligibility := EXCLUDED,
     rc_skipReason := Some reason, rc_skipDetail := keep detail (rc_skipDetail x), rc_state := DISCOVERED,
     rc_frozenMessage := None, rc_contentHash := None\<rparr>)"

definition freeze_include :: "ApiConfig \<Rightarrow> Campaign \<Rightarrow> millis \<Rightarrow> nat \<Rightarrow> Recipient \<Rightarrow> Creator \<Rightarrow> unit tx" where
  "freeze_include cfg campaign expiresAt index r c =
    (case renderMessage (ca_messageTemplate campaign) \<lparr>mv_creatorDisplayName = display_name c,
          mv_productName = ca_productName campaign, mv_campaignName = ca_name campaign\<rparr> of
       Inl m \<Rightarrow> tx_throw (PlainError m)
     | Inr message \<Rightarrow>
         (case cr_creatorOpenId c of
            None \<Rightarrow> tx_throw (HttpError BadRequest ''Every frozen recipient requires an exact TikTok Creator Open ID'')
          | Some openId \<Rightarrow>
              if openId = [] then tx_throw (HttpError BadRequest ''Every frozen recipient requires an exact TikTok Creator Open ID'')
              else
                tx_bind (tx_read (\<lambda>db. list_ex (\<lambda>v. rv_shopId v = ca_shopId campaign \<and> rv_creatorId v = rc_creatorId r
                    \<or> rv_campaignRecipientId v = rc_id r) (tb_reservations db))) (\<lambda>clash.
                tx_seq
                  [tx_guard (\<not> clash) (DbError UniqueViolation),
                   tx_modify (\<lambda>db. db\<lparr>tb_reservations := tb_reservations db @ [\<lparr>rv_shopId = ca_shopId campaign,
                     rv_creatorId = rc_creatorId r, rv_campaignRecipientId = rc_id r, rv_expiresAt = expiresAt\<rparr>]\<rparr>),
                   update_recipient (rc_id r) (\<lambda>x. x\<lparr>rc_frozenMessage := Some message, rc_contentHash := Some (ac_sha256 cfg message),
                     rc_state := RESERVED, rc_creatorOpenIdSnapshot := Some openId, rc_frozenRank := Some (int index + 1),
                     rc_recipientSnapshot := Some (recipient_snapshot cfg r c openId)\<rparr>)])))"

record Freezing =
  fz_campaign :: Campaign
  fz_shopId :: ident
  fz_cutoff :: millis
  fz_reserved :: "ident set"
  fz_expiresAt :: millis

text \<open>The loop over the selected recipients: the reasons of those left out, in order, and how many stay.\<close>

fun freeze_each :: "ApiConfig \<Rightarrow> Freezing \<Rightarrow> nat \<Rightarrow> Recipient list \<Rightarrow> (string list \<times> int) tx" where
  "freeze_each cfg z index [] = tx_return ([], 0)"
| "freeze_each cfg z index (r # rs) =
    tx_bind (tx_bind (tx_read (find_creator (rc_creatorId r))) tx_found) (\<lambda>c.
    tx_bind (tx_read (find_contact (fz_shopId z) (rc_creatorId r))) (\<lambda>contact.
      case freeze_exclusion (fz_cutoff z) contact (rc_creatorId r \<in> fz_reserved z) of
        Some (reason, detail) \<Rightarrow>
          tx_bind (freeze_exclude r reason detail) (\<lambda>_.
          tx_bind (freeze_each cfg z (index + 1) rs) (\<lambda>(reasons, n). tx_return (reason # reasons, n)))
      | None \<Rightarrow>
          tx_bind (freeze_include cfg (fz_campaign z) (fz_expiresAt z) index r c) (\<lambda>_.
          tx_bind (freeze_each cfg z (index + 1) rs) (\<lambda>(reasons, n). tx_return (reasons, n + 1)))))"

definition reason_count :: "string \<Rightarrow> string list \<Rightarrow> int" where
  "reason_count reason reasons = count_where (\<lambda>x. x = reason) reasons"

definition exclusions_json :: "string list \<Rightarrow> Json" where
  "exclusions_json reasons = JObj (map (\<lambda>k. (k, JNum (of_int (reason_count k reasons)))) (rev (remdups (rev reasons))))"

definition obj_number :: "string \<Rightarrow> (string \<times> Json) list \<Rightarrow> jsnum" where
  "obj_number k fs = (case map_of fs k of None \<Rightarrow> Fin 0 | Some JNull \<Rightarrow> Fin 0
     | Some (JNum x) \<Rightarrow> Fin x | Some (JBool b) \<Rightarrow> Fin (if b then 1 else 0) | Some (JStr s) \<Rightarrow> js_number s | Some _ \<Rightarrow> NaN)"

text \<open>A sum with a whole number and its JSON; a value that is no finite number is written as \<open>null\<close>.\<close>

definition plus_int :: "jsnum \<Rightarrow> int \<Rightarrow> jsnum" where
  "plus_int x n = (case x of Fin a \<Rightarrow> Fin (a + of_int n) | y \<Rightarrow> y)"

definition at_least_zero :: "jsnum \<Rightarrow> jsnum" where
  "at_least_zero x = (case x of Fin a \<Rightarrow> Fin (max 0 a) | NegInf \<Rightarrow> Fin 0 | y \<Rightarrow> y)"

definition number_json :: "jsnum \<Rightarrow> Json" where
  "number_json x = (case x of Fin a \<Rightarrow> JNum a | _ \<Rightarrow> JNull)"

definition freeze_summary :: "Campaign \<Rightarrow> string list \<Rightarrow> int \<Rightarrow> int \<Rightarrow> Json" where
  "freeze_summary current reasons previewSelected finalSelected =
    (let fs = object_fields (ca_summary current);
         add = (\<lambda>k reason. (k, number_json (plus_int (obj_number k fs) (reason_count reason reasons))))
     in JObj (fold (\<lambda>(k, v). obj_put k v)
       [(''selected'', JNum (of_int finalSelected)),
        (''eligible'', number_json (at_least_zero (plus_int (obj_number ''eligible'' fs) (- int (length reasons))))),
        (''shortfall'', JNum (of_int (max 0 (ca_targetCount current - finalSelected)))),
        add ''skippedDoNotContact'' ''DO_NOT_CONTACT'', add ''skippedUnknownDelivery'' ''DELIVERY_UNKNOWN'',
        add ''skippedCooldown'' ''COOLDOWN'', add ''skippedActiveReservation'' ''ACTIVE_RESERVATION'',
        (''freezeAdjustment'', JNum (of_int (previewSelected - finalSelected)))] fs))"

fun metric_name :: "RankingMetric \<Rightarrow> string" where
  "metric_name GMV = ''GMV''" | "metric_name UNITS_SOLD = ''UNITS_SOLD''" | "metric_name FOLLOWERS = ''FOLLOWERS''"
| "metric_name AVG_VIDEO_VIEWS = ''AVG_VIDEO_VIEWS''" | "metric_name AVG_LIVE_VIEWERS = ''AVG_LIVE_VIEWERS''"
| "metric_name ENGAGEMENT_RATE = ''ENGAGEMENT_RATE''" | "metric_name TIKTOK_RELEVANCE = ''TIKTOK_RELEVANCE''"

definition freeze_empty :: "Campaign \<Rightarrow> string list \<Rightarrow> int \<Rightarrow> Json \<Rightarrow> unit tx" where
  "freeze_empty campaign reasons previewSelected summary = tx_seq
    [release_reservations (ca_id campaign),
     update_campaign (ca_id campaign) (\<lambda>c. c\<lparr>ca_state := PREVIEW_EXPIRED, ca_frozenAt := None, ca_freezeExpiresAt := None,
       ca_summary := summary, ca_version := ca_version c + 1\<rparr>),
     audit (ca_shopId campaign) (ca_id campaign) ''CAMPAIGN_FREEZE_EMPTY''
       (JObj [(''previewSelected'', JNum (of_int previewSelected)), (''finalSelected'', JNum 0),
         (''exclusions'', exclusions_json reasons), (''reservationsReleased'', JBool True)])]"

definition freeze_done :: "Campaign \<Rightarrow> Campaign \<Rightarrow> string list \<Rightarrow> int \<Rightarrow> int \<Rightarrow> Json \<Rightarrow> millis \<Rightarrow> millis \<Rightarrow> unit tx" where
  "freeze_done campaign current reasons previewSelected finalSelected summary now expiresAt = tx_seq
    [update_campaign (ca_id campaign) (\<lambda>c. c\<lparr>ca_state := FROZEN, ca_frozenAt := Some now, ca_freezeExpiresAt := Some expiresAt,
       ca_frozenFilters := Some (ca_filters current, ca_cooldownDays current), ca_frozenTemplate := Some (ca_messageTemplate current),
       ca_frozenContext := Some (JObj [(''campaignName'', JStr (ca_name current)), (''productName'', JStr (ca_productName current)),
         (''cooldownDays'', JNum (of_int (ca_cooldownDays current))), (''rankingMetric'', JStr (metric_name (ca_rankingMetric current))),
         (''rankingDirection'', JStr (case ca_rankingDirection current of ASC \<Rightarrow> ''ASC'' | DESC \<Rightarrow> ''DESC''))]),
       ca_summary := summary, ca_version := ca_version c + 1\<rparr>),
     audit (ca_shopId campaign) (ca_id campaign) ''CAMPAIGN_FROZEN''
       (JObj [(''previewSelected'', JNum (of_int previewSelected)), (''finalSelected'', JNum (of_int finalSelected)),
         (''exclusions'', exclusions_json reasons), (''expiresAt'', JStr (to_iso_string expiresAt))])]"

definition selected_recipients :: "ident \<Rightarrow> Tables \<Rightarrow> Recipient list" where
  "selected_recipients campaignId db = filter (\<lambda>r. rc_campaignId r = campaignId \<and> rc_selected r) (tb_recipients db)"

definition by_ranking :: "RankingDirection \<Rightarrow> Recipient \<Rightarrow> Recipient \<Rightarrow> int" where
  "by_ranking dir a b = (case dir of ASC \<Rightarrow> cmp_by rc_rankingValue a b | DESC \<Rightarrow> cmp_by rc_rankingValue b a)"

definition reserved_creators :: "ident \<Rightarrow> millis \<Rightarrow> Recipient list \<Rightarrow> Tables \<Rightarrow> ident set" where
  "reserved_creators shopId now selected db = set (map rv_creatorId (filter
     (\<lambda>v. rv_shopId v = shopId \<and> rv_creatorId v \<in> set (map rc_creatorId selected) \<and> rv_expiresAt v > now) (tb_reservations db)))"

text \<open>The transaction of \<open>freeze\<close> (lines 430 to 534); it reads one clock.\<close>

definition freeze_tx :: "ApiConfig \<Rightarrow> Campaign \<Rightarrow> int \<Rightarrow> millis \<Rightarrow> millis \<Rightarrow> unit tx" where
  "freeze_tx cfg campaign version expiresAt now =
    tx_bind (tx_read (selected_recipients (ca_id campaign))) (\<lambda>before.
    tx_bind (tx_guard (before \<noteq> []) (HttpError BadRequest ''No eligible recipients to freeze'')) (\<lambda>_.
    tx_bind (tx_bind (tx_read (find_campaign (ca_id campaign))) tx_found) (\<lambda>current.
    tx_bind (tx_guard (ca_state current = PREVIEW_READY \<and> ca_version current = version)
      (HttpError BadRequest ''Preview is stale; refresh it before freezing'')) (\<lambda>_.
    tx_bind (delete_reservations (\<lambda>v. rv_shopId v = ca_shopId current \<and> rv_expiresAt v \<le> now)) (\<lambda>_.
    tx_bind (tx_read (\<lambda>db. js_sort (by_ranking (ca_rankingDirection current)) (selected_recipients (ca_id campaign) db))) (\<lambda>selected.
    tx_bind (tx_guard (selected \<noteq> []) (HttpError BadRequest ''No eligible recipients to freeze'')) (\<lambda>_.
    tx_bind (tx_read (reserved_creators (ca_shopId current) now selected)) (\<lambda>reserved.
    tx_bind (freeze_each cfg \<lparr>fz_campaign = campaign, fz_shopId = ca_shopId current, fz_cutoff = now - ca_cooldownDays current * 86400000,
        fz_reserved = reserved, fz_expiresAt = expiresAt\<rparr> 0 selected) (\<lambda>(reasons, finalSelected).
      let summary = freeze_summary current reasons (int (length selected)) finalSelected in
      if finalSelected = 0 then freeze_empty campaign reasons (int (length selected)) summary
      else freeze_done campaign current reasons (int (length selected)) finalSelected summary now expiresAt)))))))))"

definition freeze :: "ApiConfig \<Rightarrow> ident \<Rightarrow> int \<Rightarrow> unit prog" where
  "freeze cfg i version =
    p_then (requireOutboundAvailable cfg)
    (p_bind (sweep_and_require i) (\<lambda>campaign.
     if ca_state campaign \<noteq> PREVIEW_READY \<or> ca_version campaign \<noteq> version
     then Throw (HttpError BadRequest ''Preview is stale; refresh it before freezing'')
     else p_bind clock (\<lambda>now. transact (\<lambda>env. freeze_tx cfg campaign version (now + 30 * 60000) (e_now env)))))"

section \<open>queueFrozen and send\<close>

definition FAR_FUTURE :: millis where "FAR_FUTURE = 253402300799999"

text \<open>One recipient is queued: its delivery, its outbox entry and its state.\<close>

definition new_delivery :: "ident \<Rightarrow> Campaign \<Rightarrow> Recipient \<Rightarrow> Delivery" where
  "new_delivery i campaign r = \<lparr>dl_id = i, dl_campaignId = ca_id campaign, dl_campaignRecipientId = rc_id r, dl_conversationId = None,
     dl_deterministicKey = ca_id campaign @ '':'' @ rc_creatorId r, dl_contentHash = (case rc_contentHash r of None \<Rightarrow> [] | Some h \<Rightarrow> h),
     dl_state = DeliveryState.PENDING, dl_externalMessageId = None, dl_providerRequestId = None, dl_attemptCount = 0,
     dl_lastAttemptedAt = None, dl_firstDispatchedAt = None, dl_sentAt = None, dl_lastErrorCode = None, dl_lastErrorDetail = None\<rparr>"

definition upsert_delivery :: "Campaign \<Rightarrow> Recipient \<Rightarrow> ident \<Rightarrow> Delivery tx" where
  "upsert_delivery campaign r i =
    tx_bind (tx_read (delivery_of (rc_id r))) (\<lambda>found.
      case found of Some d \<Rightarrow> tx_return d
      | None \<Rightarrow>
          tx_bind (tx_read (\<lambda>db. list_ex (\<lambda>d. dl_id d = i \<or> dl_deterministicKey d = ca_id campaign @ '':'' @ rc_creatorId r)
            (tb_deliveries db))) (\<lambda>clash.
          tx_bind (tx_guard (\<not> clash) (DbError UniqueViolation)) (\<lambda>_.
          tx_bind (tx_modify (\<lambda>db. db\<lparr>tb_deliveries := tb_deliveries db @ [new_delivery i campaign r]\<rparr>)) (\<lambda>_.
          tx_return (new_delivery i campaign r)))))"

definition queue_recipient :: "Campaign \<Rightarrow> (nat \<Rightarrow> ident) \<Rightarrow> millis \<Rightarrow> nat \<times> Recipient \<Rightarrow> unit tx" where
  "queue_recipient campaign fresh now = (\<lambda>(k, r).
    tx_bind (upsert_delivery campaign r (fresh (2 * k))) (\<lambda>delivery.
    tx_bind (upsert_entry (\<lambda>e. e\<lparr>ob_state := OutboxState.PENDING, ob_availableAt := now, ob_lastError := None\<rparr>)
      r delivery (fresh (2 * k + 1)) now) (\<lambda>_.
    update_recipient (rc_id r) (\<lambda>x. x\<lparr>rc_state := RecipientState.QUEUED\<rparr>))))"

definition keep_reservations :: "ident \<Rightarrow> unit tx" where
  "keep_reservations campaignId = tx_modify (\<lambda>db. db\<lparr>tb_reservations := upd_where
     (\<lambda>v. case find_recipient (rv_campaignRecipientId v) db of None \<Rightarrow> False
        | Some r \<Rightarrow> rc_campaignId r = campaignId \<and> rc_selected r)
     (\<lambda>v. v\<lparr>rv_expiresAt := FAR_FUTURE\<rparr>) (tb_reservations db)\<rparr>)"

definition queue_tx :: "Campaign \<Rightarrow> int \<Rightarrow> (nat \<Rightarrow> ident) \<Rightarrow> millis \<Rightarrow> unit tx" where
  "queue_tx campaign version fresh now =
    tx_bind (tx_read (\<lambda>db. list_ex (\<lambda>c. ca_id c = ca_id campaign \<and> ca_state c = FROZEN \<and> ca_version c = version) (tb_campaigns db)))
      (\<lambda>changed.
    tx_bind (tx_guard changed (HttpError BadRequest ''Campaign was already queued; refresh the campaign'')) (\<lambda>_.
    tx_bind (update_campaigns (\<lambda>c. ca_id c = ca_id campaign \<and> ca_state c = FROZEN \<and> ca_version c = version)
      (\<lambda>c. c\<lparr>ca_state := CampaignState.QUEUED, ca_version := ca_version c + 1\<rparr>)) (\<lambda>_.
    tx_bind (tx_read (\<lambda>db. filter (\<lambda>r. rc_state r = RESERVED) (selected_recipients (ca_id campaign) db))) (\<lambda>recipients.
    tx_bind (tx_guard (recipients \<noteq> []) (HttpError BadRequest ''No frozen recipients remain; rediscover and freeze again'')) (\<lambda>_.
    tx_bind (keep_reservations (ca_id campaign)) (\<lambda>_.
    tx_bind (tx_each (queue_recipient campaign fresh now) (List.enumerate 0 recipients)) (\<lambda>_.
    audit (ca_shopId campaign) (ca_id campaign) ''CAMPAIGN_QUEUED''
      (JObj [(''selectedCount'', JNum (of_int (int (length recipients))))]))))))))"

definition reconcile_queue :: "ApiConfig \<Rightarrow> unit prog" where
  "reconcile_queue cfg = p_bind (reconcileOutbox (ac_outboundMode cfg) (ac_reconcileBatchSize cfg) (ac_libraryMessage cfg)) (\<lambda>_. Return ())"

definition freeze_open :: "Campaign \<Rightarrow> millis \<Rightarrow> bool" where
  "freeze_open c now \<longleftrightarrow> (case ca_freezeExpiresAt c of None \<Rightarrow> False | Some t \<Rightarrow> t > now)"

definition queueFrozen :: "ApiConfig \<Rightarrow> ident \<Rightarrow> int \<Rightarrow> unit prog" where
  "queueFrozen cfg i version =
    p_bind (sweep_and_require i) (\<lambda>campaign. p_bind clock (\<lambda>now.
      if ca_state campaign \<noteq> FROZEN \<or> ca_version campaign \<noteq> version \<or> \<not> freeze_open campaign now
      then Throw (HttpError BadRequest ''Frozen preview is stale or expired'')
      else p_then (transact (\<lambda>env. queue_tx campaign version (e_fresh env) (e_now env))) (reconcile_queue cfg)))"

definition safeSendFailure :: "Err \<Rightarrow> CampaignState \<Rightarrow> Err" where
  "safeSendFailure e state =
    (case e of
       HttpError kind message \<Rightarrow>
         if js_includes ''stale'' message \<or> js_includes ''already queued'' message
         then HttpError Conflict ''Campaign is no longer in the expected preview state. Refresh the campaign before retrying.''
         else if js_includes ''No eligible recipients'' message \<or> js_includes ''No frozen recipients'' message
         then HttpError Unprocessable ''No eligible recipients could be frozen.''
         else e
     | _ \<Rightarrow>
         if state = FROZEN
         then HttpError ServiceUnavailable ''Unable to start campaign. Recipients and messages are safely frozen, but deliveries were not queued. Retrying Send is safe.''
         else HttpError ServiceUnavailable ''Unable to start campaign. No deliveries were queued or sent. Retrying Send is safe.'')"

definition started_states :: "CampaignState set" where
  "started_states = {CampaignState.QUEUED, RUNNING, PAUSE_REQUESTED, PAUSED, CampaignState.SAFETY_PAUSED, CampaignState.COMPLETED,
     COMPLETED_WITH_ERRORS, CampaignState.CANCELLED}"

definition queue_or_explain :: "ApiConfig \<Rightarrow> ident \<Rightarrow> int \<Rightarrow> unit prog" where
  "queue_or_explain cfg i version = p_catch (queueFrozen cfg i version) (\<lambda>e.
     p_bind (requiredCampaign i) (\<lambda>current.
       if ca_state current \<in> started_states then Return () else Throw (safeSendFailure e (ca_state current))))"

definition freeze_or_explain :: "ApiConfig \<Rightarrow> ident \<Rightarrow> int \<Rightarrow> unit prog" where
  "freeze_or_explain cfg i version = p_catch (freeze cfg i version) (\<lambda>e.
     p_bind (requiredCampaign i) (\<lambda>campaign.
       if ca_state campaign \<noteq> FROZEN then Throw (safeSendFailure e (ca_state campaign)) else Return ()))"

definition send :: "ApiConfig \<Rightarrow> ident \<Rightarrow> int \<Rightarrow> unit prog" where
  "send cfg i version =
    p_bind (sweep_and_require i) (\<lambda>campaign.
      if ca_state campaign \<in> started_states then Return ()
      else p_then (requireOutboundAvailable cfg)
        (if ca_state campaign = PREVIEW_READY
         then p_then (freeze_or_explain cfg i version) (p_bind (requiredCampaign i) (\<lambda>frozen.
           if ca_state frozen \<noteq> FROZEN then Return () else queue_or_explain cfg i (ca_version frozen)))
         else if ca_state campaign = FROZEN then queue_or_explain cfg i version
         else Throw (HttpError BadRequest ''Campaign preview is not ready to send'')))"

section \<open>pause, resume and cancel\<close>

definition pause :: "ident \<Rightarrow> unit prog" where
  "pause i = p_bind (requiredCampaign i) (\<lambda>campaign.
     if ca_state campaign \<notin> {CampaignState.QUEUED, RUNNING} then Throw (HttpError BadRequest ''Campaign is not running'')
     else transact (\<lambda>env. update_campaign i (\<lambda>c. c\<lparr>ca_state := PAUSE_REQUESTED, ca_version := ca_version c + 1\<rparr>)))"

definition quota_recovery :: "Campaign \<Rightarrow> bool" where
  "quota_recovery c \<longleftrightarrow> ca_state c = CampaignState.SAFETY_PAUSED \<and>
     (case ca_safetyPauseReason c of None \<Rightarrow> False | Some m \<Rightarrow> js_includes ''IM quota'' m)"

definition resume_tx :: "Campaign \<Rightarrow> millis \<Rightarrow> unit tx" where
  "resume_tx campaign now =
    tx_bind (if quota_recovery campaign
      then tx_seq
        [tx_modify (\<lambda>db. db\<lparr>tb_governed := operator_retry (ca_shopId campaign) (tb_governed db)\<rparr>),
         update_outbox (\<lambda>e. ob_campaignId e = ca_id campaign \<and> ob_state e = OutboxState.SAFETY_PAUSED)
           (\<lambda>e. e\<lparr>ob_state := OutboxState.PENDING, ob_availableAt := now, ob_lastError := None\<rparr>),
         audit (ca_shopId campaign) (ca_id campaign) ''OUTBOUND_PROVIDER_IM_QUOTA_OPERATOR_RETRY''
           (JObj [(''recoveryConcurrency'', JNum 1)])]
      else tx_return ()) (\<lambda>_.
    update_campaign (ca_id campaign) (\<lambda>c. c\<lparr>ca_state := CampaignState.QUEUED, ca_safetyPauseReason := None,
      ca_version := ca_version c + 1\<rparr>))"

definition resume :: "ApiConfig \<Rightarrow> ident \<Rightarrow> unit prog" where
  "resume cfg i = p_bind (requiredCampaign i) (\<lambda>campaign.
     if ca_state campaign \<notin> {PAUSED, PAUSE_REQUESTED, CampaignState.SAFETY_PAUSED}
     then Throw (HttpError BadRequest ''Campaign is not paused'')
     else if ca_state campaign = CampaignState.SAFETY_PAUSED \<and> \<not> quota_recovery campaign
     then Throw (HttpError BadRequest ''This provider safety pause requires its authorization or permission issue to be resolved first'')
     else p_then (transact (\<lambda>env. resume_tx campaign (e_now env))) (reconcile_queue cfg))"

definition unsent_ids :: "ident \<Rightarrow> Tables \<Rightarrow> ident list" where
  "unsent_ids campaignId db = map rc_id
     (filter (\<lambda>r. rc_campaignId r = campaignId \<and> (rc_state r = RESERVED \<or> rc_state r = RecipientState.QUEUED)) (tb_recipients db))"

definition cancel_tx :: "Campaign \<Rightarrow> unit tx" where
  "cancel_tx campaign =
    tx_bind (tx_read (unsent_ids (ca_id campaign))) (\<lambda>ids.
    tx_bind (if ids = [] then tx_return () else tx_seq
      [tx_modify (\<lambda>db. db\<lparr>tb_deliveries := upd_where
         (\<lambda>d. dl_campaignRecipientId d \<in> set ids \<and> claimable_state (dl_state d))
         (\<lambda>d. d\<lparr>dl_state := DeliveryState.CANCELLED, dl_lastErrorCode := Some ''CAMPAIGN_CANCELLED'',
                dl_lastErrorDetail := Some ''Cancelled before provider dispatch started''\<rparr>) (tb_deliveries db)\<rparr>),
       update_recipients (\<lambda>r. rc_id r \<in> set ids) (\<lambda>r. r\<lparr>rc_state := RecipientState.CANCELLED\<rparr>),
       update_outbox (\<lambda>e. ob_recipientId e \<in> set ids)
         (\<lambda>e. e\<lparr>ob_state := OutboxState.COMPLETED, ob_lastError := Some ''Campaign cancelled before dispatch''\<rparr>),
       delete_reservations (\<lambda>v. rv_campaignRecipientId v \<in> set ids)]) (\<lambda>_.
    tx_seq
      [update_campaign (ca_id campaign) (\<lambda>c. c\<lparr>ca_state := CampaignState.CANCELLED, ca_version := ca_version c + 1\<rparr>),
       audit (ca_shopId campaign) (ca_id campaign) ''CAMPAIGN_CANCELLED''
         (JObj [(''unsentRecipientsCancelled'', JNum (of_int (int (length ids))))])]))"

definition cancel :: "ident \<Rightarrow> unit prog" where
  "cancel i = p_bind (requiredCampaign i) (\<lambda>campaign.
     if ca_state campaign \<notin> {FROZEN, CampaignState.QUEUED, RUNNING, PAUSE_REQUESTED, PAUSED, CampaignState.SAFETY_PAUSED}
     then (if ca_state campaign = CampaignState.CANCELLED then Return ()
           else Throw (HttpError BadRequest ''Campaign cannot be cancelled in its current state''))
     else transact (\<lambda>env. cancel_tx campaign))"

inductive api_program :: "ApiConfig \<Rightarrow> unit prog \<Rightarrow> bool" for cfg :: ApiConfig where
  api_program_create: "api_program cfg (p_bind (create cfg input) (\<lambda>_. Return ()))"
| api_program_freeze: "api_program cfg (freeze cfg i version)"
| api_program_send: "api_program cfg (send cfg i version)"
| api_program_pause: "api_program cfg (pause i)"
| api_program_resume: "api_program cfg (resume cfg i)"
| api_program_cancel: "api_program cfg (cancel i)"
| api_program_expiry: "api_program cfg (p_bind expireFrozenCampaigns (\<lambda>_. Return ()))"
| api_program_reconcile: "api_program cfg (reconcile_queue cfg)"

section \<open>Lemmas: the operations of the API claim nothing\<close>

lemma claimless_upsert_delivery [simp]: "claimless (upsert_delivery campaign r i)"
proof
  fix db d db' assume t: "upsert_delivery campaign r i db = Inr (d, db')"
  show "no_new_claims db db'"
  proof (cases "delivery_of (rc_id r) db")
    case (Some x)
    then show ?thesis using t by (simp add: upsert_delivery_def)
  next
    case None
    then have new: "db' = db\<lparr>tb_deliveries := tb_deliveries db @ [new_delivery i campaign r]\<rparr>"
      and "\<not> list_ex (\<lambda>d. dl_id d = i) (tb_deliveries db)"
      using t by (auto simp: upsert_delivery_def tx_guard_def list_ex_iff elim!: tx_bind_InrE split: if_splits)
    then show ?thesis
      by (auto simp: no_new_claims_def delivery_ids_def claimable_def new_delivery_def list_ex_iff)
  qed
qed

lemma claimless_queue_recipient [simp]: "claimless (queue_recipient campaign fresh now x)"
  unfolding queue_recipient_def by (auto intro!: claimless_intros split: prod.split)

interpretation queueing: claimless "queue_tx campaign version fresh now" for campaign version fresh now
  unfolding queue_tx_def keep_reservations_def by (auto intro!: claimless_intros)

lemma claimless_freeze_each [simp]: "claimless (freeze_each cfg z index rs)"
proof (induction rs arbitrary: index)
  case (Cons r rs)
  have "claimless (freeze_exclude r reason detail)" for reason detail by (simp add: freeze_exclude_def)
  moreover have "claimless (freeze_include cfg campaign expiresAt index r c)" for campaign expiresAt c
    unfolding freeze_include_def by (auto intro!: claimless_intros split: sum.split)
  ultimately show ?case unfolding freeze_each.simps
    by (intro claimless_intros claimless_basic) (auto intro!: claimless_intros Cons split: prod.split option.split)
qed simp

interpretation freezing: claimless "freeze_tx cfg campaign version expiresAt now" for cfg campaign version expiresAt now
proof -
  have "claimless (delete_reservations P)" for P by simp
  moreover have "claimless (freeze_empty campaign reasons n summary)" for reasons n summary
    unfolding freeze_empty_def release_reservations_def by (auto intro!: claimless_intros)
  moreover have "claimless (freeze_done campaign current reasons n m summary now expiresAt)" for current reasons n m summary
    unfolding freeze_done_def by (auto intro!: claimless_intros)
  ultimately show "claimless (freeze_tx cfg campaign version expiresAt now)"
    unfolding freeze_tx_def Let_def by (auto intro!: claimless_intros split: prod.split)
qed

interpretation resuming: claimless "resume_tx campaign now" for campaign now
  unfolding resume_tx_def by (auto intro!: claimless_intros)

interpretation cancelling: claimless "cancel_tx campaign" for campaign
proof -
  have "claimless (tx_modify (\<lambda>db. db\<lparr>tb_deliveries := upd_where
         (\<lambda>d. dl_campaignRecipientId d \<in> set ids \<and> claimable_state (dl_state d))
         (\<lambda>d. d\<lparr>dl_state := DeliveryState.CANCELLED, dl_lastErrorCode := Some ''CAMPAIGN_CANCELLED'',
                dl_lastErrorDetail := Some ''Cancelled before provider dispatch started''\<rparr>) (tb_deliveries db)\<rparr>))" for ids
    by (auto simp: claimless_def intro!: no_new_claims_upd)
  then show "claimless (cancel_tx campaign)"
    unfolding cancel_tx_def tx_seq.simps
    by (intro claimless_bind claimless_if claimless_basic claimless_tables)
qed

interpretation creation: claimless "create_tx cfg shop input i now" for cfg shop input i now
  unfolding create_tx_def allocateCampaignName_def by (auto intro!: claimless_intros)

lemmas api_transactions = queueing.claimless_axioms freezing.claimless_axioms resuming.claimless_axioms
  cancelling.claimless_axioms creation.claimless_axioms

lemma keeps_api_steps [keeps_rules]:
  "keeps (requiredCampaign i)" "keeps (requireOutboundAvailable cfg)" "keeps (sweep_and_require i)"
  "keeps (reconcile_queue cfg)" "keeps (from_sum r)"
  unfolding requiredCampaign_def requireOutboundAvailable_def sweep_and_require_def reconcile_queue_def from_sum_def
  by (auto intro!: keeps_rules split: option.split sum.split)

lemma keeps_freeze [keeps_rules]: "keeps (freeze cfg i version)"
  unfolding freeze_def by (intro keeps_rules api_transactions)

lemma keeps_queueFrozen [keeps_rules]: "keeps (queueFrozen cfg i version)"
  unfolding queueFrozen_def by (intro keeps_rules api_transactions)

lemma keeps_send [keeps_rules]: "keeps (send cfg i version)"
  unfolding send_def queue_or_explain_def freeze_or_explain_def by (intro keeps_rules)

lemma keeps_api_program: "api_program cfg p \<Longrightarrow> keeps p"
  by (induction rule: api_program.induct)
    (auto simp: create_def pause_def resume_def cancel_def intro!: keeps_rules api_transactions)

section \<open>Lemmas: names\<close>

lemma digits_val_append: "digits_val a (xs @ ys) = digits_val (digits_val a xs) ys"
  by (induction xs arbitrary: a) auto

lemma digits_val_zeros: "digits_val 0 (replicate n (CHR ''0'')) = 0"
  by (induction n) (auto simp: code_of_def)

lemma is_digit_char: "n < 10 \<Longrightarrow> is_digit (char_of (48 + n)) \<and> code_of (char_of (48 + n) :: char) = 48 + n"
  for n :: nat
  by (simp add: is_digit_def code_of_def)

lemma show_nonneg_digits:
  "0 \<le> n \<Longrightarrow> list_all is_digit (show_nonneg n) \<and> show_nonneg n \<noteq> [] \<and> digits_val 0 (show_nonneg n) = nat n"
proof (induction n rule: show_nonneg.induct)
  case (1 n)
  show ?case
  proof (cases "n < 10")
    case True
    then show ?thesis using 1(2) is_digit_char [of "nat n"] by (subst (1 2 3) show_nonneg.simps) auto
  next
    case False
    then have IH: "list_all is_digit (show_nonneg (n div 10))" "digits_val 0 (show_nonneg (n div 10)) = nat (n div 10)"
      using 1 by auto
    have "nat (n mod 10) < 10" by auto
    moreover have "nat (n div 10) = nat n div 10" "nat (n mod 10) = nat n mod 10"
      using 1(2) by (simp_all add: nat_div_distrib nat_mod_distrib)
    ultimately show ?thesis using False IH is_digit_char [of "nat (n mod 10)"]
      by (subst (1 2 3) show_nonneg.simps) (simp add: digits_val_append)
  qed
qed

lemma padded_number:
  "0 \<le> n \<Longrightarrow> list_all is_digit (pad_left k (CHR ''0'') (show_int n)) \<and> pad_left k (CHR ''0'') (show_int n) \<noteq> [] \<and>
   digits_val 0 (pad_left k (CHR ''0'') (show_int n)) = nat n"
  using show_nonneg_digits [of n]
  by (auto simp: pad_left_def show_int_def digits_val_append digits_val_zeros is_digit_def code_of_def list_all_iff)

lemma fold_max_ge: "x \<in> set xs \<Longrightarrow> x \<le> fold max xs a" for a :: "'a :: linorder"
  by (metis Max_ge List.finite_set Max.set_eq_fold list.set_intros(2) set_ConsD fold_simps(2) max.commute)

lemma mem_map_filter: "x \<in> set xs \<Longrightarrow> f x = Some y \<Longrightarrow> y \<in> set (List.map_filter f xs)"
  by (induction xs) (auto simp: List.map_filter_simps split: option.splits)

section \<open>Properties\<close>

text \<open>
  The name allocateCampaignName gives never is one of the names read from the database,
  whatever those names look like.
\<close>

theorem campaign_names_are_fresh:
  "next_campaign_name dateKey names \<notin> set names"
proof
  let ?h = "fold max (List.map_filter (name_number dateKey) names) 0"
  assume "next_campaign_name dateKey names \<in> set names"
  moreover have "name_number dateKey (next_campaign_name dateKey names) = Some (?h + 1)"
    using padded_number [of "int ?h + 1" 3] by (simp add: next_campaign_name_def name_number_def Let_def)
  ultimately have "?h + 1 \<in> set (List.map_filter (name_number dateKey) names)" by (rule mem_map_filter)
  then show False using fold_max_ge [of "?h + 1" _ 0] by force
qed

lemma find_upd_self:
  "(\<And>r. P (f r) = P r) \<Longrightarrow> List.find P (upd_where P f rows) = map_option f (List.find P rows)"
  by (induction rows) auto

text \<open>
  C7. The transaction of cancel leaves the campaign CANCELLED; each of its RESERVED or QUEUED
  recipients becomes CANCELLED, keeps no reservation, its outbox entry is COMPLETED and its
  delivery can no longer be claimed.
\<close>

theorem cancelled_campaign_is_closed:
  assumes "cancel_tx campaign db = Inr ((), db')"
  shows "map_option ca_state (find_campaign (ca_id campaign) db') = Some CampaignState.CANCELLED \<and>
    (\<forall>r \<in> set (tb_recipients db). rc_campaignId r = ca_id campaign \<and> (rc_state r = RESERVED \<or> rc_state r = RecipientState.QUEUED) \<longrightarrow>
       (\<forall>v \<in> set (tb_reservations db'). rv_campaignRecipientId v \<noteq> rc_id r) \<and>
       (\<forall>d \<in> set (tb_deliveries db'). dl_campaignRecipientId d = rc_id r \<longrightarrow> \<not> claimable_state (dl_state d)) \<and>
       (\<forall>x \<in> set (tb_recipients db'). rc_id x = rc_id r \<longrightarrow> rc_state x = RecipientState.CANCELLED) \<and>
       (\<forall>e \<in> set (tb_outbox db'). ob_recipientId e = rc_id r \<longrightarrow> ob_state e = OutboxState.COMPLETED))"
proof -
  let ?ids = "unsent_ids (ca_id campaign) db"
  have all: "map_option ca_state (find_campaign (ca_id campaign) db') = Some CampaignState.CANCELLED \<and>
    (\<forall>i \<in> set ?ids. (\<forall>v \<in> set (tb_reservations db'). rv_campaignRecipientId v \<noteq> i) \<and>
       (\<forall>d \<in> set (tb_deliveries db'). dl_campaignRecipientId d = i \<longrightarrow> \<not> claimable_state (dl_state d)) \<and>
       (\<forall>x \<in> set (tb_recipients db'). rc_id x = i \<longrightarrow> rc_state x = RecipientState.CANCELLED) \<and>
       (\<forall>e \<in> set (tb_outbox db'). ob_recipientId e = i \<longrightarrow> ob_state e = OutboxState.COMPLETED))"
    using assms
    by (auto simp: cancel_tx_def update_recipients_def update_outbox_def delete_reservations_def update_campaign_def audit_def
        find_campaign_def find_upd_self set_upd_where claimable_state_def
        elim!: tx_bind_InrE split: option.splits if_splits)
  have "rc_id r \<in> set ?ids" if "r \<in> set (tb_recipients db)" "rc_campaignId r = ca_id campaign"
    "rc_state r = RESERVED \<or> rc_state r = RecipientState.QUEUED" for r
    using that by (auto simp: unsent_ids_def)
  then show ?thesis using all by blast
qed

definition expire :: "Campaign \<Rightarrow> Campaign" where
  "expire k = k\<lparr>ca_state := PREVIEW_EXPIRED, ca_version := ca_version k + 1\<rparr>"

definition expired_ids :: "millis \<Rightarrow> Tables \<Rightarrow> ident set" where
  "expired_ids now db = ca_id ` {k \<in> set (tb_campaigns db). expired_frozen now k}"

lemma expire_not_frozen: "\<not> expired_frozen now (expire k)" "ca_id (expire k) = ca_id k"
  by (simp_all add: expire_def expired_frozen_def)

lemma expire_one_effect:
  assumes "expire_one now c db = Inr (u, db')"
  shows "tb_campaigns db' = upd_where (\<lambda>k. ca_id k = ca_id c \<and> expired_frozen now k) expire (tb_campaigns db)"
    "set (tb_reservations db') = {v \<in> set (tb_reservations db). \<not> (ca_id c \<in> expired_ids now db \<and> reserved_in (ca_id c) db v)}"
    "reserved_in i db' v = reserved_in i db v"
proof -
  let ?P = "\<lambda>k. ca_id k = ca_id c \<and> expired_frozen now k"
  have "tb_campaigns db' = upd_where ?P expire (tb_campaigns db) \<and>
    set (tb_reservations db') = {v \<in> set (tb_reservations db). \<not> (ca_id c \<in> expired_ids now db \<and> reserved_in (ca_id c) db v)} \<and>
    (reserved_in i db' v = reserved_in i db v)"
  proof (cases "list_ex ?P (tb_campaigns db)")
    case True
    then have "ca_id c \<in> expired_ids now db" by (auto simp: expired_ids_def list_ex_iff intro: rev_image_eqI)
    then show ?thesis using assms True
      by (auto simp: expire_one_def update_campaigns_def release_reservations_def update_recipients_def audit_def expire_def [abs_def]
          reserved_in_def find_recipient_def find_upd_where elim!: tx_bind_InrE split: option.splits)
  next
    case False
    then have "upd_where ?P expire (tb_campaigns db) = tb_campaigns db" "ca_id c \<notin> expired_ids now db"
      by (auto simp: upd_where_def list_ex_iff expired_ids_def intro!: map_idI)
    then show ?thesis using assms False by (simp add: expire_one_def)
  qed
  then show "tb_campaigns db' = upd_where ?P expire (tb_campaigns db)"
    "set (tb_reservations db') = {v \<in> set (tb_reservations db). \<not> (ca_id c \<in> expired_ids now db \<and> reserved_in (ca_id c) db v)}"
    "reserved_in i db' v = reserved_in i db v" by blast+
qed

lemma expired_ids_one:
  "tb_campaigns db' = upd_where (\<lambda>k. ca_id k = i \<and> expired_frozen now k) expire (tb_campaigns db) \<Longrightarrow>
   expired_ids now db' = expired_ids now db - {i}"
proof -
  assume u: "tb_campaigns db' = upd_where (\<lambda>k. ca_id k = i \<and> expired_frozen now k) expire (tb_campaigns db)"
  have "k \<in> set (tb_campaigns db') \<and> expired_frozen now k \<longleftrightarrow>
      k \<in> set (tb_campaigns db) \<and> expired_frozen now k \<and> ca_id k \<noteq> i" for k
    by (auto simp: u set_upd_where expire_not_frozen split: if_splits intro: rev_image_eqI)
  then show ?thesis by (auto simp: expired_ids_def)
qed

lemma expire_all_effect:
  "tx_each (expire_one now) cs db = Inr (u, db') \<Longrightarrow>
   expired_ids now db' = expired_ids now db - ca_id ` set cs \<and>
   set (tb_reservations db') = {v \<in> set (tb_reservations db). \<forall>i \<in> expired_ids now db \<inter> ca_id ` set cs. \<not> reserved_in i db v}"
proof (induction cs arbitrary: db)
  case (Cons c cs)
  then obtain db1 where one: "expire_one now c db = Inr ((), db1)" and rest: "tx_each (expire_one now) cs db1 = Inr (u, db')"
    by (auto elim: tx_bind_InrE)
  note e = expire_one_effect [OF one]
  have ids: "expired_ids now db1 = expired_ids now db - {ca_id c}" by (rule expired_ids_one [OF e(1)])
  have "expired_ids now db' = expired_ids now db - {ca_id c} - ca_id ` set cs"
    and res: "set (tb_reservations db') = {v \<in> set (tb_reservations db1).
      \<forall>i \<in> (expired_ids now db - {ca_id c}) \<inter> ca_id ` set cs. \<not> reserved_in i db v}"
    using Cons.IH [OF rest] by (simp_all only: ids e(3))
  moreover have "(v \<in> set (tb_reservations db')) =
      (v \<in> set (tb_reservations db) \<and> (\<forall>i \<in> expired_ids now db \<inter> ca_id ` set (c # cs). \<not> reserved_in i db v))" for v
    unfolding res e(2) by (cases "ca_id c \<in> expired_ids now db") auto
  ultimately show ?case by (auto simp only: list.set image_insert set_eq_iff mem_Collect_eq)
qed auto

text \<open>
  C9. After expireFrozenCampaigns no campaign is FROZEN past its expiry, and exactly the
  reservations of recipients of the campaigns that had expired are gone.
\<close>

theorem expiry_releases_the_reservations:
  assumes "expire_tx now db = Inr (n, db')"
  shows "(\<forall>k \<in> set (tb_campaigns db'). \<not> expired_frozen now k) \<and> set (tb_reservations db') \<subseteq> set (tb_reservations db) \<and>
    (\<forall>v \<in> set (tb_reservations db). v \<in> set (tb_reservations db') \<longleftrightarrow>
       (\<forall>k \<in> set (tb_campaigns db). expired_frozen now k \<longrightarrow> \<not> reserved_in (ca_id k) db v))"
proof -
  let ?cs = "filter (expired_frozen now) (tb_campaigns db)"
  have each: "\<exists>u. tx_each (expire_one now) ?cs db = Inr (u, db')"
    using assms by (auto simp: expire_tx_def elim!: tx_bind_InrE)
  have ids: "expired_ids now db = ca_id ` set ?cs" by (auto simp: expired_ids_def)
  have "expired_ids now db' = {}" and
    res: "set (tb_reservations db') = {v \<in> set (tb_reservations db). \<forall>i \<in> ca_id ` set ?cs. \<not> reserved_in i db v}"
    using each expire_all_effect [of now ?cs db _ db'] by (auto simp: ids)
  then have "\<forall>k \<in> set (tb_campaigns db'). \<not> expired_frozen now k" by (auto simp: expired_ids_def)
  then show ?thesis by (auto simp: res)
qed

section \<open>Queueing\<close>

text \<open>A recipient is queued when its row says so, it has a delivery and an entry waits for it.\<close>

definition is_queued :: "ident \<Rightarrow> Tables \<Rightarrow> bool" where
  "is_queued i db \<longleftrightarrow> (\<forall>x \<in> set (tb_recipients db). rc_id x = i \<longrightarrow> rc_state x = RecipientState.QUEUED) \<and>
     delivery_of i db \<noteq> None \<and> (\<exists>e \<in> set (tb_outbox db). ob_recipientId e = i \<and> ob_state e = OutboxState.PENDING)"

lemma find_append_Some: "List.find P xs \<noteq> None \<Longrightarrow> List.find P (xs @ ys) \<noteq> None"
  by (induction xs) auto

lemma upsert_delivery_effect:
  assumes "upsert_delivery campaign r i db = Inr (d, db')"
  shows "tb_recipients db' = tb_recipients db \<and> tb_outbox db' = tb_outbox db \<and> tb_campaigns db' = tb_campaigns db \<and>
    delivery_of (rc_id r) db' = Some d \<and> (delivery_of j db \<noteq> None \<longrightarrow> delivery_of j db' \<noteq> None)"
proof (cases "delivery_of (rc_id r) db")
  case (Some x)
  then show ?thesis using assms by (simp add: upsert_delivery_def)
next
  case None
  then have d: "db' = db\<lparr>tb_deliveries := tb_deliveries db @ [d]\<rparr>" "d = new_delivery i campaign r"
    using assms by (auto simp: upsert_delivery_def tx_guard_def elim!: tx_bind_InrE split: if_splits)
  have "delivery_of (rc_id r) db' = Some d" using None
    by (simp add: delivery_of_def d find_append new_delivery_def)
  moreover have "delivery_of j db \<noteq> None \<longrightarrow> delivery_of j db' \<noteq> None"
    by (simp add: delivery_of_def d(1) find_append_Some)
  ultimately show ?thesis by (simp add: d(1))
qed

definition waiting :: "ident \<Rightarrow> Tables \<Rightarrow> bool" where
  "waiting i db \<longleftrightarrow> (\<exists>e \<in> set (tb_outbox db). ob_recipientId e = i \<and> ob_state e = OutboxState.PENDING)"

definition requeue_entry :: "millis \<Rightarrow> OutboxEntry \<Rightarrow> OutboxEntry" where
  "requeue_entry now e = e\<lparr>ob_state := OutboxState.PENDING, ob_availableAt := now, ob_lastError := None\<rparr>"

lemma waiting_requeue:
  assumes "tb_outbox db' = upd_where (\<lambda>x. ob_recipientId x = i) (requeue_entry now) (tb_outbox db)"
  shows "waiting j db \<Longrightarrow> waiting j db'" "e \<in> set (tb_outbox db) \<Longrightarrow> ob_recipientId e = i \<Longrightarrow> waiting i db'"
proof -
  have kept: "(if ob_recipientId e = i then requeue_entry now e else e) \<in> set (tb_outbox db')" if "e \<in> set (tb_outbox db)" for e
    using that by (auto simp: assms set_upd_where)
  have pending: "ob_state (requeue_entry now e) = OutboxState.PENDING" "ob_recipientId (requeue_entry now e) = ob_recipientId e" for e
    by (simp_all add: requeue_entry_def)
  show "waiting j db \<Longrightarrow> waiting j db'" unfolding waiting_def using kept pending by metis
  show "e \<in> set (tb_outbox db) \<Longrightarrow> ob_recipientId e = i \<Longrightarrow> waiting i db'"
    unfolding waiting_def using kept [of e] pending [of e] by auto
qed

lemma upsert_entry_effect:
  assumes "upsert_entry (requeue_entry now) r d i now db = Inr (x, db')"
  shows "tb_recipients db' = tb_recipients db \<and> tb_deliveries db' = tb_deliveries db \<and> tb_campaigns db' = tb_campaigns db \<and>
    waiting (rc_id r) db' \<and> (waiting j db \<longrightarrow> waiting j db')"
proof (cases "List.find (\<lambda>e. ob_recipientId e = rc_id r) (tb_outbox db)")
  case None
  then have "db' = db\<lparr>tb_outbox := tb_outbox db @ [new_entry i r d now]\<rparr>"
    using assms by (auto simp: upsert_entry_def tx_guard_def elim!: tx_bind_InrE split: if_splits)
  then show ?thesis by (auto simp: new_entry_def waiting_def)
next
  case (Some e)
  then have u: "db' = db\<lparr>tb_outbox := upd_where (\<lambda>x. ob_recipientId x = rc_id r) (requeue_entry now) (tb_outbox db)\<rparr>"
    and e: "e \<in> set (tb_outbox db)" "ob_recipientId e = rc_id r"
    using assms find_SomeD [OF Some] by (auto simp: upsert_entry_def update_outbox_def elim!: tx_bind_InrE)
  have "tb_outbox db' = upd_where (\<lambda>x. ob_recipientId x = rc_id r) (requeue_entry now) (tb_outbox db)" by (simp add: u)
  from waiting_requeue [OF this] e show ?thesis by (auto simp: u)
qed

lemma queue_recipient_effect:
  assumes "queue_recipient campaign fresh now (k, r) db = Inr (u, db')"
  shows "is_queued (rc_id r) db' \<and> (is_queued j db \<longrightarrow> is_queued j db') \<and> tb_campaigns db' = tb_campaigns db"
proof -
  obtain d x db1 db2 where one: "upsert_delivery campaign r (fresh (2 * k)) db = Inr (d, db1)"
    and two: "upsert_entry (requeue_entry now) r d (fresh (2 * k + 1)) now db1 = Inr (x, db2)"
    and db': "tb_recipients db' = upd_where (\<lambda>x. rc_id x = rc_id r) (\<lambda>x. x\<lparr>rc_state := RecipientState.QUEUED\<rparr>) (tb_recipients db2)"
      "tb_deliveries db' = tb_deliveries db2" "tb_outbox db' = tb_outbox db2" "tb_campaigns db' = tb_campaigns db2"
    using assms
    by (auto simp: queue_recipient_def update_recipient_def requeue_entry_def [abs_def] elim!: tx_bind_InrE split: option.splits)
  have d: "delivery_of i db' = delivery_of i db1" "waiting i db' = waiting i db2" for i
    using upsert_entry_effect [OF two] db'(2,3) by (simp_all add: delivery_of_def waiting_def)
  have waiting_same: "waiting i db1 = waiting i db" for i
    using upsert_delivery_effect [OF one] by (simp add: waiting_def)
  have queued: "is_queued i db \<longleftrightarrow> (\<forall>x \<in> set (tb_recipients db). rc_id x = i \<longrightarrow> rc_state x = RecipientState.QUEUED) \<and>
     delivery_of i db \<noteq> None \<and> waiting i db" for i db by (simp add: is_queued_def waiting_def)
  have rows: "\<forall>x \<in> set (tb_recipients db'). rc_id x = rc_id r \<longrightarrow> rc_state x = RecipientState.QUEUED"
    "(\<forall>x \<in> set (tb_recipients db). rc_id x = j \<longrightarrow> rc_state x = RecipientState.QUEUED) \<Longrightarrow>
     \<forall>x \<in> set (tb_recipients db'). rc_id x = j \<longrightarrow> rc_state x = RecipientState.QUEUED"
    using upsert_entry_effect [OF two] upsert_delivery_effect [OF one] by (auto simp: db'(1) set_upd_where)
  show ?thesis
    using upsert_entry_effect [OF two, of j] upsert_delivery_effect [OF one, of j] rows db'(4)
      waiting_same
    by (auto simp: queued d)
qed

lemma queue_all_effect:
  "tx_each (queue_recipient campaign fresh now) xs db = Inr (u, db') \<Longrightarrow>
   (\<forall>x \<in> set xs. is_queued (rc_id (snd x)) db') \<and> (\<forall>j. is_queued j db \<longrightarrow> is_queued j db') \<and> tb_campaigns db' = tb_campaigns db"
proof (induction xs arbitrary: db)
  case (Cons x xs)
  obtain k r where x: "x = (k, r)" by (cases x)
  obtain db1 where one: "queue_recipient campaign fresh now (k, r) db = Inr ((), db1)"
    and rest: "tx_each (queue_recipient campaign fresh now) xs db1 = Inr (u, db')"
    using Cons.prems by (auto simp: x elim: tx_bind_InrE)
  show ?case using Cons.IH [OF rest] queue_recipient_effect [OF one] by (auto simp: x)
qed auto

lemma selected_frame: "selected_recipients i (db\<lparr>tb_campaigns := x\<rparr>) = selected_recipients i db"
  by (simp add: selected_recipients_def)

text \<open>
  C8. When the transaction of queueFrozen commits, the campaign was FROZEN at the given version
  and no longer is, and every selected RESERVED recipient is QUEUED with a delivery and a PENDING
  outbox entry: the same version cannot be queued twice.
\<close>

theorem queueing_queues_every_frozen_recipient:
  assumes "queue_tx campaign version fresh now db = Inr ((), db')"
  shows "(\<exists>c \<in> set (tb_campaigns db). ca_id c = ca_id campaign \<and> ca_state c = FROZEN \<and> ca_version c = version) \<and>
    (\<forall>c \<in> set (tb_campaigns db'). ca_id c = ca_id campaign \<longrightarrow> \<not> (ca_state c = FROZEN \<and> ca_version c = version)) \<and>
    (\<forall>r \<in> set (tb_recipients db). rc_campaignId r = ca_id campaign \<and> rc_selected r \<and> rc_state r = RESERVED \<longrightarrow>
       is_queued (rc_id r) db')"
proof -
  let ?P = "\<lambda>c. ca_id c = ca_id campaign \<and> ca_state c = FROZEN \<and> ca_version c = version"
  let ?rs = "filter (\<lambda>r. rc_state r = RESERVED) (selected_recipients (ca_id campaign) db)"
  let ?f = "\<lambda>c. c\<lparr>ca_state := CampaignState.QUEUED, ca_version := ca_version c + 1\<rparr>"
  define db0 where "db0 = db\<lparr>tb_campaigns := upd_where ?P ?f (tb_campaigns db)\<rparr>"
  obtain db1 where k: "keep_reservations (ca_id campaign) db0 = Inr ((), db1)" and "tb_campaigns db1 = tb_campaigns db0"
    by (simp add: keep_reservations_def)
  then have db1: "tb_campaigns db1 = upd_where ?P ?f (tb_campaigns db)" by (simp add: db0_def)
  obtain db2 payload where ex: "list_ex ?P (tb_campaigns db)"
    and each: "tx_each (queue_recipient campaign fresh now) (List.enumerate 0 ?rs) db1 = Inr ((), db2)"
    and audited: "audit (ca_shopId campaign) (ca_id campaign) ''CAMPAIGN_QUEUED'' payload db2 = Inr ((), db')"
    using assms k [unfolded db0_def]
    by (auto simp: queue_tx_def update_campaigns_def selected_frame tx_guard_def elim!: tx_bind_InrE split: if_splits)
  have db': "tb_campaigns db' = tb_campaigns db2" "tb_recipients db' = tb_recipients db2" "tb_deliveries db' = tb_deliveries db2"
      "tb_outbox db' = tb_outbox db2"
    using audited by (auto simp: audit_def)
  have q: "is_queued i db' = is_queued i db2" for i by (simp add: is_queued_def delivery_of_def db')
  have "is_queued (rc_id r) db'" if "r \<in> set ?rs" for r
  proof -
    have "r \<in> set (map snd (List.enumerate 0 ?rs))" using that by simp
    then show ?thesis using queue_all_effect [OF each] by (auto simp: q simp del: map_snd_enumerate)
  qed
  moreover have "tb_campaigns db' = tb_campaigns db1" using queue_all_effect [OF each] db'(1) by simp
  ultimately show ?thesis using ex by (auto simp: db1 set_upd_where list_ex_iff selected_recipients_def)
qed

section \<open>Freezing\<close>

text \<open>A row that the loop has frozen for a recipient, with its reservation and its contact checked.\<close>

definition frozen_row :: "Freezing \<Rightarrow> Tables \<Rightarrow> Recipient \<Rightarrow> bool" where
  "frozen_row z db x \<longleftrightarrow> rc_state x = RESERVED \<and> rc_frozenMessage x \<noteq> None \<and>
     (\<exists>v \<in> set (tb_reservations db). rv_shopId v = ca_shopId (fz_campaign z) \<and> rv_creatorId v = rc_creatorId x \<and>
        rv_campaignRecipientId v = rc_id x \<and> rv_expiresAt v = fz_expiresAt z) \<and>
     freeze_exclusion (fz_cutoff z) (find_contact (fz_shopId z) (rc_creatorId x) db) (rc_creatorId x \<in> fz_reserved z) = None"

definition same_rest :: "Tables \<Rightarrow> Tables \<Rightarrow> bool" where
  "same_rest db db' \<longleftrightarrow> tb_contacts db' = tb_contacts db \<and> tb_creators db' = tb_creators db \<and> tb_campaigns db' = tb_campaigns db \<and>
     set (tb_reservations db) \<subseteq> set (tb_reservations db')"

definition same_keys :: "Tables \<Rightarrow> Tables \<Rightarrow> bool" where
  "same_keys db db' \<longleftrightarrow>
     (\<forall>x \<in> set (tb_recipients db'). \<exists>y \<in> set (tb_recipients db). rc_id y = rc_id x \<and> rc_creatorId y = rc_creatorId x)"

lemma same_keys_upd:
  assumes "tb_recipients db' = upd_where P f (tb_recipients db)" "\<And>x. rc_id (f x) = rc_id x \<and> rc_creatorId (f x) = rc_creatorId x"
  shows "same_keys db db'"
  unfolding same_keys_def assms(1) using assms(2) by (auto dest!: mem_upd_where split: if_splits)

lemma same_rest_trans: "same_rest a b \<Longrightarrow> same_rest b c \<Longrightarrow> same_rest a c"
  by (auto simp: same_rest_def)

lemma frozen_row_mono: "frozen_row z db x \<Longrightarrow> same_rest db db' \<Longrightarrow> frozen_row z db' x"
  unfolding frozen_row_def same_rest_def find_contact_def by (metis subsetD)

lemma freeze_exclude_effect:
  assumes "freeze_exclude r reason detail db = Inr (u, db')"
  shows "same_rest db db' \<and> (\<forall>x \<in> set (tb_recipients db'). rc_id x = rc_id r \<longrightarrow> \<not> rc_selected x) \<and>
    (\<forall>x \<in> set (tb_recipients db'). rc_id x \<noteq> rc_id r \<longrightarrow> x \<in> set (tb_recipients db)) \<and>
    same_keys db db'"
  using assms
  by (auto simp: freeze_exclude_def update_recipient_def same_rest_def set_upd_where split: option.splits intro!: same_keys_upd)

lemma freeze_include_effect:
  assumes "freeze_include cfg (fz_campaign z) (fz_expiresAt z) index r c db = Inr (u, db')"
    and "freeze_exclusion (fz_cutoff z) (find_contact (fz_shopId z) (rc_creatorId r) db) (rc_creatorId r \<in> fz_reserved z) = None"
    and "\<forall>x \<in> set (tb_recipients db). rc_id x = rc_id r \<longrightarrow> rc_creatorId x = rc_creatorId r"
  shows "same_rest db db' \<and> (\<forall>x \<in> set (tb_recipients db'). rc_id x = rc_id r \<longrightarrow> frozen_row z db' x) \<and>
    (\<forall>x \<in> set (tb_recipients db'). rc_id x \<noteq> rc_id r \<longrightarrow> x \<in> set (tb_recipients db)) \<and>
    same_keys db db'"
proof -
  let ?v = "\<lparr>rv_shopId = ca_shopId (fz_campaign z), rv_creatorId = rc_creatorId r, rv_campaignRecipientId = rc_id r,
    rv_expiresAt = fz_expiresAt z\<rparr>"
  obtain message openId where db': "db' = db\<lparr>tb_reservations := tb_reservations db @ [?v],
      tb_recipients := upd_where (\<lambda>x. rc_id x = rc_id r) (\<lambda>x. x\<lparr>rc_frozenMessage := Some message,
        rc_contentHash := Some (ac_sha256 cfg message), rc_state := RESERVED, rc_creatorOpenIdSnapshot := Some openId,
        rc_frozenRank := Some (int index + 1), rc_recipientSnapshot := Some (recipient_snapshot cfg r c openId)\<rparr>) (tb_recipients db)\<rparr>"
    using assms(1)
    by (auto simp: freeze_include_def update_recipient_def tx_guard_def elim!: tx_bind_InrE split: sum.splits option.splits if_splits)
  show ?thesis using assms(2,3)
    by (auto simp: db' same_rest_def frozen_row_def set_upd_where find_contact_def intro!: same_keys_upd)
qed

lemma freeze_each_effect:
  "freeze_each cfg z index rs db = Inr ((reasons, n), db') \<Longrightarrow> distinct (map rc_id rs) \<Longrightarrow>
   \<forall>r \<in> set rs. \<forall>x \<in> set (tb_recipients db). rc_id x = rc_id r \<longrightarrow> rc_creatorId x = rc_creatorId r \<Longrightarrow>
   same_rest db db' \<and> (\<forall>x \<in> set (tb_recipients db'). rc_id x \<notin> rc_id ` set rs \<longrightarrow> x \<in> set (tb_recipients db)) \<and>
   (\<forall>x \<in> set (tb_recipients db'). rc_id x \<in> rc_id ` set rs \<longrightarrow> rc_selected x \<longrightarrow> frozen_row z db' x)"
proof (induction rs arbitrary: index db reasons n)
  case Nil
  then show ?case by (simp add: same_rest_def)
next
  case (Cons r rs)
  let ?x = "freeze_exclusion (fz_cutoff z) (find_contact (fz_shopId z) (rc_creatorId r) db) (rc_creatorId r \<in> fz_reserved z)"
  obtain c where c: "find_creator (rc_creatorId r) db = Some c"
    using Cons.prems(1) by (auto split: option.splits)
  have "\<exists>db1 reasons' n'. freeze_each cfg z (index + 1) rs db1 = Inr ((reasons', n'), db') \<and> same_rest db db1 \<and>
      (\<forall>x \<in> set (tb_recipients db1). rc_id x = rc_id r \<longrightarrow> rc_selected x \<longrightarrow> frozen_row z db1 x) \<and>
      (\<forall>x \<in> set (tb_recipients db1). rc_id x \<noteq> rc_id r \<longrightarrow> x \<in> set (tb_recipients db)) \<and>
      same_keys db db1"
  proof (cases ?x)
    case None
    then obtain db1 reasons' n' where "freeze_include cfg (fz_campaign z) (fz_expiresAt z) index r c db = Inr ((), db1)"
      "freeze_each cfg z (index + 1) rs db1 = Inr ((reasons', n'), db')"
      using Cons.prems(1) c by (auto elim!: tx_bind_InrE)
    moreover have "\<forall>x \<in> set (tb_recipients db). rc_id x = rc_id r \<longrightarrow> rc_creatorId x = rc_creatorId r"
      using Cons.prems(3) by simp
    note freeze_include_effect [OF _ None this]
    ultimately show ?thesis
      by (intro exI [of _ db1] exI [of _ reasons'] exI [of _ n']) simp
  next
    case (Some y)
    obtain reason detail where y: "y = (reason, detail)" by (cases y)
    obtain db1 reasons' n' where "freeze_exclude r reason detail db = Inr ((), db1)"
      "freeze_each cfg z (index + 1) rs db1 = Inr ((reasons', n'), db')"
      using Cons.prems(1) c Some y by (auto elim!: tx_bind_InrE)
    with freeze_exclude_effect [OF this(1)] show ?thesis
      by (intro exI [of _ db1] exI [of _ reasons'] exI [of _ n']) simp
  qed
  then obtain db1 reasons' n' where rest: "freeze_each cfg z (index + 1) rs db1 = Inr ((reasons', n'), db')" and same: "same_rest db db1"
    and own: "\<And>x. x \<in> set (tb_recipients db1) \<Longrightarrow> rc_id x = rc_id r \<Longrightarrow> rc_selected x \<Longrightarrow> frozen_row z db1 x"
    and other: "\<And>x. x \<in> set (tb_recipients db1) \<Longrightarrow> rc_id x \<noteq> rc_id r \<Longrightarrow> x \<in> set (tb_recipients db)"
    and keys: "same_keys db db1"
    by blast
  have "\<forall>r \<in> set rs. \<forall>x \<in> set (tb_recipients db1). rc_id x = rc_id r \<longrightarrow> rc_creatorId x = rc_creatorId r"
    using Cons.prems(3) keys unfolding same_keys_def by (metis list.set_intros(2))
  then have IH: "same_rest db1 db'" "\<And>x. x \<in> set (tb_recipients db') \<Longrightarrow> rc_id x \<notin> rc_id ` set rs \<Longrightarrow> x \<in> set (tb_recipients db1)"
    "\<And>x. x \<in> set (tb_recipients db') \<Longrightarrow> rc_id x \<in> rc_id ` set rs \<Longrightarrow> rc_selected x \<Longrightarrow> frozen_row z db' x"
    using Cons.IH [OF rest] Cons.prems(2) by auto
  show ?case
  proof (intro conjI ballI impI)
    show "same_rest db db'" by (rule same_rest_trans [OF same IH(1)])
  next
    fix x assume "x \<in> set (tb_recipients db')" "rc_id x \<notin> rc_id ` set (r # rs)"
    then show "x \<in> set (tb_recipients db)" using IH(2) other by auto
  next
    fix x assume x: "x \<in> set (tb_recipients db')" "rc_id x \<in> rc_id ` set (r # rs)" "rc_selected x"
    show "frozen_row z db' x"
    proof (cases "rc_id x \<in> rc_id ` set rs")
      case False
      then have "x \<in> set (tb_recipients db1)" "rc_id x = rc_id r" using x IH(2) by auto
      then show ?thesis using own x(3) frozen_row_mono [OF _ IH(1)] by blast
    qed (use x IH(3) in blast)
  qed
qed

lemma freeze_exclusion_None:
  "freeze_exclusion cutoff contact reserved = None \<Longrightarrow>
   \<not> reserved \<and> (case contact of None \<Rightarrow> True | Some c \<Rightarrow> \<not> ct_doNotContact c \<and> \<not> ct_unresolvedDelivery c \<and>
     (case ct_lastContactedAt c of None \<Rightarrow> True | Some t \<Rightarrow> t \<le> cutoff))"
  by (auto simp: freeze_exclusion_def split: option.splits if_splits)

lemma selected_frame_reservations: "selected_recipients i (db\<lparr>tb_reservations := x\<rparr>) = selected_recipients i db"
  by (simp add: selected_recipients_def)

lemma freeze_txE:
  assumes "freeze_tx cfg campaign version expiresAt now db = Inr ((), db')"
  obtains current db1 db2 reasons n z where
    "find_campaign (ca_id campaign) db = Some current" "ca_state current = PREVIEW_READY" "ca_version current = version"
    "db1 = db\<lparr>tb_reservations := del_where (\<lambda>v. rv_shopId v = ca_shopId current \<and> rv_expiresAt v \<le> now) (tb_reservations db)\<rparr>"
    "z = \<lparr>fz_campaign = campaign, fz_shopId = ca_shopId current, fz_cutoff = now - ca_cooldownDays current * 86400000,
       fz_reserved = reserved_creators (ca_shopId current) now (js_sort (by_ranking (ca_rankingDirection current))
         (selected_recipients (ca_id campaign) db1)) db1, fz_expiresAt = expiresAt\<rparr>"
    "freeze_each cfg z 0 (js_sort (by_ranking (ca_rankingDirection current)) (selected_recipients (ca_id campaign) db1)) db1
       = Inr ((reasons, n), db2)"
    "\<exists>m summary. (if n = 0 then freeze_empty campaign reasons m summary
       else freeze_done campaign current reasons m n summary now expiresAt) db2 = Inr ((), db')"
proof -
  obtain current where found: "find_campaign (ca_id campaign) db = Some current"
    by (cases "find_campaign (ca_id campaign) db") (use assms in \<open>auto simp: freeze_tx_def tx_bind_guard split: if_splits\<close>)
  have "ca_state current = PREVIEW_READY \<and> ca_version current = version"
    by (rule ccontr) (use assms found in \<open>auto simp: freeze_tx_def tx_bind_guard split: if_splits\<close>)
  with found have c: "find_campaign (ca_id campaign) db = Some current" "ca_state current = PREVIEW_READY" "ca_version current = version"
    by auto
  let ?db1 = "db\<lparr>tb_reservations := del_where (\<lambda>v. rv_shopId v = ca_shopId current \<and> rv_expiresAt v \<le> now) (tb_reservations db)\<rparr>"
  let ?rs = "js_sort (by_ranking (ca_rankingDirection current)) (selected_recipients (ca_id campaign) ?db1)"
  let ?z = "\<lparr>fz_campaign = campaign, fz_shopId = ca_shopId current, fz_cutoff = now - ca_cooldownDays current * 86400000,
       fz_reserved = reserved_creators (ca_shopId current) now ?rs ?db1, fz_expiresAt = expiresAt\<rparr>"
  have del: "delete_reservations (\<lambda>v. rv_shopId v = ca_shopId current \<and> rv_expiresAt v \<le> now) db = Inr ((), ?db1)"
    by (simp add: delete_reservations_def)
  have "selected_recipients (ca_id campaign) db \<noteq> []"
    by (rule ccontr) (use assms in \<open>simp add: freeze_tx_def tx_bind_guard\<close>)
  moreover from this have "?rs \<noteq> []"
    using set_js_sort [of "by_ranking (ca_rankingDirection current)" "selected_recipients (ca_id campaign) ?db1"]
    by (metis selected_frame_reservations set_empty)
  ultimately have "tx_bind (freeze_each cfg ?z 0 ?rs) (\<lambda>(reasons, finalSelected).
      let summary = freeze_summary current reasons (int (length ?rs)) finalSelected in
      if finalSelected = 0 then freeze_empty campaign reasons (int (length ?rs)) summary
      else freeze_done campaign current reasons (int (length ?rs)) finalSelected summary now expiresAt) ?db1 = Inr ((), db')"
    using assms c del by (simp add: freeze_tx_def tx_bind_guard)
  then obtain y db2 where e: "freeze_each cfg ?z 0 ?rs ?db1 = Inr (y, db2)"
    and d: "(case y of (reasons, finalSelected) \<Rightarrow>
      let summary = freeze_summary current reasons (int (length ?rs)) finalSelected in
      if finalSelected = 0 then freeze_empty campaign reasons (int (length ?rs)) summary
      else freeze_done campaign current reasons (int (length ?rs)) finalSelected summary now expiresAt) db2 = Inr ((), db')"
    by (rule tx_bind_InrE)
  obtain reasons n where y: "y = (reasons, n)" by (cases y)
  show thesis by (rule that [OF c refl refl e [unfolded y]]) (use d in \<open>auto simp: y Let_def split: if_splits\<close>)
qed

text \<open>
  C5. When freeze leaves the campaign FROZEN, every recipient still selected is RESERVED, has a
  frozen message and a reservation that expires with the freeze, and its creator is neither do-
  not-contact, nor has an unresolved delivery, nor was contacted within the cooldown.
\<close>

theorem frozen_recipients_may_be_contacted:
  assumes "freeze_tx cfg campaign version expiresAt now db = Inr ((), db')" "distinct (map rc_id (tb_recipients db))"
    and "find_campaign (ca_id campaign) db' = Some k" "ca_state k = FROZEN"
    and "x \<in> set (tb_recipients db')" "rc_campaignId x = ca_id campaign" "rc_selected x"
  shows "rc_state x = RESERVED \<and> rc_frozenMessage x \<noteq> None \<and>
    (\<exists>v \<in> set (tb_reservations db'). rv_shopId v = ca_shopId campaign \<and> rv_creatorId v = rc_creatorId x \<and>
       rv_campaignRecipientId v = rc_id x \<and> rv_expiresAt v = expiresAt) \<and>
    (case find_contact (ca_shopId k) (rc_creatorId x) db' of None \<Rightarrow> True
     | Some c \<Rightarrow> \<not> ct_doNotContact c \<and> \<not> ct_unresolvedDelivery c \<and>
        (case ct_lastContactedAt c of None \<Rightarrow> True | Some t \<Rightarrow> t \<le> now - ca_cooldownDays k * 86400000))"
proof -
  obtain current db1 db2 reasons n z where current: "find_campaign (ca_id campaign) db = Some current" "ca_state current = PREVIEW_READY"
    and db1: "db1 = db\<lparr>tb_reservations := del_where (\<lambda>v. rv_shopId v = ca_shopId current \<and> rv_expiresAt v \<le> now) (tb_reservations db)\<rparr>"
    and z: "z = \<lparr>fz_campaign = campaign, fz_shopId = ca_shopId current, fz_cutoff = now - ca_cooldownDays current * 86400000,
       fz_reserved = reserved_creators (ca_shopId current) now (js_sort (by_ranking (ca_rankingDirection current))
         (selected_recipients (ca_id campaign) db1)) db1, fz_expiresAt = expiresAt\<rparr>"
    and each: "freeze_each cfg z 0 (js_sort (by_ranking (ca_rankingDirection current)) (selected_recipients (ca_id campaign) db1)) db1
       = Inr ((reasons, n), db2)"
    and last: "\<exists>m summary. (if n = 0 then freeze_empty campaign reasons m summary
       else freeze_done campaign current reasons m n summary now expiresAt) db2 = Inr ((), db')"
    using assms(1) by (rule freeze_txE)
  let ?rs = "js_sort (by_ranking (ca_rankingDirection current)) (selected_recipients (ca_id campaign) db1)"
  have rows: "tb_recipients db1 = tb_recipients db" by (simp add: db1)
  have rs: "set (selected_recipients (ca_id campaign) db1) = {r \<in> set (tb_recipients db). rc_campaignId r = ca_id campaign \<and> rc_selected r}"
    by (simp add: selected_recipients_def rows)
  have "distinct (map rc_id ?rs)"
    using assms(2) by (simp add: distinct_map_js_sort selected_recipients_def rows distinct_map_filter)
  moreover have "\<forall>r \<in> set ?rs. \<forall>x \<in> set (tb_recipients db1). rc_id x = rc_id r \<longrightarrow> rc_creatorId x = rc_creatorId r"
    unfolding set_js_sort rs rows using assms(2) by (auto simp: distinct_map dest: inj_onD)
  ultimately have e: "same_rest db1 db2" "\<And>x. x \<in> set (tb_recipients db2) \<Longrightarrow> rc_id x \<notin> rc_id ` set ?rs \<Longrightarrow> x \<in> set (tb_recipients db)"
    "\<And>x. x \<in> set (tb_recipients db2) \<Longrightarrow> rc_id x \<in> rc_id ` set ?rs \<Longrightarrow> rc_selected x \<Longrightarrow> frozen_row z db2 x"
    using freeze_each_effect [OF each] rows by auto
  have campaigns: "find_campaign (ca_id campaign) db2 = Some current"
    using e(1) current(1) by (simp add: same_rest_def find_campaign_def db1)
  have n: "n \<noteq> 0"
  proof
    assume "n = 0"
    then show False using last assms(3,4) campaigns
      by (auto simp: freeze_empty_def release_reservations_def update_campaign_def audit_def find_campaign_def find_upd_self
          elim!: tx_bind_InrE split: option.splits)
  qed
  then have same: "tb_recipients db' = tb_recipients db2" "tb_reservations db' = tb_reservations db2" "tb_contacts db' = tb_contacts db2"
    and k: "ca_shopId k = ca_shopId current" "ca_cooldownDays k = ca_cooldownDays current"
    using last assms(3) campaigns
    by (auto simp: freeze_done_def update_campaign_def audit_def find_campaign_def find_upd_self
          elim!: tx_bind_InrE split: option.splits)
  have "rc_id x \<in> rc_id ` set ?rs" using e(2) [of x] assms(5-7) by (auto simp: same(1) rs)
  then have "frozen_row z db2 x" using e(3) [of x] assms(5,7) by (simp add: same(1))
  then have row: "rc_state x = RESERVED" "rc_frozenMessage x \<noteq> None"
    "\<exists>v \<in> set (tb_reservations db2). rv_shopId v = ca_shopId campaign \<and> rv_creatorId v = rc_creatorId x \<and>
       rv_campaignRecipientId v = rc_id x \<and> rv_expiresAt v = expiresAt"
    "freeze_exclusion (now - ca_cooldownDays current * 86400000) (find_contact (ca_shopId current) (rc_creatorId x) db2)
       (rc_creatorId x \<in> fz_reserved z) = None"
    by (simp_all add: frozen_row_def z)
  have "find_contact (ca_shopId k) (rc_creatorId x) db' = find_contact (ca_shopId current) (rc_creatorId x) db2"
    by (simp add: find_contact_def same k)
  then show ?thesis using row(1-3) freeze_exclusion_None [OF row(4)] by (simp only: same k simp_thms)
qed

section \<open>Runs on the small world\<close>

definition ex_api :: ApiConfig where
  "ex_api = \<lparr>ac_appMode = APP_READ_ONLY, ac_outboundMode = LIVE, ac_reconcileBatchSize = 10, ac_defaultTemplate = ''Hello'',
     ac_activeShop = (\<lambda>db. Inl (HttpError ServiceUnavailable [])), ac_outboundReason = (\<lambda>now db. None), ac_sha256 = (\<lambda>m. ''h''),
     ac_showDecimal = (\<lambda>x. ''5''), ac_libraryMessage = (\<lambda>e. [])\<rparr>"

definition ex_preview_campaign :: Campaign where
  "ex_preview_campaign = ex_campaign\<lparr>ca_state := PREVIEW_READY, ca_frozenAt := None\<rparr>"

definition ex_preview :: Tables where
  "ex_preview = ex_tables\<lparr>tb_campaigns := [ex_preview_campaign], tb_reservations := [], tb_deliveries := [], tb_outbox := [],
     tb_recipients := map (\<lambda>r. r\<lparr>rc_state := SELECTED, rc_frozenMessage := None\<rparr>) (tb_recipients ex_tables)\<rparr>"

definition ex_frozen_campaign :: Campaign where
  "ex_frozen_campaign = ex_campaign\<lparr>ca_state := FROZEN, ca_freezeExpiresAt := Some 8000\<rparr>"

definition ex_frozen :: Tables where
  "ex_frozen = ex_tables\<lparr>tb_campaigns := [ex_frozen_campaign], tb_deliveries := [], tb_outbox := [],
     tb_recipients := map (\<lambda>r. r\<lparr>rc_state := RESERVED\<rparr>) (tb_recipients ex_tables)\<rparr>"

definition after :: "(Err + 'a \<times> Tables) \<Rightarrow> (Tables \<Rightarrow> bool) \<Rightarrow> bool" where
  "after r P = (case r of Inl _ \<Rightarrow> False | Inr (_, db) \<Rightarrow> P db)"

lemma after_unit: "after r P \<Longrightarrow> \<exists>db. r = Inr ((), db) \<and> P db"
  by (auto simp: after_def split: sum.splits)

lemma ex_freezes:
  "after (freeze_tx ex_api ex_preview_campaign 3 9000 2000 ex_preview) (\<lambda>db.
     map_option ca_state (find_campaign ''k1'' db) = Some FROZEN \<and>
     list_ex (\<lambda>x. rc_id x = ''r1'' \<and> rc_campaignId x = ''k1'' \<and> rc_selected x) (tb_recipients db))"
  by code_simp

lemma frozen_recipients_may_be_contacted_witness:
  "\<exists>db x. freeze_tx ex_api ex_preview_campaign 3 9000 2000 ex_preview = Inr ((), db) \<and> x \<in> set (tb_recipients db) \<and>
     rc_id x = ''r1'' \<and> rc_state x = RESERVED \<and> (\<exists>v \<in> set (tb_reservations db). rv_campaignRecipientId v = ''r1'')"
proof -
  obtain db where f: "freeze_tx ex_api ex_preview_campaign 3 9000 2000 ex_preview = Inr ((), db)"
    and "map_option ca_state (find_campaign ''k1'' db) = Some FROZEN"
    and "list_ex (\<lambda>x. rc_id x = ''r1'' \<and> rc_campaignId x = ''k1'' \<and> rc_selected x) (tb_recipients db)"
    using after_unit [OF ex_freezes] by auto
  then obtain k x where "find_campaign ''k1'' db = Some k" "ca_state k = FROZEN" and x: "x \<in> set (tb_recipients db)" "rc_id x = ''r1''"
    "rc_campaignId x = ''k1''" "rc_selected x" by (auto simp: list_ex_iff)
  moreover have id: "ca_id ex_preview_campaign = ''k1''" "distinct (map rc_id (tb_recipients ex_preview))"
    by (simp_all add: ex_preview_campaign_def ex_preview_def ex_defs)
  ultimately show ?thesis
    using frozen_recipients_may_be_contacted [OF f id(2), unfolded id(1), of k x] f by fastforce
qed

lemma ex_queues: "after (queue_tx ex_frozen_campaign 3 (\<lambda>n. ''f'' @ show_int (int n)) 2000 ex_frozen) (\<lambda>db. True)"
  by code_simp

lemma queueing_queues_every_frozen_recipient_witness:
  "\<exists>db. queue_tx ex_frozen_campaign 3 (\<lambda>n. ''f'' @ show_int (int n)) 2000 ex_frozen = Inr ((), db) \<and>
     is_queued ''r1'' db \<and> is_queued ''r2'' db"
proof -
  obtain db where q: "queue_tx ex_frozen_campaign 3 (\<lambda>n. ''f'' @ show_int (int n)) 2000 ex_frozen = Inr ((), db)"
    using after_unit [OF ex_queues] by blast
  then show ?thesis using queueing_queues_every_frozen_recipient [OF q]
    by (simp add: ex_frozen_def ex_frozen_campaign_def ex_defs)
qed

lemma ex_cancels: "after (cancel_tx ex_campaign ex_tables) (\<lambda>db. True)"
  by code_simp

lemma cancelled_campaign_is_closed_witness:
  "\<exists>db. cancel_tx ex_campaign ex_tables = Inr ((), db) \<and> (\<forall>v \<in> set (tb_reservations db). rv_campaignRecipientId v \<noteq> ''r1'') \<and>
     (\<forall>d \<in> set (tb_deliveries db). dl_campaignRecipientId d = ''r1'' \<longrightarrow> \<not> claimable_state (dl_state d))"
proof -
  obtain db where c: "cancel_tx ex_campaign ex_tables = Inr ((), db)"
    using after_unit [OF ex_cancels] by blast
  then show ?thesis using cancelled_campaign_is_closed [OF c] by (simp add: ex_defs)
qed

lemma ex_expires: "\<exists>n db. expire_tx 9000 ex_frozen = Inr (n, db)"
proof -
  have "after (expire_tx 9000 ex_frozen) (\<lambda>db. True)" by code_simp
  then show ?thesis by (auto simp: after_def split: sum.splits)
qed

lemma expiry_releases_the_reservations_witness:
  "\<exists>n db. expire_tx 9000 ex_frozen = Inr (n, db) \<and> tb_reservations db = []"
proof -
  obtain n db where e: "expire_tx 9000 ex_frozen = Inr (n, db)" using ex_expires by blast
  have x: "expired_frozen 9000 ex_frozen_campaign" "ca_id ex_frozen_campaign = ''k1''" "tb_campaigns ex_frozen = [ex_frozen_campaign]"
    by (simp_all add: expired_frozen_def ex_frozen_campaign_def ex_frozen_def ex_campaign_def)
  have res: "v \<in> set (tb_reservations ex_frozen) \<Longrightarrow> reserved_in ''k1'' ex_frozen v" for v
    by (auto simp: ex_frozen_def ex_defs reserved_in_def find_recipient_def)
  note P = expiry_releases_the_reservations [OF e]
  have "v \<notin> set (tb_reservations db)" for v
  proof
    assume v: "v \<in> set (tb_reservations db)"
    then have r: "v \<in> set (tb_reservations ex_frozen)" using P by blast
    then have "\<forall>k \<in> set (tb_campaigns ex_frozen). expired_frozen 9000 k \<longrightarrow> \<not> reserved_in (ca_id k) ex_frozen v"
      using P v by blast
    then show False using x res [OF r] by simp
  qed
  then have "tb_reservations db = []" by (meson list.set_sel(1))
  then show ?thesis using e by blast
qed

end
