(* ===== verification/Adapter.thy ===== *)
theory Adapter
  imports Store
begin

text \<open>
  The adapter that talks to the provider, \<open>packages/tiktok-adapter/src/real-outbound.ts\<close> and
  \<open>signing.ts\<close>, and the sending and paging of the mock adapter in \<open>index.ts\<close>. The network is a
  parameter: \<open>ad_fetch\<close> gives the response to a request, or none when \<open>fetch\<close> throws; so are the hash
  functions and \<open>Date.parse\<close>. Texts are the bytes of their UTF-8 form. A provider code that is no
  integer, which no documented answer has, counts as absent.
\<close>

section \<open>Signing\<close>

text \<open>\<open>sg_query\<close> holds the parameters in the order of \<open>Object.entries\<close>, each as \<open>String(value)\<close>.\<close>

record SigningInput =
  sg_path :: string
  sg_query :: "(string \<times> string option) list"
  sg_body :: "string option"
  sg_contentType :: "string option"
  sg_appSecret :: string

definition signed_parameters :: "(string \<times> string option) list \<Rightarrow> (string \<times> string) list" where
  "signed_parameters query = js_sort (\<lambda>a b. locale_compare (fst a) (fst b))
     (map (\<lambda>(k, v). (k, the v)) (filter (\<lambda>(k, v). k \<noteq> ''sign'' \<and> k \<noteq> ''access_token'' \<and> v \<noteq> None) query))"

definition canonical_text :: "SigningInput \<Rightarrow> string" where
  "canonical_text inp = sg_path inp @ concat (map (\<lambda>(k, v). k @ v) (signed_parameters (sg_query inp)))
     @ (if map_option to_lower (sg_contentType inp) \<noteq> Some ''multipart/form-data''
        then (case sg_body inp of None \<Rightarrow> [] | Some b \<Rightarrow> b) else [])"

definition signTikTokShopRequest :: "(string \<Rightarrow> string \<Rightarrow> string) \<Rightarrow> SigningInput \<Rightarrow> string" where
  "signTikTokShopRequest hmac inp = hmac (sg_appSecret inp) (sg_appSecret inp @ canonical_text inp @ sg_appSecret inp)"

section \<open>Reading values of an answer\<close>

definition restrictedCreateCodes :: "int set" where
  "restrictedCreateCodes = {16030001, 16030003, 16030007, 16030009, 16032001, 45101021}"
definition restrictedSendCodes :: "int set" where "restrictedSendCodes = {16030100, 16030101, 16032001}"
definition shopQuotaCodes :: "int set" where "shopQuotaCodes = {16030002, 45101004}"
definition authCodes :: "int set" where "authCodes = {105001, 105002}"
definition permissionCodes :: "int set" where "permissionCodes = {105005}"
definition retryableCodes :: "int set" where "retryableCodes = {36009002, 36009003, 36009007}"

definition asString :: "Json option \<Rightarrow> string option" where
  "asString v = (case v of Some (JStr s) \<Rightarrow> if s \<noteq> [] then Some s else None | _ \<Rightarrow> None)"

definition asNumber :: "Json option \<Rightarrow> int option" where
  "asNumber v = (case v of Some (JNum x) \<Rightarrow> if js_is_integer x then Some \<lfloor>x\<rfloor> else None | _ \<Rightarrow> None)"

definition asObject :: "Json option \<Rightarrow> (string \<times> Json) list" where
  "asObject v = (case v of Some (JObj fs) \<Rightarrow> fs | _ \<Rightarrow> [])"

definition parseRetryAfterMs :: "(string \<Rightarrow> jsnum) \<Rightarrow> string option \<Rightarrow> millis \<Rightarrow> int option" where
  "parseRetryAfterMs dateParse value nowMs =
    (case value of None \<Rightarrow> None
     | Some s \<Rightarrow>
       if js_trim s = [] then None
       else (let milliseconds = (case js_number s of
               Fin x \<Rightarrow> if 0 \<le> x then Fin (x * 1000)
                 else (case dateParse s of Fin t \<Rightarrow> Fin (t - of_int nowMs) | d \<Rightarrow> d)
             | _ \<Rightarrow> (case dateParse s of Fin t \<Rightarrow> Fin (t - of_int nowMs) | d \<Rightarrow> d))
         in case milliseconds of Fin m \<Rightarrow> if 0 \<le> m then Some (min \<lfloor>m\<rfloor> (24 * 60 * 60000)) else None | _ \<Rightarrow> None))"

section \<open>Requests\<close>

definition hex_digit :: "nat \<Rightarrow> bool \<Rightarrow> char" where
  "hex_digit n upper = (if n < 10 then char_of (48 + n) else char_of ((if upper then 55 else 87) + n))"

text \<open>\<open>encodeURIComponent\<close> and \<open>JSON.stringify\<close> of a text.\<close>

definition uri_char :: "char \<Rightarrow> string" where
  "uri_char c = (let n = code_of c
     in if is_digit c \<or> 65 \<le> n \<and> n \<le> 90 \<or> 97 \<le> n \<and> n \<le> 122 \<or> n \<in> {45, 95, 46, 33, 126, 42, 39, 40, 41} then [c]
        else [CHR ''%'', hex_digit (n div 16) True, hex_digit (n mod 16) True])"

definition encodeURIComponent :: "string \<Rightarrow> string" where
  "encodeURIComponent s = concat (map uri_char s)"

definition json_char :: "char \<Rightarrow> string" where
  "json_char c = (let n = code_of c
     in if n = 34 \<or> n = 92 then [CHR 0x5C, c]
        else if n = 8 then [CHR 0x5C, CHR ''b''] else if n = 12 then [CHR 0x5C, CHR ''f'']
        else if n = 10 then [CHR 0x5C, CHR ''n''] else if n = 13 then [CHR 0x5C, CHR ''r'']
        else if n = 9 then [CHR 0x5C, CHR ''t'']
        else if n < 32 then [CHR 0x5C, CHR ''u'', CHR ''0'', CHR ''0'', hex_digit (n div 16) False, hex_digit (n mod 16) False]
        else [c])"

definition json_text :: "string \<Rightarrow> string" where
  "json_text s = [CHR 0x22] @ concat (map json_char s) @ [CHR 0x22]"

record HttpRequest =
  rq_baseUrl :: string
  rq_path :: string
  rq_query :: "(string \<times> string) list"
  rq_accessToken :: string
  rq_body :: string

text \<open>\<open>hr_body\<close> is \<open>None\<close> when the body is no JSON.\<close>

record HttpResponse =
  hr_status :: int
  hr_requestId :: "string option"
  hr_retryAfter :: "string option"
  hr_body :: "Json option"

record AdapterOptions =
  ad_baseUrl :: string
  ad_appKey :: string
  ad_appSecret :: string
  ad_accessToken :: "Err + string"
  ad_shopCipher :: "Err + string"
  ad_fetch :: "HttpRequest \<Rightarrow> HttpResponse option"
  ad_now :: millis
  ad_answeredAt :: millis
  ad_hmac :: "string \<Rightarrow> string \<Rightarrow> string"
  ad_dateParse :: "string \<Rightarrow> jsnum"

definition response_ok :: "HttpResponse \<Rightarrow> bool" where
  "response_ok r \<longleftrightarrow> 200 \<le> hr_status r \<and> hr_status r \<le> 299"

definition outbound_error ::
  "OutboundErrorKind \<Rightarrow> int option \<Rightarrow> ident option \<Rightarrow> string \<Rightarrow> int option \<Rightarrow> int option \<Rightarrow> Err" where
  "outbound_error kind code requestId message retryAfterMs httpStatus = AdapterError
     \<lparr>oer_kind = kind, oer_providerCode = code, oer_requestId = requestId, oer_message = message,
      oer_retryAfterMs = retryAfterMs, oer_httpStatus = httpStatus\<rparr>"

definition rejection_kind :: "Operation \<Rightarrow> int \<Rightarrow> int option \<Rightarrow> OutboundErrorKind" where
  "rejection_kind operation status code =
    (let c = (case code of None \<Rightarrow> - 1 | Some n \<Rightarrow> n)
     in if c \<in> authCodes then AUTH
        else if c \<in> permissionCodes then PERMISSION
        else if c \<in> shopQuotaCodes then QUOTA
        else if c \<in> (if operation = CREATE_CONVERSATION then restrictedCreateCodes else restrictedSendCodes) then RESTRICTED
        else if status = 429 \<or> status \<ge> 500 \<or> c \<in> retryableCodes then RETRYABLE else PROVIDER)"

definition operation_words :: "Operation \<Rightarrow> string" where
  "operation_words operation = (if operation = CREATE_CONVERSATION then ''create conversation'' else ''send message'')"

definition read_response :: "AdapterOptions \<Rightarrow> Operation \<Rightarrow> HttpResponse \<Rightarrow> Err + (string \<times> Json) list" where
  "read_response opts operation r =
    (let headerRequestId = hr_requestId r;
         retryAfterMs = parseRetryAfterMs (ad_dateParse opts) (hr_retryAfter r) (ad_answeredAt opts)
     in case hr_body r of
       None \<Rightarrow>
         if hr_status r = 429
         then Inl (outbound_error RETRYABLE None headerRequestId ''TikTok throttled the request without a JSON body''
           retryAfterMs (Some (hr_status r)))
         else if operation = SEND_MESSAGE
         then Inr ([(''__deliveryUnknown'', JBool True)] @ json_opt ''request_id'' JStr headerRequestId
           @ [(''__httpStatus'', JNum (of_int (hr_status r)))])
         else Inl (outbound_error (if hr_status r \<ge> 500 \<or> hr_status r = 429 then RETRYABLE else MALFORMED_RESPONSE)
           None headerRequestId ''TikTok returned a non-JSON conversation response'' retryAfterMs (Some (hr_status r)))
     | Some body \<Rightarrow>
         (let decoded = asObject (Some body);
              code = asNumber (map_of decoded ''code'');
              requestId = (case asString (map_of decoded ''request_id'') of None \<Rightarrow> headerRequestId | Some i \<Rightarrow> Some i)
          in if response_ok r \<and> code = Some 0
             then Inr (obj_put ''__httpStatus'' (JNum (of_int (hr_status r))) decoded)
             else (let kind = rejection_kind operation (hr_status r) code
               in Inl (outbound_error kind code requestId (''TikTok '' @ operation_words operation @ '' was rejected'')
                    (if kind = RETRYABLE then retryAfterMs else None) (Some (hr_status r))))))"

definition request_of :: "AdapterOptions \<Rightarrow> string \<Rightarrow> string \<Rightarrow> string \<Rightarrow> string \<Rightarrow> HttpRequest" where
  "request_of opts path body cipher token =
    (let query = [(''app_key'', ad_appKey opts), (''timestamp'', show_int (ad_now opts div 1000)), (''shop_cipher'', cipher)];
         sign = signTikTokShopRequest (ad_hmac opts) \<lparr>sg_path = path, sg_query = map (\<lambda>(k, v). (k, Some v)) query,
           sg_body = Some body, sg_contentType = Some ''application/json'', sg_appSecret = ad_appSecret opts\<rparr>
     in \<lparr>rq_baseUrl = ad_baseUrl opts, rq_path = path, rq_query = query @ [(''sign'', sign)],
         rq_accessToken = token, rq_body = body\<rparr>)"

text \<open>The access token is read inside the \<open>try\<close> of the request: its error counts as no response.\<close>

definition fetched :: "AdapterOptions \<Rightarrow> string \<Rightarrow> string \<Rightarrow> string \<Rightarrow> HttpResponse option" where
  "fetched opts path body cipher = (case ad_accessToken opts of Inl _ \<Rightarrow> None
     | Inr token \<Rightarrow> ad_fetch opts (request_of opts path body cipher token))"

definition request :: "AdapterOptions \<Rightarrow> Operation \<Rightarrow> string \<Rightarrow> string \<Rightarrow> Err + (string \<times> Json) list" where
  "request opts operation path body =
    (case ad_shopCipher opts of Inl e \<Rightarrow> Inl e
     | Inr cipher \<Rightarrow> (case fetched opts path body cipher of
         None \<Rightarrow>
           if operation = SEND_MESSAGE then Inr [(''__deliveryUnknown'', JBool True)]
           else Inl (outbound_error RETRYABLE None None ''TikTok conversation request did not receive a response'' None None)
       | Some r \<Rightarrow> read_response opts operation r))"

definition createOrGetConversation :: "AdapterOptions \<Rightarrow> ident \<Rightarrow> Err + ident \<times> bool" where
  "createOrGetConversation opts creatorOpenId =
    (case request opts CREATE_CONVERSATION ''/affiliate_seller/202508/conversations''
       (''{'' @ json_text ''creator_open_id'' @ '':'' @ json_text creatorOpenId @ '','' @ json_text ''only_need_conversation_id'' @ '':true}'') of
       Inl e \<Rightarrow> Inl e
     | Inr response \<Rightarrow>
         (let data = asObject (map_of response ''data'')
          in case asString (map_of data ''conversation_id'') of
               None \<Rightarrow> Inl (outbound_error MALFORMED_RESPONSE (Some 0) (asString (map_of response ''request_id''))
                 ''TikTok did not return a conversation ID'' None (asNumber (map_of response ''__httpStatus'')))
             | Some conversationId \<Rightarrow> Inr (conversationId, map_of data ''is_new'' = Some (JBool True))))"

definition string_or :: "string \<Rightarrow> string option \<Rightarrow> string" where
  "string_or fallback s = (case s of None \<Rightarrow> fallback | Some t \<Rightarrow> t)"

definition send_path :: "ident \<Rightarrow> string" where
  "send_path conversationId = ''/affiliate_seller/202412/conversations/'' @ encodeURIComponent conversationId @ ''/messages''"

definition send_body :: "string \<Rightarrow> string" where
  "send_body content = ''{'' @ json_text ''msg_type'' @ '':'' @ json_text ''TEXT'' @ '','' @ json_text ''content'' @ '':''
     @ json_text (''{'' @ json_text ''content'' @ '':'' @ json_text content @ ''}'') @ ''}''"

definition sendMessage :: "AdapterOptions \<Rightarrow> ident \<Rightarrow> string \<Rightarrow> SendOutcome" where
  "sendMessage opts conversationId content =
    (case request opts SEND_MESSAGE (send_path conversationId) (send_body content) of
       Inr response \<Rightarrow>
         (let requestId = string_or ''unknown-request'' (asString (map_of response ''request_id''));
              httpStatus = asNumber (map_of response ''__httpStatus'')
          in if map_of response ''__deliveryUnknown'' = Some (JBool True) then Answered (MessageUnknown requestId httpStatus)
             else (case asString (map_of (asObject (map_of response ''data'')) ''message_id'') of
                 Some messageId \<Rightarrow> Answered (MessageSent messageId requestId httpStatus)
               | None \<Rightarrow> Answered (MessageUnknown requestId httpStatus)))
     | Inl (AdapterError e) \<Rightarrow>
         (let requestId = string_or ''unknown-request'' (oer_requestId e)
          in if oer_kind e = RESTRICTED
             then Answered (MessageRestricted requestId (string_or ''RESTRICTED'' (map_option show_int (oer_providerCode e))) (oer_httpStatus e))
             else if oer_kind e = RETRYABLE
             then Answered (RetryableResult requestId (string_or ''TEMPORARY'' (map_option show_int (oer_providerCode e)))
               (oer_retryAfterMs e) (oer_httpStatus e))
             else Threw (AdapterError e))
     | Inl e \<Rightarrow> Answered (MessageUnknown ''unknown-request'' None))"

section \<open>The mock adapter\<close>

text \<open>
  \<open>numeric\<close> is the number in the last five characters of the Open ID; a text that is no number
  gives \<open>NaN\<close>, whose remainder is never zero. \<open>calls\<close> counts the calls per idempotency key.
\<close>

definition divides_number :: "int \<Rightarrow> jsnum \<Rightarrow> bool" where
  "divides_number k n \<longleftrightarrow> (case n of Fin x \<Rightarrow> js_is_integer (x / of_int k) | _ \<Rightarrow> False)"

definition mock_sendMessage :: "(string \<Rightarrow> string) \<Rightarrow> (string \<Rightarrow> int option) \<Rightarrow> ident \<Rightarrow> string \<Rightarrow> SendOutcome \<times> (string \<Rightarrow> int option)" where
  "mock_sendMessage sha calls creatorOpenId idempotencyKey =
    (let numeric = js_number (drop (length creatorOpenId - 5) creatorOpenId);
         attempt = (case calls idempotencyKey of None \<Rightarrow> 1 | Some n \<Rightarrow> n + 1);
         keyDigest = take 20 (sha idempotencyKey);
         requestId = ''mock_request_'' @ keyDigest @ ''_'' @ show_int attempt
     in (if divides_number 43 numeric then Answered (MessageRestricted requestId ''CREATOR_MESSAGING_RESTRICTED'' None)
         else if divides_number 47 numeric \<and> attempt = 1 then Answered (QuotaLimited requestId ''MOCK_QUOTA_LIMIT'' (Some 1500) None)
         else if divides_number 41 numeric \<and> attempt = 1 then Answered (RetryableResult requestId ''MOCK_TEMPORARY_ERROR'' (Some 750) None)
         else if divides_number 53 numeric \<and> attempt = 1 then Threw (PlainError ''MOCK_NETWORK_TIMEOUT_AFTER_DISPATCH'')
         else if divides_number 37 numeric then Answered (MessageUnknown requestId None)
         else Answered (MessageSent (''mock_message_'' @ keyDigest) requestId None),
        calls(idempotencyKey \<mapsto> attempt)))"

text \<open>A page of \<open>searchCreators\<close>: the items, and the token of the next page when there is one.\<close>

definition mock_page :: "'a list \<Rightarrow> nat \<Rightarrow> nat \<Rightarrow> 'a list \<times> nat option" where
  "mock_page items offset pageSize =
    (let page = take (if pageSize = 0 then 20 else pageSize) (drop offset items);
         next = offset + length page
     in (page, if next < length items then Some next else None))"

section \<open>What the adapter reports\<close>



text \<open>
  A send that the worker will try again was definitively refused: the provider answered, either with
  status 429 or with a JSON body that is no success and whose code or status says so. (The function
  that reads the cipher of the shop throws plain errors and errors of the database only.)
\<close>


text \<open>
  C30. sendMessage reports a message as sent only when the provider answered with a success status
  and a body of code 0 that names the message, and it reports that message id.
\<close>

theorem sent_needs_confirmation:
  assumes "sendMessage opts conversationId content = Answered (MessageSent messageId requestId status)"
  shows "\<exists>cipher r body. ad_shopCipher opts = Inr cipher \<and>
    fetched opts (send_path conversationId) (send_body content) cipher = Some r \<and> response_ok r \<and> hr_body r = Some body \<and>
    asNumber (map_of (asObject (Some body)) ''code'') = Some 0 \<and> messageId \<noteq> [] \<and>
    map_of (asObject (map_of (asObject (Some body)) ''data'')) ''message_id'' = Some (JStr messageId)"
proof -
  have put: "map_of (obj_put k v fs) k' = (if k' = k then Some v else map_of fs k')" for k v k' and fs :: "(string \<times> Json) list"
    by (induction fs) auto
  obtain response where ok: "request opts SEND_MESSAGE (send_path conversationId) (send_body content) = Inr response"
    and unknown: "map_of response ''__deliveryUnknown'' \<noteq> Some (JBool True)"
    and message: "asString (map_of (asObject (map_of response ''data'')) ''message_id'') = Some messageId"
    using assms by (auto simp: sendMessage_def Let_def split: sum.splits Err.splits option.splits if_splits)
  obtain cipher r where r: "ad_shopCipher opts = Inr cipher"
      "fetched opts (send_path conversationId) (send_body content) cipher = Some r"
      "read_response opts SEND_MESSAGE r = Inr response"
    using ok unknown by (auto simp: request_def split: sum.splits option.splits)
  then obtain body where body: "hr_body r = Some body" "response_ok r" "asNumber (map_of (asObject (Some body)) ''code'') = Some 0"
      "response = obj_put ''__httpStatus'' (JNum (of_int (hr_status r))) (asObject (Some body))"
    using unknown by (auto simp: read_response_def Let_def split: option.splits if_splits)
  have "map_of (asObject (map_of (asObject (Some body)) ''data'')) ''message_id'' = Some (JStr messageId) \<and> messageId \<noteq> []"
    using message unfolding body(4) put by (auto simp: asString_def split: option.splits Json.splits if_splits)
  with r body show ?thesis by blast
qed

section \<open>Signatures and delays\<close>

lemma signed_parameters_mset:
  assumes same: "mset query = mset query'" and dist: "distinct (map fst query)"
  shows "signed_parameters query = signed_parameters query'"
  unfolding signed_parameters_def
proof (rule comparator.js_sort_perm_unique [OF comparator_locale_by [where ok = "\<lambda>_. True"]])
  let ?f = "\<lambda>q :: (string \<times> string option) list. map (\<lambda>(k, v). (k, the v)) (filter (\<lambda>(k, v). k \<noteq> ''sign'' \<and> k \<noteq> ''access_token'' \<and> v \<noteq> None) q)"
  show "mset (?f query) = mset (?f query')" by (simp add: same)
  have "v = w" if "(k, v) \<in> set query" "(k, w) \<in> set query" for k v w
    using distinct_map_eqD [OF dist that] by simp
  then show "\<forall>x \<in> set (?f query). \<forall>y \<in> set (?f query). locale_compare (fst x) (fst y) = 0 \<longrightarrow> x = y"
    by fastforce
qed simp

text \<open>
  The signature of a request does not depend on the order in which its query parameters are
  given.
\<close>

theorem signature_ignores_parameter_order:
  assumes "mset (sg_query inp) = mset query" "distinct (map fst (sg_query inp))"
  shows "signTikTokShopRequest hmac (inp\<lparr>sg_query := query\<rparr>) = signTikTokShopRequest hmac inp"
proof -
  have "canonical_text (inp\<lparr>sg_query := query\<rparr>) = canonical_text inp"
    unfolding canonical_text_def using signed_parameters_mset [OF assms] by auto
  then show ?thesis by (simp add: signTikTokShopRequest_def)
qed

lemma parseRetryAfterMs_bounds: "parseRetryAfterMs d value now = Some ms \<Longrightarrow> 0 \<le> ms \<and> ms \<le> 24 * 60 * 60000"
  by (auto simp: parseRetryAfterMs_def Let_def le_floor_iff split: option.splits if_splits jsnum.splits)

section \<open>Witnesses\<close>

definition example_adapter :: "HttpResponse option \<Rightarrow> AdapterOptions" where
  "example_adapter r = \<lparr>ad_baseUrl = ''https://b'', ad_appKey = ''k'', ad_appSecret = ''s'', ad_accessToken = Inr ''t'',
     ad_shopCipher = Inr ''c'', ad_fetch = (\<lambda>_. r), ad_now = 5000, ad_answeredAt = 6000, ad_hmac = (\<lambda>k m. k @ m), ad_dateParse = (\<lambda>_. NaN)\<rparr>"


definition sent_response :: HttpResponse where
  "sent_response = \<lparr>hr_status = 200, hr_requestId = Some ''q'', hr_retryAfter = None,
     hr_body = Some (JObj [(''code'', JNum 0), (''data'', JObj [(''message_id'', JStr ''m'')])])\<rparr>"


lemma example_sent:
  "sendMessage (example_adapter (Some sent_response)) ''v'' ''hi'' = Answered (MessageSent ''m'' ''unknown-request'' (Some 200))"
  by (simp add: sendMessage_def request_def fetched_def example_adapter_def read_response_def sent_response_def response_ok_def
      asObject_def asNumber_def asString_def js_is_integer_def string_or_def parseRetryAfterMs_def)


lemma sent_needs_confirmation_witness:
  "\<exists>r. fetched (example_adapter (Some sent_response)) (send_path ''v'') (send_body ''hi'') ''c'' = Some r \<and> response_ok r"
  using sent_needs_confirmation [OF example_sent] by (auto simp: example_adapter_def)

lemma signature_ignores_parameter_order_witness:
  "signTikTokShopRequest (\<lambda>k m. k @ m) \<lparr>sg_path = ''/p'', sg_query = [(''b'', Some ''2''), (''a'', Some ''1'')], sg_body = None,
     sg_contentType = None, sg_appSecret = ''s''\<rparr> =
   signTikTokShopRequest (\<lambda>k m. k @ m) \<lparr>sg_path = ''/p'', sg_query = [(''a'', Some ''1''), (''b'', Some ''2'')], sg_body = None,
     sg_contentType = None, sg_appSecret = ''s''\<rparr>"
  using signature_ignores_parameter_order [of "\<lparr>sg_path = ''/p'', sg_query = [(''a'', Some ''1''), (''b'', Some ''2'')], sg_body = None,
     sg_contentType = None, sg_appSecret = ''s''\<rparr>" "[(''b'', Some ''2''), (''a'', Some ''1'')]" "\<lambda>k m. k @ m"]
  by simp

end
