(* ===== verification/Preview.thy ===== *)
theory Preview
  imports Campaign Adapter "HOL-Library.Sublist"
begin

text \<open>
  The preview of a campaign: \<open>rebuildFromCreatorDatabase\<close>, \<open>discover\<close>, \<open>cancelDiscovery\<close>,
  \<open>cloneFromPreview\<close> and the progress report of \<open>get\<close> in \<open>apps/api/src/outreach/outreach.service.ts\<close>,
  \<open>rebuildLocalPreview\<close> in \<open>local-preview.ts\<close> and \<open>publicDiscoveryRun\<close> in \<open>discovery-processor.ts\<close>.
  Creators are read page by page, each page by a query of its own; \<open>pages\<close> bounds the pages a run may
  read, and \<open>creator_pages_are_complete\<close> shows how many are enough. A decimal is stored as the number
  it stands for, and a ranking value that is no finite number makes the insertion fail.
\<close>

section \<open>Reading the creator database\<close>

record DatabaseCandidate = StoredCandidate +
  dc_creatorId :: ident
  dc_sourceFetchedAt :: millis

definition verified_identifiers :: "ident \<Rightarrow> Tables \<Rightarrow> ident list" where
  "verified_identifiers creatorId db = map pv_identifier (filter
     (\<lambda>p. pv_creatorId p = creatorId \<and> pv_provider p = ''TIKTOK_SHOP'' \<and> pv_identityType p = ''TIKTOK_CREATOR_OPEN_ID''
        \<and> pv_linkState p = ''VERIFIED'') (tb_identities db))"

definition shop_snapshots :: "ident \<Rightarrow> ident \<Rightarrow> Tables \<Rightarrow> Snapshot list" where
  "shop_snapshots shopId creatorId db = js_sort
     (cmp_then (\<lambda>a b. cmp_by sn_sourceFetchedAt b a) (\<lambda>a b. locale_compare (sn_id b) (sn_id a)))
     (filter (\<lambda>s. sn_creatorId s = creatorId \<and> sn_shopId s = Some shopId) (tb_snapshots db))"

definition first_row :: "'a list \<Rightarrow> 'a option" where
  "first_row xs = (case xs of [] \<Rightarrow> None | x # _ \<Rightarrow> Some x)"

text \<open>The creators the query selects, in its order.\<close>

definition creator_rows :: "ident \<Rightarrow> Tables \<Rightarrow> Creator list" where
  "creator_rows shopId db = js_sort (\<lambda>a b. locale_compare (cr_id a) (cr_id b))
     (filter (\<lambda>c. cr_creatorOpenId c \<noteq> None \<and> verified_identifiers (cr_id c) db \<noteq> [] \<and> shop_snapshots shopId (cr_id c) db \<noteq> [])
       (tb_creators db))"

definition PAGE_SIZE :: nat where "PAGE_SIZE = 1000"

text \<open>\<open>cursor: \{ id \}, skip: 1, take\<close>: the rows after the one with the id.\<close>

definition page_after :: "ident option \<Rightarrow> Creator list \<Rightarrow> Creator list" where
  "page_after cursor rows = take PAGE_SIZE (case cursor of None \<Rightarrow> rows | Some i \<Rightarrow> drop 1 (dropWhile (\<lambda>c. cr_id c \<noteq> i) rows))"

definition json_strings :: "Json option \<Rightarrow> string list option" where
  "json_strings j = (case j of Some (JArr xs) \<Rightarrow> Some (List.map_filter (\<lambda>x. case x of JStr s \<Rightarrow> Some s | _ \<Rightarrow> None) xs) | _ \<Rightarrow> None)"

definition json_string :: "Json option \<Rightarrow> string option" where
  "json_string j = (case j of Some (JStr s) \<Rightarrow> Some s | _ \<Rightarrow> None)"

definition json_number :: "Json option \<Rightarrow> real option" where
  "json_number j = (case j of Some (JNum x) \<Rightarrow> Some x | _ \<Rightarrow> None)"

text \<open>\<open>raw.liveGmv as Money\<close>; what is no object with two texts is read as absent.\<close>

definition json_money :: "Json option \<Rightarrow> Money option" where
  "json_money j = (case j of Some (JObj fs) \<Rightarrow>
       (case (map_of fs ''amount'', map_of fs ''currency'') of
          (Some (JStr a), Some (JStr c)) \<Rightarrow> Some \<lparr>m_amount = a, m_currency = c\<rparr> | _ \<Rightarrow> None)
     | _ \<Rightarrow> None)"

definition contact_state :: "Contact option \<Rightarrow> ContactState" where
  "contact_state contact = (case contact of
       None \<Rightarrow> \<lparr>cs_lastContactedAt = None, cs_firstContactedAt = None, cs_contactCount = 0, cs_doNotContact = False,
         cs_unresolvedDelivery = False, cs_historical = False\<rparr>
     | Some c \<Rightarrow> \<lparr>cs_lastContactedAt = ct_lastContactedAt c, cs_firstContactedAt = ct_firstContactedAt c,
         cs_contactCount = ct_contactCount c, cs_doNotContact = ct_doNotContact c, cs_unresolvedDelivery = ct_unresolvedDelivery c,
         cs_historical = (ct_historyCoverageStart c \<noteq> None \<and> \<not> Domain.truthy (ct_lastCampaignId c))\<rparr>)"

definition snapshot_candidate :: "Creator \<Rightarrow> ident \<Rightarrow> Snapshot \<Rightarrow> DatabaseCandidate" where
  "snapshot_candidate c openId s =
    (let raw = object_fields (sn_rawPayload s) in
     \<lparr>cc_creatorOpenId = openId, cc_creatorUserId = cr_creatorUserId c, cc_username = cr_username c, cc_nickname = cr_nickname c,
      cc_categoryIds = (case json_strings (Some (sn_categoryIds s)) of None \<Rightarrow> [] | Some xs \<Rightarrow> xs),
      cc_followerCount = sn_followerCount s,
      cc_gmv = (case (sn_gmvAmount s, sn_gmvCurrency s) of
         (Some a, Some cur) \<Rightarrow> if cur \<noteq> [] then Some \<lparr>m_amount = a, m_currency = cur\<rparr> else None | _ \<Rightarrow> None),
      cc_unitsSold = sn_unitsSold s, cc_avgVideoViews = sn_avgVideoViews s, cc_avgLiveViewers = sn_avgLiveViewers s,
      cc_engagementRate = sn_engagementRate s, cc_avatarUrl = cr_avatarUrl c,
      cc_liveGmv = json_money (map_of raw ''liveGmv''), cc_videoGmv = json_money (map_of raw ''videoGmv''),
      cc_gmvRange = json_string (map_of raw ''gmvRange''), cc_topAgeRanges = json_strings (map_of raw ''topAgeRanges''),
      cc_majorGender = json_string (map_of raw ''majorGender''),
      cc_majorGenderPercentage = json_number (map_of raw ''majorGenderPercentage''),
      cc_selectionRegion = cr_selectionRegion c, cc_discoveryOrdinal = 0,
      dc_snapshotId = Some (sn_id s), dc_creatorId = cr_id c, dc_sourceFetchedAt = sn_sourceFetchedAt s\<rparr>)"

definition database_candidate :: "ident \<Rightarrow> Tables \<Rightarrow> Creator \<Rightarrow> (DatabaseCandidate \<times> ContactState) option" where
  "database_candidate shopId db c =
    (case (cr_creatorOpenId c, first_row (shop_snapshots shopId (cr_id c) db)) of
       (Some openId, Some s) \<Rightarrow>
         if openId \<noteq> [] \<and> openId \<in> set (verified_identifiers (cr_id c) db)
         then Some (snapshot_candidate c openId s, contact_state (find_contact shopId (cr_id c) db)) else None
     | _ \<Rightarrow> None)"

text \<open>One page: the candidates on it, the id of its last creator and whether it was full.\<close>

definition read_page :: "ident \<Rightarrow> ident option \<Rightarrow> Tables \<Rightarrow> (DatabaseCandidate \<times> ContactState) list \<times> ident option" where
  "read_page shopId cursor db =
    (let page = page_after cursor (creator_rows shopId db)
     in (List.map_filter (database_candidate shopId db) page,
         if length page < PAGE_SIZE then None else Some (cr_id (last page))))"

fun load_candidates :: "nat \<Rightarrow> ident \<Rightarrow> ident option \<Rightarrow> (DatabaseCandidate \<times> ContactState) list \<Rightarrow>
    (DatabaseCandidate \<times> ContactState) list prog" where
  "load_candidates 0 shopId cursor acc = Throw Stopped"
| "load_candidates (Suc pages) shopId cursor acc =
    p_bind (transact (\<lambda>env. tx_read (read_page shopId cursor))) (\<lambda>(found, next).
      case next of None \<Rightarrow> Return (acc @ found)
      | Some i \<Rightarrow> load_candidates pages shopId (Some i) (acc @ found))"

text \<open>The newest snapshots first, ties by the Open ID; the place is the ordinal.\<close>

definition newest_first :: "DatabaseCandidate \<Rightarrow> DatabaseCandidate \<Rightarrow> int" where
  "newest_first = cmp_then (\<lambda>a b. cmp_by dc_sourceFetchedAt b a) (\<lambda>a b. locale_compare (cc_creatorOpenId a) (cc_creatorOpenId b))"

definition numbered :: "DatabaseCandidate list \<Rightarrow> DatabaseCandidate list" where
  "numbered cs = map (\<lambda>(i, c). c\<lparr>cc_discoveryOrdinal := int i\<rparr>) (List.enumerate 0 (js_sort newest_first cs))"

section \<open>The preview of the candidates\<close>

definition active_open_ids :: "ident \<Rightarrow> millis \<Rightarrow> Tables \<Rightarrow> ident list" where
  "active_open_ids shopId now db = List.map_filter
     (\<lambda>v. if rv_shopId v = shopId \<and> rv_expiresAt v > now
        then (case find_creator (rv_creatorId v) db of None \<Rightarrow> None
          | Some c \<Rightarrow> if Domain.truthy (cr_creatorOpenId c) then cr_creatorOpenId c else None)
        else None) (tb_reservations db)"

definition preview_input :: "Campaign \<Rightarrow> CreatorCandidate list \<Rightarrow> (ident \<rightharpoonup> ContactState) \<Rightarrow> ident list \<Rightarrow> int \<Rightarrow> millis \<Rightarrow> bool \<Rightarrow> PreviewInput" where
  "preview_input campaign creators contacts active requested now hasMore =
    \<lparr>pi_creators = creators, pi_filters = ca_filters campaign, pi_contacts = contacts, pi_activeReservations = set active,
     pi_requested = requested, pi_cooldownDays = of_int (ca_cooldownDays campaign), pi_rankingMetric = ca_rankingMetric campaign,
     pi_rankingDirection = Some (ca_rankingDirection campaign), pi_now = now, pi_truncated = hasMore\<rparr>"

definition from_result :: "'a result \<Rightarrow> Err + 'a" where
  "from_result r = (case r of Inl m \<Rightarrow> Inl (PlainError m) | Inr a \<Rightarrow> Inr a)"

definition tx_from :: "Err + 'a \<Rightarrow> 'a tx" where
  "tx_from r = (case r of Inl e \<Rightarrow> tx_throw e | Inr a \<Rightarrow> tx_return a)"

text \<open>Contacts whose creator is not known by an Open ID: how many, and how often they were contacted.\<close>

definition unresolved_contacts :: "ident \<Rightarrow> Tables \<Rightarrow> Contact list" where
  "unresolved_contacts shopId db = filter (\<lambda>c. ct_shopId c = shopId \<and> ct_contactCount c > 0 \<and>
     (case find_creator (ct_creatorId c) db of None \<Rightarrow> False | Some k \<Rightarrow> cr_creatorOpenId k = None)) (tb_contacts db)"

definition summary_fields :: "PreviewSummary \<Rightarrow> (string \<times> Json) list" where
  "summary_fields s =
    (let n = (\<lambda>i. JNum (of_int i)) in
     [(''requested'', n (ps_requested s)), (''fetchedOccurrences'', n (ps_fetchedOccurrences s)),
      (''excludedByFilter'', n (ps_excludedByFilter s)), (''skippedDuplicates'', n (ps_skippedDuplicates s)),
      (''skippedDoNotContact'', n (ps_skippedDoNotContact s)), (''skippedUnknownDelivery'', n (ps_skippedUnknownDelivery s)),
      (''skippedCooldown'', n (ps_skippedCooldown s)), (''skippedActiveReservation'', n (ps_skippedActiveReservation s)),
      (''eligible'', n (ps_eligible s)), (''selected'', n (ps_selected s)), (''shortfall'', n (ps_shortfall s)),
      (''truncated'', JBool (ps_truncated s)),
      (''gmvCurrencyCounts'', JObj (map (\<lambda>(k, i). (k, n i)) (ps_gmvCurrencyCounts s))),
      (''gmvMixedCurrency'', JBool (ps_gmvMixedCurrency s))]
     @ json_opt ''expectedGmvCurrency'' JStr (ps_expectedGmvCurrency s)
     @ [(''gmvExcludedCurrencyMismatch'', n (ps_gmvExcludedCurrencyMismatch s))])"

definition history_fields :: "Contact list \<Rightarrow> (string \<times> Json) list" where
  "history_fields unresolved =
    [(''historyIdentityCoverageIncomplete'', JBool (unresolved \<noteq> [])),
     (''unresolvedHistoricalCreators'', JNum (of_int (int (length unresolved)))),
     (''unresolvedHistoricalOutboundContacts'', JNum (of_int (sum_list (map ct_contactCount unresolved))))]"

definition retained_creators :: "int \<Rightarrow> EvaluatedCreator list \<Rightarrow> EvaluatedCreator list" where
  "retained_creators candidateLimit creators =
    (let selected = filter ev_selected creators; selectedIds = set (map cc_creatorOpenId selected)
     in slice_to candidateLimit (selected @ filter (\<lambda>e. cc_creatorOpenId e \<notin> selectedIds) creators))"

fun with_candidates :: "DatabaseCandidate list \<Rightarrow> EvaluatedCreator list \<Rightarrow> Err + (EvaluatedCreator \<times> DatabaseCandidate) list" where
  "with_candidates cs [] = Inr []"
| "with_candidates cs (e # es) =
    (case List.find (\<lambda>c. cc_creatorOpenId c = cc_creatorOpenId e) (rev cs) of
       None \<Rightarrow> Inl (PlainError ''Cannot destructure undefined'')
     | Some c \<Rightarrow> (case with_candidates cs es of Inl x \<Rightarrow> Inl x | Inr rest \<Rightarrow> Inr ((e, c) # rest)))"

section \<open>rebuildFromCreatorDatabase\<close>

fun skip_name :: "SkipReason \<Rightarrow> string" where
  "skip_name INVALID_MESSAGING_ID = ''INVALID_MESSAGING_ID''" | "skip_name FILTER_MISMATCH = ''FILTER_MISMATCH''"
| "skip_name DUPLICATE = ''DUPLICATE''" | "skip_name DO_NOT_CONTACT = ''DO_NOT_CONTACT''"
| "skip_name SkipReason.DELIVERY_UNKNOWN = ''DELIVERY_UNKNOWN''" | "skip_name COOLDOWN = ''COOLDOWN''"
| "skip_name CONTACTED_BY_APP_WITHIN_COOLDOWN = ''CONTACTED_BY_APP_WITHIN_COOLDOWN''"
| "skip_name ACTIVE_RESERVATION = ''ACTIVE_RESERVATION''"

definition new_recipient :: "ident \<Rightarrow> ident \<Rightarrow> ident \<Rightarrow> ident \<Rightarrow> EvaluatedCreator \<Rightarrow> int \<Rightarrow> real \<Rightarrow> Recipient" where
  "new_recipient i campaignId creatorId snapshotId e ordinal ranking =
    \<lparr>rc_id = i, rc_campaignId = campaignId, rc_creatorId = creatorId, rc_discoveryOrdinal = ordinal,
     rc_eligibility = ev_eligibility e, rc_skipReason = map_option skip_name (ev_skipReason e), rc_skipDetail = ev_skipDetail e,
     rc_rankingValue = ranking, rc_selected = ev_selected e, rc_frozenMessage = None, rc_contentHash = None,
     rc_creatorOpenIdSnapshot = None, rc_recipientSnapshot = None, rc_frozenRank = None,
     rc_state = (if ev_selected e then SELECTED else if ev_eligibility e = Eligibility.ELIGIBLE then RecipientState.ELIGIBLE else DISCOVERED),
     rc_snapshotId = snapshotId\<rparr>"

text \<open>Deleting recipients deletes what belongs to them, as the schema's cascades say.\<close>

definition delete_recipients :: "ident \<Rightarrow> unit tx" where
  "delete_recipients campaignId = tx_modify (\<lambda>db.
    (let gone = set (map rc_id (filter (\<lambda>r. rc_campaignId r = campaignId) (tb_recipients db)));
         goneDeliveries = set (map dl_id (filter (\<lambda>d. dl_campaignRecipientId d \<in> gone) (tb_deliveries db)))
     in db\<lparr>tb_recipients := del_where (\<lambda>r. rc_campaignId r = campaignId) (tb_recipients db),
         tb_reservations := del_where (\<lambda>v. rv_campaignRecipientId v \<in> gone) (tb_reservations db),
         tb_deliveries := del_where (\<lambda>d. dl_campaignRecipientId d \<in> gone) (tb_deliveries db),
         tb_outbox := del_where (\<lambda>e. ob_deliveryId e \<in> goneDeliveries) (tb_outbox db),
         tb_attempts := del_where (\<lambda>a. at_deliveryId a \<in> goneDeliveries) (tb_attempts db),
         tb_runs := del_where (\<lambda>r. rr_deliveryId r \<in> goneDeliveries) (tb_runs db)\<rparr>))"

definition delete_discovery :: "ident \<Rightarrow> unit tx" where
  "delete_discovery campaignId = tx_modify (\<lambda>db.
    (let gone = set (map dr_id (filter (\<lambda>r. dr_campaignId r = campaignId) (tb_discoveryRuns db)))
     in db\<lparr>tb_discoveryRuns := del_where (\<lambda>r. dr_campaignId r = campaignId) (tb_discoveryRuns db),
         tb_candidates := del_where (\<lambda>k. dk_discoveryRunId k \<in> gone) (tb_candidates db)\<rparr>))"

definition create_run :: "DiscoveryRun \<Rightarrow> unit tx" where
  "create_run run =
    tx_bind (tx_read (\<lambda>db. list_ex (\<lambda>r. dr_id r = dr_id run \<or> dr_campaignId r = dr_campaignId run) (tb_discoveryRuns db))) (\<lambda>clash.
    tx_bind (tx_guard (\<not> clash) (DbError UniqueViolation)) (\<lambda>_.
    tx_modify (\<lambda>db. db\<lparr>tb_discoveryRuns := tb_discoveryRuns db @ [run]\<rparr>)))"

definition create_candidates :: "DiscoveryCandidate list \<Rightarrow> unit tx" where
  "create_candidates rows =
    tx_bind (tx_read (\<lambda>db. distinct (map (\<lambda>k. (dk_discoveryRunId k, dk_creatorOpenId k)) (tb_candidates db @ rows)))) (\<lambda>ok.
    tx_bind (tx_guard ok (DbError UniqueViolation)) (\<lambda>_.
    tx_modify (\<lambda>db. db\<lparr>tb_candidates := tb_candidates db @ rows\<rparr>)))"

definition create_recipients :: "Recipient list \<Rightarrow> unit tx" where
  "create_recipients rows =
    tx_bind (tx_read (\<lambda>db. distinct (map rc_id rows) \<and> distinct (map (\<lambda>r. (rc_campaignId r, rc_creatorId r)) rows) \<and>
       \<not> list_ex (\<lambda>r. list_ex (\<lambda>x. rc_id x = rc_id r \<or> rc_campaignId x = rc_campaignId r \<and> rc_creatorId x = rc_creatorId r)
          (tb_recipients db)) rows)) (\<lambda>ok.
    tx_bind (tx_guard ok (DbError UniqueViolation)) (\<lambda>_.
    tx_modify (\<lambda>db. db\<lparr>tb_recipients := tb_recipients db @ rows\<rparr>)))"

definition new_run :: "ident \<Rightarrow> Campaign \<Rightarrow> int \<Rightarrow> int \<Rightarrow> bool \<Rightarrow> millis \<Rightarrow> DiscoveryRun" where
  "new_run i campaign requested fetchedCount hasMore now =
    \<lparr>dr_id = i, dr_campaignId = ca_id campaign, dr_shopId = ca_shopId campaign, dr_state = DiscoveryRunState.RUNNING,
     dr_requestedTarget = requested, dr_candidateLimit = ca_candidateLimit campaign, dr_pagesFetched = 0,
     dr_candidatesFetched = fetchedCount, dr_nextAttemptAt = None, dr_consecutiveThrottleCount = 0, dr_totalProviderRequests = 0,
     dr_lastProviderCode = None, dr_failureCategory = None, dr_providerHasMore = hasMore, dr_leaseId = None,
     dr_leaseExpiresAt = None, dr_createdAt = now, dr_updatedAt = now, dr_completedAt = None\<rparr>"

definition finished_run :: "millis \<Rightarrow> DiscoveryRun \<Rightarrow> DiscoveryRun" where
  "finished_run now r = r\<lparr>dr_state := COMPLETE, dr_completedAt := Some now, dr_nextAttemptAt := None, dr_leaseId := None,
     dr_leaseExpiresAt := None, dr_updatedAt := now\<rparr>"

definition finish_run :: "ident \<Rightarrow> millis \<Rightarrow> unit tx" where
  "finish_run i now = tx_modify (\<lambda>db. db\<lparr>tb_discoveryRuns := upd_where (\<lambda>r. dr_id r = i) (finished_run now) (tb_discoveryRuns db)\<rparr>)"

definition decimal_of :: "jsnum \<Rightarrow> Err + real" where
  "decimal_of x = (case x of Fin r \<Rightarrow> Inr r | _ \<Rightarrow> Inl (PlainError ''numeric field overflow''))"

fun recipient_rows :: "ident \<Rightarrow> (nat \<Rightarrow> ident) \<Rightarrow> nat \<Rightarrow> (EvaluatedCreator \<times> DatabaseCandidate) list \<Rightarrow> Err + Recipient list" where
  "recipient_rows campaignId fresh k [] = Inr []"
| "recipient_rows campaignId fresh k ((e, c) # rest) =
    (case decimal_of (ev_rankingValue e) of Inl x \<Rightarrow> Inl x
     | Inr ranking \<Rightarrow> (case recipient_rows campaignId fresh (k + 1) rest of Inl x \<Rightarrow> Inl x
        | Inr rows \<Rightarrow> Inr (new_recipient (fresh k) campaignId (dc_creatorId c) (case dc_snapshotId c of None \<Rightarrow> [] | Some i \<Rightarrow> i) e
            (cc_discoveryOrdinal c) ranking # rows)))"

text \<open>The persisted candidate: all of it but the creator and the date of the snapshot.\<close>

definition stored_candidate :: "ident \<Rightarrow> EvaluatedCreator \<times> DatabaseCandidate \<Rightarrow> DiscoveryCandidate" where
  "stored_candidate runId = (\<lambda>(e, c). \<lparr>dk_discoveryRunId = runId, dk_creatorOpenId = cc_creatorOpenId c,
     dk_discoveryOrdinal = cc_discoveryOrdinal c, dk_candidate = StoredCandidate.truncate c\<rparr>)"

text \<open>
  The transaction (lines 193 to 237). It looks at no state of the campaign: it replaces the
  recipients whatever has become of them since \<open>discover\<close> read the campaign.
\<close>

definition rebuild_tx ::
  "Campaign \<Rightarrow> int \<Rightarrow> (EvaluatedCreator \<times> DatabaseCandidate) list \<Rightarrow> (string \<times> Json) list \<Rightarrow> (nat \<Rightarrow> ident) \<Rightarrow> millis \<Rightarrow> DiscoveryRun tx" where
  "rebuild_tx campaign fetchedCount retained summary fresh now =
    (let run = new_run (fresh 0) campaign (ca_targetCount campaign) fetchedCount False now in
     tx_bind (delete_discovery (ca_id campaign)) (\<lambda>_.
     tx_bind (delete_recipients (ca_id campaign)) (\<lambda>_.
     tx_bind (update_campaign (ca_id campaign) (\<lambda>c. c\<lparr>ca_state := DISCOVERING, ca_version := ca_version c + 1\<rparr>)) (\<lambda>_.
     tx_bind (create_run run) (\<lambda>_.
     tx_bind (create_candidates (map (stored_candidate (dr_id run)) retained)) (\<lambda>_.
     tx_bind (tx_from (recipient_rows (ca_id campaign) fresh 1 retained)) (\<lambda>rows.
     tx_bind (create_recipients rows) (\<lambda>_.
     tx_bind (audit (ca_shopId campaign) (ca_id campaign) ''LOCAL_CREATOR_DATABASE_FILTERED''
       (JObj [(''creatorDatabaseSize'', JNum (of_int fetchedCount)), (''persistedCandidates'', JNum (of_int (int (length retained)))),
         (''providerRequests'', JNum 0)])) (\<lambda>_.
     tx_bind (update_campaign (ca_id campaign) (\<lambda>c. c\<lparr>ca_state := PREVIEW_READY, ca_summary := JObj summary,
       ca_version := ca_version c + 1\<rparr>)) (\<lambda>_.
     tx_bind (finish_run (dr_id run) now) (\<lambda>_.
     tx_bind (audit (ca_shopId campaign) (ca_id campaign) ''PREVIEW_READY'' (JObj summary)) (\<lambda>_.
     tx_return (finished_run now run)))))))))))))"

text \<open>What is computed between the queries and the transaction.\<close>

definition build_local ::
  "Campaign \<Rightarrow> (DatabaseCandidate \<times> ContactState) list \<Rightarrow> ident list \<Rightarrow> millis \<Rightarrow>
   Err + PreviewResult \<times> (EvaluatedCreator \<times> DatabaseCandidate) list" where
  "build_local campaign found active now =
    (let candidates = numbered (map fst found);
         contacts = map_of (rev (map (\<lambda>(c, k). (cc_creatorOpenId c, k)) found))
     in if candidates = []
        then Inl (HttpError BadRequest ''Creator database is empty; import or sync creators before creating an Outreach preview'')
        else (case from_result (buildPreview (preview_input campaign (map CreatorCandidate.truncate candidates) contacts active
                (ca_targetCount campaign) now False)) of
            Inl x \<Rightarrow> Inl x
          | Inr preview \<Rightarrow> (case with_candidates candidates (retained_creators (ca_candidateLimit campaign) (pr_creators preview)) of
              Inl x \<Rightarrow> Inl x | Inr retained \<Rightarrow> Inr (preview, retained))))"

definition rebuildFromCreatorDatabase :: "nat \<Rightarrow> Campaign \<Rightarrow> DiscoveryRun prog" where
  "rebuildFromCreatorDatabase pages campaign =
    p_bind (load_candidates pages (ca_shopId campaign) None []) (\<lambda>found.
    p_bind clock (\<lambda>now.
    p_bind (transact (\<lambda>env. tx_read (active_open_ids (ca_shopId campaign) now))) (\<lambda>active.
    p_bind (from_sum (build_local campaign found active now)) (\<lambda>(preview, retained).
    p_bind (transact (\<lambda>env. tx_read (unresolved_contacts (ca_shopId campaign)))) (\<lambda>unresolved.
    transact (\<lambda>env. rebuild_tx campaign (int (length found)) retained
      (summary_fields (pr_summary preview) @ history_fields unresolved) (e_fresh env) now))))))"

section \<open>discover and cancelDiscovery\<close>

record PublicDiscoveryRun =
  pd_state :: DiscoveryRunState
  pd_requestedTarget :: int
  pd_candidateLimit :: int
  pd_pagesFetched :: int
  pd_candidatesFetched :: int
  pd_nextAttemptAt :: "millis option"
  pd_consecutiveThrottleCount :: int
  pd_totalProviderRequests :: int
  pd_lastProviderCode :: "string option"
  pd_failureCategory :: "string option"
  pd_createdAt :: millis
  pd_updatedAt :: millis
  pd_completedAt :: "millis option"

definition publicDiscoveryRun :: "DiscoveryRun \<Rightarrow> PublicDiscoveryRun" where
  "publicDiscoveryRun r = \<lparr>pd_state = dr_state r, pd_requestedTarget = dr_requestedTarget r, pd_candidateLimit = dr_candidateLimit r,
     pd_pagesFetched = dr_pagesFetched r, pd_candidatesFetched = dr_candidatesFetched r, pd_nextAttemptAt = dr_nextAttemptAt r,
     pd_consecutiveThrottleCount = dr_consecutiveThrottleCount r, pd_totalProviderRequests = dr_totalProviderRequests r,
     pd_lastProviderCode = dr_lastProviderCode r, pd_failureCategory = dr_failureCategory r, pd_createdAt = dr_createdAt r,
     pd_updatedAt = dr_updatedAt r, pd_completedAt = dr_completedAt r\<rparr>"

definition run_of :: "ident \<Rightarrow> Tables \<Rightarrow> DiscoveryRun option" where
  "run_of campaignId db = List.find (\<lambda>r. dr_campaignId r = campaignId) (tb_discoveryRuns db)"

definition preview_failed :: "Err \<Rightarrow> Err" where
  "preview_failed e = (case e of HttpError kind message \<Rightarrow> e
     | _ \<Rightarrow> HttpError ServiceUnavailable ''The local Creator Database preview could not be built. No messages were queued or sent; retrying this campaign is safe.'')"

definition discover :: "nat \<Rightarrow> ident \<Rightarrow> PublicDiscoveryRun prog" where
  "discover pages i =
    p_bind (sweep_and_require i) (\<lambda>campaign.
    p_bind (transact (\<lambda>env. tx_read (run_of i))) (\<lambda>existing.
      if (case existing of None \<Rightarrow> False | Some r \<Rightarrow> dr_state r = COMPLETE \<and> ca_state campaign = PREVIEW_READY)
      then Return (publicDiscoveryRun (the existing))
      else if ca_state campaign \<notin> {DRAFT, PREVIEW_READY, PREVIEW_EXPIRED}
      then Throw (HttpError BadRequest ''Campaign cannot be rediscovered in its current state'')
      else p_catch (p_bind (rebuildFromCreatorDatabase pages campaign) (\<lambda>run. Return (publicDiscoveryRun run)))
        (\<lambda>e. Throw (preview_failed e))))"

definition cancelled_run :: "millis \<Rightarrow> DiscoveryRun \<Rightarrow> DiscoveryRun" where
  "cancelled_run now r = r\<lparr>dr_state := DiscoveryRunState.CANCELLED, dr_nextAttemptAt := None, dr_leaseId := None,
     dr_leaseExpiresAt := None, dr_completedAt := Some now, dr_updatedAt := now\<rparr>"

definition cancel_run :: "ident \<Rightarrow> millis \<Rightarrow> DiscoveryRun tx" where
  "cancel_run i now =
    tx_bind (tx_modify (\<lambda>db. db\<lparr>tb_discoveryRuns := upd_where (\<lambda>r. dr_id r = i) (cancelled_run now) (tb_discoveryRuns db)\<rparr>)) (\<lambda>_.
    tx_bind (tx_read (\<lambda>db. List.find (\<lambda>r. dr_id r = i) (tb_discoveryRuns db))) tx_found)"

definition cancelDiscovery :: "ident \<Rightarrow> PublicDiscoveryRun prog" where
  "cancelDiscovery i =
    p_bind (requiredCampaign i) (\<lambda>campaign.
    p_bind (transact (\<lambda>env. tx_read (run_of i))) (\<lambda>run.
      case run of
        None \<Rightarrow> Throw (HttpError BadRequest ''Campaign has no discovery run'')
      | Some r \<Rightarrow>
          if dr_state r \<in> {COMPLETE, DiscoveryRunState.FAILED, DiscoveryRunState.CANCELLED} then Return (publicDiscoveryRun r)
          else p_bind (transact (\<lambda>env. cancel_run (dr_id r) (e_now env))) (\<lambda>cancelled.
            p_then (transact (\<lambda>env. update_campaigns (\<lambda>c. ca_id c = ca_id campaign \<and> ca_state c = DISCOVERING)
              (\<lambda>c. c\<lparr>ca_state := DRAFT, ca_version := ca_version c + 1\<rparr>)))
            (Return (publicDiscoveryRun cancelled)))))"

section \<open>rebuildLocalPreview\<close>

fun eligibility_name :: "Eligibility \<Rightarrow> string" where
  "eligibility_name Eligibility.ELIGIBLE = ''ELIGIBLE''" | "eligibility_name EXCLUDED = ''EXCLUDED''"

text \<open>An evaluated candidate as JSON: all it was stored with and what the evaluation adds.\<close>

definition evaluated_json :: "EvaluatedCreator \<Rightarrow> ident option \<Rightarrow> Json" where
  "evaluated_json e snapshotId = JObj (candidate_fields e
    @ json_opt ''databaseSnapshotId'' JStr snapshotId
    @ [(''eligibility'', JStr (eligibility_name (ev_eligibility e)))]
    @ json_opt ''skipReason'' (JStr \<circ> skip_name) (ev_skipReason e) @ json_opt ''skipDetail'' JStr (ev_skipDetail e)
    @ [(''rankingValue'', number_json (ev_rankingValue e)), (''selected'', JBool (ev_selected e))])"

definition new_snapshot :: "ident \<Rightarrow> ident \<Rightarrow> ident \<Rightarrow> EvaluatedCreator \<Rightarrow> ident option \<Rightarrow> millis \<Rightarrow> Snapshot" where
  "new_snapshot i creatorId shopId e snapshotId now =
    \<lparr>sn_id = i, sn_creatorId = creatorId, sn_shopId = Some shopId, sn_followerCount = cc_followerCount e,
     sn_categoryIds = JArr (map JStr (cc_categoryIds e)), sn_gmvAmount = map_option m_amount (cc_gmv e),
     sn_gmvCurrency = map_option m_currency (cc_gmv e), sn_unitsSold = cc_unitsSold e, sn_avgVideoViews = cc_avgVideoViews e,
     sn_avgLiveViewers = cc_avgLiveViewers e, sn_engagementRate = cc_engagementRate e,
     sn_metrics = JObj [], sn_rawPayload = evaluated_json e snapshotId, sn_sourceFetchedAt = now, sn_sourcePageKey = None\<rparr>"

definition exact_creators :: "ident list \<Rightarrow> Tables \<Rightarrow> (ident \<times> Creator) list" where
  "exact_creators openIds db = List.map_filter
     (\<lambda>c. case cr_creatorOpenId c of None \<Rightarrow> None
        | Some o' \<Rightarrow> if o' \<in> set openIds \<and> o' \<noteq> [] \<and> o' \<in> set (verified_identifiers (cr_id c) db) then Some (o', c) else None)
     (tb_creators db)"

definition known_contacts :: "ident \<Rightarrow> ident list \<Rightarrow> Tables \<Rightarrow> (ident \<times> ContactState) list" where
  "known_contacts shopId openIds db = List.map_filter
     (\<lambda>c. case cr_creatorOpenId c of None \<Rightarrow> None
        | Some o' \<Rightarrow> if o' \<in> set openIds \<and> o' \<noteq> [] then Some (o', contact_state (find_contact shopId (cr_id c) db)) else None)
     (tb_creators db)"

text \<open>The snapshot of a row: the one it was stored with if it still exists, else a new one.\<close>

definition row_snapshot :: "ident \<Rightarrow> ident \<Rightarrow> EvaluatedCreator \<Rightarrow> ident option \<Rightarrow> ident \<Rightarrow> millis \<Rightarrow> ident tx" where
  "row_snapshot shopId creatorId e snapshotId i now =
    tx_bind (tx_read (\<lambda>db. Option.bind (if Domain.truthy snapshotId then snapshotId else None)
       (\<lambda>s. List.find (\<lambda>x. sn_id x = s) (tb_snapshots db)))) (\<lambda>existing.
      case existing of
        Some s \<Rightarrow>
          if sn_creatorId s \<noteq> creatorId then tx_throw (HttpError BadRequest ''Creator database snapshot identity mismatch'')
          else tx_return (sn_id s)
      | None \<Rightarrow>
          tx_bind (tx_guard (case cc_gmv e of None \<Rightarrow> True | Some m \<Rightarrow> is_fin (js_number (m_amount m)))
            (PlainError ''[DecimalError] Invalid argument'')) (\<lambda>_.
          tx_bind (tx_modify (\<lambda>db. db\<lparr>tb_snapshots := tb_snapshots db @ [new_snapshot i creatorId shopId e snapshotId now]\<rparr>)) (\<lambda>_.
          tx_return i)))"

fun local_rows :: "DiscoveryRun \<Rightarrow> (ident \<times> Creator) list \<Rightarrow> (nat \<Rightarrow> ident) \<Rightarrow> millis \<Rightarrow> nat \<Rightarrow>
    (StoredCandidate \<times> EvaluatedCreator) list \<Rightarrow> Recipient list tx" where
  "local_rows run exact fresh now k [] = tx_return []"
| "local_rows run exact fresh now k ((c, e) # rest) =
    (case map_of (rev exact) (cc_creatorOpenId e) of
       None \<Rightarrow> tx_throw (PlainError ''Cannot read properties of undefined'')
     | Some creator \<Rightarrow>
         tx_bind (row_snapshot (dr_shopId run) (cr_id creator) e (dc_snapshotId c) (fresh (2 * k)) now) (\<lambda>snapshotId.
         tx_bind (tx_from (decimal_of (ev_rankingValue e))) (\<lambda>ranking.
         tx_bind (local_rows run exact fresh now (k + 1) rest) (\<lambda>rows.
         tx_return (new_recipient (fresh (2 * k + 1)) (dr_campaignId run) (cr_id creator) snapshotId e (cc_discoveryOrdinal e) ranking # rows)))))"

definition local_summary :: "DiscoveryRun \<Rightarrow> int \<Rightarrow> PreviewSummary \<Rightarrow> Contact list \<Rightarrow> (string \<times> Json) list" where
  "local_summary run creatorCount s unresolved =
    summary_fields (s\<lparr>ps_fetchedOccurrences := dr_candidatesFetched run,
       ps_skippedDuplicates := ps_skippedDuplicates s + max 0 (dr_candidatesFetched run - creatorCount)\<rparr>)
    @ history_fields unresolved"

definition candidates_of :: "ident \<Rightarrow> Tables \<Rightarrow> DiscoveryCandidate list" where
  "candidates_of runId db = js_sort (cmp_by dk_discoveryOrdinal) (filter (\<lambda>k. dk_discoveryRunId k = runId) (tb_candidates db))"

text \<open>The checks of the stored candidates and the evaluation (lines 13 to 66).\<close>

definition evaluate_stored :: "DiscoveryRun \<Rightarrow> Campaign \<Rightarrow> millis \<Rightarrow> Tables \<Rightarrow>
    Err + (ident \<times> Creator) list \<times> PreviewResult \<times> StoredCandidate list" where
  "evaluate_stored run campaign now db =
    (let rows = candidates_of (dr_id run) db; creators = map dk_candidate rows; openIds = map cc_creatorOpenId creators;
         exact = exact_creators openIds db
     in if rows = [] then Inl (HttpError BadRequest ''A local preview requires persisted discovery candidates'')
        else if list_ex (\<lambda>k. cc_creatorOpenId (dk_candidate k) = [] \<or> cc_creatorOpenId (dk_candidate k) \<noteq> dk_creatorOpenId k) rows
        then Inl (HttpError BadRequest ''Persisted candidates must contain exact matching Creator Open IDs'')
        else if list_ex (\<lambda>o'. o' \<notin> set (map fst exact)) openIds
        then Inl (HttpError BadRequest ''Every persisted candidate requires verified exact Creator Open ID evidence'')
        else (case from_result (buildPreview (preview_input campaign (map CreatorCandidate.truncate creators)
              (map_of (rev (known_contacts (dr_shopId run) openIds db))) (active_open_ids (dr_shopId run) now db)
              (dr_requestedTarget run) now (dr_providerHasMore run))) of
            Inl x \<Rightarrow> Inl x | Inr preview \<Rightarrow> Inr (exact, preview, creators)))"

definition rebuildLocalPreview :: "ident \<Rightarrow> (nat \<Rightarrow> ident) \<Rightarrow> millis \<Rightarrow> (string \<times> Json) list tx" where
  "rebuildLocalPreview runId fresh now =
    tx_bind (tx_bind (tx_read (\<lambda>db. List.find (\<lambda>r. dr_id r = runId) (tb_discoveryRuns db))) tx_found) (\<lambda>run.
    tx_bind (tx_bind (tx_read (find_campaign (dr_campaignId run))) tx_found) (\<lambda>campaign.
    tx_bind (tx_bind (tx_read (evaluate_stored run campaign now)) tx_from) (\<lambda>(exact, preview, creators).
    tx_bind (tx_read (unresolved_contacts (dr_shopId run))) (\<lambda>unresolved.
    let summary = local_summary run (int (length creators)) (pr_summary preview) unresolved in
    tx_bind (delete_recipients (dr_campaignId run)) (\<lambda>_.
    tx_bind (local_rows run exact fresh now 0 (zip creators (pr_creators preview))) (\<lambda>rows.
    tx_bind (create_recipients rows) (\<lambda>_.
    tx_bind (update_campaign (dr_campaignId run) (\<lambda>c. c\<lparr>ca_state := PREVIEW_READY, ca_summary := JObj summary,
      ca_version := ca_version c + 1\<rparr>)) (\<lambda>_.
    tx_bind (finish_run runId now) (\<lambda>_.
    tx_bind (audit (dr_shopId run) (dr_campaignId run) ''PREVIEW_READY'' (JObj summary)) (\<lambda>_.
    tx_return summary))))))))))"

section \<open>cloneFromPreview\<close>

record CampaignCloneInput =
  cl_productName :: "string option"
  cl_messageTemplate :: string
  cl_targetCount :: real

record CloneResult =
  clr_id :: ident
  clr_state :: CampaignState
  clr_fetched :: jsnum
  clr_eligible :: jsnum
  clr_selected :: jsnum
  clr_warnings :: "string list"

definition clone_request :: "ident \<Rightarrow> CampaignCloneInput \<Rightarrow> string option \<Rightarrow> string" where
  "clone_request sourceId input idempotencyKey =
    ''{'' @ json_text ''sourceCampaignId'' @ '':'' @ json_text sourceId @ '','' @ json_text ''submissionKey'' @ '':''
    @ json_text (let k = trimmed idempotencyKey in if k = [] then ''CONTENT_DERIVED'' else k) @ '','' @ json_text ''request'' @ '':{''
    @ json_text ''productName'' @ '':'' @ json_text (trimmed (cl_productName input)) @ '','' @ json_text ''messageTemplate'' @ '':''
    @ json_text (cl_messageTemplate input) @ '','' @ json_text ''targetCount'' @ '':'' @ show_int \<lfloor>cl_targetCount input\<rfloor> @ ''}}''"

definition clone_campaign :: "ident \<Rightarrow> string \<Rightarrow> Campaign \<Rightarrow> CampaignCloneInput \<Rightarrow> Campaign" where
  "clone_campaign i name source input =
    \<lparr>ca_id = i, ca_shopId = ca_shopId source, ca_name = name, ca_productName = trimmed (cl_productName input),
     ca_targetCount = \<lfloor>cl_targetCount input\<rfloor>, ca_candidateLimit = ca_candidateLimit source, ca_cooldownDays = ca_cooldownDays source,
     ca_messageTemplate = cl_messageTemplate input, ca_filters = ca_filters source, ca_rankingMetric = ca_rankingMetric source,
     ca_rankingDirection = ca_rankingDirection source, ca_state = DRAFT, ca_version = 1, ca_summary = JObj [], ca_frozenAt = None,
     ca_freezeExpiresAt = None, ca_frozenFilters = None, ca_frozenTemplate = None, ca_frozenContext = None, ca_dispatchCount = 0,
     ca_safetyPauseReason = None\<rparr>"

text \<open>The candidate a clone stores: the fields the code names, the others are left out.\<close>

definition clone_candidate :: "ident \<Rightarrow> DiscoveryCandidate \<Rightarrow> DiscoveryCandidate" where
  "clone_candidate runId k = k\<lparr>dk_discoveryRunId := runId,
     dk_candidate := (dk_candidate k)\<lparr>cc_creatorOpenId := dk_creatorOpenId k, cc_discoveryOrdinal := dk_discoveryOrdinal k,
       cc_avatarUrl := None, cc_liveGmv := None, cc_videoGmv := None, cc_gmvRange := None, cc_topAgeRanges := None,
       cc_majorGender := None, cc_majorGenderPercentage := None, dc_snapshotId := None\<rparr>\<rparr>"

definition copy_candidate :: "ident \<Rightarrow> DiscoveryCandidate \<Rightarrow> unit tx" where
  "copy_candidate runId k =
    tx_bind (tx_guard (dk_creatorOpenId k \<noteq> [] \<and> cc_creatorOpenId (dk_candidate k) = dk_creatorOpenId k)
      (HttpError BadRequest ''Persisted candidates must contain exact matching Creator Open IDs'')) (\<lambda>_.
    create_candidates [clone_candidate runId k])"

definition clone_of :: "string \<Rightarrow> Tables \<Rightarrow> ident option" where
  "clone_of digest db = Option.bind (List.find (\<lambda>a. au_eventType a = ''CAMPAIGN_CLONED_FROM_PREVIEW'' \<and>
     map_of (object_fields (au_payload a)) ''idempotencyDigest'' = Some (JStr digest)) (tb_audit db)) au_campaignId"

definition create_campaign :: "Campaign \<Rightarrow> unit tx" where
  "create_campaign c =
    tx_bind (tx_read (find_campaign (ca_id c))) (\<lambda>clash.
    tx_bind (tx_guard (clash = None) (DbError UniqueViolation)) (\<lambda>_.
    tx_modify (\<lambda>db. db\<lparr>tb_campaigns := tb_campaigns db @ [c]\<rparr>)))"

definition clone_tx :: "Campaign \<Rightarrow> DiscoveryRun \<Rightarrow> DiscoveryCandidate list \<Rightarrow> CampaignCloneInput \<Rightarrow> string \<Rightarrow> (nat \<Rightarrow> ident) \<Rightarrow> millis \<Rightarrow> ident tx" where
  "clone_tx source sourceRun candidates input digest fresh now =
    tx_bind (tx_read (clone_of digest)) (\<lambda>duplicate.
      case duplicate of Some i \<Rightarrow> tx_return i
      | None \<Rightarrow>
          tx_bind (allocateCampaignName now) (\<lambda>name.
          let campaign = clone_campaign (fresh 0) name source input;
              run = new_run (fresh 1) campaign \<lfloor>cl_targetCount input\<rfloor> (int (length candidates)) (dr_providerHasMore sourceRun) now in
          tx_bind (create_campaign campaign) (\<lambda>_.
          tx_bind (create_run run) (\<lambda>_.
          tx_bind (tx_each (copy_candidate (dr_id run)) candidates) (\<lambda>_.
          tx_bind (audit (ca_shopId source) (ca_id campaign) ''CAMPAIGN_CLONED_FROM_PREVIEW''
            (JObj [(''sourceCampaignId'', JStr (ca_id source)), (''idempotencyDigest'', JStr digest),
              (''candidateSource'', JStr ''LOCAL_PERSISTED_PREVIEW''), (''providerRequests'', JNum 0)])) (\<lambda>_.
          tx_bind (rebuildLocalPreview (dr_id run) (\<lambda>k. fresh (k + 2)) now) (\<lambda>_.
          tx_return (ca_id campaign))))))))"

definition clone_result :: "Campaign \<Rightarrow> DiscoveryRun option \<Rightarrow> CloneResult" where
  "clone_result c run =
    (let fs = object_fields (ca_summary c) in
     \<lparr>clr_id = ca_id c, clr_state = ca_state c,
      clr_fetched = (if map_of fs ''fetchedOccurrences'' \<in> {None, Some JNull}
        then Fin (case run of None \<Rightarrow> 0 | Some r \<Rightarrow> of_int (dr_candidatesFetched r)) else obj_number ''fetchedOccurrences'' fs),
      clr_eligible = obj_number ''eligible'' fs, clr_selected = obj_number ''selected'' fs,
      clr_warnings = (if js_lt (Fin 0) (obj_number ''shortfall'' fs)
        then [''Target shortfall; filters and safety rules were not weakened''] else [])\<rparr>)"

definition cloneFromPreview :: "ApiConfig \<Rightarrow> ident \<Rightarrow> CampaignCloneInput \<Rightarrow> string option \<Rightarrow> CloneResult prog" where
  "cloneFromPreview cfg i input idempotencyKey =
    p_bind (transact (\<lambda>env. tx_read (\<lambda>db. (find_campaign i db, Option.bind (find_campaign i db) (\<lambda>c. find_shop (ca_shopId c) db), run_of i db,
      (case run_of i db of None \<Rightarrow> [] | Some r \<Rightarrow> candidates_of (dr_id r) db))))) (\<lambda>(source, shop, run, candidates).
    case (source, shop) of
      (Some c, Some s) \<Rightarrow>
        if ca_state c \<noteq> PREVIEW_READY then Throw (HttpError BadRequest ''Source campaign must be PREVIEW_READY'')
        else (case run of
            None \<Rightarrow> Throw (HttpError BadRequest ''Source campaign must have a completed discovery run'')
          | Some r \<Rightarrow>
              if dr_state r \<noteq> COMPLETE \<or> dr_completedAt r = None
              then Throw (HttpError BadRequest ''Source campaign must have a completed discovery run'')
              else if candidates = [] then Throw (HttpError BadRequest ''Source campaign must contain persisted discovery candidates'')
              else p_bind (from_sum (bad_request (validateCloneInput (cl_productName input) (cl_messageTemplate input) (cl_targetCount input) s))) (\<lambda>_.
                p_bind clock (\<lambda>now.
                p_bind (transact (\<lambda>env. clone_tx c r candidates input (ac_sha256 cfg (clone_request i input idempotencyKey)) (e_fresh env) now)) (\<lambda>cloneId.
                p_bind (transact (\<lambda>env. tx_read (\<lambda>db. (find_campaign cloneId db, run_of cloneId db)))) (\<lambda>(clone, cloneRun).
                case clone of None \<Rightarrow> Throw (DbError RecordNotFound) | Some k \<Rightarrow> Return (clone_result k cloneRun))))))
    | _ \<Rightarrow> Throw (HttpError NotFound ''Source campaign not found''))"

section \<open>The progress a campaign reports\<close>

record Progress =
  pg_frozen :: int
  pg_completed :: int
  pg_remaining :: int

definition frozen_recipient_states :: "ident \<Rightarrow> Tables \<Rightarrow> RecipientState list" where
  "frozen_recipient_states i db = map rc_state (filter
     (\<lambda>r. rc_campaignId r = i \<and> rc_selected r \<and> rc_frozenMessage r \<noteq> None) (tb_recipients db))"

definition campaign_progress :: "ident \<Rightarrow> Tables \<Rightarrow> Progress" where
  "campaign_progress i db =
    (let states = frozen_recipient_states i db;
         completed = sum_list (map (\<lambda>s. count_where (\<lambda>x. x = s) states)
           [RecipientState.SENT, RecipientState.RESTRICTED, RecipientState.FAILED, RecipientState.DELIVERY_UNKNOWN_UNRESOLVED, RecipientState.CANCELLED])
     in \<lparr>pg_frozen = int (length states), pg_completed = completed, pg_remaining = max 0 (int (length states) - completed)\<rparr>)"

text \<open>What is known of the discovery worker; its heartbeat is asked for only while the run goes on.\<close>

definition discovery_worker_state :: "DiscoveryRun option \<Rightarrow> (string \<times> millis) option \<Rightarrow> int \<Rightarrow> millis \<Rightarrow> string" where
  "discovery_worker_state run heartbeat staleAfterMs now =
    (case (run, heartbeat) of
       (Some r, Some (status, lastSeenAt)) \<Rightarrow>
         if dr_state r \<in> {DiscoveryRunState.QUEUED, DiscoveryRunState.RUNNING, BACKING_OFF} \<and> status = ''RUNNING''
         then (if now - lastSeenAt \<le> staleAfterMs then ''RUNNING'' else ''STALE'') else ''STOPPED''
     | _ \<Rightarrow> ''STOPPED'')"

section \<open>Lemmas: reading the creators\<close>

definition candidates_in :: "ident \<Rightarrow> Tables \<Rightarrow> (DatabaseCandidate \<times> ContactState) list" where
  "candidates_in shopId db = List.map_filter (database_candidate shopId db) (creator_rows shopId db)"

lemma map_filter_append: "List.map_filter f (xs @ ys) = List.map_filter f xs @ List.map_filter f ys"
  by (simp add: List.map_filter_def)

lemma set_map_filter_iff: "y \<in> set (List.map_filter f xs) \<longleftrightarrow> (\<exists>x \<in> set xs. f x = Some y)"
  by (force simp: List.map_filter_def)

lemma distinct_creator_rows: "distinct (map cr_id (tb_creators db)) \<Longrightarrow> distinct (map cr_id (creator_rows shopId db))"
  by (simp add: creator_rows_def distinct_map_filter)

lemma page_after_prefix:
  assumes "pre \<noteq> []" "distinct (map cr_id (pre @ rest))"
  shows "page_after (Some (cr_id (last pre))) (pre @ rest) = take PAGE_SIZE rest"
proof -
  obtain qs q where pre: "pre = qs @ [q]" using assms(1) by (metis append_butlast_last_id)
  have "\<forall>c \<in> set qs. cr_id c \<noteq> cr_id q" using assms(2) unfolding pre by (auto simp: image_iff)
  then have "dropWhile (\<lambda>c. cr_id c \<noteq> cr_id q) (qs @ q # rest) = q # rest" by (simp add: dropWhile_append2)
  then show ?thesis by (simp add: page_after_def pre)
qed

lemma load_candidates_from:
  assumes "creator_rows shopId (w_tables w) = pre @ rest" "distinct (map cr_id (pre @ rest))"
    and "cursor = (if pre = [] then None else Some (cr_id (last pre)))" "length rest < pages * PAGE_SIZE" "\<not> e_dbDown env"
  shows "p_run (replicate pages env) (load_candidates pages shopId cursor acc) w
    = (Return (acc @ List.map_filter (database_candidate shopId (w_tables w)) rest), w)"
  using assms
proof (induction pages arbitrary: pre rest cursor acc)
  case (Suc pages)
  let ?f = "database_candidate shopId (w_tables w)"
  have page: "page_after cursor (creator_rows shopId (w_tables w)) = take PAGE_SIZE rest"
    using Suc.prems(1-3) page_after_prefix [of pre rest] by (cases "pre = []") (auto simp: page_after_def)
  show ?case
  proof (cases "length rest < PAGE_SIZE")
    case True
    then show ?thesis using page Suc.prems(5)
      by (cases pages) (simp_all add: transact_def read_page_def Let_def)
  next
    case False
    define next_rows where "next_rows = drop PAGE_SIZE rest"
    have split: "rest = take PAGE_SIZE rest @ next_rows" by (simp add: next_rows_def)
    have ne: "take PAGE_SIZE rest \<noteq> []" using False by (auto simp: PAGE_SIZE_def)
    have rows: "creator_rows shopId (w_tables w) = (pre @ take PAGE_SIZE rest) @ next_rows"
      using Suc.prems(1) by (simp add: next_rows_def)
    have dist: "distinct (map cr_id ((pre @ take PAGE_SIZE rest) @ next_rows))"
      using Suc.prems(2) split by (metis append.assoc)
    have less: "length next_rows < pages * PAGE_SIZE" using Suc.prems(4) False by (simp add: next_rows_def)
    have cur: "Some (cr_id (last (take PAGE_SIZE rest))) =
        (if pre @ take PAGE_SIZE rest = [] then None else Some (cr_id (last (pre @ take PAGE_SIZE rest))))"
      using ne by simp
    have "p_run (replicate (Suc pages) env) (load_candidates (Suc pages) shopId cursor acc) w
      = p_run (replicate pages env) (load_candidates pages shopId (Some (cr_id (last (take PAGE_SIZE rest))))
          (acc @ List.map_filter ?f (take PAGE_SIZE rest))) w"
      using page Suc.prems(5) False by (simp add: transact_def read_page_def Let_def)
    also have "\<dots> = (Return ((acc @ List.map_filter ?f (take PAGE_SIZE rest)) @ List.map_filter ?f next_rows), w)"
      by (rule Suc.IH [OF rows dist cur less Suc.prems(5)])
    finally show ?thesis using split map_filter_append [of ?f "take PAGE_SIZE rest" next_rows] by simp
  qed
qed simp

text \<open>
  C36. Reading the creator database page by page ends: with as many pages as the number of
  matching creators divided by 1000 plus one, the loop returns the candidates of all of them, each
  once and in order, and writes nothing.
\<close>

theorem creator_pages_are_complete:
  assumes "distinct (map cr_id (tb_creators (w_tables w)))" "\<not> e_dbDown env"
    and "pages = length (creator_rows shopId (w_tables w)) div 1000 + 1"
  shows "p_run (replicate pages env) (load_candidates pages shopId None []) w = (Return (candidates_in shopId (w_tables w)), w)"
proof -
  have "length (creator_rows shopId (w_tables w)) < pages * PAGE_SIZE"
    unfolding assms(3) PAGE_SIZE_def by (simp add: div_less_iff_less_mult [symmetric])
  then show ?thesis
    using load_candidates_from [of shopId w "[]" "creator_rows shopId (w_tables w)" None pages env "[]"]
      distinct_creator_rows [OF assms(1)] assms(2) by (simp add: candidates_in_def)
qed

section \<open>Lemmas: the candidates of a preview\<close>

lemma with_candidates_Inr:
  "with_candidates cs es = Inr ps \<Longrightarrow>
   map fst ps = es \<and> (\<forall>p \<in> set ps. snd p \<in> set cs \<and> cc_creatorOpenId (snd p) = cc_creatorOpenId (fst p))"
proof (induction es arbitrary: ps)
  case (Cons e es)
  from Cons.prems obtain c rest where c: "List.find (\<lambda>c. cc_creatorOpenId c = cc_creatorOpenId e) (rev cs) = Some c"
    "with_candidates cs es = Inr rest" "ps = (e, c) # rest" by (auto split: option.splits sum.splits)
  then show ?case using Cons.IH [OF c(2)] find_SomeD [OF c(1)] by simp
qed simp

lemma numbered_member:
  assumes "c \<in> set (numbered cs)"
  shows "\<exists>c0 i. c0 \<in> set cs \<and> c = c0\<lparr>cc_discoveryOrdinal := i\<rparr>"
proof -
  obtain i c0 where "(i, c0) \<in> set (List.enumerate 0 (js_sort newest_first cs))" "c = c0\<lparr>cc_discoveryOrdinal := int i\<rparr>"
    using assms by (auto simp: numbered_def)
  moreover from this have "c0 \<in> set (js_sort newest_first cs)"
    by (auto simp: in_set_enumerate_eq simp del: set_js_sort)
  ultimately show ?thesis by auto
qed

lemma database_candidate_SomeD:
  assumes "database_candidate shopId db creator = Some (c, k)"
  shows "cr_creatorOpenId creator = Some (cc_creatorOpenId c) \<and> cc_creatorOpenId c \<in> set (verified_identifiers (cr_id creator) db) \<and>
    dc_creatorId c = cr_id creator \<and> k = contact_state (find_contact shopId (cr_id creator) db)"
  using assms by (auto simp: database_candidate_def snapshot_candidate_def Let_def split: option.splits if_splits)

text \<open>What the schema guarantees of the creators: their ids and their Open IDs are unique.\<close>

definition creators_unique :: "Tables \<Rightarrow> bool" where
  "creators_unique db \<longleftrightarrow> distinct (map cr_id (tb_creators db)) \<and>
     (\<forall>x \<in> set (tb_creators db). \<forall>y \<in> set (tb_creators db). cr_creatorOpenId x = cr_creatorOpenId y \<and> cr_creatorOpenId x \<noteq> None \<longrightarrow> x = y)"

lemma find_creator_unique: "creators_unique db \<Longrightarrow> c \<in> set (tb_creators db) \<Longrightarrow> find_creator (cr_id c) db = Some c"
  by (simp add: find_creator_def creators_unique_def find_unique)

lemma active_open_ids_member:
  assumes "creators_unique db" "c \<in> set (tb_creators db)" "cr_creatorOpenId c = Some i" "i \<noteq> []"
    and "v \<in> set (tb_reservations db)" "rv_shopId v = shopId" "rv_creatorId v = cr_id c" "rv_expiresAt v > now"
  shows "i \<in> set (active_open_ids shopId now db)"
  unfolding active_open_ids_def set_map_filter_iff
  using assms find_creator_unique [OF assms(1,2)] by (intro bexI [of _ v]) (simp_all add: Domain.truthy_def)

lemma build_local_InrD:
  assumes "build_local campaign found active now = Inr (preview, retained)" "(e, c) \<in> set retained"
  shows "buildPreview (preview_input campaign (map CreatorCandidate.truncate (numbered (map fst found)))
      (map_of (rev (map (\<lambda>(c, k). (cc_creatorOpenId c, k)) found))) active (ca_targetCount campaign) now False) = Inr preview"
    and "e \<in> set (pr_creators preview)" and "c \<in> set (numbered (map fst found))" and "cc_creatorOpenId c = cc_creatorOpenId e"
proof -
  have "buildPreview (preview_input campaign (map CreatorCandidate.truncate (numbered (map fst found)))
      (map_of (rev (map (\<lambda>(c, k). (cc_creatorOpenId c, k)) found))) active (ca_targetCount campaign) now False) = Inr preview"
    and ret: "with_candidates (numbered (map fst found)) (retained_creators (ca_candidateLimit campaign) (pr_creators preview)) = Inr retained"
    using assms(1) by (auto simp: build_local_def from_result_def Let_def split: if_splits sum.splits)
  then show "buildPreview (preview_input campaign (map CreatorCandidate.truncate (numbered (map fst found)))
      (map_of (rev (map (\<lambda>(c, k). (cc_creatorOpenId c, k)) found))) active (ca_targetCount campaign) now False) = Inr preview" by simp
  have "e \<in> set (retained_creators (ca_candidateLimit campaign) (pr_creators preview))"
    using with_candidates_Inr [OF ret] assms(2) by (metis image_eqI list.set_map fst_conv)
  then show "e \<in> set (pr_creators preview)" using set_slice_to by (fastforce simp: retained_creators_def Let_def)
  show "c \<in> set (numbered (map fst found))" "cc_creatorOpenId c = cc_creatorOpenId e"
    using with_candidates_Inr [OF ret] assms(2) by force+
qed

text \<open>The contacts of a candidate are those of its creator: no other creator has its Open ID.\<close>

lemma candidates_in_creator:
  assumes "c \<in> set (numbered (map fst (candidates_in shopId db)))" "creators_unique db"
  obtains creator k where "creator \<in> set (tb_creators db)" "cr_id creator = dc_creatorId c"
    "cr_creatorOpenId creator = Some (cc_creatorOpenId c)" "cc_creatorOpenId c \<in> set (verified_identifiers (cr_id creator) db)"
    "k = contact_state (find_contact shopId (cr_id creator) db)"
    "map_of (rev (map (\<lambda>(c, k). (cc_creatorOpenId c, k)) (candidates_in shopId db))) (cc_creatorOpenId c) = Some k"
proof -
  let ?found = "candidates_in shopId db"
  obtain c0 k where c0: "(c0, k) \<in> set ?found" "dc_creatorId c = dc_creatorId c0" "cc_creatorOpenId c0 = cc_creatorOpenId c"
    using numbered_member [OF assms(1)] by auto
  then obtain creator where cr: "creator \<in> set (tb_creators db)" "database_candidate shopId db creator = Some (c0, k)"
    by (auto simp: candidates_in_def creator_rows_def set_map_filter_iff)
  note d = database_candidate_SomeD [OF cr(2)]
  have only: "k' = k" if same: "(c', k') \<in> set ?found" "cc_creatorOpenId c' = cc_creatorOpenId c" for c' k'
  proof -
    obtain creator' where c': "creator' \<in> set (tb_creators db)" "database_candidate shopId db creator' = Some (c', k')"
      using same(1) by (auto simp: candidates_in_def creator_rows_def set_map_filter_iff)
    have "creator' = creator"
      using c'(1) database_candidate_SomeD [OF c'(2)] d cr(1) assms(2) same(2) c0(3) unfolding creators_unique_def by (metis option.distinct(1))
    then show ?thesis using cr(2) c'(2) by simp
  qed
  obtain k' where k': "map_of (rev (map (\<lambda>(c, k). (cc_creatorOpenId c, k)) ?found)) (cc_creatorOpenId c) = Some k'"
    using c0 by (cases "map_of (rev (map (\<lambda>(c, k). (cc_creatorOpenId c, k)) ?found)) (cc_creatorOpenId c)")
      (force simp: map_of_eq_None_iff image_iff)+
  have "k' = k" using map_of_SomeD [OF k'] only by auto
  then show thesis using that [OF cr(1)] d c0 k' by simp
qed

text \<open>
  C10. Every candidate discover selects from the local creator database is a stored creator whose
  Open ID is verified, that no unexpired reservation of the shop holds, and that is neither do-
  not-contact, nor has an unresolved delivery, nor was contacted within the cooldown, whatever the
  page it was read on and however the candidates were sorted and cut.
\<close>

theorem discovered_selection_may_be_contacted:
  assumes "build_local campaign (candidates_in (ca_shopId campaign) db) (active_open_ids (ca_shopId campaign) now db) now
      = Inr (preview, retained)"
    and "(e, c) \<in> set retained" "ev_selected e" "creators_unique db"
  shows "\<exists>creator \<in> set (tb_creators db). cr_id creator = dc_creatorId c \<and> cr_creatorOpenId creator = Some (cc_creatorOpenId e) \<and>
    cc_creatorOpenId e \<in> set (verified_identifiers (cr_id creator) db) \<and>
    (\<forall>v \<in> set (tb_reservations db). rv_shopId v = ca_shopId campaign \<and> rv_creatorId v = cr_id creator \<longrightarrow> rv_expiresAt v \<le> now) \<and>
    (case find_contact (ca_shopId campaign) (cr_id creator) db of None \<Rightarrow> True
     | Some k \<Rightarrow> \<not> ct_doNotContact k \<and> \<not> ct_unresolvedDelivery k \<and>
        (case ct_lastContactedAt k of None \<Rightarrow> True | Some t \<Rightarrow> t \<le> now - ca_cooldownDays campaign * 86400000))"
proof -
  let ?shop = "ca_shopId campaign"
  note built = build_local_InrD [OF assms(1,2)]
  from candidates_in_creator [OF built(3) assms(4)] obtain creator k where cr: "creator \<in> set (tb_creators db)"
    "cr_id creator = dc_creatorId c" "cr_creatorOpenId creator = Some (cc_creatorOpenId c)"
    "cc_creatorOpenId c \<in> set (verified_identifiers (cr_id creator) db)"
    and k: "k = contact_state (find_contact ?shop (cr_id creator) db)"
    and of_c: "map_of (rev (map (\<lambda>(c, k). (cc_creatorOpenId c, k)) (candidates_in ?shop db))) (cc_creatorOpenId c) = Some k" .
  obtain seen x where x: "fst (skip_decision (preview_input campaign (map CreatorCandidate.truncate (numbered (map fst (candidates_in ?shop db))))
      (map_of (rev (map (\<lambda>(c, k). (cc_creatorOpenId c, k)) (candidates_in ?shop db)))) (active_open_ids ?shop now db)
      (ca_targetCount campaign) now False) seen x) = None" and i: "cc_creatorOpenId x = cc_creatorOpenId e"
    using selected_unskipped [OF built(1,2) assms(3)] by fastforce
  have safe: "cc_creatorOpenId e \<noteq> []" "cc_creatorOpenId e \<notin> set (active_open_ids ?shop now db)" "\<not> cs_doNotContact k" "\<not> cs_unresolvedDelivery k"
    "case cs_lastContactedAt k of None \<Rightarrow> True | Some t \<Rightarrow> real_of_int t \<le> real_of_int now - real_of_int (ca_cooldownDays campaign) * 86400000"
    using x of_c unfolding skip_decision_def i built(4) Let_def by (auto simp: preview_input_def split: if_splits option.splits)
  have time: "real_of_int t \<le> real_of_int now - real_of_int n * 86400000 \<longleftrightarrow> t \<le> now - n * 86400000" for t n :: int
    by linarith
  have "case find_contact ?shop (cr_id creator) db of None \<Rightarrow> True
     | Some k \<Rightarrow> \<not> ct_doNotContact k \<and> \<not> ct_unresolvedDelivery k \<and>
        (case ct_lastContactedAt k of None \<Rightarrow> True | Some t \<Rightarrow> t \<le> now - ca_cooldownDays campaign * 86400000)"
    using safe(3-5) k by (auto simp: contact_state_def time split: option.splits)
  moreover have "rv_expiresAt v \<le> now"
    if "v \<in> set (tb_reservations db)" "rv_shopId v = ?shop" "rv_creatorId v = cr_id creator" for v
    using active_open_ids_member [OF assms(4) cr(1), of "cc_creatorOpenId e" v ?shop now] that cr(3) safe(1,2) built(4) by force
  ultimately show ?thesis using cr built(4) by auto
qed

section \<open>Lemmas: what a rebuild leaves\<close>

lemma tx_guardE: "tx_guard b e db = Inr (u, db') \<Longrightarrow> (b \<Longrightarrow> db' = db \<Longrightarrow> R) \<Longrightarrow> R"
  by (auto simp: tx_guard_def split: if_splits)

lemma create_run_effect: "create_run run db = Inr (u, db') \<Longrightarrow> db' = db\<lparr>tb_discoveryRuns := tb_discoveryRuns db @ [run]\<rparr>"
  by (auto simp: create_run_def elim!: tx_bind_InrE tx_guardE)

lemma create_candidates_effect: "create_candidates rows db = Inr (u, db') \<Longrightarrow> db' = db\<lparr>tb_candidates := tb_candidates db @ rows\<rparr>"
  by (auto simp: create_candidates_def elim!: tx_bind_InrE tx_guardE)

lemma create_recipients_effect:
  "create_recipients rows db = Inr (u, db') \<Longrightarrow> db' = db\<lparr>tb_recipients := tb_recipients db @ rows\<rparr> \<and>
    distinct (map (\<lambda>r. (rc_campaignId r, rc_creatorId r)) rows)"
  by (auto simp: create_recipients_def elim!: tx_bind_InrE tx_guardE)

lemma tx_from_effect: "tx_from r db = Inr (a, db') \<Longrightarrow> r = Inr a \<and> db' = db"
  by (auto simp: tx_from_def split: sum.splits)

lemma update_campaign_effect:
  "update_campaign i f db = Inr (u, db') \<Longrightarrow> db' = db\<lparr>tb_campaigns := upd_where (\<lambda>c. ca_id c = i) f (tb_campaigns db)\<rparr> \<and>
    find_campaign i db \<noteq> None"
  by (auto simp: update_campaign_def split: option.splits)

lemma recipient_rows_fields:
  "recipient_rows campaignId fresh k retained = Inr rows \<Longrightarrow>
   map (\<lambda>r. (rc_campaignId r, rc_creatorId r, rc_selected r)) rows = map (\<lambda>(e, c). (campaignId, dc_creatorId c, ev_selected e)) retained"
proof (induction retained arbitrary: k rows)
  case (Cons p retained)
  then show ?case by (cases p) (auto simp: new_recipient_def split: sum.splits)
qed simp

text \<open>The tables a rebuild leaves, in terms of the ones it found.\<close>

lemma rebuild_tx_effect:
  assumes "rebuild_tx campaign n retained summary fresh now db = Inr (run, db')"
  obtains rows where "recipient_rows (ca_id campaign) fresh 1 retained = Inr rows"
    "tb_recipients db' = del_where (\<lambda>r. rc_campaignId r = ca_id campaign) (tb_recipients db) @ rows"
    "distinct (map (\<lambda>r. (rc_campaignId r, rc_creatorId r)) rows)"
    "tb_reservations db' = del_where (\<lambda>v. rv_campaignRecipientId v \<in> rc_id ` {r \<in> set (tb_recipients db). rc_campaignId r = ca_id campaign}) (tb_reservations db)"
    "tb_deliveries db' = del_where (\<lambda>d. dl_campaignRecipientId d \<in> rc_id ` {r \<in> set (tb_recipients db). rc_campaignId r = ca_id campaign}) (tb_deliveries db)"
    "map_option ca_state (find_campaign (ca_id campaign) db') = Some PREVIEW_READY"
    "\<forall>c \<in> set (tb_campaigns db). ca_id c \<noteq> ca_id campaign \<longrightarrow> c \<in> set (tb_campaigns db')"
proof -
  define db1 where "db1 = snd (projr (delete_discovery (ca_id campaign) db))"
  define db2 where "db2 = snd (projr (delete_recipients (ca_id campaign) db1))"
  define db3 where "db3 = db2\<lparr>tb_campaigns := upd_where (\<lambda>c. ca_id c = ca_id campaign) (\<lambda>c. c\<lparr>ca_state := DISCOVERING, ca_version := ca_version c + 1\<rparr>) (tb_campaigns db2)\<rparr>"
  have d: "delete_discovery (ca_id campaign) db = Inr ((), db1)" "delete_recipients (ca_id campaign) db1 = Inr ((), db2)"
    by (simp_all add: db1_def db2_def delete_discovery_def delete_recipients_def)
  have e1: "tb_recipients db1 = tb_recipients db" "tb_reservations db1 = tb_reservations db" "tb_deliveries db1 = tb_deliveries db"
      "tb_campaigns db1 = tb_campaigns db"
    by (simp_all add: db1_def delete_discovery_def Let_def)
  have e2: "tb_recipients db2 = del_where (\<lambda>r. rc_campaignId r = ca_id campaign) (tb_recipients db)"
      "tb_reservations db2 = del_where (\<lambda>v. rv_campaignRecipientId v \<in> rc_id ` {r \<in> set (tb_recipients db). rc_campaignId r = ca_id campaign}) (tb_reservations db)"
      "tb_deliveries db2 = del_where (\<lambda>d. dl_campaignRecipientId d \<in> rc_id ` {r \<in> set (tb_recipients db). rc_campaignId r = ca_id campaign}) (tb_deliveries db)"
      "tb_campaigns db2 = tb_campaigns db"
    by (simp_all add: db2_def delete_recipients_def Let_def e1)
  have u3: "update_campaign (ca_id campaign) (\<lambda>c. c\<lparr>ca_state := DISCOVERING, ca_version := ca_version c + 1\<rparr>) db2 = Inr (u, dbx) \<Longrightarrow> dbx = db3" for u dbx
    by (drule update_campaign_effect) (simp add: db3_def)
  from assms obtain db4 db5 rows db6 db7 db8 db9 u3 u4 u5 u6 u7 u8 u9 where steps:
      "update_campaign (ca_id campaign) (\<lambda>c. c\<lparr>ca_state := DISCOVERING, ca_version := ca_version c + 1\<rparr>) db2 = Inr (u3, db3)"
      "create_run (new_run (fresh 0) campaign (ca_targetCount campaign) n False now) db3 = Inr (u4, db4)"
      "create_candidates (map (stored_candidate (fresh 0)) retained) db4 = Inr (u5, db5)"
      "recipient_rows (ca_id campaign) fresh 1 retained = Inr rows" "create_recipients rows db5 = Inr (u6, db6)"
      "audit (ca_shopId campaign) (ca_id campaign) ''LOCAL_CREATOR_DATABASE_FILTERED''
       (JObj [(''creatorDatabaseSize'', JNum (of_int n)), (''persistedCandidates'', JNum (of_int (int (length retained)))),
         (''providerRequests'', JNum 0)]) db6 = Inr (u7, db7)"
      "update_campaign (ca_id campaign) (\<lambda>c. c\<lparr>ca_state := PREVIEW_READY, ca_summary := JObj summary,
       ca_version := ca_version c + 1\<rparr>) db7 = Inr (u8, db8)"
      "finish_run (fresh 0) now db8 = Inr (u9, db9)"
      "audit (ca_shopId campaign) (ca_id campaign) ''PREVIEW_READY'' (JObj summary) db9 = Inr ((), db')"
    unfolding rebuild_tx_def Let_def
    by (elim tx_bind_InrE) (auto simp: d new_run_def dest!: u3 tx_from_effect)
  define ready where "ready = (\<lambda>c :: Campaign. c\<lparr>ca_state := PREVIEW_READY, ca_summary := JObj summary, ca_version := ca_version c + 1\<rparr>)"
  note effects = create_run_effect [OF steps(2)] create_candidates_effect [OF steps(3)] create_recipients_effect [OF steps(5)]
    update_campaign_effect [OF steps(7), folded ready_def]
  have a: "tb_recipients db7 = tb_recipients db6 \<and> tb_reservations db7 = tb_reservations db6 \<and> tb_deliveries db7 = tb_deliveries db6
      \<and> tb_campaigns db7 = tb_campaigns db6"
      "tb_recipients db' = tb_recipients db8 \<and> tb_reservations db' = tb_reservations db8 \<and> tb_deliveries db' = tb_deliveries db8
      \<and> tb_campaigns db' = tb_campaigns db8"
    using steps(6,8,9) by (auto simp: audit_def finish_run_def)
  have campaigns: "tb_campaigns db' = upd_where (\<lambda>c. ca_id c = ca_id campaign) ready (tb_campaigns db3)" "find_campaign (ca_id campaign) db3 \<noteq> None"
    using effects a by (auto simp: find_campaign_def)
  have found: "map_option ca_state (find_campaign (ca_id campaign) db') = Some PREVIEW_READY"
  proof -
    obtain c where c: "find_campaign (ca_id campaign) db3 = Some c" using campaigns(2) by auto
    then have "ca_id c = ca_id campaign" by (auto simp: find_campaign_def dest: find_SomeD)
    then show ?thesis using c by (simp add: campaigns find_campaign_def find_upd_where ready_def)
  qed
  have kept: "\<forall>c \<in> set (tb_campaigns db). ca_id c \<noteq> ca_id campaign \<longrightarrow> c \<in> set (tb_campaigns db')"
    by (auto simp: campaigns db3_def e2 upd_where_def)
  show thesis using that [OF steps(4)] effects a found kept by (simp add: db3_def e2)
qed

text \<open>
  C11. When the transaction of discover commits - whatever the state of the campaign is by then -
  the recipients of the campaign are exactly the retained candidates in order, each creator once,
  the deliveries and reservations of the former recipients are gone, the campaign is
  PREVIEW_READY, and the recipients and rows of other campaigns are as before.
\<close>

theorem discovery_replaces_the_recipients:
  assumes "rebuild_tx campaign n retained summary fresh now db = Inr (run, db')"
  shows "map (\<lambda>r. (rc_creatorId r, rc_selected r)) (filter (\<lambda>r. rc_campaignId r = ca_id campaign) (tb_recipients db'))
      = map (\<lambda>(e, c). (dc_creatorId c, ev_selected e)) retained \<and>
    distinct (map (\<lambda>(e, c). dc_creatorId c) retained) \<and>
    filter (\<lambda>r. rc_campaignId r \<noteq> ca_id campaign) (tb_recipients db') = filter (\<lambda>r. rc_campaignId r \<noteq> ca_id campaign) (tb_recipients db) \<and>
    (\<forall>r \<in> set (tb_recipients db). rc_campaignId r = ca_id campaign \<longrightarrow>
      (\<forall>d \<in> set (tb_deliveries db'). dl_campaignRecipientId d \<noteq> rc_id r) \<and>
      (\<forall>v \<in> set (tb_reservations db'). rv_campaignRecipientId v \<noteq> rc_id r)) \<and>
    map_option ca_state (find_campaign (ca_id campaign) db') = Some PREVIEW_READY \<and>
    (\<forall>c \<in> set (tb_campaigns db). ca_id c \<noteq> ca_id campaign \<longrightarrow> c \<in> set (tb_campaigns db'))"
proof -
  obtain rows where rows: "recipient_rows (ca_id campaign) fresh 1 retained = Inr rows"
    "tb_recipients db' = del_where (\<lambda>r. rc_campaignId r = ca_id campaign) (tb_recipients db) @ rows"
    "distinct (map (\<lambda>r. (rc_campaignId r, rc_creatorId r)) rows)"
    "tb_reservations db' = del_where (\<lambda>v. rv_campaignRecipientId v \<in> rc_id ` {r \<in> set (tb_recipients db). rc_campaignId r = ca_id campaign}) (tb_reservations db)"
    "tb_deliveries db' = del_where (\<lambda>d. dl_campaignRecipientId d \<in> rc_id ` {r \<in> set (tb_recipients db). rc_campaignId r = ca_id campaign}) (tb_deliveries db)"
    "map_option ca_state (find_campaign (ca_id campaign) db') = Some PREVIEW_READY"
    "\<forall>c \<in> set (tb_campaigns db). ca_id c \<noteq> ca_id campaign \<longrightarrow> c \<in> set (tb_campaigns db')"
    using rebuild_tx_effect [OF assms] by blast
  note fields = recipient_rows_fields [OF rows(1)]
  have own: "\<forall>r \<in> set rows. rc_campaignId r = ca_id campaign"
  proof
    fix r assume "r \<in> set rows"
    then have "(rc_campaignId r, rc_creatorId r, rc_selected r) \<in> set (map (\<lambda>(e, c). (ca_id campaign, dc_creatorId c, ev_selected e)) retained)"
      unfolding fields [symmetric] by auto
    then show "rc_campaignId r = ca_id campaign" by auto
  qed
  have selected: "map (\<lambda>r. (rc_creatorId r, rc_selected r)) rows = map (\<lambda>(e, c). (dc_creatorId c, ev_selected e)) retained"
    using arg_cong [OF fields, of "map snd"] by (simp add: comp_def case_prod_beta)
  have creators: "map rc_creatorId rows = map (\<lambda>(e, c). dc_creatorId c) retained"
    using arg_cong [OF selected, of "map fst"] by (simp add: comp_def case_prod_beta)
  have "map (\<lambda>r. (rc_campaignId r, rc_creatorId r)) rows = map (Pair (ca_id campaign)) (map rc_creatorId rows)"
    using own by simp
  with rows(3) have "distinct (map (Pair (ca_id campaign)) (map rc_creatorId rows))" by (simp only:)
  then have "distinct (map rc_creatorId rows)" by (simp only: distinct_map [of "Pair (ca_id campaign)"])
  moreover have "filter (\<lambda>r. rc_campaignId r = ca_id campaign) rows = rows" "filter (\<lambda>r. rc_campaignId r \<noteq> ca_id campaign) rows = []"
    using own by (auto simp: filter_id_conv)
  ultimately show ?thesis using rows(4-7) by (auto simp: rows(2) del_where_def selected creators [symmetric] comp_def)
qed

section \<open>Lemmas: the progress\<close>

lemma completed_states:
  "sum_list (map (\<lambda>s. count_where (\<lambda>x. x = s) states)
     [RecipientState.SENT, RecipientState.RESTRICTED, RecipientState.FAILED, RecipientState.DELIVERY_UNKNOWN_UNRESOLVED, RecipientState.CANCELLED])
   = count_where (\<lambda>s. s \<in> set TERMINAL_RECIPIENT_STATES) states"
  by (induction states) (auto simp: count_where_def TERMINAL_RECIPIENT_STATES_def)

lemma count_where_split: "count_where P xs + count_where (\<lambda>x. \<not> P x) xs = int (length xs)"
  unfolding count_where_def using sum_length_filter_compl [of P xs] by linarith



section \<open>Lemmas: a clone is made once\<close>

text \<open>
  The contract of the audit trail: a transaction adds to it and keeps what it finds. A clone looks
  for its request there, so that the trail is what makes it idempotent.
\<close>

locale trail_keeping =
  fixes t :: "Tables \<Rightarrow> Err + 'a \<times> Tables"
  assumes keeps_trail: "t db = Inr (a, db') \<Longrightarrow> prefix (tb_audit db) (tb_audit db')"

lemma trail_bind:
  assumes "trail_keeping t" "\<And>a. trail_keeping (k a)"
  shows "trail_keeping (tx_bind t k)"
proof
  fix db a db' assume "tx_bind t k db = Inr (a, db')"
  then show "prefix (tb_audit db) (tb_audit db')"
    using trail_keeping.keeps_trail [OF assms(1)] trail_keeping.keeps_trail [OF assms(2)]
    by (elim tx_bind_InrE) (blast intro: prefix_order.trans)
qed

lemma trail_basic [simp]:
  "trail_keeping (tx_return a)" "trail_keeping (tx_throw e)" "trail_keeping (tx_read f)" "trail_keeping (tx_guard b e)"
  "trail_keeping (tx_found x)" "trail_keeping (tx_from y)"
  by (auto simp: trail_keeping_def tx_guard_def tx_found_def tx_from_def split: if_splits option.splits sum.splits)

lemma trail_modify: "(\<And>db. prefix (tb_audit db) (tb_audit (f db))) \<Longrightarrow> trail_keeping (tx_modify f)"
  by (auto simp: trail_keeping_def)

lemma trail_option: "trail_keeping t \<Longrightarrow> (\<And>a. trail_keeping (f a)) \<Longrightarrow> trail_keeping (case x of None \<Rightarrow> t | Some a \<Rightarrow> f a)"
  by (cases x) auto

lemma trail_if: "trail_keeping t \<Longrightarrow> trail_keeping u \<Longrightarrow> trail_keeping (if b then t else u)"
  by simp

lemma trail_each: "(\<And>a. trail_keeping (f a)) \<Longrightarrow> trail_keeping (tx_each f as)"
  by (induction as) (auto intro: trail_bind)

lemmas trail_intros = trail_bind trail_option trail_if trail_each trail_modify

lemma trail_update_campaign [simp]: "trail_keeping (update_campaign i fc)"
  by (auto simp: trail_keeping_def dest!: update_campaign_effect)

lemma trail_operations [simp]:
  "trail_keeping (audit s c ty pl)" "trail_keeping (delete_recipients c)"
  "trail_keeping (create_run run)" "trail_keeping (create_candidates ks)" "trail_keeping (create_recipients rs)"
  "trail_keeping (create_campaign k)" "trail_keeping (finish_run i now)"
  by (auto simp: audit_def delete_recipients_def create_run_def create_candidates_def create_recipients_def
      create_campaign_def finish_run_def Let_def intro!: trail_intros)

lemma trail_local_rows: "trail_keeping (local_rows run exact fresh now k ps)"
proof (induction ps arbitrary: k)
  case (Cons p ps)
  then show ?case
    by (cases p) (auto simp: row_snapshot_def intro!: trail_intros split: option.split)
qed simp

interpretation local_preview: trail_keeping "rebuildLocalPreview runId fresh now" for runId fresh now
  unfolding rebuildLocalPreview_def
  by (auto simp: Let_def intro!: trail_intros trail_local_rows split: prod.split)

lemma clone_of_later:
  assumes "clone_of digest db = Some i" "prefix (tb_audit db) (tb_audit db'')"
  shows "clone_of digest db'' = Some i"
  using assms by (auto simp: clone_of_def prefix_def find_append split: option.splits Option.bind_splits)

lemma create_campaign_effect: "create_campaign c db = Inr (u, db') \<Longrightarrow> tb_audit db' = tb_audit db"
  by (auto simp: create_campaign_def elim!: tx_bind_InrE tx_guardE)

lemma copy_candidates_effect: "tx_each (copy_candidate i) ks db = Inr (u, db') \<Longrightarrow> tb_audit db' = tb_audit db"
  by (induction ks arbitrary: db) (auto simp: copy_candidate_def dest!: create_candidates_effect elim!: tx_bind_InrE tx_guardE)

lemma five_steps:
  assumes "tx_bind t1 (\<lambda>_. tx_bind t2 (\<lambda>_. tx_bind t3 (\<lambda>_. tx_bind t4 (\<lambda>_. tx_bind t5 (\<lambda>_. tx_return x))))) db = Inr (i, db')"
  obtains db1 db2 db3 db4 u1 u2 u3 u4 u5 where "t1 db = Inr (u1, db1)" "t2 db1 = Inr (u2, db2)" "t3 db2 = Inr (u3, db3)" "t4 db3 = Inr (u4, db4)"
    "t5 db4 = Inr (u5, db')" "i = x"
proof -
  from assms obtain u1 db1 where 1: "t1 db = Inr (u1, db1)"
    "tx_bind t2 (\<lambda>_. tx_bind t3 (\<lambda>_. tx_bind t4 (\<lambda>_. tx_bind t5 (\<lambda>_. tx_return x)))) db1 = Inr (i, db')" by (rule tx_bind_InrE)
  from 1(2) obtain u2 db2 where 2: "t2 db1 = Inr (u2, db2)"
    "tx_bind t3 (\<lambda>_. tx_bind t4 (\<lambda>_. tx_bind t5 (\<lambda>_. tx_return x))) db2 = Inr (i, db')" by (rule tx_bind_InrE)
  from 2(2) obtain u3 db3 where 3: "t3 db2 = Inr (u3, db3)"
    "tx_bind t4 (\<lambda>_. tx_bind t5 (\<lambda>_. tx_return x)) db3 = Inr (i, db')" by (rule tx_bind_InrE)
  from 3(2) obtain u4 db4 where 4: "t4 db3 = Inr (u4, db4)" "tx_bind t5 (\<lambda>_. tx_return x) db4 = Inr (i, db')" by (rule tx_bind_InrE)
  from 4(2) obtain u5 db5 where 5: "t5 db4 = Inr (u5, db5)" "tx_return x db5 = Inr (i, db')" by (rule tx_bind_InrE)
  show thesis using that [OF 1(1) 2(1) 3(1) 4(1)] 5 by (simp add: tx_return_def)
qed

text \<open>What a clone leaves: the entry of its request in the trail.\<close>

lemma clone_tx_recorded:
  assumes "clone_tx source sourceRun candidates input digest fresh now db = Inr (i, db')"
    and "\<forall>a \<in> set (tb_audit db). au_eventType a = ''CAMPAIGN_CLONED_FROM_PREVIEW'' \<longrightarrow> au_campaignId a \<noteq> None"
  shows "clone_of digest db' = Some i"
proof (cases "clone_of digest db")
  case (Some j)
  then show ?thesis using assms(1) by (simp add: clone_tx_def)
next
  case None
  define is_clone where "is_clone = (\<lambda>a :: AuditEvent. au_eventType a = ''CAMPAIGN_CLONED_FROM_PREVIEW'' \<and>
     map_of (object_fields (au_payload a)) ''idempotencyDigest'' = Some (JStr digest))"
  have no: "List.find is_clone (tb_audit db) = None"
  proof (rule ccontr)
    assume "List.find is_clone (tb_audit db) \<noteq> None"
    then obtain a where a: "List.find is_clone (tb_audit db) = Some a" by auto
    then have "a \<in> set (tb_audit db)" "is_clone a" by (auto dest: find_SomeD)
    then have "au_campaignId a \<noteq> None" using assms(2) by (simp add: is_clone_def)
    then show False using None a by (auto simp: clone_of_def is_clone_def)
  qed
  define entry where "entry = \<lparr>au_shopId = ca_shopId source, au_campaignId = Some (fresh 0), au_eventType = ''CAMPAIGN_CLONED_FROM_PREVIEW'',
     au_payload = JObj [(''sourceCampaignId'', JStr (ca_id source)), (''idempotencyDigest'', JStr digest),
       (''candidateSource'', JStr ''LOCAL_PERSISTED_PREVIEW''), (''providerRequests'', JNum 0)]\<rparr>"
  obtain name where name: "allocateCampaignName now db = Inr (name, db)" by (simp add: allocateCampaignName_def)
  define campaign where "campaign = clone_campaign (fresh 0) name source input"
  define run where "run = new_run (fresh 1) campaign \<lfloor>cl_targetCount input\<rfloor> (int (length candidates)) (dr_providerHasMore sourceRun) now"
  have ids: "ca_id campaign = fresh 0" "dr_id run = fresh 1" by (simp_all add: campaign_def clone_campaign_def run_def new_run_def)
  have "tx_bind (create_campaign campaign) (\<lambda>_. tx_bind (create_run run) (\<lambda>_. tx_bind (tx_each (copy_candidate (fresh 1)) candidates) (\<lambda>_.
      tx_bind (audit (ca_shopId source) (fresh 0) ''CAMPAIGN_CLONED_FROM_PREVIEW'' (au_payload entry)) (\<lambda>_.
      tx_bind (rebuildLocalPreview (fresh 1) (\<lambda>k. fresh (k + 2)) now) (\<lambda>_. tx_return (fresh 0)))))) db = Inr (i, db')"
    using assms(1) None name
    by (simp add: clone_tx_def Let_def campaign_def [symmetric] run_def [symmetric] ids entry_def del: One_nat_def)
  from five_steps [OF this] obtain db1 db2 db3 db5 u1 u2 u3 u4 s where steps: "create_campaign campaign db = Inr (u1, db1)"
      "create_run run db1 = Inr (u2, db2)" "tx_each (copy_candidate (fresh 1)) candidates db2 = Inr (u3, db3)"
      "audit (ca_shopId source) (fresh 0) ''CAMPAIGN_CLONED_FROM_PREVIEW'' (au_payload entry) db3 = Inr (u4, db5)"
      "rebuildLocalPreview (fresh 1) (\<lambda>k. fresh (k + 2)) now db5 = Inr (s, db')" "i = fresh 0" .
  have db5: "tb_audit db5 = tb_audit db @ [entry]"
    using create_campaign_effect [OF steps(1)] create_run_effect [OF steps(2)] copy_candidates_effect [OF steps(3)] steps(4)
    by (simp add: audit_def) (auto simp: entry_def)
  have "clone_of digest db5 = Some i"
    using no db5 steps(6) by (simp add: clone_of_def is_clone_def [symmetric] find_append) (simp add: is_clone_def entry_def object_fields_def)
  then show ?thesis using clone_of_later local_preview.keeps_trail [OF steps(5)] by blast
qed

text \<open>
  C24. Once the transaction of cloneFromPreview has committed for a request digest, repeating it
  with the same digest at any later time, whatever its other arguments, returns the campaign
  already made and changes nothing.
\<close>

theorem clone_is_idempotent:
  assumes "clone_tx source sourceRun candidates input digest fresh now db = Inr (i, db')"
    and "\<forall>a \<in> set (tb_audit db). au_eventType a = ''CAMPAIGN_CLONED_FROM_PREVIEW'' \<longrightarrow> au_campaignId a \<noteq> None"
    and "prefix (tb_audit db') (tb_audit db'')"
  shows "clone_tx source sourceRun' candidates' input' digest fresh' now' db'' = Inr (i, db'')"
  using clone_of_later [OF clone_tx_recorded [OF assms(1,2)] assms(3)] by (simp add: clone_tx_def)

section \<open>Runs on the small world\<close>

definition ex_snapshot :: "ident \<Rightarrow> ident \<Rightarrow> real \<Rightarrow> Snapshot" where
  "ex_snapshot i creator followers =
    \<lparr>sn_id = i, sn_creatorId = creator, sn_shopId = Some ''s1'', sn_followerCount = Some followers,
     sn_categoryIds = JArr [JStr ''7''], sn_gmvAmount = None, sn_gmvCurrency = None, sn_unitsSold = None, sn_avgVideoViews = None,
     sn_avgLiveViewers = None, sn_engagementRate = None, sn_metrics = JObj [], sn_rawPayload = JObj [], sn_sourceFetchedAt = 500, sn_sourcePageKey = None\<rparr>"

definition ex_identity :: "ident \<Rightarrow> ProviderIdentity" where
  "ex_identity creator = \<lparr>pv_creatorId = creator, pv_provider = ''TIKTOK_SHOP'', pv_identityType = ''TIKTOK_CREATOR_OPEN_ID'',
     pv_identifier = ''open-'' @ creator, pv_linkState = ''VERIFIED'', pv_evidenceType = ''MARKETPLACE_EXACT_FIELD''\<rparr>"

definition ex_database :: Tables where
  "ex_database = ex_tables\<lparr>tb_snapshots := [ex_snapshot ''n1'' ''c1'' 500, ex_snapshot ''n2'' ''c2'' 900],
     tb_identities := [ex_identity ''c1'', ex_identity ''c2'']\<rparr>"

text \<open>A draft whose discovery was asked for, with no reservation yet.\<close>

definition ex_draft :: Campaign where
  "ex_draft = ex_campaign\<lparr>ca_state := DRAFT, ca_frozenAt := None\<rparr>"

definition ex_before :: Tables where
  "ex_before = ex_database\<lparr>tb_campaigns := [ex_draft], tb_recipients := [], tb_reservations := [], tb_deliveries := [], tb_outbox := []\<rparr>"

definition ex_built :: "Err + PreviewResult \<times> (EvaluatedCreator \<times> DatabaseCandidate) list" where
  "ex_built = build_local ex_draft (candidates_in ''s1'' ex_before) (active_open_ids ''s1'' 2000 ex_before) 2000"

lemma ex_rows: "map cr_id (creator_rows ''s1'' ex_before) = [''c1'', ''c2'']"
  by code_simp

lemma ex_builds: "case ex_built of Inl _ \<Rightarrow> False
   | Inr (preview, retained) \<Rightarrow> map (\<lambda>(e, c). (cc_creatorOpenId e, dc_creatorId c, ev_selected e)) retained
       = [(''open-c1'', ''c1'', True), (''open-c2'', ''c2'', True)]"
  by code_simp


definition ex_reader :: Env where
  "ex_reader = \<lparr>e_now = 2000, e_fresh = (\<lambda>n. show_int (int n)), e_random = 0, e_dbDown = False, e_queueDown = None,
     e_jobState = None, e_conversation = Inr [], e_send = Answered (MessageUnknown [] None),
     e_conversations = (\<lambda>_. Inr no_page), e_messages = (\<lambda>_ _ _. Inr no_page),
     e_search = (\<lambda>_ _ _. Inl Stopped), e_readSheet = (\<lambda>_. Inl Stopped), e_reconcileSheet = (\<lambda>_ _. Inl Stopped)\<rparr>"

definition ex_reading :: World where
  "ex_reading = \<lparr>w_tables = ex_before, w_jobs = [], w_requests = []\<rparr>"

lemma ex_found: "map (dc_creatorId \<circ> fst) (candidates_in ''s1'' ex_before) = [''c1'', ''c2'']"
  by code_simp

lemma creator_pages_are_complete_witness:
  "\<exists>found. p_run [ex_reader] (load_candidates 1 ''s1'' None []) ex_reading = (Return found, ex_reading) \<and>
     map (dc_creatorId \<circ> fst) found = [''c1'', ''c2'']"
proof -
  have "distinct (map cr_id (tb_creators (w_tables ex_reading)))" "\<not> e_dbDown ex_reader"
    by (simp_all add: ex_reading_def ex_before_def ex_database_def ex_defs ex_reader_def)
  moreover have "length (creator_rows ''s1'' (w_tables ex_reading)) = 2"
    using arg_cong [OF ex_rows, of length] by (simp add: ex_reading_def)
  ultimately show ?thesis
    using creator_pages_are_complete [of ex_reading ex_reader 1 "''s1''"] ex_found by (simp add: ex_reading_def)
qed

definition ex_retained :: "(EvaluatedCreator \<times> DatabaseCandidate) list" where
  "ex_retained = (case ex_built of Inl _ \<Rightarrow> [] | Inr (_, retained) \<Rightarrow> retained)"

lemma ex_built_retained: "\<exists>preview. ex_built = Inr (preview, ex_retained)"
proof (cases ex_built)
  case (Inl e)
  show ?thesis using ex_builds unfolding Inl by simp
next
  case (Inr b)
  then show ?thesis unfolding ex_retained_def Inr by (cases b) simp
qed

lemma ex_retained_members:
  "map (\<lambda>(e, c). (cc_creatorOpenId e, dc_creatorId c, ev_selected e)) ex_retained = [(''open-c1'', ''c1'', True), (''open-c2'', ''c2'', True)]"
proof -
  obtain preview where b: "ex_built = Inr (preview, ex_retained)" using ex_built_retained by blast
  show ?thesis using ex_builds unfolding b by simp
qed

lemma ex_before_unique: "creators_unique ex_before"
  by (auto simp: creators_unique_def ex_before_def ex_database_def ex_defs)

lemma discovered_selection_may_be_contacted_witness:
  "\<exists>e c. (e, c) \<in> set ex_retained \<and> ev_selected e \<and> cc_creatorOpenId e \<in> set (verified_identifiers (dc_creatorId c) ex_before)"
proof -
  obtain preview where b: "build_local ex_draft (candidates_in (ca_shopId ex_draft) ex_before) (active_open_ids (ca_shopId ex_draft) 2000 ex_before) 2000
      = Inr (preview, ex_retained)"
    using ex_built_retained by (auto simp: ex_built_def ex_draft_def ex_campaign_def)
  have "(''open-c1'', ''c1'', True) \<in> set (map (\<lambda>(e, c). (cc_creatorOpenId e, dc_creatorId c, ev_selected e)) ex_retained)"
    unfolding ex_retained_members by simp
  then obtain e c where m: "(e, c) \<in> set ex_retained" "ev_selected e" by auto
  have "cc_creatorOpenId e \<in> set (verified_identifiers (dc_creatorId c) ex_before)"
    using discovered_selection_may_be_contacted [OF b m ex_before_unique] by auto
  then show ?thesis using m by blast
qed

text \<open>The campaign was frozen and queued after \<open>discover\<close> read it as a draft.\<close>

definition ex_raced :: Tables where
  "ex_raced = ex_database"

definition ex_fresh :: "nat \<Rightarrow> ident" where
  "ex_fresh n = ''f'' @ show_int (int n)"

lemma ex_rebuilds: "after (rebuild_tx ex_draft 2 ex_retained [] ex_fresh 2000 ex_raced) (\<lambda>db. True)"
  unfolding ex_retained_def by code_simp

lemma discovery_replaces_the_recipients_witness:
  "\<exists>run db. rebuild_tx ex_draft 2 ex_retained [] ex_fresh 2000 ex_raced = Inr (run, db) \<and>
     map_option ca_state (find_campaign ''k1'' ex_raced) = Some CampaignState.QUEUED \<and> length (tb_deliveries ex_raced) = 2 \<and>
     map_option ca_state (find_campaign ''k1'' db) = Some PREVIEW_READY \<and>
     (\<forall>d \<in> set (tb_deliveries db). dl_campaignRecipientId d \<noteq> ''r1'' \<and> dl_campaignRecipientId d \<noteq> ''r2'')"
proof -
  obtain run db where r: "rebuild_tx ex_draft 2 ex_retained [] ex_fresh 2000 ex_raced = Inr (run, db)"
    using ex_rebuilds by (auto simp: after_def split: sum.splits)
  have rows: "ca_id ex_draft = ''k1''" "tb_recipients ex_raced = [ex_recipient ''r1'' ''c1'', ex_recipient ''r2'' ''c2'']"
    "map_option ca_state (find_campaign ''k1'' ex_raced) = Some CampaignState.QUEUED" "length (tb_deliveries ex_raced) = 2"
    by (simp_all add: ex_draft_def ex_raced_def ex_database_def ex_defs find_campaign_def)
  show ?thesis using discovery_replaces_the_recipients [OF r] r rows by (simp add: ex_recipient_def)
qed

definition ex_candidates :: "DiscoveryCandidate list" where
  "ex_candidates = map (stored_candidate ''run'') ex_retained"

definition ex_clone_input :: CampaignCloneInput where
  "ex_clone_input = \<lparr>cl_productName = Some ''Mat'', cl_messageTemplate = ''Hello'', cl_targetCount = 2\<rparr>"

definition ex_clone :: "Tables \<Rightarrow> Err + ident \<times> Tables" where
  "ex_clone db = clone_tx ex_draft (new_run ''run'' ex_draft 2 2 False 1000) ex_candidates ex_clone_input ''h'' ex_fresh 2000 db"

lemma ex_clones: "after (ex_clone ex_before) (\<lambda>db. length (tb_campaigns db) = 2 \<and> length (tb_recipients db) = 2)"
  unfolding ex_clone_def ex_candidates_def ex_retained_def by code_simp

lemma clone_is_idempotent_witness:
  "\<exists>i db. ex_clone ex_before = Inr (i, db) \<and> length (tb_campaigns db) = 2 \<and> ex_clone db = Inr (i, db)"
proof -
  obtain i db where c: "ex_clone ex_before = Inr (i, db)" "length (tb_campaigns db) = 2"
    using ex_clones by (auto simp: after_def split: sum.splits)
  have "tb_audit ex_before = []" by (simp add: ex_before_def ex_database_def ex_defs)
  then have "ex_clone db = Inr (i, db)"
    unfolding ex_clone_def using c(1) by (intro clone_is_idempotent [of _ _ _ _ _ ex_fresh 2000 ex_before i db]) (auto simp: ex_clone_def)
  then show ?thesis using c by blast
qed

section \<open>Lemmas: cancelling a discovery claims nothing\<close>

interpretation discovery_cancelling: claimless "cancel_run i now" for i now
  unfolding cancel_run_def by (auto intro!: claimless_intros)

lemma keeps_cancelDiscovery: "keeps (cancelDiscovery i)"
  unfolding cancelDiscovery_def
  by (auto intro!: keeps_rules discovery_cancelling.claimless_axioms split: option.split)

end
