(* ===== verification/ReadGovernor.thy ===== *)
theory ReadGovernor
  imports Store Partitions
begin

text \<open>
  The governor of the read requests (\<open>apps/api/src/integrations/tiktok-read-governor.ts\<close>): one row per
  provider, shop and operation holds its cooldown, one row per group of operations the lease and the
  spacing. Every Prisma call is a function of the rows on its own, since the code uses no transaction:
  \<open>read_run\<close> lets the calls of any number of processes, each with a clock read earlier, interleave in
  any way. The methods compose the calls in the order of the code. Parameters: the time zone database
  (\<open>parts\<close>, what \<open>Intl.DateTimeFormat\<close> gives for an instant), the clock, lease ids and row ids.
\<close>

section \<open>Rows, leases and errors\<close>

fun read_operation_name :: "TikTokReadOperation \<Rightarrow> string" where
  "read_operation_name GET_AUTHORIZED_SHOPS = ''GET_AUTHORIZED_SHOPS''"
| "read_operation_name GET_CATEGORIES = ''GET_CATEGORIES''"
| "read_operation_name SEARCH_CREATORS = ''SEARCH_CREATORS''"
| "read_operation_name GET_CREATOR_PERFORMANCE = ''GET_CREATOR_PERFORMANCE''"
| "read_operation_name LIST_CONVERSATIONS = ''LIST_CONVERSATIONS''"
| "read_operation_name LIST_MESSAGES = ''LIST_MESSAGES''"

record ReadThrottle =
  rt_id :: ident
  rt_provider :: string
  rt_shopScope :: string
  rt_operation :: string
  rt_lastRequestAt :: "millis option"
  rt_lastSuccessAt :: "millis option"
  rt_lastThrottleAt :: "millis option"
  rt_consecutiveThrottleCount :: int
  rt_nextPermittedAt :: "millis option"
  rt_spacingUntil :: "millis option"
  rt_lastProviderRequestId :: "string option"
  rt_retryAfterMs :: "int option"
  rt_leaseId :: "ident option"
  rt_leaseExpiresAt :: "millis option"

record ReadInput =
  ri_provider :: string
  ri_shopScope :: string
  ri_operation :: TikTokReadOperation

record ReadLease = ReadInput +
  rl_leaseOperation :: string
  rl_leaseId :: ident

record ReadEvent =
  re_requestId :: "string option"
  re_retryAfterMs :: "jsnum option"
  re_providerCode :: "int option"
  re_httpStatus :: "int option"

text \<open>The options, with the two settings of the configuration they fall back to.\<close>

record ReadOptions =
  ro_spacingMs :: "int option"
  ro_marketplaceSpacingMs :: "int option"
  ro_leaseMs :: "int option"
  ro_timezone :: "string option"
  ro_configSpacingMs :: int
  ro_configTimezone :: string

datatype read_error = ApiError TikTokApiError | RowNotFound

section \<open>Delays and dates\<close>

definition DEFAULT_SPACING_MS :: int where "DEFAULT_SPACING_MS = 750"
definition LEASE_MS :: int where "LEASE_MS = 120000"

definition safeDelay :: "jsnum option \<Rightarrow> int option" where
  "safeDelay value = (case value of Some (Fin x) \<Rightarrow> if x < 0 then None else Some (min \<lfloor>x\<rfloor> (24 * 60 * 60000)) | _ \<Rightarrow> None)"

definition latestDate :: "int option list \<Rightarrow> int option" where
  "latestDate values = (case List.map_filter id values of [] \<Rightarrow> None | d # ds \<Rightarrow> Some (fold max ds d))"

fun leaseOperation :: "TikTokReadOperation \<Rightarrow> string" where
  "leaseOperation GET_AUTHORIZED_SHOPS = ''__LEASE__:AUTHORIZED_SHOPS''"
| "leaseOperation SEARCH_CREATORS = ''__LEASE__:SEARCH_CREATORS''"
| "leaseOperation _ = ''__LEASE__:SHOP_HISTORY_READS''"

definition spacingMs :: "TikTokReadOperation \<Rightarrow> ReadOptions \<Rightarrow> int" where
  "spacingMs operation opts =
    (if operation = SEARCH_CREATORS
     then (case ro_marketplaceSpacingMs opts of Some s \<Rightarrow> s | None \<Rightarrow> ro_configSpacingMs opts)
     else (case ro_spacingMs opts of Some s \<Rightarrow> s | None \<Rightarrow> DEFAULT_SPACING_MS))"

definition lease_ms :: "ReadOptions \<Rightarrow> int" where
  "lease_ms opts = (case ro_leaseMs opts of Some l \<Rightarrow> l | None \<Rightarrow> LEASE_MS)"

text \<open>
  \<open>Date.UTC\<close> of a year from 100 on: days that overflow the month run on into the next one.
\<close>

definition days_from_civil :: "int \<Rightarrow> int \<Rightarrow> int \<Rightarrow> int" where
  "days_from_civil y m d =
    (let y' = (if m \<le> 2 then y - 1 else y); era = y' div 400; yoe = y' mod 400;
         doy = (153 * (if m > 2 then m - 3 else m + 9) + 2) div 5 + d - 1
     in era * 146097 + (yoe * 365 + yoe div 4 - yoe div 100 + doy) - 719468)"

record DateParts =
  dp_year :: int
  dp_month :: int
  dp_day :: int
  dp_hour :: int
  dp_minute :: int
  dp_second :: int

definition nextLocalDay :: "(string \<Rightarrow> int \<Rightarrow> DateParts) \<Rightarrow> int \<Rightarrow> string \<Rightarrow> int" where
  "nextLocalDay parts now timezone =
    (let p = parts timezone now;
         nominalUtc = days_from_civil (dp_year p) (dp_month p) (dp_day p + 1) * 86400000;
         l = parts timezone nominalUtc;
         offset = days_from_civil (dp_year l) (dp_month l) (dp_day l) * 86400000
           + dp_hour l * 3600000 + dp_minute l * 60000 + dp_second l * 1000 - nominalUtc
     in nominalUtc - offset + 5 * 60000)"

section \<open>The calls of the database\<close>

definition rt_key :: "ReadThrottle \<Rightarrow> string \<times> string \<times> string" where
  "rt_key r = (rt_provider r, rt_shopScope r, rt_operation r)"

definition new_row :: "string \<Rightarrow> string \<times> string \<times> string \<Rightarrow> ReadThrottle" where
  "new_row i k = \<lparr>rt_id = i, rt_provider = fst k, rt_shopScope = fst (snd k), rt_operation = snd (snd k), rt_lastRequestAt = None,
     rt_lastSuccessAt = None, rt_lastThrottleAt = None, rt_consecutiveThrottleCount = 0, rt_nextPermittedAt = None,
     rt_spacingUntil = None, rt_lastProviderRequestId = None, rt_retryAfterMs = None, rt_leaseId = None, rt_leaseExpiresAt = None\<rparr>"

text \<open>\<open>upsert\<close> with an empty update: the row of the key, created when it is missing.\<close>

definition ensure_row :: "string \<Rightarrow> string \<times> string \<times> string \<Rightarrow> ReadThrottle list \<Rightarrow> ReadThrottle \<times> ReadThrottle list" where
  "ensure_row i k rows = (case List.find (\<lambda>r. rt_key r = k) rows of Some r \<Rightarrow> (r, rows) | None \<Rightarrow> (new_row i k, rows @ [new_row i k]))"

definition claimable_row :: "int \<Rightarrow> ReadThrottle \<Rightarrow> bool" where
  "claimable_row now r \<longleftrightarrow>
    (case rt_spacingUntil r of None \<Rightarrow> True | Some u \<Rightarrow> u \<le> now) \<and>
    (rt_leaseId r = None \<or> (case rt_leaseExpiresAt r of None \<Rightarrow> False | Some e \<Rightarrow> e \<le> now))"

definition claimed_row :: "ReadOptions \<Rightarrow> TikTokReadOperation \<Rightarrow> string \<Rightarrow> int \<Rightarrow> ReadThrottle \<Rightarrow> ReadThrottle" where
  "claimed_row opts operation leaseId now r = r\<lparr>rt_leaseId := Some leaseId, rt_leaseExpiresAt := Some (now + lease_ms opts),
     rt_spacingUntil := Some (now + spacingMs operation opts)\<rparr>"

definition claim_row :: "ReadOptions \<Rightarrow> string \<Rightarrow> TikTokReadOperation \<Rightarrow> string \<Rightarrow> int \<Rightarrow> ReadThrottle list \<Rightarrow> int \<times> ReadThrottle list" where
  "claim_row opts i operation leaseId now rows =
    (let hit = (\<lambda>r. rt_id r = i \<and> claimable_row now r)
     in (count_where hit rows, upd_where hit (claimed_row opts operation leaseId now) rows))"

definition operation_key :: "'a ReadInput_scheme \<Rightarrow> string \<times> string \<times> string" where
  "operation_key inp = (ri_provider inp, ri_shopScope inp, read_operation_name (ri_operation inp))"

definition group_key :: "'a ReadInput_scheme \<Rightarrow> string \<times> string \<times> string" where
  "group_key inp = (ri_provider inp, ri_shopScope inp, leaseOperation (ri_operation inp))"

definition held_by :: "ReadLease \<Rightarrow> ReadThrottle \<Rightarrow> bool" where
  "held_by lease r \<longleftrightarrow> rt_key r = (ri_provider lease, ri_shopScope lease, rl_leaseOperation lease) \<and> rt_leaseId r = Some (rl_leaseId lease)"

definition renew_lease :: "ReadOptions \<Rightarrow> ReadLease \<Rightarrow> int \<Rightarrow> ReadThrottle list \<Rightarrow> ReadThrottle list" where
  "renew_lease opts lease now = upd_where (held_by lease) (\<lambda>r. r\<lparr>rt_leaseExpiresAt := Some (now + lease_ms opts)\<rparr>)"

definition space_lease :: "ReadOptions \<Rightarrow> ReadLease \<Rightarrow> int \<Rightarrow> ReadThrottle list \<Rightarrow> ReadThrottle list" where
  "space_lease opts lease now = upd_where (held_by lease) (\<lambda>r. r\<lparr>rt_spacingUntil := Some (now + spacingMs (ri_operation lease) opts)\<rparr>)"

definition read_release :: "ReadLease \<Rightarrow> ReadThrottle list \<Rightarrow> ReadThrottle list" where
  "read_release lease = upd_where (held_by lease) (\<lambda>r. r\<lparr>rt_leaseId := None, rt_leaseExpiresAt := None\<rparr>)"

definition mark_started :: "ReadLease \<Rightarrow> int \<Rightarrow> ReadThrottle list \<Rightarrow> ReadThrottle list" where
  "mark_started lease now = upd_where (\<lambda>r. rt_key r = operation_key lease) (\<lambda>r. r\<lparr>rt_lastRequestAt := Some now\<rparr>)"

definition mark_succeeded :: "ReadLease \<Rightarrow> ReadEvent \<Rightarrow> int \<Rightarrow> ReadThrottle list \<Rightarrow> ReadThrottle list" where
  "mark_succeeded lease event now = upd_where (\<lambda>r. rt_key r = operation_key lease)
     (\<lambda>r. r\<lparr>rt_lastSuccessAt := Some now, rt_consecutiveThrottleCount := 0, rt_nextPermittedAt := None, rt_retryAfterMs := None,
       rt_lastProviderRequestId := or_else (re_requestId event) (rt_lastProviderRequestId r)\<rparr>)"

definition mark_throttled :: "string \<Rightarrow> int \<Rightarrow> int \<Rightarrow> int \<Rightarrow> int option \<Rightarrow> ReadEvent \<Rightarrow> ReadThrottle list \<Rightarrow> ReadThrottle list" where
  "mark_throttled i now throttles nextPermittedAt retryAfterMs event = upd_where (\<lambda>r. rt_id r = i)
     (\<lambda>r. r\<lparr>rt_lastThrottleAt := Some now, rt_consecutiveThrottleCount := throttles, rt_nextPermittedAt := Some nextPermittedAt,
       rt_retryAfterMs := or_else retryAfterMs (rt_retryAfterMs r),
       rt_lastProviderRequestId := or_else (re_requestId event) (rt_lastProviderRequestId r)\<rparr>)"

section \<open>TikTokReadGovernor\<close>

definition configuredMarketplaceRetryDelayMs :: "(string \<times> int) list \<Rightarrow> string \<Rightarrow> int" where
  "configuredMarketplaceRetryDelayMs jobs shopScope =
    (case map_of jobs shopScope of
       Some seconds \<Rightarrow> if seconds \<ge> MIN_MARKETPLACE_RETRY_DELAY_SECONDS then marketplaceRetryDelayMs seconds
         else marketplaceRetryDelayMs DEFAULT_MARKETPLACE_RETRY_DELAY_SECONDS
     | None \<Rightarrow> marketplaceRetryDelayMs DEFAULT_MARKETPLACE_RETRY_DELAY_SECONDS)"

definition cooling_error :: "TikTokReadOperation \<Rightarrow> ReadThrottle \<Rightarrow> TikTokApiError" where
  "cooling_error operation r = \<lparr>te_kind = ''RATE_LIMIT'', te_operation = operation, te_httpStatus = Some 429,
     te_providerCode = Some 36009002, te_requestId = rt_lastProviderRequestId r,
     te_message = ''TikTok read operation is cooling down; no provider request was made'',
     te_retryAfterMs = rt_retryAfterMs r, te_nextPermittedAt = rt_nextPermittedAt r, te_locallyBlocked = True\<rparr>"

definition paced_error :: "TikTokReadOperation \<Rightarrow> ReadThrottle \<Rightarrow> int \<Rightarrow> TikTokApiError" where
  "paced_error operation r next = \<lparr>te_kind = ''RATE_LIMIT'', te_operation = operation, te_httpStatus = Some 429,
     te_providerCode = None, te_requestId = rt_lastProviderRequestId r,
     te_message = ''TikTok read operation is already in flight or locally paced; no provider request was made'',
     te_retryAfterMs = rt_retryAfterMs r, te_nextPermittedAt = Some next, te_locallyBlocked = True\<rparr>"

definition read_acquire :: "ReadOptions \<Rightarrow> ReadInput \<Rightarrow> int \<Rightarrow> string \<Rightarrow> string \<Rightarrow> string \<Rightarrow> ReadThrottle list \<Rightarrow>
    (read_error + ReadLease) \<times> ReadThrottle list" where
  "read_acquire opts inp now leaseId i j rows =
    (let (operationState, rows1) = ensure_row i (operation_key inp) rows
     in if (case rt_nextPermittedAt operationState of None \<Rightarrow> False | Some t \<Rightarrow> t > now)
        then (Inl (ApiError (cooling_error (ri_operation inp) operationState)), rows1)
        else (let (row, rows2) = ensure_row j (group_key inp) rows1;
                  (claimed, rows3) = claim_row opts (rt_id row) (ri_operation inp) leaseId now rows2
              in if claimed = 1
                 then (Inr (ReadInput.extend inp (ReadLease.fields (leaseOperation (ri_operation inp)) leaseId)), rows3)
                 else (case List.find (\<lambda>r. rt_id r = rt_id row) rows3 of
                     None \<Rightarrow> (Inl RowNotFound, rows3)
                   | Some current \<Rightarrow> (Inl (ApiError (paced_error (ri_operation inp) operationState
                       (case latestDate [rt_spacingUntil current, rt_leaseExpiresAt current] of None \<Rightarrow> now | Some d \<Rightarrow> d))), rows3))))"

definition read_requestStarted :: "ReadOptions \<Rightarrow> ReadLease \<Rightarrow> int \<Rightarrow> ReadThrottle list \<Rightarrow> ReadThrottle list" where
  "read_requestStarted opts lease now rows = renew_lease opts lease now (mark_started lease now rows)"

definition read_succeeded :: "ReadOptions \<Rightarrow> ReadLease \<Rightarrow> ReadEvent \<Rightarrow> int \<Rightarrow> ReadThrottle list \<Rightarrow> ReadThrottle list" where
  "read_succeeded opts lease event now rows = read_release lease (space_lease opts lease now (mark_succeeded lease event now rows))"

definition local_backoff :: "(string \<times> int) list \<Rightarrow> ReadLease \<Rightarrow> ReadEvent \<Rightarrow> int \<Rightarrow> int" where
  "local_backoff jobs lease event throttles =
    (if ri_operation lease = SEARCH_CREATORS \<and> (re_httpStatus event = Some 429 \<or> re_providerCode event = Some 36009002)
     then configuredMarketplaceRetryDelayMs jobs (ri_shopScope lease)
     else if ri_operation lease = SEARCH_CREATORS then CREATOR_MARKETPLACE_RETRY_MS
     else min (15 * 60000) (5000 * 2 ^ nat (min (throttles - 1) 20)))"

definition next_permitted :: "ReadOptions \<Rightarrow> (string \<Rightarrow> int \<Rightarrow> DateParts) \<Rightarrow> (string \<times> int) list \<Rightarrow> ReadLease \<Rightarrow> ReadEvent \<Rightarrow> int \<Rightarrow> int \<Rightarrow> int" where
  "next_permitted opts parts jobs lease event throttles now =
    (if re_providerCode event = Some 45101004
     then nextLocalDay parts now (case ro_timezone opts of Some z \<Rightarrow> z | None \<Rightarrow> ro_configTimezone opts)
     else now + max (local_backoff jobs lease event throttles) (case safeDelay (re_retryAfterMs event) of None \<Rightarrow> 0 | Some d \<Rightarrow> d))"

definition read_throttled :: "ReadOptions \<Rightarrow> (string \<Rightarrow> int \<Rightarrow> DateParts) \<Rightarrow> (string \<times> int) list \<Rightarrow> ReadLease \<Rightarrow> ReadEvent \<Rightarrow> int \<Rightarrow>
    ReadThrottle list \<Rightarrow> (read_error + int) \<times> ReadThrottle list" where
  "read_throttled opts parts jobs lease event now rows =
    (case List.find (\<lambda>r. rt_key r = operation_key lease) rows of
       None \<Rightarrow> (Inl RowNotFound, rows)
     | Some current \<Rightarrow>
         (let throttles = rt_consecutiveThrottleCount current + 1;
              nextPermittedAt = next_permitted opts parts jobs lease event throttles now
          in (Inr nextPermittedAt,
              read_release lease (mark_throttled (rt_id current) now throttles nextPermittedAt (safeDelay (re_retryAfterMs event)) event rows))))"

section \<open>All interleavings of the calls\<close>

text \<open>
  What happened, newest first: a claim that succeeded, with the clock its process had read, and a
  release. The calls of all processes interleave; a process that renews or spaces a lease has read
  its clock after it claimed the lease.
\<close>

datatype read_event = Claimed "string \<times> string \<times> string" ident millis | Released ident

definition lease_of :: "string \<times> string \<times> string \<Rightarrow> TikTokReadOperation \<Rightarrow> ident \<Rightarrow> ReadLease" where
  "lease_of k operation leaseId = \<lparr>ri_provider = fst k, ri_shopScope = fst (snd k), ri_operation = operation,
     rl_leaseOperation = snd (snd k), rl_leaseId = leaseId\<rparr>"

inductive read_run :: "ReadOptions \<Rightarrow> ReadThrottle list \<Rightarrow> read_event list \<Rightarrow> bool" for opts :: ReadOptions where
  nothing: "read_run opts [] []"
| ensured: "read_run opts rows past \<Longrightarrow> i \<notin> rt_id ` set rows \<Longrightarrow> read_run opts (snd (ensure_row i k rows)) past"
| claim: "read_run opts rows past \<Longrightarrow> r \<in> set rows \<Longrightarrow> snd (snd (rt_key r)) = leaseOperation operation \<Longrightarrow>
    claim_row opts (rt_id r) operation leaseId now rows = (n, rows') \<Longrightarrow>
    read_run opts rows' (if n = 1 then Claimed (rt_key r) leaseId now # past else past)"
| renewed: "read_run opts rows past \<Longrightarrow> \<forall>t. Claimed k leaseId t \<in> set past \<longrightarrow> t \<le> now \<Longrightarrow>
    read_run opts (renew_lease opts (lease_of k operation leaseId) now rows) past"
| spaced: "read_run opts rows past \<Longrightarrow> \<forall>t. Claimed k leaseId t \<in> set past \<longrightarrow> t \<le> now \<Longrightarrow>
    snd (snd k) = leaseOperation operation \<Longrightarrow>
    read_run opts (space_lease opts (lease_of k operation leaseId) now rows) past"
| released: "read_run opts rows past \<Longrightarrow>
    read_run opts (read_release (lease_of k operation leaseId) rows) (Released leaseId # past)"
| started: "read_run opts rows past \<Longrightarrow> read_run opts (mark_started lease now rows) past"
| succeeded: "read_run opts rows past \<Longrightarrow> read_run opts (mark_succeeded lease event now rows) past"
| throttled: "read_run opts rows past \<Longrightarrow> read_run opts (mark_throttled i now throttles d retry event rows) past"

definition group_spacing :: "ReadOptions \<Rightarrow> string \<times> string \<times> string \<Rightarrow> int" where
  "group_spacing opts k = spacingMs (if snd (snd k) = leaseOperation SEARCH_CREATORS then SEARCH_CREATORS else LIST_MESSAGES) opts"

lemma spacingMs_group: "snd (snd k) = leaseOperation operation \<Longrightarrow> spacingMs operation opts = group_spacing opts k"
  by (cases operation) (simp_all add: group_spacing_def spacingMs_def)

section \<open>The past of a group\<close>

text \<open>The last claim of a group and whether its lease has been released since.\<close>

fun held :: "string \<times> string \<times> string \<Rightarrow> read_event list \<Rightarrow> (millis \<times> ident \<times> bool) option" where
  "held k [] = None"
| "held k (Claimed k' leaseId t # past) = (if k' = k then Some (t, leaseId, False) else held k past)"
| "held k (Released leaseId # past) = (case held k past of None \<Rightarrow> None | Some (t, l, b) \<Rightarrow> Some (t, l, b \<or> l = leaseId))"

lemma held_claimed: "held k past = Some (t, l, b) \<Longrightarrow> Claimed k l t \<in> set past"
  by (induction k past arbitrary: b rule: held.induct) (auto split: if_splits option.splits)

lemma held_split:
  "held k past = Some (t, l, b) \<Longrightarrow>
   \<exists>between older. past = between @ Claimed k l t # older \<and> (\<forall>l' t'. Claimed k l' t' \<notin> set between) \<and> b = (Released l \<in> set between)"
proof (induction k past arbitrary: b rule: held.induct)
  case (2 k k' leaseId t' past)
  show ?case
  proof (cases "k' = k")
    case True
    then show ?thesis using 2(2) by (intro exI [of _ "[]"] exI [of _ past]) auto
  next
    case False
    then obtain between older where "past = between @ Claimed k l t # older" "\<forall>l' t'. Claimed k l' t' \<notin> set between"
      "b = (Released l \<in> set between)" using 2 by auto
    then show ?thesis using False by (intro exI [of _ "Claimed k' leaseId t' # between"] exI [of _ older]) auto
  qed
next
  case (3 k leaseId past)
  then obtain b' where b': "held k past = Some (t, l, b')" "b = (b' \<or> l = leaseId)" by (auto split: option.splits)
  then obtain between older where "past = between @ Claimed k l t # older" "\<forall>l' t'. Claimed k l' t' \<notin> set between"
    "b' = (Released l \<in> set between)" using 3(1) by blast
  then show ?case using b'(2) by (intro exI [of _ "Released leaseId # between"] exI [of _ older]) auto
qed simp

lemma held_None: "held k past = None \<Longrightarrow> Claimed k l t \<notin> set past"
  by (induction k past rule: held.induct) (auto split: if_splits option.splits)

text \<open>Every claim of a group respects the spacing and the lease of every earlier one.\<close>

definition after_earlier :: "ReadOptions \<Rightarrow> string \<times> string \<times> string \<Rightarrow> millis \<Rightarrow> read_event list \<Rightarrow> bool" where
  "after_earlier opts k t past \<longleftrightarrow> (\<forall>between l s older. past = between @ Claimed k l s # older \<longrightarrow>
     s + group_spacing opts k \<le> t \<and> (Released l \<in> set between \<or> s + lease_ms opts \<le> t))"

fun separated :: "ReadOptions \<Rightarrow> read_event list \<Rightarrow> bool" where
  "separated opts [] = True"
| "separated opts (Claimed k l t # past) = (separated opts past \<and> after_earlier opts k t past)"
| "separated opts (Released l # past) = separated opts past"

lemma separated_suffix: "separated opts (xs @ ys) \<Longrightarrow> separated opts ys"
proof (induction xs)
  case (Cons e xs)
  then show ?case by (cases e) auto
qed simp

lemma later_split:
  "xs @ x # ys = zs @ z # ws \<Longrightarrow> z \<notin> set xs \<Longrightarrow> zs = xs \<and> z = x \<and> ws = ys \<or> (\<exists>mid. zs = xs @ x # mid \<and> ys = mid @ z # ws)"
proof (induction xs arbitrary: zs)
  case Nil
  then show ?case by (cases zs) auto
next
  case (Cons a xs)
  then show ?case by (cases zs) auto
qed

lemma after_earlierI:
  assumes "separated opts past" "0 \<le> group_spacing opts k"
    and "\<And>s l b. held k past = Some (s, l, b) \<Longrightarrow> s + group_spacing opts k \<le> t \<and> (b \<or> s + lease_ms opts \<le> t)"
  shows "after_earlier opts k t past"
  unfolding after_earlier_def
proof (intro allI impI)
  fix between l s older assume past: "past = between @ Claimed k l s # older"
  then obtain t1 l1 b where h: "held k past = Some (t1, l1, b)"
    using held_None [of k past l s] by (cases "held k past") auto
  then obtain newer rest where split: "past = newer @ Claimed k l1 t1 # rest" "\<forall>l' t'. Claimed k l' t' \<notin> set newer"
    "b = (Released l1 \<in> set newer)" using held_split by blast
  note last = assms(3) [OF h]
  from split(1) past later_split [of newer "Claimed k l1 t1" rest between "Claimed k l s" older] split(2)
  consider "between = newer" "Claimed k l s = Claimed k l1 t1" | mid where "between = newer @ Claimed k l1 t1 # mid" "rest = mid @ Claimed k l s # older"
    by auto
  then show "s + group_spacing opts k \<le> t \<and> (Released l \<in> set between \<or> s + lease_ms opts \<le> t)"
  proof cases
    case 1
    then show ?thesis using last split(3) by auto
  next
    case 2
    have "separated opts (Claimed k l1 t1 # rest)" using assms(1) unfolding split(1) by (rule separated_suffix)
    then have "s + group_spacing opts k \<le> t1" "Released l \<in> set mid \<or> s + lease_ms opts \<le> t1"
      using 2(2) unfolding separated.simps after_earlier_def by blast+
    then show ?thesis using last assms(2) 2(1) by auto
  qed
qed

section \<open>The rows agree with the past\<close>

definition row_agrees :: "ReadOptions \<Rightarrow> read_event list \<Rightarrow> ReadThrottle \<Rightarrow> bool" where
  "row_agrees opts past r \<longleftrightarrow> (case held (rt_key r) past of
       None \<Rightarrow> rt_leaseId r = None
     | Some (t, l, b) \<Rightarrow> (\<exists>u. rt_spacingUntil r = Some u \<and> t + group_spacing opts (rt_key r) \<le> u) \<and>
         (if rt_leaseId r = None then b else rt_leaseId r = Some l \<and> (\<exists>e. rt_leaseExpiresAt r = Some e \<and> t + lease_ms opts \<le> e)))"

definition claimed_keys :: "read_event list \<Rightarrow> (string \<times> string \<times> string) set" where
  "claimed_keys past = {k. held k past \<noteq> None}"

lemma claimed_keys_simps [simp]:
  "claimed_keys [] = {}" "claimed_keys (Claimed k l t # past) = insert k (claimed_keys past)"
  "claimed_keys (Released l # past) = claimed_keys past"
  by (auto simp: claimed_keys_def split: if_splits option.splits)

definition rows_agree :: "ReadOptions \<Rightarrow> ReadThrottle list \<Rightarrow> read_event list \<Rightarrow> bool" where
  "rows_agree opts rows past \<longleftrightarrow> distinct (map rt_id rows) \<and> distinct (map rt_key rows) \<and>
     claimed_keys past \<subseteq> rt_key ` set rows \<and> (\<forall>r \<in> set rows. row_agrees opts past r)"

text \<open>A call that changes rows without touching ids and keys.\<close>

lemma rows_agree_upd:
  assumes "rows_agree opts rows past" "\<And>r. rt_id (f r) = rt_id r \<and> rt_key (f r) = rt_key r"
    and "claimed_keys past' \<subseteq> rt_key ` set rows"
    and "\<And>r. r \<in> set rows \<Longrightarrow> P r \<Longrightarrow> row_agrees opts past r \<Longrightarrow> row_agrees opts past' (f r)"
    and "\<And>r. r \<in> set rows \<Longrightarrow> \<not> P r \<Longrightarrow> row_agrees opts past r \<Longrightarrow> row_agrees opts past' r"
  shows "rows_agree opts (upd_where P f rows) past'"
proof -
  have "map rt_id (upd_where P f rows) = map rt_id rows" "map rt_key (upd_where P f rows) = map rt_key rows"
    using assms(2) by (simp_all add: map_upd_where_id)
  moreover from this(2) have "rt_key ` set (upd_where P f rows) = rt_key ` set rows" by (metis list.set_map)
  ultimately show ?thesis using assms(1,3-5) by (auto simp: rows_agree_def set_upd_where)
qed

lemma rows_agree_same_lease:
  assumes "rows_agree opts rows past"
    and "\<And>r. rt_id (f r) = rt_id r \<and> rt_key (f r) = rt_key r \<and> rt_leaseId (f r) = rt_leaseId r \<and>
      rt_leaseExpiresAt (f r) = rt_leaseExpiresAt r \<and> rt_spacingUntil (f r) = rt_spacingUntil r"
  shows "rows_agree opts (upd_where P f rows) past"
proof (rule rows_agree_upd [OF assms(1)])
  show "row_agrees opts past (f r)" if "row_agrees opts past r" for r
  proof -
    have "rt_key (f r) = rt_key r" "rt_leaseId (f r) = rt_leaseId r" "rt_leaseExpiresAt (f r) = rt_leaseExpiresAt r"
      "rt_spacingUntil (f r) = rt_spacingUntil r" using assms(2) by blast+
    then show ?thesis using that unfolding row_agrees_def by (simp only:)
  qed
qed (use assms in \<open>simp_all add: rows_agree_def\<close>)

lemma rt_key_simps [simp]:
  "rt_key (r\<lparr>rt_lastRequestAt := a\<rparr>) = rt_key r" "rt_key (r\<lparr>rt_lastSuccessAt := a\<rparr>) = rt_key r"
  "rt_key (r\<lparr>rt_lastThrottleAt := a\<rparr>) = rt_key r" "rt_key (r\<lparr>rt_consecutiveThrottleCount := n\<rparr>) = rt_key r"
  "rt_key (r\<lparr>rt_nextPermittedAt := a\<rparr>) = rt_key r" "rt_key (r\<lparr>rt_spacingUntil := a\<rparr>) = rt_key r"
  "rt_key (r\<lparr>rt_lastProviderRequestId := c\<rparr>) = rt_key r" "rt_key (r\<lparr>rt_retryAfterMs := a\<rparr>) = rt_key r"
  "rt_key (r\<lparr>rt_leaseId := c\<rparr>) = rt_key r" "rt_key (r\<lparr>rt_leaseExpiresAt := a\<rparr>) = rt_key r"
  by (simp_all add: rt_key_def)

lemma lease_of_operation [simp]: "ri_operation (lease_of k operation leaseId) = operation"
  by (simp add: lease_of_def)

lemma rt_key_new [simp]: "rt_key (new_row i k) = k"
  by (simp add: rt_key_def new_row_def)

lemma held_by_lease_of [simp]: "held_by (lease_of k operation leaseId) r \<longleftrightarrow> rt_key r = k \<and> rt_leaseId r = Some leaseId"
  by (auto simp: held_by_def lease_of_def)


section \<open>Every call keeps them in agreement\<close>

definition spacings_ok :: "ReadOptions \<Rightarrow> bool" where
  "spacings_ok opts \<longleftrightarrow> 0 \<le> spacingMs SEARCH_CREATORS opts \<and> 0 \<le> spacingMs LIST_MESSAGES opts"

lemma group_spacing_nonneg: "spacings_ok opts \<Longrightarrow> 0 \<le> group_spacing opts k"
  by (simp add: spacings_ok_def group_spacing_def)

lemma agree_ensure:
  assumes "rows_agree opts rows past" "i \<notin> rt_id ` set rows"
  shows "rows_agree opts (snd (ensure_row i k rows)) past"
proof (cases "List.find (\<lambda>r. rt_key r = k) rows")
  case None
  then have "k \<notin> rt_key ` set rows" by (auto dest: find_NoneD)
  moreover from this have "held k past = None" using assms(1) by (auto simp: rows_agree_def claimed_keys_def simp del: not_None_eq)
  ultimately show ?thesis using assms None by (auto simp: rows_agree_def row_agrees_def ensure_row_def new_row_def rt_key_def)
next
  case (Some r)
  then show ?thesis using assms by (simp add: ensure_row_def)
qed

lemma filter_by_key:
  assumes "distinct (map f rows)" "r \<in> set rows"
  shows "filter (\<lambda>x. f x = f r \<and> P x) rows = (if P r then [r] else [])"
  using assms
proof (induction rows)
  case (Cons a rows)
  show ?case
  proof (cases "a = r")
    case True
    have "\<forall>x \<in> set rows. f x \<noteq> f r" using Cons.prems(1) True by (metis distinct.simps(2) image_eqI list.set_map list.simps(9))
    then show ?thesis using True by (simp add: filter_empty_conv)
  next
    case False
    then have "f a \<noteq> f r" using Cons.prems by auto
    then show ?thesis using False Cons by simp
  qed
qed simp

lemma claim_row_one:
  "distinct (map rt_id rows) \<Longrightarrow> r \<in> set rows \<Longrightarrow>
   fst (claim_row opts (rt_id r) operation leaseId now rows) = (if claimable_row now r then 1 else 0)"
  by (simp add: claim_row_def Let_def count_where_def filter_by_key)

lemma agree_claim:
  assumes agree: "rows_agree opts rows past" and sep: "separated opts past" and ok: "spacings_ok opts"
    and r: "r \<in> set rows" "snd (snd (rt_key r)) = leaseOperation operation"
    and c: "claim_row opts (rt_id r) operation leaseId now rows = (n, rows')"
  defines "past' \<equiv> if n = 1 then Claimed (rt_key r) leaseId now # past else past"
  shows "rows_agree opts rows' past' \<and> separated opts past'"
proof -
  let ?hit = "\<lambda>x. rt_id x = rt_id r \<and> claimable_row now x"
  have ids: "distinct (map rt_id rows)" and keys: "distinct (map rt_key rows)" using agree by (simp_all add: rows_agree_def)
  have only: "x = r" if "x \<in> set rows" "rt_id x = rt_id r \<or> rt_key x = rt_key r" for x
    using that distinct_map_eqD [OF ids that(1) r(1)] distinct_map_eqD [OF keys that(1) r(1)] by blast
  have n: "n = (if claimable_row now r then 1 else 0)" using claim_row_one [OF ids r(1), of opts operation leaseId now] c by simp
  have rows': "rows' = upd_where ?hit (claimed_row opts operation leaseId now) rows" using c by (auto simp: claim_row_def Let_def)
  have agrees: "row_agrees opts past r" using agree r(1) by (simp add: rows_agree_def)
  show ?thesis
  proof (cases "claimable_row now r")
    case True
    have past': "past' = Claimed (rt_key r) leaseId now # past" using n True by (simp add: past'_def)
    have "rows_agree opts rows' past'"
      unfolding rows' past'
    proof (rule rows_agree_upd [OF agree])
      show "row_agrees opts (Claimed (rt_key r) leaseId now # past) (claimed_row opts operation leaseId now x)" if "x \<in> set rows" "?hit x" for x
      proof -
        have "x = r" using only [OF that(1)] that(2) by blast
        then show ?thesis using r(2) by (simp add: row_agrees_def claimed_row_def spacingMs_group)
      qed
      show "row_agrees opts (Claimed (rt_key r) leaseId now # past) x" if "x \<in> set rows" "\<not> ?hit x" "row_agrees opts past x" for x
      proof -
        have "rt_key x \<noteq> rt_key r" using only [OF that(1)] that(2) True by blast
        then show ?thesis using that(3) unfolding row_agrees_def by (auto simp del: split_paired_All)
      qed
      show "claimed_keys (Claimed (rt_key r) leaseId now # past) \<subseteq> rt_key ` set rows"
        using agree r(1) by (simp add: rows_agree_def)
    qed (simp_all add: claimed_row_def)
    moreover have "after_earlier opts (rt_key r) now past"
    proof (rule after_earlierI [OF sep group_spacing_nonneg [OF ok]])
      fix s l b assume "held (rt_key r) past = Some (s, l, b)"
      then show "s + group_spacing opts (rt_key r) \<le> now \<and> (b \<or> s + lease_ms opts \<le> now)"
        using agrees True by (auto simp: row_agrees_def claimable_row_def split: if_splits)
    qed
    ultimately show ?thesis using sep by (simp add: past')
  next
    case False
    have "rows' = rows" unfolding rows' upd_where_def using only False by (intro map_idI) auto
    then show ?thesis using agree sep n False by (simp add: past'_def)
  qed
qed

lemma run_agrees: "read_run opts rows past \<Longrightarrow> spacings_ok opts \<Longrightarrow> rows_agree opts rows past \<and> separated opts past"
proof (induction rule: read_run.induct)
  case nothing
  then show ?case by (simp add: rows_agree_def)
next
  case (ensured rows past i k)
  then show ?case by (simp add: agree_ensure)
next
  case (claim rows past r operation leaseId now n rows')
  then show ?case using agree_claim by blast
next
  case (renewed rows past k leaseId now operation)
  then have "rows_agree opts rows past" by simp
  then have "rows_agree opts (renew_lease opts (lease_of k operation leaseId) now rows) past"
    unfolding renew_lease_def
  proof (rule rows_agree_upd)
    show "row_agrees opts past (r\<lparr>rt_leaseExpiresAt := Some (now + lease_ms opts)\<rparr>)"
      if "held_by (lease_of k operation leaseId) r" "row_agrees opts past r" for r
      using that renewed(2) by (auto simp: row_agrees_def dest: held_claimed split: option.splits)
  qed (use renewed in \<open>simp_all add: rows_agree_def\<close>)
  then show ?case using renewed by simp
next
  case (spaced rows past k leaseId now operation)
  then have "rows_agree opts rows past" by simp
  then have "rows_agree opts (space_lease opts (lease_of k operation leaseId) now rows) past"
    unfolding space_lease_def
  proof (rule rows_agree_upd)
    show "row_agrees opts past (r\<lparr>rt_spacingUntil := Some (now + spacingMs (ri_operation (lease_of k operation leaseId)) opts)\<rparr>)"
      if "held_by (lease_of k operation leaseId) r" "row_agrees opts past r" for r
      using that spaced(2,3) by (auto simp: row_agrees_def spacingMs_group dest: held_claimed split: option.splits)
  qed (use spaced in \<open>simp_all add: rows_agree_def\<close>)
  then show ?case using spaced by simp
next
  case (released rows past k operation leaseId)
  then have "rows_agree opts rows past" by simp
  then have "rows_agree opts (read_release (lease_of k operation leaseId) rows) (Released leaseId # past)"
    unfolding read_release_def
  proof (rule rows_agree_upd)
    show "row_agrees opts (Released leaseId # past) (r\<lparr>rt_leaseId := None, rt_leaseExpiresAt := None\<rparr>)"
      if "held_by (lease_of k operation leaseId) r" "row_agrees opts past r" for r
      using that by (auto simp: row_agrees_def split: option.splits)
    show "row_agrees opts (Released leaseId # past) r"
      if "\<not> held_by (lease_of k operation leaseId) r" "row_agrees opts past r" for r
      using that by (auto simp: row_agrees_def split: option.splits if_splits)
  qed (use released in \<open>simp_all add: rows_agree_def\<close>)
  then show ?case using released by simp
qed (auto simp: mark_started_def mark_succeeded_def mark_throttled_def intro: rows_agree_same_lease)

text \<open>
  C33. Between two claims of the same read group lies at least the spacing of the group, and the
  first lease was released or has lived its full time before the second is granted, whatever calls
  of the governor come between.
\<close>

theorem reads_are_exclusive_and_spaced:
  assumes "read_run opts rows (newer @ Claimed k l' t' # between @ Claimed k l t # older)" "spacings_ok opts"
  shows "t + group_spacing opts k \<le> t' \<and> (Released l \<in> set between \<or> t + lease_ms opts \<le> t')"
proof -
  have "separated opts (Claimed k l' t' # between @ Claimed k l t # older)"
    using run_agrees [OF assms] separated_suffix by blast
  then show ?thesis unfolding separated.simps after_earlier_def by blast
qed


section \<open>The methods are made of these calls\<close>

lemma ensure_row_result: "ensure_row i k rows = (r, rows') \<Longrightarrow> r \<in> set rows' \<and> rt_key r = k \<and> rt_id ` set rows' \<subseteq> insert i (rt_id ` set rows)"
  by (auto simp: ensure_row_def new_row_def split: option.splits dest: find_SomeD)
    (auto simp: rt_key_def dest: find_SomeD)

text \<open>What the log gains by a call of \<open>acquire\<close>.\<close>

definition acquired_past :: "ReadInput \<Rightarrow> millis \<Rightarrow> read_error + ReadLease \<Rightarrow> read_event list \<Rightarrow> read_event list" where
  "acquired_past inp now res past = (case res of Inl _ \<Rightarrow> past | Inr lease \<Rightarrow> Claimed (group_key inp) (rl_leaseId lease) now # past)"

text \<open>
  C34. The method acquire refines the abstract governor: from any state the abstract calls can
  reach, it leads to one they can reach, logging a claim of the group of the operation exactly
  when it returns a lease, and the lease carries the request and the fresh id.
\<close>

theorem acquire_is_a_run:
  assumes run: "read_run opts rows past" and ids: "i \<notin> rt_id ` set rows" "j \<notin> rt_id ` set rows" "i \<noteq> j"
    and a: "read_acquire opts inp now leaseId i j rows = (res, rows')"
  shows "read_run opts rows' (acquired_past inp now res past) \<and>
    (\<forall>lease. res = Inr lease \<longrightarrow> ReadInput.truncate lease = inp \<and> rl_leaseId lease = leaseId)"
proof -
  obtain s rows1 where s: "ensure_row i (operation_key inp) rows = (s, rows1)" by (cases "ensure_row i (operation_key inp) rows")
  then have run1: "read_run opts rows1 past" using ensured [OF run ids(1), of "operation_key inp"] by simp
  show ?thesis
  proof (cases "case rt_nextPermittedAt s of None \<Rightarrow> False | Some t \<Rightarrow> t > now")
    case True
    then show ?thesis using a s run1 by (auto simp: read_acquire_def acquired_past_def)
  next
    case False
    obtain row rows2 where row: "ensure_row j (group_key inp) rows1 = (row, rows2)" by (cases "ensure_row j (group_key inp) rows1")
    have "j \<notin> rt_id ` set rows1" using ensure_row_result [OF s] ids by blast
    then have run2: "read_run opts rows2 past" using ensured [OF run1, of j "group_key inp"] row by simp
    obtain n rows3 where c: "claim_row opts (rt_id row) (ri_operation inp) leaseId now rows2 = (n, rows3)"
      by (cases "claim_row opts (rt_id row) (ri_operation inp) leaseId now rows2")
    note r = ensure_row_result [OF row]
    have "snd (snd (rt_key row)) = leaseOperation (ri_operation inp)" using r by (simp add: group_key_def)
    note run3 = claim [OF run2 conjunct1 [OF r] this c, unfolded conjunct1 [OF conjunct2 [OF r]]]
    show ?thesis using a s False row c run3
      by (auto simp: read_acquire_def acquired_past_def ReadInput.defs ReadLease.defs split: if_splits option.splits)
  qed
qed

section \<open>Cooldowns\<close>

lemma local_backoff_bounds:
  "1000 \<le> local_backoff jobs lease event throttles \<and>
   (ri_operation lease \<noteq> SEARCH_CREATORS \<longrightarrow> local_backoff jobs lease event throttles \<le> 900000)"
proof -
  have "1 \<le> (2 :: int) ^ nat (min (throttles - 1) 20)" by simp
  then show ?thesis
    by (auto simp: local_backoff_def configuredMarketplaceRetryDelayMs_def marketplaceRetryDelayMs_def CREATOR_MARKETPLACE_RETRY_MS_def
      DEFAULT_MARKETPLACE_RETRY_DELAY_SECONDS_def MIN_MARKETPLACE_RETRY_DELAY_SECONDS_def simp del: one_le_power split: option.splits)
qed

lemma safeDelay_bounds: "safeDelay value = Some d \<Longrightarrow> 0 \<le> d \<and> d \<le> 86400000"
  by (auto simp: safeDelay_def split: option.splits jsnum.splits if_splits)

lemma find_release: "List.find (\<lambda>r. rt_key r = k) (read_release lease rows) =
    map_option (\<lambda>r. if held_by lease r then r\<lparr>rt_leaseId := None, rt_leaseExpiresAt := None\<rparr> else r) (List.find (\<lambda>r. rt_key r = k) rows)"
  unfolding read_release_def by (rule find_upd_where) simp

lemma find_throttled: "List.find (\<lambda>r. rt_key r = k) (mark_throttled i now throttles d retry event rows) =
    map_option (\<lambda>r. if rt_id r = i then r\<lparr>rt_lastThrottleAt := Some now, rt_consecutiveThrottleCount := throttles,
      rt_nextPermittedAt := Some d, rt_retryAfterMs := or_else retry (rt_retryAfterMs r),
      rt_lastProviderRequestId := or_else (re_requestId event) (rt_lastProviderRequestId r)\<rparr> else r) (List.find (\<lambda>r. rt_key r = k) rows)"
  unfolding mark_throttled_def by (rule find_upd_where) simp

text \<open>
  C35. Until the instant throttled returns, acquire of the same operation is refused locally with
  that instant, and but for an exhausted daily quota it is at least one second away, no earlier
  than the bounded Retry-After of the provider, and, outside the marketplace search, at most 24
  hours away.
\<close>

theorem throttled_reads_wait:
  assumes t: "read_throttled opts parts jobs lease event now rows = (Inr d, rows')"
    and inp: "operation_key inp = operation_key lease" "now' < d"
  shows "(\<exists>e. read_acquire opts inp now' leaseId i j rows' = (Inl (ApiError e), rows') \<and> te_nextPermittedAt e = Some d \<and> te_locallyBlocked e) \<and>
    (re_providerCode event \<noteq> Some 45101004 \<longrightarrow> now + 1000 \<le> d \<and>
      (\<forall>x. re_retryAfterMs event = Some (Fin x) \<and> 0 \<le> x \<longrightarrow> now + min \<lfloor>x\<rfloor> 86400000 \<le> d) \<and>
      (ri_operation lease \<noteq> SEARCH_CREATORS \<longrightarrow> d \<le> now + 86400000))"
proof -
  obtain current where current: "List.find (\<lambda>r. rt_key r = operation_key lease) rows = Some current"
    using t by (auto simp: read_throttled_def split: option.splits)
  define throttles where "throttles = rt_consecutiveThrottleCount current + 1"
  have d: "d = next_permitted opts parts jobs lease event throttles now"
    and rows': "rows' = read_release lease (mark_throttled (rt_id current) now throttles d (safeDelay (re_retryAfterMs event)) event rows)"
    using t current by (auto simp: read_throttled_def throttles_def Let_def)
  obtain r where r: "List.find (\<lambda>r. rt_key r = operation_key inp) rows' = Some r" "rt_nextPermittedAt r = Some d"
    using current inp(1) by (auto simp: rows' find_release find_throttled)
  have "read_acquire opts inp now' leaseId i j rows' = (Inl (ApiError (cooling_error (ri_operation inp) r)), rows')"
    using r inp(2) by (simp add: read_acquire_def ensure_row_def)
  moreover have "te_nextPermittedAt (cooling_error (ri_operation inp) r) = Some d" "te_locallyBlocked (cooling_error (ri_operation inp) r)"
    using r by (simp_all add: cooling_error_def)
  moreover have "now + 1000 \<le> d \<and> (\<forall>x. re_retryAfterMs event = Some (Fin x) \<and> 0 \<le> x \<longrightarrow> now + min \<lfloor>x\<rfloor> 86400000 \<le> d) \<and>
      (ri_operation lease \<noteq> SEARCH_CREATORS \<longrightarrow> d \<le> now + 86400000)" if "re_providerCode event \<noteq> Some 45101004"
  proof -
    have "d = now + max (local_backoff jobs lease event throttles) (case safeDelay (re_retryAfterMs event) of None \<Rightarrow> 0 | Some x \<Rightarrow> x)"
      using that by (simp add: d next_permitted_def)
    moreover have "(case safeDelay (re_retryAfterMs event) of None \<Rightarrow> 0 | Some x \<Rightarrow> x) \<le> 86400000"
      using safeDelay_bounds by (auto split: option.splits)
    ultimately show ?thesis using local_backoff_bounds [of jobs lease event throttles] by (auto simp: safeDelay_def max_def)
  qed
  ultimately show ?thesis by blast
qed

section \<open>Witnesses\<close>

definition example_read :: ReadInput where
  "example_read = \<lparr>ri_provider = ''TIKTOK_SHOP'', ri_shopScope = ''s1'', ri_operation = LIST_MESSAGES\<rparr>"

definition example_read_options :: ReadOptions where
  "example_read_options = \<lparr>ro_spacingMs = None, ro_marketplaceSpacingMs = None, ro_leaseMs = None, ro_timezone = None,
     ro_configSpacingMs = 1000, ro_configTimezone = ''Asia/Jakarta''\<rparr>"

definition example_rows :: "ReadThrottle list" where
  "example_rows = snd (read_acquire example_read_options example_read 1000 ''a'' ''i'' ''j'' [])"

definition example_lease :: ReadLease where
  "example_lease = lease_of (group_key example_read) LIST_MESSAGES ''a''"

lemma example_acquired:
  "read_acquire example_read_options example_read 1000 ''a'' ''i'' ''j'' [] = (Inr example_lease, example_rows)"
  by code_simp

lemma acquire_is_a_run_witness: "read_run example_read_options example_rows [Claimed (group_key example_read) ''a'' 1000]"
proof -
  have "read_run example_read_options example_rows (acquired_past example_read 1000 (Inr example_lease) [])"
    using acquire_is_a_run [OF read_run.nothing _ _ _ example_acquired] by simp
  then show ?thesis by (simp add: acquired_past_def example_lease_def lease_of_def)
qed

lemma example_again:
  "case read_acquire example_read_options example_read 1750 ''b'' ''k'' ''l'' (read_release example_lease example_rows) of
     (Inl _, _) \<Rightarrow> False | (Inr lease, _) \<Rightarrow> rl_leaseId lease = ''b''"
  by code_simp

lemma example_row_ids: "rt_id ` set (read_release example_lease example_rows) = {''i'', ''j''}"
  by code_simp

lemma reads_are_exclusive_and_spaced_witness:
  "\<exists>rows. read_run example_read_options rows ([] @ Claimed (group_key example_read) ''b'' 1750 # [Released ''a''] @
     Claimed (group_key example_read) ''a'' 1000 # []) \<and> 1000 + group_spacing example_read_options (group_key example_read) \<le> 1750"
proof -
  obtain lease rows' where b: "read_acquire example_read_options example_read 1750 ''b'' ''k'' ''l'' (read_release example_lease example_rows)
      = (Inr lease, rows')" "rl_leaseId lease = ''b''" using example_again by (auto split: prod.splits sum.splits)
  have "read_run example_read_options (read_release example_lease example_rows) [Released ''a'', Claimed (group_key example_read) ''a'' 1000]"
    using released [OF acquire_is_a_run_witness, of "group_key example_read" LIST_MESSAGES "''a''"] by (simp add: example_lease_def)
  from acquire_is_a_run [OF this _ _ _ b(1)]
  have run: "read_run example_read_options rows' ([] @ Claimed (group_key example_read) ''b'' 1750 # [Released ''a''] @
      Claimed (group_key example_read) ''a'' 1000 # [])"
    by (simp add: example_row_ids acquired_past_def b(2))
  moreover have "spacings_ok example_read_options" by code_simp
  ultimately show ?thesis using reads_are_exclusive_and_spaced [OF run] by blast
qed

definition example_event :: ReadEvent where
  "example_event = \<lparr>re_requestId = Some ''q'', re_retryAfterMs = Some (Fin 3000), re_providerCode = None, re_httpStatus = Some 429\<rparr>"

text \<open>The dates of a time zone without offset.\<close>

definition example_parts :: "string \<Rightarrow> millis \<Rightarrow> DateParts" where
  "example_parts timezone t = (case civil_from_days (t div 86400000) of (y, m, d) \<Rightarrow>
     \<lparr>dp_year = y, dp_month = m, dp_day = d, dp_hour = t div 3600000 mod 24, dp_minute = t div 60000 mod 60, dp_second = t div 1000 mod 60\<rparr>)"

lemma example_next_day: "nextLocalDay example_parts 1786665600123 ''UTC'' = 1786752000000 + 300000"
  by code_simp

lemma example_throttle:
  "fst (read_throttled example_read_options example_parts [] example_lease example_event 2000 example_rows) = Inr 7000"
  by code_simp

lemma throttled_reads_wait_witness:
  "\<exists>rows e. read_throttled example_read_options example_parts [] example_lease example_event 2000 example_rows = (Inr 7000, rows) \<and>
     read_acquire example_read_options example_read 6999 ''b'' ''k'' ''l'' rows = (Inl (ApiError e), rows) \<and> te_nextPermittedAt e = Some 7000"
proof -
  obtain rows where t: "read_throttled example_read_options example_parts [] example_lease example_event 2000 example_rows = (Inr 7000, rows)"
    using example_throttle by (metis prod.collapse)
  have "operation_key example_read = operation_key example_lease" by code_simp
  with throttled_reads_wait [OF t this, of 6999 "''b''" "''k''" "''l''"] t show ?thesis by auto
qed



end
