(* ===== verification/Contacts.thy ===== *)
theory Contacts
  imports Dispatch
begin

text \<open>
  What is known of the contacts with a creator: the rebuild of the contact state of
  \<open>apps/api/src/history/contact-state.ts\<close> and the identities and merges of
  \<open>apps/api/src/identity/creator-identity-resolver.service.ts\<close>. A JavaScript \<open>Map\<close> is a list of entries in
  insertion order. The advisory locks of \<open>lockCreatorEligibility\<close> change no row: they are the reason
  why a transaction is one step.
\<close>

section \<open>The contacts on record\<close>

fun map_put :: "'k \<Rightarrow> 'v \<Rightarrow> ('k \<times> 'v) list \<Rightarrow> ('k \<times> 'v) list" where
  "map_put k v [] = [(k, v)]"
| "map_put k v ((k', v') # xs) = (if k' = k then (k, v) # xs else (k', v') # map_put k v xs)"

definition map_put_all :: "('k \<times> 'v) list \<Rightarrow> ('k \<times> 'v) list \<Rightarrow> ('k \<times> 'v) list" where
  "map_put_all new entries = fold (\<lambda>(k, v). map_put k v) new entries"

definition delivers_to :: "ident \<Rightarrow> ident \<Rightarrow> Tables \<Rightarrow> Delivery \<Rightarrow> bool" where
  "delivers_to shopId creatorId db d \<longleftrightarrow>
    (case find_recipient (dl_campaignRecipientId d) db of None \<Rightarrow> False | Some r \<Rightarrow> rc_creatorId r = creatorId) \<and>
    (case find_campaign (dl_campaignId d) db of None \<Rightarrow> False | Some c \<Rightarrow> ca_shopId c = shopId)"

text \<open>\<open>orderBy: \{ sentAt: "desc" \}\<close>: rows without a date come first.\<close>

definition sent_desc :: "Delivery \<Rightarrow> Delivery \<Rightarrow> int" where
  "sent_desc = cmp_then (cmp_by (\<lambda>d. if dl_sentAt d = None then 0 else 1 :: int))
     (cmp_by (\<lambda>d. case dl_sentAt d of None \<Rightarrow> 0 | Some t \<Rightarrow> - t))"

definition sent_deliveries :: "ident \<Rightarrow> ident \<Rightarrow> Tables \<Rightarrow> Delivery list" where
  "sent_deliveries shopId creatorId db = js_sort sent_desc
     (filter (\<lambda>d. dl_state d = SENT \<and> delivers_to shopId creatorId db d) (tb_deliveries db))"

definition messages_of :: "Direction \<Rightarrow> ident \<Rightarrow> ident \<Rightarrow> Tables \<Rightarrow> ConversationMessage list" where
  "messages_of direction shopId creatorId db = filter
     (\<lambda>m. ms_direction m = direction \<and> (case find_conversation (ms_conversationId m) db of None \<Rightarrow> False
        | Some c \<Rightarrow> cv_shopId c = shopId \<and> cv_creatorId c = creatorId)) (tb_messages db)"

definition facts_of :: "ident \<Rightarrow> ident option \<Rightarrow> Tables \<Rightarrow> HistoricalFact list" where
  "facts_of shopId openId db = (case openId of None \<Rightarrow> []
     | Some i \<Rightarrow> if i = [] then [] else filter (\<lambda>f. hf_shopId f = shopId \<and> hf_creatorOpenId f = Some i) (tb_facts db))"

definition matched_facts :: "HistoricalFact list \<Rightarrow> HistoricalFact list" where
  "matched_facts = filter (\<lambda>f. hf_resolutionState f = ''MATCHED'')"

definition unknown_count :: "ident \<Rightarrow> ident \<Rightarrow> Tables \<Rightarrow> int" where
  "unknown_count shopId creatorId db = count_where
     (\<lambda>d. dl_state d \<in> {DELIVERY_UNKNOWN, DELIVERY_UNKNOWN_UNRESOLVED} \<and> delivers_to shopId creatorId db d) (tb_deliveries db)"

definition provider_key :: "string \<Rightarrow> string" where
  "provider_key i = ''provider:'' @ i"

definition delivery_entry :: "Delivery \<Rightarrow> string \<times> millis" where
  "delivery_entry d =
    ((case dl_externalMessageId d of None \<Rightarrow> ''delivery:'' @ dl_id d | Some i \<Rightarrow> if i = [] then ''delivery:'' @ dl_id d else provider_key i),
     (case dl_sentAt d of Some t \<Rightarrow> t | None \<Rightarrow> (case dl_firstDispatchedAt d of Some t \<Rightarrow> t | None \<Rightarrow> 0)))"

definition message_entry :: "ConversationMessage \<Rightarrow> string \<times> millis" where
  "message_entry m = (provider_key (ms_externalMessageId m), ms_providerCreatedAt m)"

definition fact_entry :: "HistoricalFact \<Rightarrow> string \<times> millis" where
  "fact_entry f =
    ((case hf_externalMessageId f of None \<Rightarrow> ''historical:'' @ hf_identityKey f
      | Some i \<Rightarrow> if i = [] then ''historical:'' @ hf_identityKey f else provider_key i), hf_contactedAt f)"

definition contact_entries :: "Delivery list \<Rightarrow> ConversationMessage list \<Rightarrow> HistoricalFact list \<Rightarrow> (string \<times> millis) list" where
  "contact_entries deliveries messages facts =
    map_put_all (map fact_entry (filter (\<lambda>f. hf_sendStatus f = ''SENT'') (matched_facts facts)))
      (map_put_all (map message_entry messages) (map_put_all (map delivery_entry deliveries) []))"

definition dates_of :: "(string \<times> millis) list \<Rightarrow> millis list" where
  "dates_of entries = js_sort (cmp_by id) (filter (\<lambda>t. t > 0) (map snd entries))"

definition first_date :: "millis list \<Rightarrow> millis option" where
  "first_date ds = (case ds of [] \<Rightarrow> None | d # _ \<Rightarrow> Some d)"

definition last_date :: "millis list \<Rightarrow> millis option" where
  "last_date ds = (if ds = [] then None else Some (last ds))"

definition has_unknown :: "int \<Rightarrow> HistoricalFact list \<Rightarrow> bool" where
  "has_unknown unknownDeliveries facts \<longleftrightarrow>
    unknownDeliveries > 0 \<or> list_ex (\<lambda>f. hf_sendStatus f = ''UNKNOWN'' \<and> hf_resolutionState f = ''MATCHED'') facts"

section \<open>rebuildHistoricalContactState\<close>

text \<open>The update of the upsert, from what the queries read; a value that is undefined leaves its column.\<close>

definition rebuilt_contact :: "ident \<Rightarrow> Creator \<Rightarrow> Tables \<Rightarrow> Contact \<Rightarrow> Contact" where
  "rebuilt_contact shopId creator db c =
    (let deliveries = sent_deliveries shopId (cr_id creator) db;
         messages = messages_of OUTBOUND shopId (cr_id creator) db;
         facts = facts_of shopId (cr_creatorOpenId creator) db;
         contacts = contact_entries deliveries messages facts;
         dates = dates_of contacts;
         historicalDates = js_sort (cmp_by id) (map ms_providerCreatedAt messages @ map hf_contactedAt (matched_facts facts));
         latestDelivery = (case deliveries of [] \<Rightarrow> None | d # _ \<Rightarrow> Some d)
     in c\<lparr>ct_firstContactedAt := first_date dates, ct_lastContactedAt := last_date dates, ct_contactCount := int (length contacts),
         ct_lastCampaignId := (case latestDelivery of None \<Rightarrow> ct_lastCampaignId c | Some d \<Rightarrow> Some (dl_campaignId d)),
         ct_lastDeliveryId := (case latestDelivery of None \<Rightarrow> ct_lastDeliveryId c | Some d \<Rightarrow> Some (dl_id d)),
         ct_unresolvedDelivery := has_unknown (unknown_count shopId (cr_id creator) db) facts,
         ct_historyCoverageStart := (case first_date historicalDates of None \<Rightarrow> ct_historyCoverageStart c | Some d \<Rightarrow> Some d),
         ct_latestReplyStatus := (if messages_of INBOUND shopId (cr_id creator) db \<noteq> [] then ''REPLIED'' else ct_latestReplyStatus c)\<rparr>)"

definition rebuildHistoricalContactState :: "ident \<Rightarrow> ident \<Rightarrow> unit tx" where
  "rebuildHistoricalContactState shopId creatorId =
    tx_bind (tx_bind (tx_read (find_creator creatorId)) tx_found) (\<lambda>creator.
    tx_bind (tx_read (\<lambda>db. rebuilt_contact shopId creator db)) (\<lambda>f.
    upsert_contact shopId creatorId f (f (new_contact shopId creatorId))))"

section \<open>Lemmas: maps and dates\<close>

lemma map_of_map_put [simp]: "map_of (map_put k v xs) = (map_of xs)(k \<mapsto> v)"
  by (induction xs) auto

lemma keys_map_put [simp]: "fst ` set (map_put k v xs) = insert k (fst ` set xs)"
proof (induction xs)
  case (Cons x xs)
  then show ?case by (cases x) auto
qed simp

lemma distinct_map_put: "distinct (map fst xs) \<Longrightarrow> distinct (map fst (map_put k v xs))"
proof (induction xs)
  case (Cons x xs)
  have "fst ` set (map_put k v xs) = insert k (fst ` set xs)" by simp
  then show ?case using Cons by (cases x) auto
qed simp

lemma map_of_map_put_all: "map_of (map_put_all new entries) = map_of entries ++ map_of (rev new)"
  unfolding map_put_all_def
proof (induction new arbitrary: entries)
  case (Cons e new)
  then show ?case by (cases e) (simp add: map_add_def fun_eq_iff split: option.splits)
qed simp

lemma distinct_map_put_all: "distinct (map fst entries) \<Longrightarrow> distinct (map fst (map_put_all new entries))"
  unfolding map_put_all_def
proof (induction new arbitrary: entries)
  case (Cons e new)
  then show ?case by (cases e) (simp add: distinct_map_put)
qed simp

lemma length_distinct_keys: "distinct (map fst xs) \<Longrightarrow> length xs = card (dom (map_of xs))"
  using distinct_card [of "map fst xs"] by (simp add: dom_map_of_conv_image_fst)

lemma sorted_dates: "sorted (js_sort (cmp_by id) xs)"
  for xs :: "int list"
proof -
  have "sorted_wrt (\<lambda>a b. cmp_by id a b \<le> 0) (js_sort (cmp_by id) xs)"
    by (rule comparator.sorted_js_sort [OF comparator_cmp_by [where ok = "\<lambda>_. True"]]) simp
  then show ?thesis by (rule sorted_wrt_mono_rel [rotated]) (auto simp: cmp_by_def split: if_splits)
qed

lemma date_bounds:
  assumes "t \<in> set (js_sort (cmp_by id) xs)"
  shows "\<exists>a b. first_date (js_sort (cmp_by id) xs) = Some a \<and> last_date (js_sort (cmp_by id) xs) = Some b \<and> a \<le> t \<and> t \<le> b"
proof -
  let ?ds = "js_sort (cmp_by id) xs"
  obtain d rest where ds: "?ds = d # rest" using assms by (cases ?ds) auto
  have "sorted (d # rest)" using sorted_dates [of xs] ds by simp
  moreover have "x \<le> last ys" if "x \<in> set ys" "sorted ys" for x and ys :: "int list"
    using that by (induction ys) auto
  ultimately show ?thesis using assms unfolding ds by (auto simp: first_date_def last_date_def simp del: set_js_sort)
qed

section \<open>The rebuilt contact state agrees with the record\<close>

text \<open>The record as a map: for each identity of a contact the date its last source gives, facts before messages before deliveries.\<close>

definition recorded :: "ident \<Rightarrow> Creator \<Rightarrow> Tables \<Rightarrow> string \<rightharpoonup> millis" where
  "recorded shopId creator db = map_of
     (rev (map fact_entry (filter (\<lambda>f. hf_sendStatus f = ''SENT'') (matched_facts (facts_of shopId (cr_creatorOpenId creator) db))))
      @ rev (map message_entry (messages_of OUTBOUND shopId (cr_id creator) db))
      @ rev (map delivery_entry (sent_deliveries shopId (cr_id creator) db)))"

lemma contact_entries_recorded:
  "map_of (contact_entries (sent_deliveries shopId (cr_id creator) db) (messages_of OUTBOUND shopId (cr_id creator) db)
     (facts_of shopId (cr_creatorOpenId creator) db)) = recorded shopId creator db"
  by (simp add: contact_entries_def map_of_map_put_all recorded_def)

lemma distinct_contact_entries: "distinct (map fst (contact_entries ds ms fs))"
  by (simp add: contact_entries_def distinct_map_put_all)

lemma rebuild_effect:
  assumes "rebuildHistoricalContactState shopId creatorId db = Inr (u, db')"
  obtains creator where "find_creator creatorId db = Some creator" "cr_id creator = creatorId"
    "upsert_contact shopId creatorId (rebuilt_contact shopId creator db) (rebuilt_contact shopId creator db (new_contact shopId creatorId)) db = Inr ((), db')"
proof -
  obtain creator where c: "find_creator creatorId db = Some creator"
    using assms by (auto simp: rebuildHistoricalContactState_def tx_found_def elim!: tx_bind_InrE split: option.splits)
  moreover have "cr_id creator = creatorId" using c by (auto simp: find_creator_def dest: find_SomeD)
  ultimately show thesis using that assms by (simp add: rebuildHistoricalContactState_def)
qed

lemma rebuilt_fields [simp]: "ct_shopId (rebuilt_contact s k db c) = ct_shopId c" "ct_creatorId (rebuilt_contact s k db c) = ct_creatorId c"
  "ct_doNotContact (rebuilt_contact s k db c) = ct_doNotContact c"
  by (simp_all add: rebuilt_contact_def Let_def)

lemma find_contact_upsert_other:
  assumes "upsert_contact shopId creatorId f new db = Inr (u, db')" "\<And>c. ct_shopId (f c) = ct_shopId c \<and> ct_creatorId (f c) = ct_creatorId c"
    "ct_shopId new = shopId" "ct_creatorId new = creatorId"
  shows "find_contact shopId creatorId db' = Some (case find_contact shopId creatorId db of None \<Rightarrow> new | Some c \<Rightarrow> f c)"
  using assms by (auto simp: upsert_contact_def find_contact_def find_append find_upd_where split: if_splits option.splits dest: find_SomeD)


text \<open>
  C14. The contact state rebuildHistoricalContactState writes counts every contact on record
  exactly once, starts no later than the first and ends exactly with the last of them, is
  unresolved exactly when a delivery or an imported fact is, and leaves doNotContact as it was.
\<close>

theorem rebuilt_contact_covers_the_record:
  assumes "rebuildHistoricalContactState shopId creatorId db = Inr (u, db')"
  shows "\<exists>creator c. find_creator creatorId db = Some creator \<and> find_contact shopId creatorId db' = Some c \<and>
    ct_contactCount c = int (card (dom (recorded shopId creator db))) \<and>
    (\<forall>k t. recorded shopId creator db k = Some t \<longrightarrow> t > 0 \<longrightarrow>
      (\<exists>a b. ct_firstContactedAt c = Some a \<and> ct_lastContactedAt c = Some b \<and> a \<le> t \<and> t \<le> b)) \<and>
    (\<forall>t. ct_lastContactedAt c = Some t \<longrightarrow> t > 0 \<and> (\<exists>k. recorded shopId creator db k = Some t)) \<and>
    (ct_unresolvedDelivery c \<longleftrightarrow>
      (\<exists>d \<in> set (tb_deliveries db). dl_state d \<in> {DELIVERY_UNKNOWN, DELIVERY_UNKNOWN_UNRESOLVED} \<and> delivers_to shopId creatorId db d) \<or>
      (\<exists>f \<in> set (facts_of shopId (cr_creatorOpenId creator) db). hf_sendStatus f = ''UNKNOWN'' \<and> hf_resolutionState f = ''MATCHED'')) \<and>
    (ct_doNotContact c \<longleftrightarrow> (case find_contact shopId creatorId db of None \<Rightarrow> False | Some old \<Rightarrow> ct_doNotContact old))"
proof -
  obtain creator where creator: "find_creator creatorId db = Some creator" "cr_id creator = creatorId"
    and up: "upsert_contact shopId creatorId (rebuilt_contact shopId creator db) (rebuilt_contact shopId creator db (new_contact shopId creatorId)) db = Inr ((), db')"
    using rebuild_effect [OF assms] by blast
  define old where "old = (case find_contact shopId creatorId db of None \<Rightarrow> new_contact shopId creatorId | Some c \<Rightarrow> c)"
  define c where "c = rebuilt_contact shopId creator db old"
  have found: "find_contact shopId creatorId db' = Some c"
    using find_contact_upsert_other [OF up] by (simp add: c_def old_def new_contact_def split: option.splits)
  let ?E = "contact_entries (sent_deliveries shopId creatorId db) (messages_of OUTBOUND shopId creatorId db) (facts_of shopId (cr_creatorOpenId creator) db)"
  have E: "map_of ?E = recorded shopId creator db" "distinct (map fst ?E)"
    using contact_entries_recorded [of shopId creator db] distinct_contact_entries creator(2) by simp_all
  have fields: "ct_contactCount c = int (length ?E)" "ct_firstContactedAt c = first_date (dates_of ?E)" "ct_lastContactedAt c = last_date (dates_of ?E)"
    "ct_unresolvedDelivery c = has_unknown (unknown_count shopId creatorId db) (facts_of shopId (cr_creatorOpenId creator) db)"
    by (simp_all add: c_def rebuilt_contact_def Let_def creator(2))
  have "\<exists>a b. ct_firstContactedAt c = Some a \<and> ct_lastContactedAt c = Some b \<and> a \<le> t \<and> t \<le> b"
    if "recorded shopId creator db k = Some t" "t > 0" for k t
  proof -
    have "(k, t) \<in> set ?E" using that(1) E(1) map_of_SomeD by metis
    then show ?thesis using that(2) date_bounds [of t "filter (\<lambda>t. t > 0) (map snd ?E)"] by (force simp: fields dates_of_def)
  qed
  moreover have "t > 0 \<and> (\<exists>k. recorded shopId creator db k = Some t)" if "ct_lastContactedAt c = Some t" for t
  proof -
    have "t \<in> set (dates_of ?E)" using that by (auto simp: fields last_date_def split: if_splits)
    then show ?thesis using E by (auto simp: dates_of_def) (metis map_of_eq_Some_iff)
  qed
  moreover have "ct_contactCount c = int (card (dom (recorded shopId creator db)))"
    using fields(1) length_distinct_keys [OF E(2)] E(1) by simp
  moreover have "ct_unresolvedDelivery c \<longleftrightarrow>
      (\<exists>d \<in> set (tb_deliveries db). dl_state d \<in> {DELIVERY_UNKNOWN, DELIVERY_UNKNOWN_UNRESOLVED} \<and> delivers_to shopId creatorId db d) \<or>
      (\<exists>f \<in> set (facts_of shopId (cr_creatorOpenId creator) db). hf_sendStatus f = ''UNKNOWN'' \<and> hf_resolutionState f = ''MATCHED'')"
    by (simp add: fields(4) has_unknown_def unknown_count_def count_where_def list_ex_iff filter_empty_conv Bex_def)
  moreover have "ct_doNotContact c \<longleftrightarrow> (case find_contact shopId creatorId db of None \<Rightarrow> False | Some old \<Rightarrow> ct_doNotContact old)"
    by (simp add: c_def old_def new_contact_def split: option.split)
  ultimately show ?thesis using creator(1) found by blast
qed

lemma upsert_contact_only:
  assumes "upsert_contact shopId creatorId f new db = Inr (u, db')"
  obtains cs where "db' = db\<lparr>tb_contacts := cs\<rparr>"
  using assms by (auto simp: upsert_contact_def split: if_splits)

lemma contact_frame [simp]:
  "find_creator i (db\<lparr>tb_contacts := cs\<rparr>) = find_creator i db"
  "find_recipient i (db\<lparr>tb_contacts := cs\<rparr>) = find_recipient i db"
  "find_campaign i (db\<lparr>tb_contacts := cs\<rparr>) = find_campaign i db"
  "find_conversation i (db\<lparr>tb_contacts := cs\<rparr>) = find_conversation i db"
  by (simp_all add: find_creator_def find_recipient_def find_campaign_def find_conversation_def)

lemma query_contact_frame [simp]:
  "delivers_to s c (db\<lparr>tb_contacts := cs\<rparr>) = delivers_to s c db"
  "messages_of dir s c (db\<lparr>tb_contacts := cs\<rparr>) = messages_of dir s c db"
  "facts_of s i (db\<lparr>tb_contacts := cs\<rparr>) = facts_of s i db"
  by (rule ext, simp only: delivers_to_def contact_frame) (simp_all add: messages_of_def facts_of_def split: option.split)

lemma rows_contact_frame [simp]:
  "sent_deliveries s c (db\<lparr>tb_contacts := cs\<rparr>) = sent_deliveries s c db"
  "unknown_count s c (db\<lparr>tb_contacts := cs\<rparr>) = unknown_count s c db"
  by (simp_all add: sent_deliveries_def unknown_count_def)

lemma rebuilt_contact_frame:
  assumes "upsert_contact shopId creatorId f new db = Inr (u, db')"
  shows "rebuilt_contact s creator db' = rebuilt_contact s creator db" "find_creator i db' = find_creator i db"
proof -
  obtain cs where db': "db' = db\<lparr>tb_contacts := cs\<rparr>" using upsert_contact_only [OF assms] by blast
  show "rebuilt_contact s creator db' = rebuilt_contact s creator db"
    by (rule ext) (simp only: db' rebuilt_contact_def rows_contact_frame query_contact_frame)
  show "find_creator i db' = find_creator i db" by (simp add: db')
qed

lemma rebuilt_twice: "rebuilt_contact s k db (rebuilt_contact s k db c) = rebuilt_contact s k db c"
  by (simp add: rebuilt_contact_def Let_def split: option.split)

theorem rebuild_is_idempotent:
  assumes "rebuildHistoricalContactState shopId creatorId db = Inr (u, db')"
  shows "rebuildHistoricalContactState shopId creatorId db' = Inr ((), db')"
proof -
  obtain creator where creator: "find_creator creatorId db = Some creator"
    and up: "upsert_contact shopId creatorId (rebuilt_contact shopId creator db) (rebuilt_contact shopId creator db (new_contact shopId creatorId)) db = Inr ((), db')"
    using rebuild_effect [OF assms] by blast
  let ?f = "rebuilt_contact shopId creator db"
  let ?own = "\<lambda>c. ct_shopId c = shopId \<and> ct_creatorId c = creatorId"
  have fixed: "?f c = c" if own: "?own c" and c: "c \<in> set (tb_contacts db')" for c
  proof (cases "find_contact shopId creatorId db")
    case None
    then have "tb_contacts db' = tb_contacts db @ [?f (new_contact shopId creatorId)]" using up by (auto simp: upsert_contact_def)
    moreover have "c \<notin> set (tb_contacts db)" using None own by (auto simp: find_contact_def dest: find_NoneD)
    ultimately show ?thesis using c by (auto simp: rebuilt_twice)
  next
    case (Some old)
    then have "tb_contacts db' = upd_where ?own ?f (tb_contacts db)" using up by (auto simp: upsert_contact_def)
    then obtain x where x: "x \<in> set (tb_contacts db)" "c = (if ?own x then ?f x else x)" using c by (auto simp: upd_where_def)
    then have "?own x" using own by (auto split: if_splits)
    then show ?thesis using x(2) by (simp add: rebuilt_twice)
  qed
  have "tb_contacts db' = upd_where ?own ?f (tb_contacts db')"
    unfolding upd_where_def using fixed by (intro map_idI [symmetric]) auto
  moreover have "find_contact shopId creatorId db' \<noteq> None"
    using find_contact_upsert_other [OF up] by (simp add: new_contact_def)
  ultimately have "upsert_contact shopId creatorId ?f (?f (new_contact shopId creatorId)) db' = Inr ((), db')"
    by (simp add: upsert_contact_def)
  then show ?thesis
    using creator rebuilt_contact_frame [OF up] by (simp add: rebuildHistoricalContactState_def tx_found_def)
qed

section \<open>Creators and their identities\<close>

text \<open>
  The unique columns of a creator are its provider identifiers. \<open>None\<close> is a column that holds NULL, and a
  value the code leaves undefined.
\<close>

definition shares_identifier :: "Creator \<Rightarrow> Creator \<Rightarrow> bool" where
  "shares_identifier a b \<longleftrightarrow> (cr_creatorOpenId a \<noteq> None \<and> cr_creatorOpenId a = cr_creatorOpenId b) \<or>
    (cr_creatorUserId a \<noteq> None \<and> cr_creatorUserId a = cr_creatorUserId b) \<or>
    (cr_creatorImId a \<noteq> None \<and> cr_creatorImId a = cr_creatorImId b)"

definition create_creator :: "Creator \<Rightarrow> Creator tx" where
  "create_creator c =
    tx_bind (tx_read (\<lambda>db. list_ex (\<lambda>x. cr_id x = cr_id c \<or> shares_identifier c x) (tb_creators db))) (\<lambda>clash.
    tx_bind (tx_guard (\<not> clash) (DbError UniqueViolation)) (\<lambda>_.
    tx_bind (tx_modify (\<lambda>db. db\<lparr>tb_creators := tb_creators db @ [c]\<rparr>)) (\<lambda>_. tx_return c)))"

definition update_creator :: "ident \<Rightarrow> (Creator \<Rightarrow> Creator) \<Rightarrow> Creator tx" where
  "update_creator i f =
    tx_bind (tx_bind (tx_read (find_creator i)) tx_found) (\<lambda>c.
    tx_bind (tx_read (\<lambda>db. list_ex (\<lambda>x. cr_id x \<noteq> i \<and> shares_identifier (f c) x) (tb_creators db))) (\<lambda>clash.
    tx_bind (tx_guard (\<not> clash) (DbError UniqueViolation)) (\<lambda>_.
    tx_bind (tx_modify (\<lambda>db. db\<lparr>tb_creators := upd_where (\<lambda>x. cr_id x = i) f (tb_creators db)\<rparr>)) (\<lambda>_. tx_return (f c)))))"

definition creator_by :: "(Creator \<Rightarrow> ident option) \<Rightarrow> ident \<Rightarrow> Tables \<Rightarrow> Creator option" where
  "creator_by column i db = List.find (\<lambda>c. column c = Some i) (tb_creators db)"

definition is_identity :: "string \<Rightarrow> ident \<Rightarrow> ProviderIdentity \<Rightarrow> bool" where
  "is_identity identityType identifier v \<longleftrightarrow>
    pv_provider v = ''TIKTOK_SHOP'' \<and> pv_identityType v = identityType \<and> pv_identifier v = identifier"

definition find_identity :: "string \<Rightarrow> ident \<Rightarrow> Tables \<Rightarrow> ProviderIdentity option" where
  "find_identity identityType identifier db = List.find (is_identity identityType identifier) (tb_identities db)"

definition identity :: "ident \<Rightarrow> string \<Rightarrow> ident \<Rightarrow> string \<Rightarrow> string \<Rightarrow> unit tx" where
  "identity creatorId identityType identifier linkState evidenceType =
    tx_bind (tx_read (find_identity identityType identifier)) (\<lambda>existing.
    tx_bind (tx_guard (case existing of None \<Rightarrow> True | Some v \<Rightarrow> pv_creatorId v = creatorId)
      (HttpError BadRequest (''Creator identity conflict for '' @ identityType))) (\<lambda>_.
    tx_modify (\<lambda>db. db\<lparr>tb_identities := (case existing of
        None \<Rightarrow> tb_identities db @ [\<lparr>pv_creatorId = creatorId, pv_provider = ''TIKTOK_SHOP'', pv_identityType = identityType,
          pv_identifier = identifier, pv_linkState = linkState, pv_evidenceType = evidenceType\<rparr>]
      | Some _ \<Rightarrow> upd_where (is_identity identityType identifier)
          (\<lambda>v. v\<lparr>pv_creatorId := creatorId, pv_linkState := linkState, pv_evidenceType := evidenceType\<rparr>) (tb_identities db))\<rparr>)))"

section \<open>ensureMarketplaceCreator\<close>

definition marketplace_columns :: "CreatorCandidate \<Rightarrow> Creator \<Rightarrow> Creator" where
  "marketplace_columns candidate c = c\<lparr>cr_creatorOpenId := Some (cc_creatorOpenId candidate),
     cr_creatorUserId := or_else (cc_creatorUserId candidate) (cr_creatorUserId c),
     cr_username := or_else (cc_username candidate) (cr_username c), cr_nickname := or_else (cc_nickname candidate) (cr_nickname c),
     cr_avatarUrl := or_else (cc_avatarUrl candidate) (cr_avatarUrl c), cr_selectionRegion := cc_selectionRegion candidate\<rparr>"

definition empty_creator :: "ident \<Rightarrow> Creator" where
  "empty_creator i = \<lparr>cr_id = i, cr_creatorOpenId = None, cr_username = None, cr_nickname = None, cr_creatorUserId = None,
     cr_avatarUrl = None, cr_selectionRegion = ''ID'', cr_creatorImId = None, cr_profileUri = None\<rparr>"

definition marketplace_conflict :: "CreatorCandidate \<Rightarrow> Creator option \<Rightarrow> Creator option \<Rightarrow> string option" where
  "marketplace_conflict candidate byOpen byUser =
    (if (case (byOpen, byUser) of (Some a, Some b) \<Rightarrow> cr_id a \<noteq> cr_id b | _ \<Rightarrow> False)
     then Some ''Conflicting exact Marketplace creator identifiers''
     else if (case byUser of None \<Rightarrow> False
       | Some b \<Rightarrow> truthy (cr_creatorOpenId b) \<and> cr_creatorOpenId b \<noteq> Some (cc_creatorOpenId candidate))
     then Some ''Creator User ID is already linked to a different Creator Open ID''
     else if (case byOpen of None \<Rightarrow> False
       | Some a \<Rightarrow> truthy (cc_creatorUserId candidate) \<and> truthy (cr_creatorUserId a) \<and> cr_creatorUserId a \<noteq> cc_creatorUserId candidate)
     then Some ''Creator Open ID is already linked to a different Creator User ID''
     else None)"

definition tx_refuse :: "string option \<Rightarrow> unit tx" where
  "tx_refuse m = (case m of None \<Rightarrow> tx_return () | Some x \<Rightarrow> tx_throw (HttpError BadRequest x))"

definition ensureMarketplaceCreatorInTransaction :: "CreatorCandidate \<Rightarrow> ident \<Rightarrow> Creator tx" where
  "ensureMarketplaceCreatorInTransaction candidate newId =
    tx_bind (tx_guard (cc_creatorOpenId candidate \<noteq> []) (HttpError BadRequest ''Marketplace creator_open_id is required'')) (\<lambda>_.
    tx_bind (tx_read (creator_by cr_creatorOpenId (cc_creatorOpenId candidate))) (\<lambda>byOpen.
    tx_bind (tx_read (\<lambda>db. if truthy (cc_creatorUserId candidate)
       then creator_by cr_creatorUserId (the (cc_creatorUserId candidate)) db else None)) (\<lambda>byUser.
    tx_bind (tx_refuse (marketplace_conflict candidate byOpen byUser)) (\<lambda>_.
    tx_bind (case byOpen of Some a \<Rightarrow> tx_return a | None \<Rightarrow> (case byUser of Some b \<Rightarrow> tx_return b
       | None \<Rightarrow> create_creator (marketplace_columns candidate (empty_creator newId)))) (\<lambda>creator.
    tx_bind (update_creator (cr_id creator) (marketplace_columns candidate)) (\<lambda>updated.
    tx_bind (identity (cr_id updated) ''TIKTOK_CREATOR_OPEN_ID'' (cc_creatorOpenId candidate) ''VERIFIED'' ''MARKETPLACE_EXACT_FIELD'') (\<lambda>_.
    tx_bind (if truthy (cc_creatorUserId candidate)
       then identity (cr_id updated) ''TIKTOK_CREATOR_USER_ID'' (the (cc_creatorUserId candidate)) ''VERIFIED'' ''MARKETPLACE_EXACT_FIELD''
       else tx_return ()) (\<lambda>_. tx_return updated))))))))"

text \<open>The check before the transaction is the one its body makes first: an error either way, before anything is read.\<close>

definition ensureMarketplaceCreator :: "CreatorCandidate \<Rightarrow> Creator prog" where
  "ensureMarketplaceCreator candidate =
    (if cc_creatorOpenId candidate = [] then Throw (HttpError BadRequest ''Marketplace creator_open_id is required'')
     else transact (\<lambda>env. ensureMarketplaceCreatorInTransaction candidate (e_fresh env 0)))"

section \<open>linkExactProviderIdentities\<close>

record ExactLinkEvidence =
  el_evidenceType :: string
  el_creatorImId :: ident
  el_creatorOpenId :: ident
  el_mappingReference :: "string option"

record Preserved =
  ps_doNotContact :: bool
  ps_unresolvedDelivery :: bool
  ps_latestReplyStatus :: string
  ps_historyCoverageStart :: "millis option"

definition later_start :: "millis option \<Rightarrow> millis option \<Rightarrow> millis option" where
  "later_start current state = (case current of None \<Rightarrow> state
     | Some a \<Rightarrow> (case state of None \<Rightarrow> Some a | Some b \<Rightarrow> if b < a then Some b else Some a))"

definition preserve :: "Contact \<Rightarrow> Preserved option \<Rightarrow> Preserved" where
  "preserve state current =
    \<lparr>ps_doNotContact = ((case current of None \<Rightarrow> False | Some p \<Rightarrow> ps_doNotContact p) \<or> ct_doNotContact state),
     ps_unresolvedDelivery = ((case current of None \<Rightarrow> False | Some p \<Rightarrow> ps_unresolvedDelivery p) \<or> ct_unresolvedDelivery state),
     ps_latestReplyStatus = (if (case current of None \<Rightarrow> False | Some p \<Rightarrow> ps_latestReplyStatus p = ''REPLIED'') \<or> ct_latestReplyStatus state = ''REPLIED''
       then ''REPLIED'' else ct_latestReplyStatus state),
     ps_historyCoverageStart = later_start (Option.bind current ps_historyCoverageStart) (ct_historyCoverageStart state)\<rparr>"

definition preserved_states :: "Contact list \<Rightarrow> (ident \<times> Preserved) list" where
  "preserved_states states = fold (\<lambda>state m. map_put (ct_shopId state) (preserve state (map_of m (ct_shopId state))) m) states []"

definition link_conflict :: "Creator \<Rightarrow> Creator \<Rightarrow> ExactLinkEvidence \<Rightarrow> string option" where
  "link_conflict source target evidence =
    (if cr_creatorImId source \<noteq> Some (el_creatorImId evidence) \<or> cr_creatorOpenId target \<noteq> Some (el_creatorOpenId evidence)
     then Some ''Exact provider identity evidence does not match the stored identities''
     else if truthy (cr_creatorOpenId source) \<and> cr_creatorOpenId source \<noteq> cr_creatorOpenId target
     then Some ''Source creator already has a conflicting Open ID''
     else if truthy (cr_creatorImId target) \<and> cr_creatorImId target \<noteq> cr_creatorImId source
     then Some ''Target creator already has a conflicting IM ID''
     else if el_evidenceType evidence = ''DOCUMENTED_PROVIDER_MAPPING'' \<and>
       (case el_mappingReference evidence of None \<Rightarrow> True | Some r \<Rightarrow> js_trim r = [])
     then Some ''A documented provider mapping reference is required''
     else None)"

definition duplicate_campaign :: "ident \<Rightarrow> ident \<Rightarrow> Tables \<Rightarrow> bool" where
  "duplicate_campaign source target db \<longleftrightarrow> list_ex (\<lambda>r. rc_creatorId r = source \<and>
     list_ex (\<lambda>x. rc_campaignId x = rc_campaignId r \<and> rc_creatorId x = target) (tb_recipients db)) (tb_recipients db)"

definition duplicate_reservation :: "ident \<Rightarrow> ident \<Rightarrow> Tables \<Rightarrow> bool" where
  "duplicate_reservation source target db \<longleftrightarrow> list_ex (\<lambda>r. rv_creatorId r = source \<and>
     list_ex (\<lambda>x. rv_shopId x = rv_shopId r \<and> rv_creatorId x = target) (tb_reservations db)) (tb_reservations db)"

definition move_rows :: "ident \<Rightarrow> ident \<Rightarrow> string \<Rightarrow> Tables \<Rightarrow> Tables" where
  "move_rows source target evidenceType db = db\<lparr>
     tb_identities := upd_where (\<lambda>v. pv_creatorId v = source)
       (\<lambda>v. v\<lparr>pv_creatorId := target, pv_linkState := ''VERIFIED'', pv_evidenceType := evidenceType\<rparr>) (tb_identities db),
     tb_snapshots := upd_where (\<lambda>s. sn_creatorId s = source) (\<lambda>s. s\<lparr>sn_creatorId := target\<rparr>) (tb_snapshots db),
     tb_conversations := upd_where (\<lambda>c. cv_creatorId c = source) (\<lambda>c. c\<lparr>cv_creatorId := target\<rparr>) (tb_conversations db),
     tb_recipients := upd_where (\<lambda>r. rc_creatorId r = source) (\<lambda>r. r\<lparr>rc_creatorId := target\<rparr>) (tb_recipients db),
     tb_reservations := upd_where (\<lambda>v. rv_creatorId v = source) (\<lambda>v. v\<lparr>rv_creatorId := target\<rparr>) (tb_reservations db),
     tb_contacts := del_where (\<lambda>c. ct_creatorId c \<in> {source, target}) (tb_contacts db),
     tb_creators := del_where (\<lambda>c. cr_id c = source) (tb_creators db)\<rparr>"

definition merged_columns :: "Creator \<Rightarrow> Creator \<Rightarrow> Creator \<Rightarrow> Creator" where
  "merged_columns source target c = c\<lparr>cr_creatorImId := cr_creatorImId source, cr_username := or_else (cr_username target) (cr_username source),
     cr_nickname := or_else (cr_nickname target) (cr_nickname source), cr_avatarUrl := or_else (cr_avatarUrl target) (cr_avatarUrl source),
     cr_profileUri := or_else (cr_profileUri target) (cr_profileUri source)\<rparr>"

text \<open>The private \<open>rebuildContactState\<close>: like the rebuild of the history, but it creates the row and keeps the flags it is given.\<close>

definition merged_contact :: "ident \<Rightarrow> Creator \<Rightarrow> Preserved \<Rightarrow> Tables \<Rightarrow> Contact" where
  "merged_contact shopId creator flags db =
    (let deliveries = sent_deliveries shopId (cr_id creator) db;
         facts = facts_of shopId (cr_creatorOpenId creator) db;
         contacts = contact_entries deliveries (messages_of OUTBOUND shopId (cr_id creator) db) facts;
         dates = dates_of contacts;
         coverageDates = js_sort (cmp_by id) (map hf_contactedAt (matched_facts facts)
           @ (case ps_historyCoverageStart flags of None \<Rightarrow> [] | Some t \<Rightarrow> [t]));
         latest = (case deliveries of [] \<Rightarrow> None | d # _ \<Rightarrow> Some d)
     in \<lparr>ct_shopId = shopId, ct_creatorId = cr_id creator, ct_firstContactedAt = first_date dates, ct_lastContactedAt = last_date dates,
         ct_contactCount = int (length contacts), ct_lastCampaignId = map_option dl_campaignId latest, ct_lastDeliveryId = map_option dl_id latest,
         ct_doNotContact = ps_doNotContact flags,
         ct_unresolvedDelivery = (ps_unresolvedDelivery flags \<or> has_unknown (unknown_count shopId (cr_id creator) db) facts),
         ct_historyCoverageStart = first_date coverageDates, ct_latestReplyStatus = ps_latestReplyStatus flags\<rparr>)"

definition rebuildContactState :: "ident \<Rightarrow> ident \<Rightarrow> Preserved \<Rightarrow> unit tx" where
  "rebuildContactState shopId creatorId flags =
    tx_bind (tx_bind (tx_read (find_creator creatorId)) tx_found) (\<lambda>creator.
    tx_bind (tx_read (merged_contact shopId creator flags)) (\<lambda>new.
    tx_bind (tx_read (\<lambda>db. find_contact shopId creatorId db = None)) (\<lambda>free.
    tx_bind (tx_guard free (DbError UniqueViolation)) (\<lambda>_.
    tx_modify (\<lambda>db. db\<lparr>tb_contacts := tb_contacts db @ [new]\<rparr>)))))"

definition identity_audit :: "string \<Rightarrow> ident \<Rightarrow> ident option \<Rightarrow> string \<Rightarrow> Json \<Rightarrow> unit tx" where
  "identity_audit action source target evidenceType evidence = tx_modify (\<lambda>db. db\<lparr>tb_identityAudits := tb_identityAudits db @
     [\<lparr>ia_action = action, ia_sourceCreatorId = source, ia_targetCreatorId = target, ia_evidenceType = evidenceType, ia_evidence = evidence\<rparr>]\<rparr>)"

definition link_evidence :: "ExactLinkEvidence \<Rightarrow> Json" where
  "link_evidence evidence = JObj [(''mappingReference'', case el_mappingReference evidence of None \<Rightarrow> JNull | Some r \<Rightarrow> JStr r),
     (''identityNamespaces'', JArr [JStr ''TIKTOK_CREATOR_IM_ID'', JStr ''TIKTOK_CREATOR_OPEN_ID''])]"

text \<open>The body of the merge once the checks have passed.\<close>

definition merge_creators :: "Creator \<Rightarrow> Creator \<Rightarrow> ExactLinkEvidence \<Rightarrow> unit tx" where
  "merge_creators source target evidence =
    tx_bind (tx_read (\<lambda>db. preserved_states (filter (\<lambda>c. ct_creatorId c = cr_id source) (tb_contacts db)
       @ filter (\<lambda>c. ct_creatorId c = cr_id target) (tb_contacts db)))) (\<lambda>preserved.
    tx_bind (tx_modify (move_rows (cr_id source) (cr_id target) (el_evidenceType evidence))) (\<lambda>_.
    tx_bind (update_creator (cr_id target) (merged_columns source target)) (\<lambda>_.
    tx_bind (tx_each (\<lambda>(shopId, flags). rebuildContactState shopId (cr_id target) flags) preserved) (\<lambda>_.
    identity_audit ''EXACT_PROVIDER_IDENTITIES_LINKED'' (cr_id source) (Some (cr_id target)) (el_evidenceType evidence) (link_evidence evidence)))))"

definition linkExactProviderIdentities :: "ident \<Rightarrow> ident \<Rightarrow> ExactLinkEvidence \<Rightarrow> Creator tx" where
  "linkExactProviderIdentities sourceId targetId evidence =
    tx_bind (tx_read (find_creator sourceId)) (\<lambda>found.
    tx_bind (tx_bind (tx_read (find_creator targetId)) tx_found) (\<lambda>target.
    case found of
      None \<Rightarrow> tx_bind (tx_read (creator_by cr_creatorImId (el_creatorImId evidence))) (\<lambda>linked.
        if (case linked of None \<Rightarrow> False | Some c \<Rightarrow> cr_id c = cr_id target) \<and> cr_creatorOpenId target = Some (el_creatorOpenId evidence)
        then tx_return target
        else tx_throw (HttpError BadRequest ''Source creator identity no longer exists and is not linked to the target''))
    | Some source \<Rightarrow>
        if cr_id source = cr_id target
        then tx_bind (identity (cr_id target) ''TIKTOK_CREATOR_IM_ID'' (el_creatorImId evidence) ''VERIFIED'' (el_evidenceType evidence))
          (\<lambda>_. tx_return target)
        else
          tx_bind (tx_refuse (link_conflict source target evidence)) (\<lambda>_.
          tx_bind (tx_read (duplicate_campaign (cr_id source) (cr_id target))) (\<lambda>campaignClash.
          tx_bind (tx_guard (\<not> campaignClash) (HttpError BadRequest ''Identity merge conflicts with existing campaign history'')) (\<lambda>_.
          tx_bind (tx_read (duplicate_reservation (cr_id source) (cr_id target))) (\<lambda>reservationClash.
          tx_bind (tx_guard (\<not> reservationClash) (HttpError BadRequest ''Identity merge conflicts with an active creator reservation'')) (\<lambda>_.
          tx_bind (merge_creators source target evidence) (\<lambda>_.
          tx_bind (tx_read (find_creator (cr_id target))) tx_found)))))) ))"

section \<open>ensureConversationCreator\<close>

definition conversation_columns :: "ProviderConversation \<Rightarrow> Creator \<Rightarrow> Creator" where
  "conversation_columns conversation c = c\<lparr>cr_creatorOpenId := or_else (pc_creatorOpenId conversation) (cr_creatorOpenId c),
     cr_creatorImId := Some (pc_creatorImId conversation), cr_username := or_else (pc_username conversation) (cr_username c),
     cr_avatarUrl := or_else (pc_avatarUrl conversation) (cr_avatarUrl c)\<rparr>"

definition conversation_names :: "ProviderConversation \<Rightarrow> Creator \<Rightarrow> Creator" where
  "conversation_names conversation c = c\<lparr>cr_username := or_else (pc_username conversation) (cr_username c),
     cr_avatarUrl := or_else (pc_avatarUrl conversation) (cr_avatarUrl c)\<rparr>"

text \<open>The transaction for a conversation with both identifiers, with what was read before it.\<close>

definition both_identifiers_tx :: "ProviderConversation \<Rightarrow> Creator option \<Rightarrow> Creator option \<Rightarrow> ident \<Rightarrow> Creator tx" where
  "both_identifiers_tx conversation byIm byOpen newId =
    tx_bind (case byIm of Some a \<Rightarrow> tx_return a | None \<Rightarrow> (case byOpen of Some b \<Rightarrow> tx_return b
       | None \<Rightarrow> create_creator (conversation_columns conversation (empty_creator newId)))) (\<lambda>creator.
    tx_bind (update_creator (cr_id creator) (conversation_columns conversation)) (\<lambda>updated.
    tx_bind (identity (cr_id updated) ''TIKTOK_CREATOR_OPEN_ID'' (the (pc_creatorOpenId conversation)) ''VERIFIED'' ''CONVERSATION_EXACT_FIELD'') (\<lambda>_.
    tx_bind (identity (cr_id updated) ''TIKTOK_CREATOR_IM_ID'' (pc_creatorImId conversation) ''VERIFIED'' ''CONVERSATION_RETURNED_BOTH_IDENTIFIERS'') (\<lambda>_.
    tx_return updated))))"

definition im_only_tx :: "ProviderConversation \<Rightarrow> Creator option \<Rightarrow> ident \<Rightarrow> Creator tx" where
  "im_only_tx conversation byIm newId =
    tx_bind (case byIm of Some a \<Rightarrow> update_creator (cr_id a) (conversation_names conversation)
       | None \<Rightarrow> create_creator (conversation_columns (conversation\<lparr>pc_creatorOpenId := None\<rparr>) (empty_creator newId))) (\<lambda>creator.
    tx_bind (tx_read (find_identity ''TIKTOK_CREATOR_IM_ID'' (pc_creatorImId conversation))) (\<lambda>prior.
    tx_bind (identity (cr_id creator) ''TIKTOK_CREATOR_IM_ID'' (pc_creatorImId conversation) ''UNRESOLVED'' ''CONVERSATION_IM_ONLY'') (\<lambda>_.
    tx_bind (if prior = None then identity_audit ''UNRESOLVED_IDENTITY_OBSERVED'' (cr_id creator) None ''CONVERSATION_IM_ONLY''
         (JObj [(''identityNamespace'', JStr ''TIKTOK_CREATOR_IM_ID'')]) else tx_return ()) (\<lambda>_.
    tx_return creator))))"

definition conversation_conflict :: "ProviderConversation \<Rightarrow> Creator option \<Rightarrow> Creator option \<Rightarrow> string option" where
  "conversation_conflict conversation byIm byOpen =
    (if (case byIm of None \<Rightarrow> False | Some a \<Rightarrow> truthy (cr_creatorOpenId a) \<and> cr_creatorOpenId a \<noteq> pc_creatorOpenId conversation)
     then Some ''Creator IM ID is already linked to a different Creator Open ID''
     else if (case byOpen of None \<Rightarrow> False | Some b \<Rightarrow> truthy (cr_creatorImId b) \<and> cr_creatorImId b \<noteq> Some (pc_creatorImId conversation))
     then Some ''Creator Open ID is already linked to a different Creator IM ID''
     else None)"

definition ensureConversationCreator :: "ProviderConversation \<Rightarrow> Creator prog" where
  "ensureConversationCreator conversation =
    (if pc_creatorImId conversation = [] then Throw (HttpError BadRequest ''Conversation creator_im_id is required'')
     else p_bind (transact (\<lambda>_. tx_read (creator_by cr_creatorImId (pc_creatorImId conversation)))) (\<lambda>byIm.
       if truthy (pc_creatorOpenId conversation) then
         p_bind (transact (\<lambda>_. tx_read (creator_by cr_creatorOpenId (the (pc_creatorOpenId conversation))))) (\<lambda>byOpen.
           case conversation_conflict conversation byIm byOpen of
             Some m \<Rightarrow> Throw (HttpError BadRequest m)
           | None \<Rightarrow> (case (byIm, byOpen) of
               (Some a, Some b) \<Rightarrow> if cr_id a \<noteq> cr_id b
                 then transact (\<lambda>_. linkExactProviderIdentities (cr_id a) (cr_id b)
                   \<lparr>el_evidenceType = ''CONVERSATION_RETURNED_BOTH_IDENTIFIERS'', el_creatorImId = pc_creatorImId conversation,
                    el_creatorOpenId = the (pc_creatorOpenId conversation), el_mappingReference = None\<rparr>)
                 else transact (\<lambda>env. both_identifiers_tx conversation byIm byOpen (e_fresh env 0))
             | _ \<Rightarrow> transact (\<lambda>env. both_identifiers_tx conversation byIm byOpen (e_fresh env 0))))
       else transact (\<lambda>env. im_only_tx conversation byIm (e_fresh env 0))))"

section \<open>No identifier has two owners\<close>

text \<open>
  The invariant of the identities: creators share no identifier, an identity is recorded once, the creator it is
  recorded for has that identifier in the column of its type, and a creator with a User ID has an Open ID.
\<close>

definition column_of :: "string \<Rightarrow> Creator \<Rightarrow> ident option" where
  "column_of identityType c =
    (if identityType = ''TIKTOK_CREATOR_OPEN_ID'' then cr_creatorOpenId c
     else if identityType = ''TIKTOK_CREATOR_USER_ID'' then cr_creatorUserId c
     else if identityType = ''TIKTOK_CREATOR_IM_ID'' then cr_creatorImId c else None)"

definition identity_key :: "ProviderIdentity \<Rightarrow> string \<times> string \<times> ident" where
  "identity_key v = (pv_provider v, pv_identityType v, pv_identifier v)"

definition well_identified :: "Creator \<Rightarrow> bool" where
  "well_identified c \<longleftrightarrow> (\<forall>t. column_of t c \<noteq> Some []) \<and> (cr_creatorUserId c \<noteq> None \<longrightarrow> cr_creatorOpenId c \<noteq> None)"

definition creators_ok :: "Creator list \<Rightarrow> bool" where
  "creators_ok cs \<longleftrightarrow> distinct (map cr_id cs) \<and> (\<forall>c \<in> set cs. well_identified c) \<and>
    (\<forall>a \<in> set cs. \<forall>b \<in> set cs. \<forall>t i. column_of t a = Some i \<longrightarrow> column_of t b = Some i \<longrightarrow> a = b)"

definition owned :: "Creator list \<Rightarrow> ProviderIdentity \<Rightarrow> bool" where
  "owned cs v \<longleftrightarrow> (\<exists>c \<in> set cs. cr_id c = pv_creatorId v \<and> column_of (pv_identityType v) c = Some (pv_identifier v))"

definition identities_ok :: "Tables \<Rightarrow> bool" where
  "identities_ok db \<longleftrightarrow> creators_ok (tb_creators db) \<and> distinct (map identity_key (tb_identities db)) \<and>
    (\<forall>v \<in> set (tb_identities db). owned (tb_creators db) v)"

definition gains :: "Creator \<Rightarrow> Creator \<Rightarrow> bool" where
  "gains c c' \<longleftrightarrow> cr_id c' = cr_id c \<and> (\<forall>t i. column_of t c = Some i \<longrightarrow> column_of t c' = Some i)"

lemma column_of_simps [simp]: "column_of ''TIKTOK_CREATOR_OPEN_ID'' = cr_creatorOpenId"
  "column_of ''TIKTOK_CREATOR_USER_ID'' = cr_creatorUserId" "column_of ''TIKTOK_CREATOR_IM_ID'' = cr_creatorImId"
  by (rule ext, simp add: column_of_def)+

lemma all_columns: "(\<forall>t. P (column_of t c)) \<longleftrightarrow> P (cr_creatorOpenId c) \<and> P (cr_creatorUserId c) \<and> P (cr_creatorImId c) \<and> P None"
proof
  assume *: "\<forall>t. P (column_of t c)"
  then show "P (cr_creatorOpenId c) \<and> P (cr_creatorUserId c) \<and> P (cr_creatorImId c) \<and> P None"
    using spec [OF *, of "''TIKTOK_CREATOR_OPEN_ID''"] spec [OF *, of "''TIKTOK_CREATOR_USER_ID''"]
      spec [OF *, of "''TIKTOK_CREATOR_IM_ID''"] spec [OF *, of "[]"] by (simp add: column_of_def)
qed (simp add: column_of_def)

lemma well_identified_iff: "well_identified c \<longleftrightarrow> cr_creatorOpenId c \<noteq> Some [] \<and> cr_creatorUserId c \<noteq> Some [] \<and> cr_creatorImId c \<noteq> Some [] \<and>
    (cr_creatorUserId c \<noteq> None \<longrightarrow> cr_creatorOpenId c \<noteq> None)"
  using all_columns [of "\<lambda>x. x \<noteq> Some []" c] by (auto simp: well_identified_def)

lemma shares_identifier_iff: "shares_identifier a b \<longleftrightarrow> (\<exists>t i. column_of t a = Some i \<and> column_of t b = Some i)"
proof
  assume "shares_identifier a b"
  then show "\<exists>t i. column_of t a = Some i \<and> column_of t b = Some i"
    unfolding shares_identifier_def by (elim disjE conjE) (metis column_of_simps not_None_eq)+
qed (auto simp: shares_identifier_def column_of_def split: if_splits)

lemma creators_ok_id: "creators_ok cs \<Longrightarrow> a \<in> set cs \<Longrightarrow> b \<in> set cs \<Longrightarrow> cr_id a = cr_id b \<Longrightarrow> a = b"
  by (auto simp: creators_ok_def dest: distinct_map_eqD)

lemma creators_ok_column: "creators_ok cs \<Longrightarrow> a \<in> set cs \<Longrightarrow> b \<in> set cs \<Longrightarrow> column_of t a = Some i \<Longrightarrow> column_of t b = Some i \<Longrightarrow> a = b"
  unfolding creators_ok_def by blast

lemma gains_owned: "owned cs v \<Longrightarrow> (\<And>c. c \<in> set cs \<Longrightarrow> \<exists>c' \<in> set cs'. gains c c') \<Longrightarrow> owned cs' v"
  unfolding owned_def gains_def by metis

subsection \<open>Rows of creators\<close>

lemma create_creator_effect:
  assumes "create_creator c db = Inr (r, db')"
  shows "r = c" "db' = db\<lparr>tb_creators := tb_creators db @ [c]\<rparr>" "\<And>x. x \<in> set (tb_creators db) \<Longrightarrow> cr_id x \<noteq> cr_id c \<and> \<not> shares_identifier c x"
  using assms by (auto simp: create_creator_def tx_guard_def list_ex_iff elim!: tx_bind_InrE split: if_splits)

lemma update_creator_effect:
  assumes "update_creator i f db = Inr (r, db')"
  obtains c where "find_creator i db = Some c" "r = f c" "db' = db\<lparr>tb_creators := upd_where (\<lambda>x. cr_id x = i) f (tb_creators db)\<rparr>"
    "\<And>x. x \<in> set (tb_creators db) \<Longrightarrow> cr_id x \<noteq> i \<Longrightarrow> \<not> shares_identifier (f c) x"
proof -
  obtain c where c: "find_creator i db = Some c"
    using assms by (auto simp: update_creator_def split: option.splits)
  then have "r = f c \<and> db' = db\<lparr>tb_creators := upd_where (\<lambda>x. cr_id x = i) f (tb_creators db)\<rparr> \<and>
      (\<forall>x \<in> set (tb_creators db). cr_id x \<noteq> i \<longrightarrow> \<not> shares_identifier (f c) x)"
    using assms by (auto simp: update_creator_def tx_guard_def list_ex_iff elim!: tx_bind_InrE split: if_splits)
  with c show thesis using that by blast
qed

lemma creators_ok_create:
  assumes "creators_ok cs" "well_identified c" "\<And>x. x \<in> set cs \<Longrightarrow> cr_id x \<noteq> cr_id c \<and> \<not> shares_identifier c x"
  shows "creators_ok (cs @ [c])"
proof -
  have "a = b" if "a \<in> set (cs @ [c])" "b \<in> set (cs @ [c])" "column_of t a = Some i" "column_of t b = Some i" for a b t i
    using that assms(3) [of a] assms(3) [of b] creators_ok_column [OF assms(1), of a b t i] unfolding shares_identifier_iff by auto
  moreover have "cr_id c \<notin> cr_id ` set cs" using assms(3) by (metis imageE)
  then have "distinct (map cr_id (cs @ [c]))" using assms(1) by (simp add: creators_ok_def)
  ultimately show ?thesis using assms(1,2) unfolding creators_ok_def by auto
qed

lemma creators_ok_update:
  assumes ok: "creators_ok cs" and c: "c \<in> set cs" "cr_id c = i" and f: "cr_id (f c) = i" "well_identified (f c)"
    and other: "\<And>x. x \<in> set cs \<Longrightarrow> cr_id x \<noteq> i \<Longrightarrow> \<not> shares_identifier (f c) x"
  shows "creators_ok (upd_where (\<lambda>x. cr_id x = i) f cs)" "f c \<in> set (upd_where (\<lambda>x. cr_id x = i) f cs)"
proof -
  have only: "x = c" if "x \<in> set cs" "cr_id x = i" for x using creators_ok_id [OF ok] that c by blast
  have rows: "upd_where (\<lambda>x. cr_id x = i) f cs = map (\<lambda>x. if x = c then f c else x) cs"
    unfolding upd_where_def
  proof (rule map_cong [OF refl])
    fix x assume "x \<in> set cs"
    then have "cr_id x = i \<longleftrightarrow> x = c" using only c(2) by blast
    then show "(if cr_id x = i then f x else x) = (if x = c then f c else x)" by simp
  qed
  have ids: "map cr_id (map (\<lambda>x. if x = c then f c else x) cs) = map cr_id cs" using c(2) f(1) by (simp add: o_def)
  have uniq: "column_of t a = Some j \<Longrightarrow> column_of t b = Some j \<Longrightarrow> a = b"
    if "a \<in> set (map (\<lambda>x. if x = c then f c else x) cs)" "b \<in> set (map (\<lambda>x. if x = c then f c else x) cs)" for a b t j
  proof -
    assume a: "column_of t a = Some j" and b: "column_of t b = Some j"
    have "x = f c \<or> x \<in> set cs \<and> cr_id x \<noteq> i" if x: "x \<in> set (map (\<lambda>x. if x = c then f c else x) cs)" for x
    proof -
      obtain y where y: "y \<in> set cs" "x = (if y = c then f c else y)" using x by auto
      then show ?thesis using only [OF y(1)] by presburger
    qed
    then have "(a = f c \<or> a \<in> set cs \<and> cr_id a \<noteq> i) \<and> (b = f c \<or> b \<in> set cs \<and> cr_id b \<noteq> i)" using that by blast
    then show "a = b" using a b other [of a] other [of b] creators_ok_column [OF ok, of a b t j] unfolding shares_identifier_iff by blast
  qed
  show "creators_ok (upd_where (\<lambda>x. cr_id x = i) f cs)"
    unfolding rows creators_ok_def ids
  proof (intro conjI ballI allI impI)
    show "distinct (map cr_id cs)" using ok by (simp add: creators_ok_def)
    fix x assume "x \<in> set (map (\<lambda>x. if x = c then f c else x) cs)"
    then obtain y where y: "y \<in> set cs" "x = (if y = c then f c else y)" by auto
    show "well_identified x" using y ok f(2) by (cases "y = c") (simp_all add: creators_ok_def)
  qed (rule uniq)
  show "f c \<in> set (upd_where (\<lambda>x. cr_id x = i) f cs)" unfolding rows using c by auto
qed

lemma find_creator_ok: "creators_ok (tb_creators db) \<Longrightarrow> c \<in> set (tb_creators db) \<Longrightarrow> find_creator (cr_id c) db = Some c"
  unfolding creators_ok_def find_creator_def using find_unique [of cr_id "tb_creators db" c] by simp

lemma update_keeps:
  assumes ok: "identities_ok db" and up: "update_creator i f db = Inr (r, db')"
    and c: "c \<in> set (tb_creators db)" "cr_id c = i" and f: "gains c (f c)" "well_identified (f c)"
  shows "identities_ok db' \<and> r = f c \<and> r \<in> set (tb_creators db') \<and> cr_id r = i"
proof -
  obtain c' where e: "find_creator i db = Some c'" "r = f c'" "db' = db\<lparr>tb_creators := upd_where (\<lambda>x. cr_id x = i) f (tb_creators db)\<rparr>"
    and other: "\<And>x. x \<in> set (tb_creators db) \<Longrightarrow> cr_id x \<noteq> i \<Longrightarrow> \<not> shares_identifier (f c') x"
    using update_creator_effect [OF up] by blast
  have cs: "creators_ok (tb_creators db)" using ok by (simp add: identities_ok_def)
  have c': "c' = c" using find_creator_ok [OF cs c(1)] c(2) e(1) by simp
  have id: "cr_id (f c) = i" using f(1) c(2) by (simp add: gains_def)
  note new = creators_ok_update [where f = f, OF cs c id f(2) other [unfolded c']]
  have "\<exists>y \<in> set (tb_creators db'). gains x y" if "x \<in> set (tb_creators db)" for x
  proof (cases "cr_id x = i")
    case True
    then have "x = c" using creators_ok_id [OF cs that c(1)] c(2) by simp
    then show ?thesis using new(2) f(1) e(3) by auto
  next
    case False
    then have "x \<in> set (tb_creators db')" using that e(3) by (auto simp: set_upd_where)
    then show ?thesis by (auto simp: gains_def)
  qed
  then have "owned (tb_creators db') v" if "v \<in> set (tb_identities db)" for v
    using that ok gains_owned [of "tb_creators db" v "tb_creators db'"] by (simp add: identities_ok_def)
  then show ?thesis using ok new e id c' by (simp add: identities_ok_def)
qed

lemma create_keeps:
  assumes ok: "identities_ok db" and cr: "create_creator c db = Inr (r, db')" and c: "well_identified c"
  shows "identities_ok db' \<and> r = c \<and> c \<in> set (tb_creators db')"
proof -
  note e = create_creator_effect [OF cr]
  have "owned (tb_creators db') v" if "v \<in> set (tb_identities db)" for v
    using that ok e(2) by (auto simp: identities_ok_def owned_def)
  then show ?thesis using ok e creators_ok_create [OF _ c e(3)] by (simp add: identities_ok_def)
qed

lemma identity_effect:
  assumes "identity k t i l e db = Inr (u, db')"
  shows "tb_creators db' = tb_creators db"
    "\<And>v. v \<in> set (tb_identities db) \<Longrightarrow> is_identity t i v \<Longrightarrow> v = the (find_identity t i db) \<Longrightarrow> pv_creatorId v = k"
  using assms by (auto simp: identity_def tx_guard_def find_identity_def elim!: tx_bind_InrE split: if_splits option.splits dest: find_NoneD)

lemma identity_keeps:
  assumes ok: "identities_ok db" and run: "identity k t i l e db = Inr (u, db')"
    and c: "c \<in> set (tb_creators db)" "cr_id c = k" "column_of t c = Some i"
  shows "identities_ok db' \<and> tb_creators db' = tb_creators db"
proof (cases "find_identity t i db")
  case None
  then have db': "db' = db\<lparr>tb_identities := tb_identities db @ [\<lparr>pv_creatorId = k, pv_provider = ''TIKTOK_SHOP'', pv_identityType = t,
          pv_identifier = i, pv_linkState = l, pv_evidenceType = e\<rparr>]\<rparr>" using run by (simp add: identity_def)
  have fresh: "(''TIKTOK_SHOP'', t, i) \<notin> identity_key ` set (tb_identities db)"
    using None by (auto simp: find_identity_def identity_key_def is_identity_def dest: find_NoneD)
  have "map identity_key (tb_identities db') = map identity_key (tb_identities db) @ [(''TIKTOK_SHOP'', t, i)]"
    by (simp add: db' identity_key_def)
  then show ?thesis using ok c fresh by (auto simp: db' identities_ok_def owned_def)
next
  case (Some v0)
  let ?f = "\<lambda>v. v\<lparr>pv_creatorId := k, pv_linkState := l, pv_evidenceType := e\<rparr>"
  have db': "db' = db\<lparr>tb_identities := upd_where (is_identity t i) ?f (tb_identities db)\<rparr>"
    using Some run by (auto simp: identity_def tx_guard_def elim!: tx_bind_InrE split: if_splits)
  have keys: "map identity_key (tb_identities db') = map identity_key (tb_identities db)"
    by (simp add: db') (rule map_upd_where_id, simp add: identity_key_def)
  have "owned (tb_creators db') v" if "v \<in> set (tb_identities db')" for v
    using that ok c unfolding db' by (auto simp: set_upd_where identities_ok_def owned_def is_identity_def)
  then show ?thesis using ok keys by (simp add: identities_ok_def db')
qed

section \<open>The operations keep the identities consistent\<close>

text \<open>
  The contract of an operation on identities: from consistent identities, and tables where its precondition
  holds, it reaches consistent identities.
\<close>

locale identity_keeping =
  fixes t :: "'a tx" and pre :: "Tables \<Rightarrow> bool"
  assumes keeps: "identities_ok db \<Longrightarrow> pre db \<Longrightarrow> t db = Inr (a, db') \<Longrightarrow> identities_ok db'"
begin

lemma one_owner:
  assumes "identities_ok db" "pre db" "t db = Inr (a, db')"
    and "x \<in> set (tb_creators db')" "y \<in> set (tb_creators db')" "column_of ty x = Some i" "column_of ty y = Some i"
  shows "x = y"
  using keeps [OF assms(1-3)] assms(4-) creators_ok_column unfolding identities_ok_def by blast

lemma recorded_owner:
  assumes "identities_ok db" "pre db" "t db = Inr (a, db')"
    and "v \<in> set (tb_identities db')" "x \<in> set (tb_creators db')" "column_of (pv_identityType v) x = Some (pv_identifier v)"
  shows "cr_id x = pv_creatorId v"
proof -
  obtain c where "c \<in> set (tb_creators db')" "cr_id c = pv_creatorId v" "column_of (pv_identityType v) c = Some (pv_identifier v)"
    using keeps [OF assms(1-3)] assms(4) unfolding identities_ok_def owned_def by blast
  then show ?thesis using one_owner [OF assms(1-3) _ assms(5) _ assms(6)] by blast
qed

end

lemma gains_iff: "gains c c' \<longleftrightarrow> cr_id c' = cr_id c \<and> cr_creatorOpenId c \<in> {None, cr_creatorOpenId c'} \<and>
    cr_creatorUserId c \<in> {None, cr_creatorUserId c'} \<and> cr_creatorImId c \<in> {None, cr_creatorImId c'}"
proof
  assume g: "gains c c'"
  have *: "x \<in> {None, x'}" if "\<forall>i. x = Some i \<longrightarrow> x' = Some i" for x x' :: "ident option" using that by (cases x) auto
  have col: "\<forall>i. column_of t c = Some i \<longrightarrow> column_of t c' = Some i" for t using g by (simp add: gains_def)
  show "cr_id c' = cr_id c \<and> cr_creatorOpenId c \<in> {None, cr_creatorOpenId c'} \<and>
    cr_creatorUserId c \<in> {None, cr_creatorUserId c'} \<and> cr_creatorImId c \<in> {None, cr_creatorImId c'}"
    using * [OF col [of "''TIKTOK_CREATOR_OPEN_ID''"]] * [OF col [of "''TIKTOK_CREATOR_USER_ID''"]]
      * [OF col [of "''TIKTOK_CREATOR_IM_ID''"]] g by (simp only: column_of_simps gains_def)
next
  assume r: "cr_id c' = cr_id c \<and> cr_creatorOpenId c \<in> {None, cr_creatorOpenId c'} \<and>
    cr_creatorUserId c \<in> {None, cr_creatorUserId c'} \<and> cr_creatorImId c \<in> {None, cr_creatorImId c'}"
  have *: "x' = Some i" if "x \<in> {None, x'}" "x = Some i" for x x' :: "ident option" and i using that by auto
  have "column_of t c' = Some i" if t: "column_of t c = Some i" for t i
  proof -
    consider "t = ''TIKTOK_CREATOR_OPEN_ID''" | "t = ''TIKTOK_CREATOR_USER_ID''" | "t = ''TIKTOK_CREATOR_IM_ID''"
      using t unfolding column_of_def by (metis option.distinct(1))
    then show ?thesis
    proof cases
      case 1
      then show ?thesis using t r * [of "cr_creatorOpenId c" "cr_creatorOpenId c'" i] by simp
    next
      case 2
      then show ?thesis using t r * [of "cr_creatorUserId c" "cr_creatorUserId c'" i] by simp
    next
      case 3
      then show ?thesis using t r * [of "cr_creatorImId c" "cr_creatorImId c'" i] by simp
    qed
  qed
  then show "gains c c'" using r unfolding gains_def by blast
qed

lemma gains_refl [simp]: "gains c c" by (simp add: gains_def)

lemma creator_by_SomeD: "creator_by column i db = Some c \<Longrightarrow> c \<in> set (tb_creators db) \<and> column c = Some i"
  by (auto simp: creator_by_def dest: find_SomeD)

lemma creator_by_NoneD: "creator_by column i db = None \<Longrightarrow> c \<in> set (tb_creators db) \<Longrightarrow> column c \<noteq> Some i"
  by (auto simp: creator_by_def dest: find_NoneD)

lemma find_creator_SomeD: "find_creator i db = Some c \<Longrightarrow> c \<in> set (tb_creators db) \<and> cr_id c = i"
  by (auto simp: find_creator_def dest: find_SomeD)

lemma ok_well_identified: "identities_ok db \<Longrightarrow> c \<in> set (tb_creators db) \<Longrightarrow> well_identified c"
  by (simp add: identities_ok_def creators_ok_def)

lemma tx_refuse_Inr [simp]: "tx_refuse m db = Inr (u, db') \<longleftrightarrow> m = None \<and> db' = db"
  by (auto simp: tx_refuse_def split: option.splits)

lemma tx_guard_Inr: "tx_guard b e db = Inr (u, db') \<longleftrightarrow> b \<and> db' = db"
  by (auto simp: tx_guard_def)

lemma marketplace_gains:
  assumes "well_identified c" "cr_creatorOpenId c \<in> {None, Some (cc_creatorOpenId candidate)}" "cc_creatorOpenId candidate \<noteq> []"
    "cc_creatorUserId candidate \<noteq> Some []"
    "cc_creatorUserId candidate = None \<or> cr_creatorUserId c \<in> {None, cc_creatorUserId candidate}"
  shows "gains c (marketplace_columns candidate c) \<and> well_identified (marketplace_columns candidate c)"
  using assms by (auto simp: gains_iff well_identified_iff marketplace_columns_def or_else_def split: option.split)

lemma marketplace_chosen:
  assumes ok: "identities_ok db" and user: "cc_creatorUserId candidate \<noteq> Some []"
    and byOpen: "byOpen = creator_by cr_creatorOpenId (cc_creatorOpenId candidate) db"
    and byUser: "byUser = (if truthy (cc_creatorUserId candidate) then creator_by cr_creatorUserId (the (cc_creatorUserId candidate)) db else None)"
    and none: "marketplace_conflict candidate byOpen byUser = None"
    and c: "byOpen = Some c \<or> byOpen = None \<and> byUser = Some c"
  shows "c \<in> set (tb_creators db)" "cr_creatorOpenId c \<in> {None, Some (cc_creatorOpenId candidate)}"
    "cc_creatorUserId candidate = None \<or> cr_creatorUserId c \<in> {None, cc_creatorUserId candidate}"
proof -
  show mem: "c \<in> set (tb_creators db)" using c byOpen byUser by (auto dest!: creator_by_SomeD split: if_splits dest: sym)
  note w = ok_well_identified [OF ok mem, unfolded well_identified_iff]
  show "cr_creatorOpenId c \<in> {None, Some (cc_creatorOpenId candidate)}"
    using c none w byOpen by (auto simp: marketplace_conflict_def truthy_def dest!: creator_by_SomeD split: if_splits dest: sym)
  show "cc_creatorUserId candidate = None \<or> cr_creatorUserId c \<in> {None, cc_creatorUserId candidate}"
  proof (cases "byOpen = Some c")
    case True
    then show ?thesis using none w user by (auto simp: marketplace_conflict_def truthy_def split: if_splits option.splits)
  next
    case False
    then have "byUser = Some c" using c by auto
    then have "truthy (cc_creatorUserId candidate) \<and> creator_by cr_creatorUserId (the (cc_creatorUserId candidate)) db = Some c"
      using byUser by (metis option.distinct(1))
    then have "cr_creatorUserId c = cc_creatorUserId candidate" by (auto simp: truthy_def dest: creator_by_SomeD)
    then show ?thesis by simp
  qed
qed

lemma two_identities_keep:
  assumes ok: "identities_ok db" and c: "c \<in> set (tb_creators db)" "column_of t1 c = Some i1" "b \<longrightarrow> column_of t2 c = Some i2"
    and run: "tx_bind (identity (cr_id c) t1 i1 l1 e1) (\<lambda>_. tx_bind (if b then identity (cr_id c) t2 i2 l2 e2 else tx_return ()) (\<lambda>_. tx_return c)) db = Inr (r, db')"
  shows "identities_ok db' \<and> r = c \<and> tb_creators db' = tb_creators db"
proof -
  obtain u db1 where 1: "identity (cr_id c) t1 i1 l1 e1 db = Inr (u, db1)"
    and 2: "tx_bind (if b then identity (cr_id c) t2 i2 l2 e2 else tx_return ()) (\<lambda>_. tx_return c) db1 = Inr (r, db')"
    using run by (rule tx_bind_InrE)
  obtain u2 where 3: "(if b then identity (cr_id c) t2 i2 l2 e2 else tx_return ()) db1 = Inr (u2, db')" "r = c"
    using 2 by (rule tx_bind_InrE) simp
  have k1: "identities_ok db1 \<and> tb_creators db1 = tb_creators db" using identity_keeps [OF ok 1 c(1) refl c(2)] .
  show ?thesis
  proof (cases b)
    case True
    then have "identity (cr_id c) t2 i2 l2 e2 db1 = Inr (u2, db')" using 3 by simp
    then show ?thesis using identity_keeps [of db1 "cr_id c" t2 i2 l2 e2 u2 db' c] k1 c True 3 by simp
  qed (use 3 k1 in auto)
qed

lemma marketplace_keeps:
  assumes ok: "identities_ok db" and user: "cc_creatorUserId candidate \<noteq> Some []"
    and run: "ensureMarketplaceCreatorInTransaction candidate newId db = Inr (r, db')"
  shows "identities_ok db' \<and> r \<in> set (tb_creators db') \<and> cr_creatorOpenId r = Some (cc_creatorOpenId candidate)"
proof -
  define byOpen where "byOpen = creator_by cr_creatorOpenId (cc_creatorOpenId candidate) db"
  define byUser where "byUser = (if truthy (cc_creatorUserId candidate) then creator_by cr_creatorUserId (the (cc_creatorUserId candidate)) db else None)"
  let ?mc = "marketplace_columns candidate"
  let ?get = "case byOpen of Some a \<Rightarrow> tx_return a | None \<Rightarrow> (case byUser of Some b \<Rightarrow> tx_return b
       | None \<Rightarrow> create_creator (?mc (empty_creator newId)))"
  let ?rest = "\<lambda>updated. tx_bind (identity (cr_id updated) ''TIKTOK_CREATOR_OPEN_ID'' (cc_creatorOpenId candidate) ''VERIFIED'' ''MARKETPLACE_EXACT_FIELD'') (\<lambda>_.
    tx_bind (if truthy (cc_creatorUserId candidate)
       then identity (cr_id updated) ''TIKTOK_CREATOR_USER_ID'' (the (cc_creatorUserId candidate)) ''VERIFIED'' ''MARKETPLACE_EXACT_FIELD''
       else tx_return ()) (\<lambda>_. tx_return updated))"
  have oid: "cc_creatorOpenId candidate \<noteq> []"
    using run by (auto simp: ensureMarketplaceCreatorInTransaction_def tx_guard_Inr elim: tx_bind_InrE)
  then have "tx_bind (tx_refuse (marketplace_conflict candidate byOpen byUser)) (\<lambda>_.
      tx_bind ?get (\<lambda>creator. tx_bind (update_creator (cr_id creator) ?mc) ?rest)) db = Inr (r, db')"
    unfolding byOpen_def byUser_def using run
    by (simp only: ensureMarketplaceCreatorInTransaction_def tx_bind_read tx_bind_guard simp_thms if_True)
  then obtain u db0 where none: "tx_refuse (marketplace_conflict candidate byOpen byUser) db = Inr (u, db0)"
    and 1: "tx_bind ?get (\<lambda>creator. tx_bind (update_creator (cr_id creator) ?mc) ?rest) db0 = Inr (r, db')" by (rule tx_bind_InrE)
  from 1 obtain c db1 where c: "?get db0 = Inr (c, db1)" and 2: "tx_bind (update_creator (cr_id c) ?mc) ?rest db1 = Inr (r, db')" by (rule tx_bind_InrE)
  from 2 obtain c2 db2 where up: "update_creator (cr_id c) ?mc db1 = Inr (c2, db2)" and 3: "?rest c2 db2 = Inr (r, db')" by (rule tx_bind_InrE)
  have none': "marketplace_conflict candidate byOpen byUser = None" "db0 = db" using none by simp_all
  have chosen: "identities_ok db1 \<and> c \<in> set (tb_creators db1) \<and> gains c (?mc c) \<and> well_identified (?mc c)"
  proof (cases "byOpen = None \<and> byUser = None")
    case True
    have "gains (?mc (empty_creator newId)) (?mc (?mc (empty_creator newId))) \<and> well_identified (?mc (empty_creator newId))
        \<and> well_identified (?mc (?mc (empty_creator newId)))"
      using oid user by (simp add: gains_iff well_identified_iff marketplace_columns_def empty_creator_def or_else_def split: option.split) (use user in blast)
    then show ?thesis using create_keeps [OF ok, of "?mc (empty_creator newId)" c db1] True c none'(2) by simp
  next
    case False
    then have "byOpen = Some c \<or> byOpen = None \<and> byUser = Some c" and db1: "db1 = db" using c none'(2) by (auto split: option.splits)
    note chosen = marketplace_chosen [OF ok user byOpen_def byUser_def none'(1) this(1)]
    then show ?thesis using marketplace_gains [OF ok_well_identified [OF ok chosen(1)] chosen(2) oid user chosen(3)] ok db1 by simp
  qed
  have k: "identities_ok db2 \<and> c2 = ?mc c \<and> c2 \<in> set (tb_creators db2) \<and> cr_id c2 = cr_id c"
    using update_keeps [of db1 "cr_id c" ?mc c2 db2 c] up chosen by blast
  have cols: "column_of ''TIKTOK_CREATOR_OPEN_ID'' c2 = Some (cc_creatorOpenId candidate)"
    "truthy (cc_creatorUserId candidate) \<longrightarrow> column_of ''TIKTOK_CREATOR_USER_ID'' c2 = Some (the (cc_creatorUserId candidate))"
    using k by (auto simp: marketplace_columns_def or_else_def truthy_def)
  have "identities_ok db' \<and> r = c2 \<and> tb_creators db' = tb_creators db2"
    by (rule two_identities_keep [OF _ _ cols 3]) (use k in blast)+
  moreover have "cr_creatorOpenId c2 = Some (cc_creatorOpenId candidate)" using cols(1) by simp
  ultimately show ?thesis using k by metis
qed

interpretation marketplace: identity_keeping "ensureMarketplaceCreatorInTransaction candidate newId" "\<lambda>_. cc_creatorUserId candidate \<noteq> Some []"
  for candidate newId
  by unfold_locales (use marketplace_keeps in blast)

section \<open>The merge of two creators\<close>

lemma query_contacts_frame [simp]: "merged_contact s c f (db\<lparr>tb_contacts := cs\<rparr>) = merged_contact s c f db"
  by (simp only: merged_contact_def rows_contact_frame query_contact_frame)

lemma rebuilds_effect:
  assumes "tx_each (\<lambda>(s, f). rebuildContactState s k f) ps db = Inr (u, db')"
  shows "find_creator k db = Some c \<Longrightarrow> db' = db\<lparr>tb_contacts := tb_contacts db @ map (\<lambda>(s, f). merged_contact s c f db) ps\<rparr>"
  using assms
proof (induction ps arbitrary: db)
  case (Cons p ps)
  obtain s f where p: "p = (s, f)" by (cases p)
  obtain db1 u1 where 1: "rebuildContactState s k f db = Inr (u1, db1)"
    and 2: "tx_each (\<lambda>(s, f). rebuildContactState s k f) ps db1 = Inr (u, db')"
    using Cons.prems(2) unfolding p by (auto elim: tx_bind_InrE)
  have db1: "db1 = db\<lparr>tb_contacts := tb_contacts db @ [merged_contact s c f db]\<rparr>"
    using 1 Cons.prems(1) by (auto simp: rebuildContactState_def tx_bind_guard split: if_splits)
  show ?case using Cons.IH [OF _ 2] Cons.prems(1) by (simp add: p db1)
qed simp

lemma merge_creators_effect:
  assumes "merge_creators source target evidence db = Inr (u, db')" "cr_id target \<noteq> cr_id source"
  defines "db1 \<equiv> move_rows (cr_id source) (cr_id target) (el_evidenceType evidence) db"
  defines "db2 \<equiv> db1\<lparr>tb_creators := upd_where (\<lambda>x. cr_id x = cr_id target) (merged_columns source target) (tb_creators db1)\<rparr>"
  obtains c audits where "find_creator (cr_id target) db = Some c"
    "\<And>x. x \<in> set (tb_creators db1) \<Longrightarrow> cr_id x \<noteq> cr_id target \<Longrightarrow> \<not> shares_identifier (merged_columns source target c) x"
    "db' = db2\<lparr>tb_contacts := tb_contacts db2 @ map (\<lambda>(s, f). merged_contact s (merged_columns source target c) f db2)
        (preserved_states (filter (\<lambda>c. ct_creatorId c = cr_id source) (tb_contacts db) @ filter (\<lambda>c. ct_creatorId c = cr_id target) (tb_contacts db))),
      tb_identityAudits := audits\<rparr>"
proof -
  let ?ps = "preserved_states (filter (\<lambda>c. ct_creatorId c = cr_id source) (tb_contacts db) @ filter (\<lambda>c. ct_creatorId c = cr_id target) (tb_contacts db))"
  let ?audit = "identity_audit ''EXACT_PROVIDER_IDENTITIES_LINKED'' (cr_id source) (Some (cr_id target)) (el_evidenceType evidence) (link_evidence evidence)"
  have "tx_bind (update_creator (cr_id target) (merged_columns source target)) (\<lambda>_.
      tx_bind (tx_each (\<lambda>(s, f). rebuildContactState s (cr_id target) f) ?ps) (\<lambda>_. ?audit)) db1 = Inr (u, db')"
    using assms(1) by (simp add: merge_creators_def db1_def)
  then obtain r dbu where up: "update_creator (cr_id target) (merged_columns source target) db1 = Inr (r, dbu)"
    and 2: "tx_bind (tx_each (\<lambda>(s, f). rebuildContactState s (cr_id target) f) ?ps) (\<lambda>_. ?audit) dbu = Inr (u, db')" by (rule tx_bind_InrE)
  from 2 obtain u3 db3 where 3: "tx_each (\<lambda>(s, f). rebuildContactState s (cr_id target) f) ?ps dbu = Inr (u3, db3)"
    and 4: "?audit db3 = Inr (u, db')" by (rule tx_bind_InrE)
  obtain c where c: "find_creator (cr_id target) db1 = Some c" and dbu: "dbu = db2"
    and other: "\<And>x. x \<in> set (tb_creators db1) \<Longrightarrow> cr_id x \<noteq> cr_id target \<Longrightarrow> \<not> shares_identifier (merged_columns source target c) x"
    using update_creator_effect [OF up] unfolding db2_def by blast
  have "List.find P (del_where Q rows) = List.find P rows" if "\<And>x. P x \<Longrightarrow> \<not> Q x" for P Q and rows :: "Creator list"
    using that by (induction rows) auto
  then have c': "find_creator (cr_id target) db = Some c" using c assms(2) by (simp add: db1_def move_rows_def find_creator_def)
  have "find_creator (cr_id target) db2 = Some (merged_columns source target c)"
    using c by (simp add: db2_def find_creator_def find_upd_where merged_columns_def) (auto dest: find_SomeD)
  then show thesis using that [OF c' other] rebuilds_effect [OF 3] 4 by (auto simp: dbu identity_audit_def)
qed

lemma merge_identities_ok:
  assumes ok: "identities_ok db" and run: "merge_creators source target evidence db = Inr (u, db')"
    and s: "source \<in> set (tb_creators db)" and t: "target \<in> set (tb_creators db)" and ne: "cr_id source \<noteq> cr_id target"
    and none: "link_conflict source target evidence = None"
  shows "identities_ok db'"
proof -
  let ?db1 = "move_rows (cr_id source) (cr_id target) (el_evidenceType evidence) db"
  let ?f = "merged_columns source target"
  have cs: "creators_ok (tb_creators db)" using ok by (simp add: identities_ok_def)
  obtain c audits where c: "find_creator (cr_id target) db = Some c"
    and other: "\<And>x. x \<in> set (tb_creators ?db1) \<Longrightarrow> cr_id x \<noteq> cr_id target \<Longrightarrow> \<not> shares_identifier (?f c) x"
    and db': "db' = ?db1\<lparr>tb_creators := upd_where (\<lambda>x. cr_id x = cr_id target) ?f (tb_creators ?db1),
        tb_contacts := tb_contacts (?db1\<lparr>tb_creators := upd_where (\<lambda>x. cr_id x = cr_id target) ?f (tb_creators ?db1)\<rparr>) @ map (\<lambda>(s, f). merged_contact s (?f c) f
          (?db1\<lparr>tb_creators := upd_where (\<lambda>x. cr_id x = cr_id target) ?f (tb_creators ?db1)\<rparr>))
          (preserved_states (filter (\<lambda>c. ct_creatorId c = cr_id source) (tb_contacts db) @ filter (\<lambda>c. ct_creatorId c = cr_id target) (tb_contacts db))),
        tb_identityAudits := audits\<rparr>"
    by (rule merge_creators_effect [OF run ne [symmetric]]) (rule that, assumption+)
  have c: "c = target" using find_creator_ok [OF cs t] c by simp
  have creators: "tb_creators db' = upd_where (\<lambda>x. cr_id x = cr_id target) ?f (tb_creators ?db1)"
    and identities: "tb_identities db' = tb_identities ?db1" by (simp_all add: db')
  have rest: "tb_creators ?db1 = del_where (\<lambda>c. cr_id c = cr_id source) (tb_creators db)" by (simp add: move_rows_def)
  have cs1: "creators_ok (tb_creators ?db1)" using cs unfolding rest creators_ok_def by (auto simp: distinct_map_del_where)
  have t1: "target \<in> set (tb_creators ?db1)" using t ne unfolding rest by simp
  have apart: False if "column_of ty source = Some i" "column_of ty target = Some i" for ty i
    using creators_ok_column [OF cs s t that] ne by blast
  have ws: "well_identified source" "well_identified target" using ok s t ok_well_identified by blast+
  have noOpen: "cr_creatorOpenId source = None"
  proof (cases "cr_creatorOpenId source")
    case (Some i)
    then have "cr_creatorOpenId target = Some i" using none ws(1) by (auto simp: link_conflict_def truthy_def well_identified_iff split: if_splits)
    then show ?thesis using apart [of "''TIKTOK_CREATOR_OPEN_ID''" i] Some by simp
  qed
  then have noUser: "cr_creatorUserId source = None" using ws(1) by (auto simp: well_identified_iff)
  have im: "cr_creatorImId target \<in> {None, cr_creatorImId source}"
    using none ws(2) by (auto simp: link_conflict_def truthy_def well_identified_iff split: if_splits)
  have gain: "gains target (?f target)" "well_identified (?f target)" "cr_id (?f target) = cr_id target"
    using im ws by (auto simp: gains_iff well_identified_iff merged_columns_def)
  note new = creators_ok_update [where f = ?f, OF cs1 t1 refl gain(3,2) other [unfolded c]]
  have "owned (tb_creators db') v" if v: "v \<in> set (tb_identities db')" for v
  proof -
    obtain v0 where v0: "v0 \<in> set (tb_identities db)" "v = (if pv_creatorId v0 = cr_id source
        then v0\<lparr>pv_creatorId := cr_id target, pv_linkState := ''VERIFIED'', pv_evidenceType := el_evidenceType evidence\<rparr> else v0)"
      using v unfolding identities move_rows_def by (auto simp: set_upd_where)
    obtain o0 where o0: "o0 \<in> set (tb_creators db)" "cr_id o0 = pv_creatorId v0" "column_of (pv_identityType v0) o0 = Some (pv_identifier v0)"
      using ok v0(1) by (auto simp: identities_ok_def owned_def)
    have key: "pv_identityType v = pv_identityType v0" "pv_identifier v = pv_identifier v0" using v0(2) by simp_all
    show ?thesis
    proof (cases "pv_creatorId v0 = cr_id source")
      case True
      then have "o0 = source" using creators_ok_id [OF cs o0(1) s] o0(2) by simp
      then have "column_of (pv_identityType v0) (?f target) = Some (pv_identifier v0)"
        using o0(3) noOpen noUser by (auto simp: column_of_def merged_columns_def split: if_splits)
      then show ?thesis using new(2) True v0(2) key gain(3) unfolding owned_def creators by (intro bexI [of _ "?f target"]) auto
    next
      case False
      then have "o0 \<in> set (tb_creators ?db1)" using o0 unfolding rest by simp
      then have "owned (tb_creators ?db1) v" using False v0(2) o0 by (auto simp: owned_def)
      moreover have "\<exists>y \<in> set (tb_creators db'). gains x y" if x: "x \<in> set (tb_creators ?db1)" for x
      proof (cases "cr_id x = cr_id target")
        case True
        then have "x = target" using creators_ok_id [OF cs1 x t1] by simp
        then show ?thesis using gain(1) new(2) unfolding creators by blast
      next
        case False
        then have "x \<in> set (tb_creators db')" using x unfolding creators by (auto simp: set_upd_where)
        then show ?thesis by (auto intro: gains_refl)
      qed
      ultimately show ?thesis by (rule gains_owned)
    qed
  qed
  moreover have "map identity_key (tb_identities db') = map identity_key (tb_identities db)"
    unfolding identities by (simp add: move_rows_def) (rule map_upd_where_id, simp add: identity_key_def)
  ultimately show ?thesis using ok new(1) by (simp add: identities_ok_def creators)
qed

lemma link_effect:
  assumes "linkExactProviderIdentities sourceId targetId evidence db = Inr (r, db')" "find_creator sourceId db = Some source" "sourceId \<noteq> targetId"
  obtains target u where "find_creator targetId db = Some target" "link_conflict source target evidence = None"
    "\<not> duplicate_campaign sourceId targetId db" "\<not> duplicate_reservation sourceId targetId db"
    "merge_creators source target evidence db = Inr (u, db')" "find_creator targetId db' = Some r"
proof -
  obtain target where t: "find_creator targetId db = Some target"
    using assms(1) by (auto simp: linkExactProviderIdentities_def split: option.splits)
  have ids: "cr_id source = sourceId" "cr_id target = targetId" using assms(2) t find_creator_SomeD by blast+
  note run = assms(1) [unfolded linkExactProviderIdentities_def]
  have none: "link_conflict source target evidence = None"
    using run assms(2,3) t ids by simp (erule tx_bind_InrE, simp)
  then have "tx_refuse (link_conflict source target evidence) db = Inr ((), db)" by simp
  then have clash: "\<not> duplicate_campaign sourceId targetId db" "\<not> duplicate_reservation sourceId targetId db"
    and run2: "tx_bind (merge_creators source target evidence) (\<lambda>_. tx_bind (tx_read (find_creator targetId)) tx_found) db = Inr (r, db')"
    using run assms(2,3) t ids by (simp_all add: tx_bind_guard split: if_splits)
  from run2 obtain u db1 where "merge_creators source target evidence db = Inr (u, db1)"
    "tx_bind (tx_read (find_creator targetId)) tx_found db1 = Inr (r, db')" by (rule tx_bind_InrE)
  then show thesis using that [OF t none clash] by (auto simp: tx_found_def split: option.splits)
qed

lemma link_keeps:
  assumes ok: "identities_ok db" and run: "linkExactProviderIdentities sourceId targetId evidence db = Inr (r, db')"
    and pre: "sourceId \<noteq> targetId \<or> creator_by cr_creatorImId (el_creatorImId evidence) db = find_creator targetId db"
  shows "identities_ok db'"
proof (cases "find_creator sourceId db")
  case None
  then show ?thesis using ok run by (auto simp: linkExactProviderIdentities_def split: option.splits if_splits)
next
  case (Some source)
  show ?thesis
  proof (cases "sourceId = targetId")
    case True
    then have "creator_by cr_creatorImId (el_creatorImId evidence) db = Some source" using pre Some by simp
    then have c: "source \<in> set (tb_creators db)" "column_of ''TIKTOK_CREATOR_IM_ID'' source = Some (el_creatorImId evidence)"
      by (simp_all add: creator_by_SomeD)
    have "tx_bind (identity (cr_id source) ''TIKTOK_CREATOR_IM_ID'' (el_creatorImId evidence) ''VERIFIED'' (el_evidenceType evidence))
        (\<lambda>_. tx_return source) db = Inr (r, db')"
      using run Some True by (simp add: linkExactProviderIdentities_def)
    then obtain u db1 where "identity (cr_id source) ''TIKTOK_CREATOR_IM_ID'' (el_creatorImId evidence) ''VERIFIED'' (el_evidenceType evidence) db = Inr (u, db1)"
      "db' = db1" by (rule tx_bind_InrE) simp
    then show ?thesis using identity_keeps [OF ok _ c(1) refl c(2)] by blast
  next
    case False
    obtain target u where "find_creator targetId db = Some target" "link_conflict source target evidence = None"
      "merge_creators source target evidence db = Inr (u, db')"
      using link_effect [OF run Some False] by metis
    then show ?thesis using merge_identities_ok [OF ok] Some False find_creator_SomeD by metis
  qed
qed

interpretation linking: identity_keeping "linkExactProviderIdentities sourceId targetId evidence"
    "\<lambda>db. sourceId \<noteq> targetId \<or> creator_by cr_creatorImId (el_creatorImId evidence) db = find_creator targetId db"
  for sourceId targetId evidence
  by unfold_locales (rule link_keeps)

section \<open>The creators of conversations\<close>

lemma conversation_gains:
  assumes "well_identified c" "cr_creatorOpenId c \<in> {None, pc_creatorOpenId conversation} \<or> pc_creatorOpenId conversation = None"
    "cr_creatorImId c \<in> {None, Some (pc_creatorImId conversation)}" "pc_creatorImId conversation \<noteq> []" "pc_creatorOpenId conversation \<noteq> Some []"
  shows "gains c (conversation_columns conversation c) \<and> well_identified (conversation_columns conversation c)"
  using assms by (auto simp: gains_iff well_identified_iff conversation_columns_def or_else_def split: option.split)

lemma empty_conversation_gains:
  assumes "pc_creatorImId conversation \<noteq> []" "pc_creatorOpenId conversation \<noteq> Some []"
  shows "well_identified (conversation_columns conversation (empty_creator i))"
    "gains (conversation_columns conversation (empty_creator i)) (conversation_columns conversation (conversation_columns conversation (empty_creator i)))
      \<and> well_identified (conversation_columns conversation (conversation_columns conversation (empty_creator i)))"
  using assms by (auto simp: gains_iff well_identified_iff conversation_columns_def empty_creator_def or_else_def split: option.split)

lemma both_identifiers_keep:
  assumes ok: "identities_ok db" and ids: "pc_creatorImId conversation \<noteq> []" "pc_creatorOpenId conversation = Some openId" "openId \<noteq> []"
    and byIm: "byIm = creator_by cr_creatorImId (pc_creatorImId conversation) db" and byOpen: "byOpen = creator_by cr_creatorOpenId openId db"
    and none: "conversation_conflict conversation byIm byOpen = None"
    and run: "both_identifiers_tx conversation byIm byOpen newId db = Inr (r, db')"
  shows "identities_ok db'"
proof -
  let ?cc = "conversation_columns conversation"
  let ?get = "case byIm of Some a \<Rightarrow> tx_return a | None \<Rightarrow> (case byOpen of Some b \<Rightarrow> tx_return b
       | None \<Rightarrow> create_creator (?cc (empty_creator newId)))"
  let ?rest = "\<lambda>updated. tx_bind (identity (cr_id updated) ''TIKTOK_CREATOR_OPEN_ID'' (the (pc_creatorOpenId conversation)) ''VERIFIED'' ''CONVERSATION_EXACT_FIELD'') (\<lambda>_.
    tx_bind (identity (cr_id updated) ''TIKTOK_CREATOR_IM_ID'' (pc_creatorImId conversation) ''VERIFIED'' ''CONVERSATION_RETURNED_BOTH_IDENTIFIERS'') (\<lambda>_.
    tx_return updated))"
  obtain c db1 where c: "?get db = Inr (c, db1)" and 2: "tx_bind (update_creator (cr_id c) ?cc) ?rest db1 = Inr (r, db')"
    using run unfolding both_identifiers_tx_def by (rule tx_bind_InrE)
  from 2 obtain c2 db2 where up: "update_creator (cr_id c) ?cc db1 = Inr (c2, db2)" and 3: "?rest c2 db2 = Inr (r, db')" by (rule tx_bind_InrE)
  have o: "pc_creatorOpenId conversation \<noteq> Some []" using ids by simp
  have chosen: "identities_ok db1 \<and> c \<in> set (tb_creators db1) \<and> gains c (?cc c) \<and> well_identified (?cc c)"
  proof (cases "byIm = None \<and> byOpen = None")
    case True
    then show ?thesis using create_keeps [OF ok, of "?cc (empty_creator newId)" c db1] c empty_conversation_gains [OF ids(1) o] by simp
  next
    case False
    then have cs: "byIm = Some c \<or> byIm = None \<and> byOpen = Some c" and db1: "db1 = db" using c by (auto split: option.splits)
    then have mem: "c \<in> set (tb_creators db)" using byIm byOpen by (auto dest!: creator_by_SomeD dest: sym)
    note w = ok_well_identified [OF ok mem, unfolded well_identified_iff]
    have "cr_creatorOpenId c \<in> {None, Some openId} \<and> cr_creatorImId c \<in> {None, Some (pc_creatorImId conversation)}"
    proof (cases "byIm = Some c")
      case True
      then have "cr_creatorImId c = Some (pc_creatorImId conversation)" using byIm creator_by_SomeD by metis
      then show ?thesis using True none w ids by (auto simp: conversation_conflict_def truthy_def split: if_splits)
    next
      case False
      then have b: "byIm = None" "byOpen = Some c" using cs by auto
      then have "cr_creatorOpenId c = Some openId" using byOpen creator_by_SomeD by metis
      then show ?thesis using b none w ids by (auto simp: conversation_conflict_def truthy_def split: if_splits)
    qed
    then show ?thesis using conversation_gains [of c conversation] ok_well_identified [OF ok mem] ids(1,2) o db1 ok mem by simp
  qed
  have k: "identities_ok db2 \<and> c2 = ?cc c \<and> c2 \<in> set (tb_creators db2) \<and> cr_id c2 = cr_id c"
    using update_keeps [of db1 "cr_id c" ?cc c2 db2 c] up chosen by blast
  then have cols: "column_of ''TIKTOK_CREATOR_OPEN_ID'' c2 = Some (the (pc_creatorOpenId conversation))"
    "True \<longrightarrow> column_of ''TIKTOK_CREATOR_IM_ID'' c2 = Some (pc_creatorImId conversation)"
    using ids by (simp_all add: conversation_columns_def or_else_def)
  have "identities_ok db' \<and> r = c2 \<and> tb_creators db' = tb_creators db2"
    by (rule two_identities_keep [OF _ _ cols, unfolded if_True, OF _ _ 3]) (use k in blast)+
  then show ?thesis by blast
qed

lemma identity_audit_keeps: "identity_audit a s t ty e db = Inr (u, db') \<Longrightarrow> identities_ok db' = identities_ok db"
  by (auto simp: identity_audit_def identities_ok_def)

lemma im_only_keeps:
  assumes ok: "identities_ok db" and im: "pc_creatorImId conversation \<noteq> []"
    and byIm: "byIm = creator_by cr_creatorImId (pc_creatorImId conversation) db"
    and run: "im_only_tx conversation byIm newId db = Inr (r, db')"
  shows "identities_ok db'"
proof -
  let ?new = "conversation_columns (conversation\<lparr>pc_creatorOpenId := None\<rparr>) (empty_creator newId)"
  obtain c db1 where c: "(case byIm of Some a \<Rightarrow> update_creator (cr_id a) (conversation_names conversation)
       | None \<Rightarrow> create_creator ?new) db = Inr (c, db1)"
    and 2: "tx_bind (tx_read (find_identity ''TIKTOK_CREATOR_IM_ID'' (pc_creatorImId conversation))) (\<lambda>prior.
    tx_bind (identity (cr_id c) ''TIKTOK_CREATOR_IM_ID'' (pc_creatorImId conversation) ''UNRESOLVED'' ''CONVERSATION_IM_ONLY'') (\<lambda>_.
    tx_bind (if prior = None then identity_audit ''UNRESOLVED_IDENTITY_OBSERVED'' (cr_id c) None ''CONVERSATION_IM_ONLY''
         (JObj [(''identityNamespace'', JStr ''TIKTOK_CREATOR_IM_ID'')]) else tx_return ()) (\<lambda>_.
    tx_return c))) db1 = Inr (r, db')"
    using run unfolding im_only_tx_def by (rule tx_bind_InrE)
  have c1: "identities_ok db1 \<and> c \<in> set (tb_creators db1) \<and> cr_creatorImId c = Some (pc_creatorImId conversation)"
  proof (cases byIm)
    case None
    have "well_identified ?new" using empty_conversation_gains(1) [of "conversation\<lparr>pc_creatorOpenId := None\<rparr>"] im by simp
    moreover have "create_creator ?new db = Inr (c, db1)" using c None by simp
    ultimately have "identities_ok db1 \<and> c = ?new \<and> ?new \<in> set (tb_creators db1)" by (rule create_keeps [OF ok, rotated])
    then show ?thesis by (auto simp: conversation_columns_def)
  next
    case (Some a)
    then have a: "a \<in> set (tb_creators db)" "cr_creatorImId a = Some (pc_creatorImId conversation)" using byIm creator_by_SomeD by metis+
    have "gains a (conversation_names conversation a)" "well_identified (conversation_names conversation a)"
      using ok_well_identified [OF ok a(1)] by (simp_all add: gains_iff well_identified_iff conversation_names_def)
    moreover have "update_creator (cr_id a) (conversation_names conversation) db = Inr (c, db1)" using c Some by simp
    ultimately have "identities_ok db1 \<and> c = conversation_names conversation a \<and> c \<in> set (tb_creators db1)"
      using update_keeps [where f = "conversation_names conversation", OF ok _ a(1) refl] by blast
    moreover have "cr_creatorImId (conversation_names conversation a) = cr_creatorImId a" by (simp add: conversation_names_def)
    ultimately show ?thesis using a(2) by metis
  qed
  from 2 obtain u db2 where 3: "identity (cr_id c) ''TIKTOK_CREATOR_IM_ID'' (pc_creatorImId conversation) ''UNRESOLVED'' ''CONVERSATION_IM_ONLY'' db1 = Inr (u, db2)"
    and 4: "tx_bind (if find_identity ''TIKTOK_CREATOR_IM_ID'' (pc_creatorImId conversation) db1 = None
         then identity_audit ''UNRESOLVED_IDENTITY_OBSERVED'' (cr_id c) None ''CONVERSATION_IM_ONLY''
         (JObj [(''identityNamespace'', JStr ''TIKTOK_CREATOR_IM_ID'')]) else tx_return ()) (\<lambda>_. tx_return c) db2 = Inr (r, db')"
    unfolding tx_bind_read by (rule tx_bind_InrE)
  have "identities_ok db2" using identity_keeps [OF _ 3, of c] c1 by simp
  then show ?thesis using 4 identity_audit_keeps by (auto elim!: tx_bind_InrE split: if_splits)
qed

interpretation conversations: identity_keeping "im_only_tx conversation byIm newId"
    "\<lambda>db. pc_creatorImId conversation \<noteq> [] \<and> byIm = creator_by cr_creatorImId (pc_creatorImId conversation) db"
  for conversation byIm newId
  by unfold_locales (use im_only_keeps in blast)

interpretation both_identifiers: identity_keeping "both_identifiers_tx conversation byIm byOpen newId"
    "\<lambda>db. pc_creatorImId conversation \<noteq> [] \<and> truthy (pc_creatorOpenId conversation) \<and>
      byIm = creator_by cr_creatorImId (pc_creatorImId conversation) db \<and>
      byOpen = creator_by cr_creatorOpenId (the (pc_creatorOpenId conversation)) db \<and> conversation_conflict conversation byIm byOpen = None"
  for conversation byIm byOpen newId
proof (unfold_locales, elim conjE)
  fix db a db'
  assume *: "identities_ok db" "both_identifiers_tx conversation byIm byOpen newId db = Inr (a, db')" "pc_creatorImId conversation \<noteq> []"
    "truthy (pc_creatorOpenId conversation)" "byIm = creator_by cr_creatorImId (pc_creatorImId conversation) db"
    "byOpen = creator_by cr_creatorOpenId (the (pc_creatorOpenId conversation)) db" "conversation_conflict conversation byIm byOpen = None"
  obtain i where "pc_creatorOpenId conversation = Some i" "i \<noteq> []" using *(4) by (auto simp: truthy_def)
  then show "identities_ok db'" using both_identifiers_keep [OF *(1,3) _ _ *(5) _ *(7,2)] *(6) by simp
qed

subsection \<open>The programs, run one after the other\<close>

lemma p_run_Throw [simp]: "p_run envs (Throw e) w = (Throw e, w)"
  by (cases envs) simp_all

lemma p_run_read:
  "p_run envs (p_bind (transact (\<lambda>_. tx_read f)) k) w = (p, w') \<Longrightarrow> w' \<noteq> w \<Longrightarrow> \<exists>envs'. p_run envs' (k (f (w_tables w))) w = (p, w')"
proof (cases envs)
  case (Cons env envs')
  assume run: "p_run envs (p_bind (transact (\<lambda>_. tx_read f)) k) w = (p, w')" and ne: "w' \<noteq> w"
  have "p_run envs' (k (f (w_tables w))) w = (p, w')"
  proof (cases "e_dbDown env")
    case True
    then have "w' = w" using run unfolding Cons transact_def by simp
    then show ?thesis using ne by blast
  qed (use run in \<open>simp add: Cons transact_def\<close>)
  then show ?thesis by blast
qed simp

lemma p_run_transact:
  assumes "p_run envs (transact t) w = (p, w')"
  shows "w' = w \<or> (\<exists>env a. t env (w_tables w) = Inr (a, w_tables w'))"
  using assms by (cases envs) (auto simp: transact_def split: if_splits sum.splits)

lemma conversation_program_keeps:
  assumes ok: "identities_ok (w_tables w)" and run: "p_run envs (ensureConversationCreator conversation) w = (p, w')"
  shows "identities_ok (w_tables w')"
proof (cases "w' = w \<or> pc_creatorImId conversation = []")
  case True
  then show ?thesis using ok run by (auto simp: ensureConversationCreator_def)
next
  case False
  define byIm where "byIm = creator_by cr_creatorImId (pc_creatorImId conversation) (w_tables w)"
  define byOpen where "byOpen = creator_by cr_creatorOpenId (the (pc_creatorOpenId conversation)) (w_tables w)"
  have im: "pc_creatorImId conversation \<noteq> []" using False by simp
  show ?thesis
  proof (cases "truthy (pc_creatorOpenId conversation)")
    case F: False
    obtain envs' where "p_run envs' (transact (\<lambda>env. im_only_tx conversation byIm (e_fresh env 0))) w = (p, w')"
      using p_run_read [OF run [unfolded ensureConversationCreator_def if_not_P [OF im]]] False F byIm_def by auto
    then show ?thesis using p_run_transact False im_only_keeps [OF ok im byIm_def] by blast
  next
    case T: True
    let ?link = "\<lambda>a b. transact (\<lambda>_. linkExactProviderIdentities (cr_id a) (cr_id b)
       \<lparr>el_evidenceType = ''CONVERSATION_RETURNED_BOTH_IDENTIFIERS'', el_creatorImId = pc_creatorImId conversation,
        el_creatorOpenId = the (pc_creatorOpenId conversation), el_mappingReference = None\<rparr>)"
    let ?both = "transact (\<lambda>env. both_identifiers_tx conversation byIm byOpen (e_fresh env 0))"
    obtain envs1 where 1: "p_run envs1 (p_bind (transact (\<lambda>_. tx_read (creator_by cr_creatorOpenId (the (pc_creatorOpenId conversation))))) (\<lambda>byOpen.
        case conversation_conflict conversation byIm byOpen of
          Some m \<Rightarrow> Throw (HttpError BadRequest m)
        | None \<Rightarrow> (case (byIm, byOpen) of (Some a, Some b) \<Rightarrow> if cr_id a \<noteq> cr_id b then ?link a b
             else transact (\<lambda>env. both_identifiers_tx conversation byIm byOpen (e_fresh env 0))
           | _ \<Rightarrow> transact (\<lambda>env. both_identifiers_tx conversation byIm byOpen (e_fresh env 0))))) w = (p, w')"
      using p_run_read [OF run [unfolded ensureConversationCreator_def if_not_P [OF im]]] False T
      unfolding byIm_def by (simp only: if_True) blast
    obtain envs' where "p_run envs' (case conversation_conflict conversation byIm byOpen of
          Some m \<Rightarrow> Throw (HttpError BadRequest m)
        | None \<Rightarrow> (case (byIm, byOpen) of (Some a, Some b) \<Rightarrow> if cr_id a \<noteq> cr_id b then ?link a b else ?both | _ \<Rightarrow> ?both)) w = (p, w')"
      using p_run_read [OF 1] False unfolding byOpen_def by blast
    then obtain none: "conversation_conflict conversation byIm byOpen = None" and
      "(\<exists>a b. byIm = Some a \<and> byOpen = Some b \<and> cr_id a \<noteq> cr_id b \<and> p_run envs' (?link a b) w = (p, w')) \<or> p_run envs' ?both w = (p, w')"
      using False by (auto split: option.splits if_splits)
    then show ?thesis
    proof (elim disjE exE conjE)
      fix a b assume "cr_id a \<noteq> cr_id b" and l: "p_run envs' (?link a b) w = (p, w')"
      then show ?thesis using p_run_transact [OF l] False link_keeps [OF ok] by blast
    next
      assume l: "p_run envs' ?both w = (p, w')"
      obtain i where "pc_creatorOpenId conversation = Some i" "i \<noteq> []" using T by (auto simp: truthy_def)
      then show ?thesis using p_run_transact [OF l] False both_identifiers_keep [OF ok im _ _ byIm_def _ none] byOpen_def by auto
    qed
  qed
qed

lemma marketplace_program_keeps:
  assumes ok: "identities_ok (w_tables w)" and run: "p_run envs (ensureMarketplaceCreator candidate) w = (p, w')"
    and user: "cc_creatorUserId candidate \<noteq> Some []"
  shows "identities_ok (w_tables w')"
proof (cases "cc_creatorOpenId candidate = []")
  case True
  then show ?thesis using ok run by (simp add: ensureMarketplaceCreator_def)
next
  case False
  then have "p_run envs (transact (\<lambda>env. ensureMarketplaceCreatorInTransaction candidate (e_fresh env 0))) w = (p, w')"
    using run by (simp add: ensureMarketplaceCreator_def)
  from p_run_transact [OF this] show ?thesis using marketplace_keeps [OF ok user] ok by blast
qed

text \<open>
  What the resolver is asked: for the creator of a marketplace candidate or of a conversation. The
  check of a User ID takes an empty one for none given, the update that follows stores it; the read adapter of the
  repository (\<open>string\<close> of real-read-only.ts) returns no candidate with an empty User ID.
\<close>

datatype ResolverCall = MarketplaceCall CreatorCandidate | ConversationCall ProviderConversation

fun resolver_program :: "ResolverCall \<Rightarrow> Creator prog" where
  "resolver_program (MarketplaceCall candidate) = ensureMarketplaceCreator candidate"
| "resolver_program (ConversationCall conversation) = ensureConversationCreator conversation"

text \<open>
  C13. Whatever the resolver is asked, one call after the other and whatever errors cut the calls
  short, no Open ID, user ID or IM ID belongs to two creators, and every identity row names a
  creator that carries the identifier itself - provided that no marketplace candidate has the
  empty string for its User ID, which would overwrite the User ID the creator has.
\<close>

theorem resolver_keeps_one_owner:
  assumes "identities_ok (w_tables w)"
    and "\<forall>candidate. MarketplaceCall candidate \<in> snd ` set runs \<longrightarrow> cc_creatorUserId candidate \<noteq> Some []"
  shows "identities_ok (w_tables (fold (\<lambda>(envs, call) v. snd (p_run envs (resolver_program call) v)) runs w))"
  using assms
proof (induction runs arbitrary: w)
  case (Cons r runs)
  obtain envs call where r: "r = (envs, call)" by (cases r)
  obtain p w' where run: "p_run envs (resolver_program call) w = (p, w')" by (cases "p_run envs (resolver_program call) w")
  have "identities_ok (w_tables w')"
  proof (cases call)
    case (MarketplaceCall candidate)
    then show ?thesis using marketplace_program_keeps [OF Cons.prems(1)] run Cons.prems(2) r by simp
  next
    case (ConversationCall conversation)
    then show ?thesis using conversation_program_keeps [OF Cons.prems(1)] run by simp
  qed
  then show ?case using Cons.IH Cons.prems(2) by (simp add: r run)
qed simp

section \<open>What a merge keeps\<close>

lemma preserved_by_shop:
  "map_of (fold (\<lambda>x m. map_put (ct_shopId x) (preserve x (map_of m (ct_shopId x))) m) xs m0) s =
   fold (\<lambda>x current. Some (preserve x current)) (filter (\<lambda>x. ct_shopId x = s) xs) (map_of m0 s)"
  by (induction xs arbitrary: m0) simp_all

lemma distinct_preserved: "distinct (map fst m0) \<Longrightarrow>
    distinct (map fst (fold (\<lambda>x m. map_put (ct_shopId x) (preserve x (map_of m (ct_shopId x))) m) xs m0))"
  by (induction xs arbitrary: m0) (simp_all add: distinct_map_put)

lemma preserved_flags:
  assumes "xs \<noteq> []"
  shows "\<exists>p. fold (\<lambda>x current. Some (preserve x current)) xs None = Some p \<and>
    (ps_doNotContact p \<longleftrightarrow> (\<exists>x \<in> set xs. ct_doNotContact x)) \<and>
    (ps_unresolvedDelivery p \<longleftrightarrow> (\<exists>x \<in> set xs. ct_unresolvedDelivery x)) \<and>
    ((\<exists>x \<in> set xs. ct_latestReplyStatus x = ''REPLIED'') \<longrightarrow> ps_latestReplyStatus p = ''REPLIED'') \<and>
    (\<forall>x \<in> set xs. \<forall>h. ct_historyCoverageStart x = Some h \<longrightarrow> (\<exists>h'. ps_historyCoverageStart p = Some h' \<and> h' \<le> h))"
  using assms
proof (induction xs rule: rev_induct)
  case (snoc x xs)
  have start: "(\<forall>h. later_start a b = None \<longrightarrow> a = None \<and> b = None) \<and>
      (\<forall>h. (a = Some h \<or> b = Some h) \<longrightarrow> (\<exists>h'. later_start a b = Some h' \<and> h' \<le> h))" for a b
    by (auto simp: later_start_def split: option.splits)
  show ?case
  proof (cases "xs = []")
    case True
    then show ?thesis using start [of None "ct_historyCoverageStart x"] by (auto simp: preserve_def)
  next
    case False
    then obtain p where p: "fold (\<lambda>x current. Some (preserve x current)) xs None = Some p"
      "ps_doNotContact p \<longleftrightarrow> (\<exists>x \<in> set xs. ct_doNotContact x)" "ps_unresolvedDelivery p \<longleftrightarrow> (\<exists>x \<in> set xs. ct_unresolvedDelivery x)"
      "(\<exists>x \<in> set xs. ct_latestReplyStatus x = ''REPLIED'') \<longrightarrow> ps_latestReplyStatus p = ''REPLIED''"
      "\<forall>x \<in> set xs. \<forall>h. ct_historyCoverageStart x = Some h \<longrightarrow> (\<exists>h'. ps_historyCoverageStart p = Some h' \<and> h' \<le> h)"
      using snoc.IH by blast
    have "\<exists>h'. ps_historyCoverageStart (preserve x (Some p)) = Some h' \<and> h' \<le> h"
      if y: "y \<in> set (xs @ [x])" "ct_historyCoverageStart y = Some h" for y h
    proof (cases "y = x")
      case True
      then show ?thesis using start [of "ps_historyCoverageStart p" "ct_historyCoverageStart x"] y(2) by (simp add: preserve_def)
    next
      case False
      then obtain h0 where "ps_historyCoverageStart p = Some h0" "h0 \<le> h" using p(5) y by auto
      then show ?thesis using start [of "ps_historyCoverageStart p" "ct_historyCoverageStart x"] by (force simp: preserve_def)
    qed
    then show ?thesis using p(1-4) by (intro exI [of _ "preserve x (Some p)"]) (auto simp: preserve_def)
  qed
qed simp

lemma merged_contact_fields [simp]: "ct_shopId (merged_contact s c f db) = s" "ct_creatorId (merged_contact s c f db) = cr_id c"
  "ct_doNotContact (merged_contact s c f db) = ps_doNotContact f" "ct_latestReplyStatus (merged_contact s c f db) = ps_latestReplyStatus f"
  "ps_unresolvedDelivery f \<Longrightarrow> ct_unresolvedDelivery (merged_contact s c f db)"
  by (simp_all add: merged_contact_def Let_def)

lemma merged_contact_start:
  assumes "ps_historyCoverageStart f = Some h"
  shows "\<exists>h'. ct_historyCoverageStart (merged_contact s c f db) = Some h' \<and> h' \<le> h"
proof -
  have "h \<in> set (js_sort (cmp_by id) (xs @ [h]))" for xs by simp
  then show ?thesis using date_bounds [of h "map hf_contactedAt (matched_facts (facts_of s (cr_creatorOpenId c) db)) @ [h]"] assms
    by (auto simp: merged_contact_def Let_def)
qed

lemma distinct_moved:
  assumes "distinct (map (\<lambda>r. (g r, k r)) rows)" "\<And>r x. r \<in> set rows \<Longrightarrow> x \<in> set rows \<Longrightarrow> k r = s \<Longrightarrow> g x = g r \<Longrightarrow> k x \<noteq> t"
    "\<And>r. g (f r) = g r" "\<And>r. k (f r) = t"
  shows "distinct (map (\<lambda>r. (g r, k r)) (upd_where (\<lambda>r. k r = s) f rows))"
  using assms(1,2)
proof (induction rows)
  case (Cons r rows)
  have IH: "distinct (map (\<lambda>r. (g r, k r)) (upd_where (\<lambda>r. k r = s) f rows))"
    using Cons.prems by (intro Cons.IH) auto
  have "(g (if k r = s then f r else r), k (if k r = s then f r else r)) \<noteq> (g (if k x = s then f x else x), k (if k x = s then f x else x))"
    if x: "x \<in> set rows" for x
    using x Cons.prems(1) Cons.prems(2) [of r x] Cons.prems(2) [of x r] assms(3,4) by (force split: if_splits)
  then have "(\<lambda>r. (g r, k r)) (if k r = s then f r else r) \<notin> (\<lambda>r. (g r, k r)) ` set (upd_where (\<lambda>r. k r = s) f rows)"
    unfolding set_upd_where image_image by blast
  then show ?case using IH by simp
qed simp

text \<open>The tables after a merge, as far as the rows that name a creator go.\<close>

lemma link_tables:
  assumes "linkExactProviderIdentities sourceId targetId evidence db = Inr (r, db')" "find_creator sourceId db = Some source" "sourceId \<noteq> targetId"
  obtains k db2 where "cr_id k = targetId"
    "tb_contacts db' = del_where (\<lambda>c. ct_creatorId c \<in> {sourceId, targetId}) (tb_contacts db) @ map (\<lambda>(s, f). merged_contact s k f db2)
       (preserved_states (filter (\<lambda>c. ct_creatorId c = sourceId) (tb_contacts db) @ filter (\<lambda>c. ct_creatorId c = targetId) (tb_contacts db)))"
    "tb_creators db' = upd_where (\<lambda>x. cr_id x = targetId) (merged_columns source (the (find_creator targetId db))) (del_where (\<lambda>c. cr_id c = sourceId) (tb_creators db))"
    "tb_recipients db' = tb_recipients (move_rows sourceId targetId (el_evidenceType evidence) db)"
    "tb_reservations db' = tb_reservations (move_rows sourceId targetId (el_evidenceType evidence) db)"
    "tb_conversations db' = tb_conversations (move_rows sourceId targetId (el_evidenceType evidence) db)"
    "tb_identities db' = tb_identities (move_rows sourceId targetId (el_evidenceType evidence) db)"
    "tb_snapshots db' = tb_snapshots (move_rows sourceId targetId (el_evidenceType evidence) db)"
proof -
  obtain target u where t: "find_creator targetId db = Some target" and run: "merge_creators source target evidence db = Inr (u, db')"
    using link_effect [OF assms] by metis
  have ids: "cr_id source = sourceId" "cr_id target = targetId" using assms(2) t find_creator_SomeD by blast+
  have ne: "cr_id target \<noteq> cr_id source" using assms(3) ids by simp
  let ?db1 = "move_rows (cr_id source) (cr_id target) (el_evidenceType evidence) db"
  let ?db2 = "?db1\<lparr>tb_creators := upd_where (\<lambda>x. cr_id x = cr_id target) (merged_columns source target) (tb_creators ?db1)\<rparr>"
  obtain c audits where c: "find_creator (cr_id target) db = Some c"
    and db': "db' = ?db2\<lparr>tb_contacts := tb_contacts ?db2 @ map (\<lambda>(s, f). merged_contact s (merged_columns source target c) f ?db2)
          (preserved_states (filter (\<lambda>c. ct_creatorId c = cr_id source) (tb_contacts db) @ filter (\<lambda>c. ct_creatorId c = cr_id target) (tb_contacts db))),
        tb_identityAudits := audits\<rparr>"
    by (rule merge_creators_effect [OF run ne]) (rule that, assumption+)
  have k: "cr_id (merged_columns source target c) = targetId" using c ids t by (simp add: merged_columns_def)
  show thesis
    by (rule that [of "merged_columns source target c" ?db2, OF k]) (simp_all add: db' ids t, simp_all add: move_rows_def)
qed

lemma preserved_member:
  assumes "c \<in> set ys" "fold (\<lambda>x current. Some (preserve x current)) ys None = m"
  obtains p where "m = Some p" "ct_doNotContact c \<longrightarrow> ps_doNotContact p" "ct_unresolvedDelivery c \<longrightarrow> ps_unresolvedDelivery p"
    "ct_latestReplyStatus c = ''REPLIED'' \<longrightarrow> ps_latestReplyStatus p = ''REPLIED''"
    "\<forall>h. ct_historyCoverageStart c = Some h \<longrightarrow> (\<exists>h'. ps_historyCoverageStart p = Some h' \<and> h' \<le> h)"
proof -
  have "ys \<noteq> []" using assms(1) by auto
  from preserved_flags [OF this] obtain p where p: "m = Some p" "ps_doNotContact p \<longleftrightarrow> (\<exists>x \<in> set ys. ct_doNotContact x)"
      "ps_unresolvedDelivery p \<longleftrightarrow> (\<exists>x \<in> set ys. ct_unresolvedDelivery x)"
      "(\<exists>x \<in> set ys. ct_latestReplyStatus x = ''REPLIED'') \<longrightarrow> ps_latestReplyStatus p = ''REPLIED''"
      "\<forall>x \<in> set ys. \<forall>h. ct_historyCoverageStart x = Some h \<longrightarrow> (\<exists>h'. ps_historyCoverageStart p = Some h' \<and> h' \<le> h)"
    using assms(2) by blast
  show thesis using that [OF p(1)] p(2-5) assms(1) by blast
qed

lemma preserved_by: "map_of (preserved_states xs) s = fold (\<lambda>x current. Some (preserve x current)) (filter (\<lambda>x. ct_shopId x = s) xs) None"
  using preserved_by_shop [of xs "[]" s] unfolding preserved_states_def by simp

lemma preserved_covers:
  assumes "c \<in> set xs"
  obtains p where "(ct_shopId c, p) \<in> set (preserved_states xs)" "ct_doNotContact c \<longrightarrow> ps_doNotContact p"
    "ct_unresolvedDelivery c \<longrightarrow> ps_unresolvedDelivery p" "ct_latestReplyStatus c = ''REPLIED'' \<longrightarrow> ps_latestReplyStatus p = ''REPLIED''"
    "\<forall>h. ct_historyCoverageStart c = Some h \<longrightarrow> (\<exists>h'. ps_historyCoverageStart p = Some h' \<and> h' \<le> h)"
proof -
  have c: "c \<in> set (filter (\<lambda>x. ct_shopId x = ct_shopId c) xs)" using assms by simp
  show thesis by (rule preserved_member [OF c preserved_by [symmetric]]) (rule that, erule map_of_SomeD, assumption+)
qed

lemma preserved_only:
  assumes "(s, p) \<in> set (preserved_states xs)" "ps_doNotContact p"
  shows "\<exists>c \<in> set xs. ct_shopId c = s \<and> ct_doNotContact c"
proof -
  let ?ys = "filter (\<lambda>x. ct_shopId x = s) xs"
  have "distinct (map fst (preserved_states xs))" unfolding preserved_states_def by (rule distinct_preserved) simp
  then have p: "map_of (preserved_states xs) s = Some p" using assms(1) by simp
  then have "?ys \<noteq> []" unfolding preserved_by by (metis fold_simps(1) id_apply option.distinct(1))
  then show ?thesis using preserved_flags [of ?ys] p assms(2) unfolding preserved_by by auto
qed

lemma filter_del_pair: "filter (\<lambda>c. ct_creatorId c \<noteq> b) (del_where (\<lambda>c. ct_creatorId c \<in> {a, b}) cs) = filter (\<lambda>c. ct_creatorId c \<notin> {a, b}) cs"
  by (induction cs) auto

text \<open>
  C12. Merging two creators loses no suppression: every shop that knew one of them has a contact
  state of the merged creator that is doNotContact, unresolved or replied if one of theirs was,
  with a history that starts no later, it is doNotContact only if one of theirs was, and the
  contact states of all other creators stay as they are.
\<close>

theorem merge_keeps_suppression:
  assumes "linkExactProviderIdentities sourceId targetId evidence db = Inr (r, db')" "find_creator sourceId db = Some source" "sourceId \<noteq> targetId"
  shows "(\<forall>c \<in> set (tb_contacts db). ct_creatorId c \<in> {sourceId, targetId} \<longrightarrow>
      (\<exists>c' \<in> set (tb_contacts db'). ct_shopId c' = ct_shopId c \<and> ct_creatorId c' = targetId \<and>
        (ct_doNotContact c \<longrightarrow> ct_doNotContact c') \<and> (ct_unresolvedDelivery c \<longrightarrow> ct_unresolvedDelivery c') \<and>
        (ct_latestReplyStatus c = ''REPLIED'' \<longrightarrow> ct_latestReplyStatus c' = ''REPLIED'') \<and>
        (\<forall>h. ct_historyCoverageStart c = Some h \<longrightarrow> (\<exists>h'. ct_historyCoverageStart c' = Some h' \<and> h' \<le> h)))) \<and>
    (\<forall>c' \<in> set (tb_contacts db'). ct_creatorId c' = targetId \<longrightarrow> ct_doNotContact c' \<longrightarrow>
      (\<exists>c \<in> set (tb_contacts db). ct_shopId c = ct_shopId c' \<and> ct_creatorId c \<in> {sourceId, targetId} \<and> ct_doNotContact c)) \<and>
    filter (\<lambda>c. ct_creatorId c \<noteq> targetId) (tb_contacts db') = filter (\<lambda>c. ct_creatorId c \<notin> {sourceId, targetId}) (tb_contacts db)"
proof -
  let ?xs = "filter (\<lambda>c. ct_creatorId c = sourceId) (tb_contacts db) @ filter (\<lambda>c. ct_creatorId c = targetId) (tb_contacts db)"
  let ?ps = "preserved_states ?xs"
  obtain k db2 where k: "cr_id k = targetId"
    and contacts: "tb_contacts db' = del_where (\<lambda>c. ct_creatorId c \<in> {sourceId, targetId}) (tb_contacts db) @ map (\<lambda>(s, f). merged_contact s k f db2) ?ps"
    by (rule link_tables [OF assms]) (rule that, assumption+)
  have kept: "\<exists>c' \<in> set (tb_contacts db'). ct_shopId c' = ct_shopId c \<and> ct_creatorId c' = targetId \<and>
        (ct_doNotContact c \<longrightarrow> ct_doNotContact c') \<and> (ct_unresolvedDelivery c \<longrightarrow> ct_unresolvedDelivery c') \<and>
        (ct_latestReplyStatus c = ''REPLIED'' \<longrightarrow> ct_latestReplyStatus c' = ''REPLIED'') \<and>
        (\<forall>h. ct_historyCoverageStart c = Some h \<longrightarrow> (\<exists>h'. ct_historyCoverageStart c' = Some h' \<and> h' \<le> h))"
    if "c \<in> set (tb_contacts db)" "ct_creatorId c \<in> {sourceId, targetId}" for c
  proof -
    have "c \<in> set ?xs" using that by auto
    then obtain p where p: "(ct_shopId c, p) \<in> set ?ps" and flags: "ct_doNotContact c \<longrightarrow> ps_doNotContact p"
      "ct_unresolvedDelivery c \<longrightarrow> ps_unresolvedDelivery p" "ct_latestReplyStatus c = ''REPLIED'' \<longrightarrow> ps_latestReplyStatus p = ''REPLIED''"
      "\<forall>h. ct_historyCoverageStart c = Some h \<longrightarrow> (\<exists>h'. ps_historyCoverageStart p = Some h' \<and> h' \<le> h)"
      by (rule preserved_covers)
    have "merged_contact (ct_shopId c) k p db2 \<in> set (tb_contacts db')" using p unfolding contacts by force
    moreover have "\<forall>h. ct_historyCoverageStart c = Some h \<longrightarrow> (\<exists>h'. ct_historyCoverageStart (merged_contact (ct_shopId c) k p db2) = Some h' \<and> h' \<le> h)"
      using flags(4) merged_contact_start [of p _ "ct_shopId c" k db2] by (meson order_trans)
    ultimately show ?thesis using flags k by (intro bexI [of _ "merged_contact (ct_shopId c) k p db2"]) simp_all
  qed
  have only: "\<exists>c \<in> set (tb_contacts db). ct_shopId c = ct_shopId c' \<and> ct_creatorId c \<in> {sourceId, targetId} \<and> ct_doNotContact c"
    if new: "c' \<in> set (tb_contacts db')" "ct_creatorId c' = targetId" "ct_doNotContact c'" for c'
  proof -
    obtain s p where "(s, p) \<in> set ?ps" "c' = merged_contact s k p db2" using new(1,2) unfolding contacts by auto
    then show ?thesis using preserved_only [of s p ?xs] new(3) by auto
  qed
  have "filter (\<lambda>c. ct_creatorId c \<noteq> targetId) (map (\<lambda>(s, f). merged_contact s k f db2) ?ps) = []"
    using k by (auto simp: filter_empty_conv)
  then have "filter (\<lambda>c. ct_creatorId c \<noteq> targetId) (tb_contacts db') = filter (\<lambda>c. ct_creatorId c \<notin> {sourceId, targetId}) (tb_contacts db)"
    unfolding contacts by (simp only: filter_append append_Nil2 filter_del_pair)
  then show ?thesis using kept only by (intro conjI ballI impI)
qed

text \<open>
  C15. After a merge no creator, identity, snapshot, conversation, recipient, reservation or
  contact state names the source any more (audit rows, the merge's own among them, go on naming
  it), no recipient and no conversation was lost, the target carries both identifiers, and the
  constraints on the rows that were moved still hold: one recipient of a creator per campaign, one
  reservation of a creator per shop.
\<close>

theorem merge_moves_every_row:
  assumes "linkExactProviderIdentities sourceId targetId evidence db = Inr (r, db')" "find_creator sourceId db = Some source" "sourceId \<noteq> targetId"
    and keys: "distinct (map (\<lambda>r. (rc_campaignId r, rc_creatorId r)) (tb_recipients db))" "distinct (map (\<lambda>r. (rv_shopId r, rv_creatorId r)) (tb_reservations db))"
  shows "cr_id r = targetId \<and> cr_creatorImId r = Some (el_creatorImId evidence) \<and> cr_creatorOpenId r = Some (el_creatorOpenId evidence) \<and>
    sourceId \<notin> cr_id ` set (tb_creators db') \<union> pv_creatorId ` set (tb_identities db') \<union> sn_creatorId ` set (tb_snapshots db') \<union>
       cv_creatorId ` set (tb_conversations db') \<union> rc_creatorId ` set (tb_recipients db') \<union>
       rv_creatorId ` set (tb_reservations db') \<union> ct_creatorId ` set (tb_contacts db') \<and>
    map rc_id (tb_recipients db') = map rc_id (tb_recipients db) \<and> map cv_id (tb_conversations db') = map cv_id (tb_conversations db) \<and>
    distinct (map (\<lambda>r. (rc_campaignId r, rc_creatorId r)) (tb_recipients db')) \<and>
    distinct (map (\<lambda>r. (rv_shopId r, rv_creatorId r)) (tb_reservations db'))"
proof -
  obtain target u where t: "find_creator targetId db = Some target" and none: "link_conflict source target evidence = None"
    and clash: "\<not> duplicate_campaign sourceId targetId db" "\<not> duplicate_reservation sourceId targetId db" and r: "find_creator targetId db' = Some r"
    using link_effect [OF assms(1-3)] by metis
  obtain k db2 where k: "cr_id k = targetId"
    and contacts: "tb_contacts db' = del_where (\<lambda>c. ct_creatorId c \<in> {sourceId, targetId}) (tb_contacts db) @ map (\<lambda>(s, f). merged_contact s k f db2)
       (preserved_states (filter (\<lambda>c. ct_creatorId c = sourceId) (tb_contacts db) @ filter (\<lambda>c. ct_creatorId c = targetId) (tb_contacts db)))"
    and creators: "tb_creators db' = upd_where (\<lambda>x. cr_id x = targetId) (merged_columns source (the (find_creator targetId db))) (del_where (\<lambda>c. cr_id c = sourceId) (tb_creators db))"
    and rows: "tb_recipients db' = tb_recipients (move_rows sourceId targetId (el_evidenceType evidence) db)"
    "tb_reservations db' = tb_reservations (move_rows sourceId targetId (el_evidenceType evidence) db)"
    "tb_conversations db' = tb_conversations (move_rows sourceId targetId (el_evidenceType evidence) db)"
    "tb_identities db' = tb_identities (move_rows sourceId targetId (el_evidenceType evidence) db)"
    "tb_snapshots db' = tb_snapshots (move_rows sourceId targetId (el_evidenceType evidence) db)"
    by (rule link_tables [OF assms(1-3)]) (rule that, assumption+)
  have "List.find P (del_where Q cs) = List.find P cs" if "\<And>x. P x \<Longrightarrow> \<not> Q x" for P Q and cs :: "Creator list"
    using that by (induction cs) auto
  then have "find_creator targetId db' = Some (merged_columns source target target)"
    using t assms(3) unfolding find_creator_def creators by (simp add: find_upd_where merged_columns_def) (auto dest: find_SomeD)
  then have "r = merged_columns source target target" using r by simp
  then have 1: "cr_id r = targetId \<and> cr_creatorImId r = Some (el_creatorImId evidence) \<and> cr_creatorOpenId r = Some (el_creatorOpenId evidence)"
    using none t find_creator_SomeD [OF t] by (auto simp: merged_columns_def link_conflict_def split: if_splits)
  have "sourceId \<notin> cr_id ` set (tb_creators db')"
    unfolding creators using assms(3) by (auto simp: set_upd_where merged_columns_def)
  moreover have "sourceId \<notin> ct_creatorId ` set (tb_contacts db')" unfolding contacts using assms(3) k by auto
  ultimately have 2: "sourceId \<notin> cr_id ` set (tb_creators db') \<union> pv_creatorId ` set (tb_identities db') \<union> sn_creatorId ` set (tb_snapshots db') \<union>
       cv_creatorId ` set (tb_conversations db') \<union> rc_creatorId ` set (tb_recipients db') \<union>
       rv_creatorId ` set (tb_reservations db') \<union> ct_creatorId ` set (tb_contacts db')"
    unfolding rows move_rows_def using assms(3) by (auto simp: set_upd_where)
  have 3: "map rc_id (tb_recipients db') = map rc_id (tb_recipients db)" "map cv_id (tb_conversations db') = map cv_id (tb_conversations db)"
    unfolding rows by (simp_all add: move_rows_def map_upd_where_id)
  have 4: "distinct (map (\<lambda>r. (rc_campaignId r, rc_creatorId r)) (tb_recipients db'))"
    using distinct_moved [OF keys(1), of sourceId targetId "\<lambda>r. r\<lparr>rc_creatorId := targetId\<rparr>"] clash(1) unfolding rows
    by (auto simp: move_rows_def duplicate_campaign_def list_ex_iff)
  have 5: "distinct (map (\<lambda>r. (rv_shopId r, rv_creatorId r)) (tb_reservations db'))"
    using distinct_moved [OF keys(2), of sourceId targetId "\<lambda>r. r\<lparr>rv_creatorId := targetId\<rparr>"] clash(2) unfolding rows
    by (auto simp: move_rows_def duplicate_reservation_def list_ex_iff)
  show ?thesis using 1 2 3 4 5 by (elim conjE, intro conjI)
qed

section \<open>Runs\<close>

text \<open>A creator known by IM ID only, suppressed in the shop, and one known by Open ID.\<close>

definition ex_im_creator :: Creator where
  "ex_im_creator = (empty_creator ''c3'')\<lparr>cr_creatorImId := Some ''im3''\<rparr>"

definition ex_unlinked :: Tables where
  "ex_unlinked = ex_tables\<lparr>tb_creators := [ex_creator ''c2'', ex_im_creator],
     tb_contacts := [(new_contact ''s1'' ''c3'')\<lparr>ct_doNotContact := True\<rparr>]\<rparr>"

definition ex_evidence :: ExactLinkEvidence where
  "ex_evidence = \<lparr>el_evidenceType = ''CONVERSATION_RETURNED_BOTH_IDENTIFIERS'', el_creatorImId = ''im3'', el_creatorOpenId = ''open-c2'',
     el_mappingReference = None\<rparr>"

lemma ex_links: "case linkExactProviderIdentities ''c3'' ''c2'' ex_evidence ex_unlinked of Inl _ \<Rightarrow> False | Inr _ \<Rightarrow> True"
  by code_simp

lemma ex_source: "find_creator ''c3'' ex_unlinked = Some ex_im_creator"
  by (simp add: ex_unlinked_def find_creator_def ex_creator_def ex_im_creator_def empty_creator_def)

lemma merge_keeps_suppression_witness:
  "\<exists>r db'. linkExactProviderIdentities ''c3'' ''c2'' ex_evidence ex_unlinked = Inr (r, db') \<and>
     (\<exists>c \<in> set (tb_contacts db'). ct_shopId c = ''s1'' \<and> ct_creatorId c = ''c2'' \<and> ct_doNotContact c)"
proof -
  obtain r db' where run: "linkExactProviderIdentities ''c3'' ''c2'' ex_evidence ex_unlinked = Inr (r, db')"
    using ex_links by (auto split: sum.splits)
  have "\<exists>c \<in> set (tb_contacts ex_unlinked). ct_shopId c = ''s1'' \<and> ct_creatorId c = ''c3'' \<and> ct_doNotContact c"
    by (simp add: ex_unlinked_def new_contact_def)
  then show ?thesis using merge_keeps_suppression [OF run ex_source] run by fastforce
qed

lemma merge_moves_every_row_witness:
  "\<exists>r db'. linkExactProviderIdentities ''c3'' ''c2'' ex_evidence ex_unlinked = Inr (r, db') \<and> cr_id r = ''c2'' \<and>
     ''c3'' \<notin> cr_id ` set (tb_creators db') \<and> distinct (map (\<lambda>r. (rc_campaignId r, rc_creatorId r)) (tb_recipients db'))"
proof -
  obtain r db' where run: "linkExactProviderIdentities ''c3'' ''c2'' ex_evidence ex_unlinked = Inr (r, db')"
    using ex_links by (auto split: sum.splits)
  have "distinct (map (\<lambda>r. (rc_campaignId r, rc_creatorId r)) (tb_recipients ex_unlinked))"
    "distinct (map (\<lambda>r. (rv_shopId r, rv_creatorId r)) (tb_reservations ex_unlinked))"
    by (simp_all add: ex_unlinked_def ex_defs)
  from merge_moves_every_row [OF run ex_source _ this] show ?thesis using run by simp
qed

text \<open>The record of the first creator of the small world: one message sent, seen again in the conversation.\<close>

definition ex_contacted :: Tables where
  "ex_contacted = ex_tables\<lparr>tb_deliveries := [(ex_delivery ''d1'' ''r1'')\<lparr>dl_state := DeliveryState.SENT, dl_sentAt := Some 1500,
       dl_externalMessageId := Some ''m1''\<rparr>],
     tb_conversations := [\<lparr>cv_id = ''v1'', cv_shopId = ''s1'', cv_creatorId = ''c1'', cv_externalConversationId = ''x1'', cv_unreadCount = 0, cv_lastSyncedAt = None\<rparr>],
     tb_messages := [\<lparr>ms_conversationId = ''v1'', ms_externalMessageId = ''m1'', ms_direction = OUTBOUND, ms_content = ''Hello'',
       ms_contentHash = ''h'', ms_providerCreatedAt = 1400, ms_importSource = ''''\<rparr>]\<rparr>"

lemma ex_contact_rebuilds: "case rebuildHistoricalContactState ''s1'' ''c1'' ex_contacted of Inl _ \<Rightarrow> False | Inr _ \<Rightarrow> True"
  by code_simp

lemma ex_recorded: "recorded ''s1'' (ex_creator ''c1'') ex_contacted ''provider:m1'' = Some 1400"
  by code_simp

lemma rebuilt_contact_covers_the_record_witness:
  "\<exists>u db' c. rebuildHistoricalContactState ''s1'' ''c1'' ex_contacted = Inr (u, db') \<and> find_contact ''s1'' ''c1'' db' = Some c \<and>
     (\<exists>a b. ct_firstContactedAt c = Some a \<and> ct_lastContactedAt c = Some b \<and> a \<le> 1400 \<and> 1400 \<le> b)"
proof -
  obtain u db' where run: "rebuildHistoricalContactState ''s1'' ''c1'' ex_contacted = Inr (u, db')"
    using ex_contact_rebuilds by (auto split: sum.splits)
  have "find_creator ''c1'' ex_contacted = Some (ex_creator ''c1'')"
    by (simp add: ex_contacted_def find_creator_def ex_tables_def ex_creator_def)
  with rebuilt_contact_covers_the_record [OF run] ex_recorded run show ?thesis by fastforce
qed

lemma rebuild_is_idempotent_witness:
  "\<exists>u db'. rebuildHistoricalContactState ''s1'' ''c1'' ex_contacted = Inr (u, db') \<and> rebuildHistoricalContactState ''s1'' ''c1'' db' = Inr ((), db')"
proof -
  obtain u db' where run: "rebuildHistoricalContactState ''s1'' ''c1'' ex_contacted = Inr (u, db')"
    using ex_contact_rebuilds by (auto split: sum.splits)
  then show ?thesis using rebuild_is_idempotent [OF run] by blast
qed

text \<open>Two conversations with one IM ID and different Open IDs.\<close>

definition ex_client :: "ident \<Rightarrow> Env" where
  "ex_client i = \<lparr>e_now = 2000, e_fresh = (\<lambda>_. i), e_random = 0, e_dbDown = False, e_queueDown = None,
     e_jobState = None, e_conversation = Inr [], e_send = Answered (MessageUnknown [] None),
     e_conversations = (\<lambda>_. Inr no_page), e_messages = (\<lambda>_ _ _. Inr no_page),
     e_search = (\<lambda>_ _ _. Inl Stopped), e_readSheet = (\<lambda>_. Inl Stopped), e_reconcileSheet = (\<lambda>_ _. Inl Stopped)\<rparr>"

definition ex_provider_conversation :: "ident option \<Rightarrow> ProviderConversation" where
  "ex_provider_conversation openId = \<lparr>pc_id = ''x1'', pc_creatorOpenId = openId, pc_creatorImId = ''im3'', pc_username = None,
     pc_avatarUrl = None, pc_unreadCount = None\<rparr>"

definition ex_empty_world :: World where
  "ex_empty_world = \<lparr>w_tables = ex_tables\<lparr>tb_creators := []\<rparr>, w_jobs = [], w_requests = []\<rparr>"

definition ex_candidate :: "ident option \<Rightarrow> CreatorCandidate" where
  "ex_candidate userId = (example_creator ''o1'' 0)\<lparr>cc_creatorUserId := userId\<rparr>"

definition ex_runs :: "(Env list \<times> ResolverCall) list" where
  "ex_runs = [([ex_client ''n1'', ex_client ''n1''], ConversationCall (ex_provider_conversation None)),
     ([ex_client ''n2'', ex_client ''n2'', ex_client ''n2''], ConversationCall (ex_provider_conversation (Some ''o1''))),
     ([ex_client ''n3''], MarketplaceCall (ex_candidate (Some ''u1'')))]"

definition ex_resolve :: "(Env list \<times> ResolverCall) list \<Rightarrow> World \<Rightarrow> World" where
  "ex_resolve runs w = fold (\<lambda>(envs, call) v. snd (p_run envs (resolver_program call) v)) runs w"

definition ex_resolved :: World where
  "ex_resolved = ex_resolve ex_runs ex_empty_world"

lemma ex_resolved_creators:
  "map (\<lambda>c. (cr_id c, cr_creatorOpenId c, cr_creatorUserId c)) (tb_creators (w_tables ex_resolved)) = [(''n1'', Some ''o1'', Some ''u1'')]"
  by code_simp

lemma resolver_keeps_one_owner_witness:
  "identities_ok (w_tables ex_resolved) \<and>
   map (\<lambda>c. (cr_id c, cr_creatorOpenId c, cr_creatorUserId c)) (tb_creators (w_tables ex_resolved)) = [(''n1'', Some ''o1'', Some ''u1'')]"
proof -
  have 1: "identities_ok (w_tables ex_empty_world)"
    by (simp add: ex_empty_world_def ex_tables_def identities_ok_def creators_ok_def)
  have 2: "\<forall>c. MarketplaceCall c \<in> snd ` set ex_runs \<longrightarrow> cc_creatorUserId c \<noteq> Some []"
    by (simp add: ex_runs_def ex_candidate_def)
  show ?thesis
    using resolver_keeps_one_owner [OF 1 2] ex_resolved_creators unfolding ex_resolved_def ex_resolve_def by blast
qed

text \<open>An empty User ID passes the check for none and replaces the stored one, whose identity row stays.\<close>

lemma empty_user_id_overwrites:
  "map cr_creatorUserId (tb_creators (w_tables (ex_resolve [([ex_client ''n4''], MarketplaceCall (ex_candidate (Some [])))] ex_resolved)))
    = [Some []]"
  "map (\<lambda>v. (pv_identifier v, pv_creatorId v)) (filter (\<lambda>v. pv_identityType v = ''TIKTOK_CREATOR_USER_ID'')
     (tb_identities (w_tables (ex_resolve [([ex_client ''n4''], MarketplaceCall (ex_candidate (Some [])))] ex_resolved))))
    = [(''u1'', ''n1'')]"
  by code_simp+

text \<open>
  The check of \<open>ensureConversationCreator\<close> reads before its transaction. Interleaved, two conversations that name
  different Open IDs for one IM ID both pass it: the second overwrites the column, and the first identity stays recorded.
\<close>

definition ex_raced_conversations :: World where
  "ex_raced_conversations =
    (let w = ex_empty_world\<lparr>w_tables := (w_tables ex_empty_world)\<lparr>tb_creators := [ex_im_creator]\<rparr>\<rparr>;
         (p1, w1) = p_run [ex_client ''n1'', ex_client ''n1''] (ensureConversationCreator (ex_provider_conversation (Some ''o1''))) w;
         (p2, w2) = p_run [ex_client ''n2'', ex_client ''n2'', ex_client ''n2''] (ensureConversationCreator (ex_provider_conversation (Some ''o2''))) w1;
         (p3, w3) = p_run [ex_client ''n1''] p1 w2
     in w3)"

lemma stale_check_overwrites_an_identity:
  "map cr_creatorOpenId (tb_creators (w_tables ex_raced_conversations)) = [Some ''o1'']"
  "map (\<lambda>v. (pv_identifier v, pv_creatorId v)) (filter (\<lambda>v. pv_identityType v = ''TIKTOK_CREATOR_OPEN_ID'') (tb_identities (w_tables ex_raced_conversations)))
    = [(''o2'', ''c3''), (''o1'', ''c3'')]"
  "\<not> identities_ok (w_tables ex_raced_conversations)"
proof -
  show 1: "map cr_creatorOpenId (tb_creators (w_tables ex_raced_conversations)) = [Some ''o1'']" by code_simp
  show 2: "map (\<lambda>v. (pv_identifier v, pv_creatorId v)) (filter (\<lambda>v. pv_identityType v = ''TIKTOK_CREATOR_OPEN_ID'') (tb_identities (w_tables ex_raced_conversations)))
    = [(''o2'', ''c3''), (''o1'', ''c3'')]" by code_simp
  have "\<exists>v \<in> set (tb_identities (w_tables ex_raced_conversations)). pv_identityType v = ''TIKTOK_CREATOR_OPEN_ID'' \<and> pv_identifier v = ''o2''"
  proof -
    have "(''o2'', ''c3'') \<in> set (map (\<lambda>v. (pv_identifier v, pv_creatorId v)) (filter (\<lambda>v. pv_identityType v = ''TIKTOK_CREATOR_OPEN_ID'')
        (tb_identities (w_tables ex_raced_conversations))))" unfolding 2 by simp
    then show ?thesis by auto
  qed
  moreover have "\<forall>c \<in> set (tb_creators (w_tables ex_raced_conversations)). cr_creatorOpenId c = Some ''o1''"
    using arg_cong [OF 1, of set] by auto
  ultimately show "\<not> identities_ok (w_tables ex_raced_conversations)"
    unfolding identities_ok_def owned_def by fastforce
qed

end
