(* ===== verification/Runs.thy ===== *)
theory Runs
  imports Contacts
begin

text \<open>
  Two ways to reason about transactions and programs that the import of the history and the crawl of
  the marketplace share: \<open>frame\<close>, a transaction that leaves a part of the tables alone, and \<open>alone\<close>,
  what holds of a program that is not interleaved with another.
\<close>

section \<open>Transactions that leave a part of the tables alone\<close>

definition frame :: "(Tables \<Rightarrow> 'b) \<Rightarrow> 'a tx \<Rightarrow> bool" where
  "frame part t \<longleftrightarrow> (\<forall>db a db'. t db = Inr (a, db') \<longrightarrow> part db' = part db)"

lemma frameD: "frame part t \<Longrightarrow> t db = Inr (a, db') \<Longrightarrow> part db' = part db"
  by (simp add: frame_def)

lemma frame_bind: "frame part t \<Longrightarrow> (\<And>a. frame part (k a)) \<Longrightarrow> frame part (tx_bind t k)"
  unfolding frame_def by (metis tx_bind_InrE)

lemma frame_if: "frame part t \<Longrightarrow> frame part u \<Longrightarrow> frame part (if b then t else u)"
  by simp

lemma frame_option: "frame part t \<Longrightarrow> (\<And>a. frame part (f a)) \<Longrightarrow> frame part (case x of None \<Rightarrow> t | Some a \<Rightarrow> f a)"
  by (cases x) auto

lemma frame_modify: "(\<And>db. part (f db) = part db) \<Longrightarrow> frame part (tx_modify f)"
  by (auto simp: frame_def)

lemma frame_basic [simp]:
  "frame part (tx_return a)" "frame part (tx_throw e)" "frame part (tx_read f)" "frame part (tx_guard b e)" "frame part (tx_found x)" "frame part (tx_refuse m)"
  by (auto simp: frame_def tx_guard_def tx_found_def split: if_splits option.splits)

lemma frame_each: "(\<And>a. frame part (f a)) \<Longrightarrow> frame part (tx_each f as)"
  by (induction as) (auto intro: frame_bind)

lemma frame_seq: "(\<And>t. t \<in> set ts \<Longrightarrow> frame part t) \<Longrightarrow> frame part (tx_seq ts)"
  by (induction ts) (auto intro: frame_bind)

lemmas frame_intros = frame_bind frame_if frame_option frame_modify frame_each frame_seq

lemma claimless_frame: "frame tb_deliveries t \<Longrightarrow> claimless t"
  by (auto simp: claimless_def intro: no_new_claims_same dest: frameD)

lemma keeps_option: "keeps p \<Longrightarrow> (\<And>a. keeps (f a)) \<Longrightarrow> keeps (case x of None \<Rightarrow> p | Some a \<Rightarrow> f a)"
  by (cases x) auto

lemma keeps_frame: "(\<And>env. frame tb_deliveries (t env)) \<Longrightarrow> keeps (transact t)"
  by (intro keeps_transact claimless_frame)

lemma keeps_read: "keeps (transact (\<lambda>_. tx_read f))" "keeps (transact (\<lambda>_. tx_bind (tx_read f) tx_found))"
  by (intro keeps_frame frame_intros frame_basic)+

section \<open>A program that runs alone\<close>

text \<open>
  \<open>alone I p Q E w\<close>: when \<open>p\<close> starts in \<open>w\<close> and no other program acts, whatever the environments answer, \<open>I\<close> holds
  after every action, \<open>Q\<close> where it returns and \<open>E\<close> where it throws.
\<close>

primrec alone :: "(World \<Rightarrow> bool) \<Rightarrow> 'a prog \<Rightarrow> ('a \<Rightarrow> World \<Rightarrow> bool) \<Rightarrow> (Err \<Rightarrow> World \<Rightarrow> bool) \<Rightarrow> World \<Rightarrow> bool" where
  "alone I (Return a) Q E w \<longleftrightarrow> Q a w"
| "alone I (Throw e) Q E w \<longleftrightarrow> E e w"
| "alone I (Act f) Q E w \<longleftrightarrow> (\<forall>env. case map_prod (\<lambda>p. alone I p Q E) id (f env w) of (g, w') \<Rightarrow> I w' \<and> g w')"

lemma alone_Act: "alone I (Act f) Q E w \<longleftrightarrow> (\<forall>env. I (snd (f env w)) \<and> alone I (fst (f env w)) Q E (snd (f env w)))"
  by (simp add: case_prod_beta)

declare alone.simps(3) [simp del]

lemma alone_weaken:
  assumes "alone I p Q E w" "\<And>a w. Q a w \<Longrightarrow> Q' a w" "\<And>e w. E e w \<Longrightarrow> E' e w"
  shows "alone I p Q' E' w"
  using assms(1) by (induction p arbitrary: w rule: prog_induct) (auto simp: alone_Act assms(2,3))

lemma alone_bind:
  assumes "alone I p (\<lambda>a. alone I (k a) Q E) E w"
  shows "alone I (p_bind p k) Q E w"
  using assms by (induction p arbitrary: w rule: prog_induct) (auto simp: alone_Act)

lemma alone_then: "alone I p (\<lambda>_. alone I q Q E) E w \<Longrightarrow> alone I (p_then p q) Q E w"
  by (simp add: p_then_def alone_bind)

lemma alone_catch:
  assumes "alone I p Q (\<lambda>e w. alone I (h e) Q E w \<and> E e w) w"
  shows "alone I (p_catch p h) Q E w"
  using assms by (induction p arbitrary: w rule: prog_induct) (auto simp: alone_Act)

lemma alone_transact:
  assumes "I w" "E DbUnavailable w" "\<And>env e. t env (w_tables w) = Inl e \<Longrightarrow> E e w"
    "\<And>env a tables. t env (w_tables w) = Inr (a, tables) \<Longrightarrow> I (w\<lparr>w_tables := tables\<rparr>) \<and> Q a (w\<lparr>w_tables := tables\<rparr>)"
  shows "alone I (transact t) Q E w"
  using assms by (auto simp: transact_def alone_Act split: sum.split)

lemma alone_read:
  assumes "I w" "E DbUnavailable w" "Q (f (w_tables w)) w"
  shows "alone I (transact (\<lambda>_. tx_read f)) Q E w"
  using assms by (intro alone_transact) auto

lemma alone_clock: "I w \<Longrightarrow> (\<And>now. Q now w) \<Longrightarrow> alone I clock Q E w"
  by (auto simp: clock_def alone_Act)

lemma alone_steps:
  assumes "steps R p" "reflp R" "transp R" "\<And>w'. R w w' \<Longrightarrow> I w' \<and> (\<forall>a. Q a w') \<and> (\<forall>e. E e w')"
  shows "alone I p Q E w"
proof -
  have "\<forall>u. R w u \<longrightarrow> alone I p Q E u" using assms(1)
  proof (induction p rule: prog_induct)
    case (Act f)
    show ?case
    proof (intro allI impI)
      fix u assume u: "R w u"
      have "R w (snd (f env u))" for env using u Act.prems assms(3) by (auto simp: steps_Act elim: transpE)
      then show "alone I (Act f) Q E u" using Act.IH Act.prems assms(4) unfolding alone_Act steps_Act by blast
    qed
  qed (use assms(4) in auto)
  then show ?thesis using assms(2) by (auto elim: reflpE)
qed

lemma alone_run:
  assumes "alone I p Q E w" "I w"
  shows "I (snd (p_run envs p w))"
  using assms
proof (induction envs p w rule: p_run.induct)
  case (1 env envs f w)
  then show ?case by (auto simp: alone_Act case_prod_beta)
qed auto

end
