(* ===== verification/History.thy ===== *)
theory History
  imports Runs
begin

text \<open>
  The import of the conversation history: \<open>apps/api/src/history/history-processor.ts\<close>, one provider page per claim,
  and the controls of it in \<open>apps/api/src/history/history.service.ts\<close>. The pages come from the read adapter, which is
  part of the environment and answers each request as it likes; SHA-256 and the settings are parameters.
\<close>

section \<open>Settings and rows\<close>

record HistoryConfig =
  hc_sha256 :: "string \<Rightarrow> string"
  hc_successSpacingMs :: int
  hc_incrementalIntervalMs :: int
  hc_incrementalPages :: int
  hc_headEveryBackfillPages :: int
  hc_leaseMs :: "int option"

definition RUN_LEASE_MS :: int where "RUN_LEASE_MS = 2 * 60000"
definition TEMPORARY_BASE_MS :: int where "TEMPORARY_BASE_MS = 30000"
definition TEMPORARY_MAX_MS :: int where "TEMPORARY_MAX_MS = 30 * 60000"
definition SOURCE :: string where "SOURCE = ''PERSISTENT_TIKTOK_HISTORY''"

text \<open>A number that is zero and a text that is empty count as missing.\<close>

definition publicErrorCode :: "TikTokApiError \<Rightarrow> string" where
  "publicErrorCode e = (if te_providerCode e \<notin> {None, Some 0} then show_int (the (te_providerCode e))
     else if te_httpStatus e \<notin> {None, Some 0} then ''HTTP_'' @ show_int (the (te_httpStatus e)) else te_kind e)"

text \<open>What a client may see of a job: no token and no lease.\<close>

record PublicHistoryJob =
  ph_state :: HistorySyncState
  ph_mode :: HistorySyncMode
  ph_passKind :: HistorySyncPassKind
  ph_pagesProcessed :: int
  ph_conversationsDiscovered :: int
  ph_conversationsImported :: int
  ph_conversationsCompleted :: int
  ph_messagesImported :: int
  ph_totalProviderRequests :: int
  ph_cursorRecoveryCount :: int
  ph_lastProviderCode :: "string option"
  ph_lastErrorCategory :: "string option"
  ph_lastSuccessfulProviderRequestAt :: "millis option"
  ph_nextAttemptAt :: "millis option"
  ph_startedAt :: "millis option"
  ph_initialCompletedAt :: "millis option"
  ph_completedAt :: "millis option"
  ph_createdAt :: millis

definition publicHistoryJob :: "HistoryJob \<Rightarrow> PublicHistoryJob" where
  "publicHistoryJob j = \<lparr>ph_state = hj_state j, ph_mode = hj_mode j, ph_passKind = hj_passKind j, ph_pagesProcessed = hj_pagesProcessed j,
     ph_conversationsDiscovered = hj_conversationsDiscovered j, ph_conversationsImported = hj_conversationsImported j,
     ph_conversationsCompleted = hj_conversationsCompleted j, ph_messagesImported = hj_messagesImported j,
     ph_totalProviderRequests = hj_totalProviderRequests j, ph_cursorRecoveryCount = hj_cursorRecoveryCount j,
     ph_lastProviderCode = hj_lastProviderCode j, ph_lastErrorCategory = hj_lastErrorCategory j,
     ph_lastSuccessfulProviderRequestAt = hj_lastSuccessfulProviderRequestAt j, ph_nextAttemptAt = hj_nextAttemptAt j,
     ph_startedAt = hj_startedAt j, ph_initialCompletedAt = hj_initialCompletedAt j, ph_completedAt = hj_completedAt j,
     ph_createdAt = hj_createdAt j\<rparr>"

definition update_jobs :: "(HistoryJob \<Rightarrow> bool) \<Rightarrow> (HistoryJob \<Rightarrow> HistoryJob) \<Rightarrow> unit tx" where
  "update_jobs P f = tx_modify (\<lambda>db. db\<lparr>tb_historyJobs := upd_where P f (tb_historyJobs db)\<rparr>)"

definition find_job :: "ident \<Rightarrow> Tables \<Rightarrow> HistoryJob option" where
  "find_job i db = List.find (\<lambda>j. hj_id j = i) (tb_historyJobs db)"

definition update_job :: "ident \<Rightarrow> (HistoryJob \<Rightarrow> HistoryJob) \<Rightarrow> unit tx" where
  "update_job i f = tx_bind (tx_bind (tx_read (find_job i)) tx_found) (\<lambda>_. update_jobs (\<lambda>j. hj_id j = i) f)"

definition update_work :: "ident \<Rightarrow> (HistoryWork \<Rightarrow> HistoryWork) \<Rightarrow> unit tx" where
  "update_work i f =
    tx_bind (tx_bind (tx_read (\<lambda>db. List.find (\<lambda>w. hw_id w = i) (tb_historyWork db))) tx_found) (\<lambda>_.
    tx_modify (\<lambda>db. db\<lparr>tb_historyWork := upd_where (\<lambda>w. hw_id w = i) f (tb_historyWork db)\<rparr>))"

definition shop_audit :: "ident \<Rightarrow> string \<Rightarrow> Json \<Rightarrow> unit tx" where
  "shop_audit shopId eventType payload = tx_modify (\<lambda>db. db\<lparr>tb_audit := tb_audit db @
     [\<lparr>au_shopId = shopId, au_campaignId = None, au_eventType = eventType, au_payload = payload\<rparr>]\<rparr>)"

section \<open>processNext\<close>

definition runnable :: "HistorySyncState \<Rightarrow> bool" where
  "runnable s \<longleftrightarrow> s \<in> {HistorySyncState.QUEUED, HistorySyncState.RUNNING, HistorySyncState.BACKING_OFF, HistorySyncState.COMPLETE}"

definition lease_free :: "millis \<Rightarrow> HistoryJob \<Rightarrow> bool" where
  "lease_free now j \<longleftrightarrow> hj_leaseOwner j = None \<or> (case hj_leaseExpiresAt j of None \<Rightarrow> False | Some t \<Rightarrow> t \<le> now)"

definition startable :: "millis \<Rightarrow> HistoryJob \<Rightarrow> bool" where
  "startable now j \<longleftrightarrow> runnable (hj_state j) \<and> (case hj_nextAttemptAt j of None \<Rightarrow> True | Some t \<Rightarrow> t \<le> now) \<and> lease_free now j"

text \<open>\<open>orderBy: [\{ nextAttemptAt: "asc" \}, \{ createdAt: "asc" \}]\<close>: rows without a date come last.\<close>

definition due_order :: "HistoryJob \<Rightarrow> HistoryJob \<Rightarrow> int" where
  "due_order = cmp_then (cmp_by (\<lambda>j. if hj_nextAttemptAt j = None then 1 else 0 :: int))
     (cmp_then (cmp_by (\<lambda>j. case hj_nextAttemptAt j of None \<Rightarrow> 0 | Some t \<Rightarrow> t)) (cmp_by hj_createdAt))"

definition next_job :: "millis \<Rightarrow> Tables \<Rightarrow> HistoryJob option" where
  "next_job now db = (case js_sort due_order (filter (startable now) (tb_historyJobs db)) of [] \<Rightarrow> None | j # _ \<Rightarrow> Some j)"

definition claimed_job :: "HistoryConfig \<Rightarrow> HistoryJob \<Rightarrow> millis \<Rightarrow> ident \<Rightarrow> HistoryJob \<Rightarrow> HistoryJob" where
  "claimed_job cfg candidate now owner j =
    (let claimed = j\<lparr>hj_state := HistorySyncState.RUNNING, hj_leaseOwner := Some owner,
           hj_leaseExpiresAt := Some (now + (case hc_leaseMs cfg of None \<Rightarrow> RUN_LEASE_MS | Some l \<Rightarrow> l)),
           hj_nextAttemptAt := None, hj_startedAt := or_else (hj_startedAt candidate) (Some now)\<rparr>
     in if hj_state candidate = HistorySyncState.COMPLETE
        then claimed\<lparr>hj_passKind := HistorySyncPassKind.INCREMENTAL, hj_phase := LIST, hj_incrementalPageToken := None, hj_incrementalPageIndex := 0\<rparr>
        else claimed)"

definition claim_tx :: "HistoryConfig \<Rightarrow> HistoryJob \<Rightarrow> millis \<Rightarrow> ident \<Rightarrow> int tx" where
  "claim_tx cfg candidate now owner =
    (let mine = (\<lambda>j. hj_id j = hj_id candidate \<and> runnable (hj_state j) \<and> lease_free now j)
     in tx_bind (tx_read (\<lambda>db. count_where mine (tb_historyJobs db))) (\<lambda>n.
        tx_bind (update_jobs mine (claimed_job cfg candidate now owner)) (\<lambda>_. tx_return n)))"

definition owned_job :: "ident \<Rightarrow> ident \<Rightarrow> Tables \<Rightarrow> HistoryJob option" where
  "owned_job i owner db = List.find (\<lambda>j. hj_id j = i \<and> hj_leaseOwner j = Some owner) (tb_historyJobs db)"

definition update_owned :: "ident \<Rightarrow> ident \<Rightarrow> (HistoryJob \<Rightarrow> HistoryJob) \<Rightarrow> unit tx" where
  "update_owned i owner f = update_jobs (\<lambda>j. hj_id j = i \<and> hj_leaseOwner j = Some owner) f"

definition listCursor :: "HistoryJob \<Rightarrow> string option" where
  "listCursor j = (if hj_passKind j = BACKFILL then hj_backfillPageToken j else hj_incrementalPageToken j)"

text \<open>An empty token is not sent.\<close>

definition sent_token :: "string option \<Rightarrow> string option" where
  "sent_token t = (if truthy t then t else None)"

definition list_conversations :: "string option \<Rightarrow> ProviderConversation ProviderPage prog" where
  "list_conversations pageToken = Act (\<lambda>env w. case e_conversations env (sent_token pageToken) of Inl e \<Rightarrow> (Throw e, w) | Inr page \<Rightarrow> (Return page, w))"

definition list_messages :: "ident \<Rightarrow> ident \<Rightarrow> string option \<Rightarrow> ProviderMessage ProviderPage prog" where
  "list_messages conversationId creatorImId pageToken = Act (\<lambda>env w.
     case e_messages env conversationId creatorImId (sent_token pageToken) of Inl e \<Rightarrow> (Throw e, w) | Inr page \<Rightarrow> (Return page, w))"

section \<open>A page of conversations\<close>

definition new_work :: "HistoryJob \<Rightarrow> ProviderConversation \<Rightarrow> ident \<Rightarrow> millis \<Rightarrow> HistoryWork" where
  "new_work job item i now = \<lparr>hw_id = i, hw_historySyncJobId = hj_id job, hw_pageSequence = hj_pageSequence job,
     hw_externalConversationId = pc_id item, hw_creatorImId = pc_creatorImId item, hw_username = pc_username item, hw_avatarUrl = pc_avatarUrl item,
     hw_unreadCount = (case pc_unreadCount item of None \<Rightarrow> 0 | Some n \<Rightarrow> n), hw_state = HistoryConversationWorkState.QUEUED, hw_messagePageToken = None,
     hw_messagesImported = 0, hw_providerRequests = 0, hw_completedAt = None, hw_createdAt = now\<rparr>"

definition upsert_work :: "HistoryJob \<Rightarrow> ProviderConversation \<Rightarrow> ident \<Rightarrow> millis \<Rightarrow> unit tx" where
  "upsert_work job item i now = tx_modify (\<lambda>db.
     if list_ex (\<lambda>w. hw_historySyncJobId w = hj_id job \<and> hw_pageSequence w = hj_pageSequence job \<and> hw_externalConversationId w = pc_id item) (tb_historyWork db)
     then db else db\<lparr>tb_historyWork := tb_historyWork db @ [new_work job item i now]\<rparr>)"

text \<open>The part of every update that ends a successful request: the lease is given back, the next page may follow after the spacing.\<close>

definition after_success :: "HistoryConfig \<Rightarrow> millis \<Rightarrow> HistoryJob \<Rightarrow> HistoryJob" where
  "after_success cfg now j = j\<lparr>hj_totalProviderRequests := hj_totalProviderRequests j + 1, hj_lastSuccessfulProviderRequestAt := Some now,
     hj_consecutiveFailureCount := 0, hj_lastProviderCode := Some ''0'', hj_lastErrorCategory := None,
     hj_leaseOwner := None, hj_leaseExpiresAt := None, hj_nextAttemptAt := Some (now + hc_successSpacingMs cfg)\<rparr>"

definition store_page_tx :: "HistoryConfig \<Rightarrow> HistoryJob \<Rightarrow> ident \<Rightarrow> ProviderConversation ProviderPage \<Rightarrow> millis \<Rightarrow> (nat \<Rightarrow> ident) \<Rightarrow> unit tx" where
  "store_page_tx cfg job owner page now fresh =
    tx_bind (tx_each (\<lambda>(item, k). upsert_work job item (fresh k) now) (zip (pp_items page) [0..<length (pp_items page)])) (\<lambda>_.
    update_owned (hj_id job) owner (\<lambda>j. (after_success cfg now j)\<lparr>hj_phase := MESSAGES, hj_pendingNextPageToken := pp_nextPageToken page,
      hj_pendingHasMore := Some (pp_hasMore page), hj_conversationsDiscovered := hj_conversationsDiscovered j + int (length (pp_items page))\<rparr>))"

definition fetchConversationPage :: "HistoryConfig \<Rightarrow> HistoryJob \<Rightarrow> ident \<Rightarrow> unit prog" where
  "fetchConversationPage cfg job owner =
    p_bind (list_conversations (listCursor job)) (\<lambda>page.
    p_bind clock (\<lambda>now.
    transact (\<lambda>env. store_page_tx cfg job owner page now (e_fresh env))))"

section \<open>A page of messages\<close>

definition ensureConversation :: "ProviderConversation \<Rightarrow> ident \<Rightarrow> (Creator \<times> ident \<times> bool) prog" where
  "ensureConversation item shopId =
    p_bind (ensureConversationCreator item) (\<lambda>creator.
    p_bind (transact (\<lambda>_. tx_read (\<lambda>db. List.find (\<lambda>c. cv_externalConversationId c = pc_id item) (tb_conversations db)))) (\<lambda>existed.
    p_bind clock (\<lambda>now.
    p_bind (transact (\<lambda>env. tx_bind (tx_read (\<lambda>db. List.find (\<lambda>c. cv_externalConversationId c = pc_id item) (tb_conversations db))) (\<lambda>row.
      case row of
        Some c \<Rightarrow> tx_bind (tx_modify (\<lambda>db. db\<lparr>tb_conversations := upd_where (\<lambda>c. cv_externalConversationId c = pc_id item)
            (\<lambda>c. c\<lparr>cv_unreadCount := (case pc_unreadCount item of None \<Rightarrow> 0 | Some n \<Rightarrow> n), cv_lastSyncedAt := Some now\<rparr>) (tb_conversations db)\<rparr>))
          (\<lambda>_. tx_return (cv_id c))
      | None \<Rightarrow> tx_bind (tx_modify (\<lambda>db. db\<lparr>tb_conversations := tb_conversations db @ [\<lparr>cv_id = e_fresh env 0, cv_shopId = shopId,
            cv_creatorId = cr_id creator, cv_externalConversationId = pc_id item,
            cv_unreadCount = (case pc_unreadCount item of None \<Rightarrow> 0 | Some n \<Rightarrow> n), cv_lastSyncedAt = Some now\<rparr>]\<rparr>))
          (\<lambda>_. tx_return (e_fresh env 0))))) (\<lambda>conversationId.
    Return (creator, conversationId, existed = None)))))"

text \<open>\<open>createMany\<close> of one row with \<open>skipDuplicates\<close>, for each message in turn; the result counts the rows inserted.\<close>

definition imported_message :: "HistoryConfig \<Rightarrow> ident \<Rightarrow> ProviderMessage \<Rightarrow> ConversationMessage" where
  "imported_message cfg conversationId m = \<lparr>ms_conversationId = conversationId, ms_externalMessageId = pm_id m, ms_direction = pm_direction m,
     ms_content = pm_content m, ms_contentHash = hc_sha256 cfg (pm_content m), ms_providerCreatedAt = pm_createdAt m, ms_importSource = SOURCE\<rparr>"

fun import_messages :: "HistoryConfig \<Rightarrow> ident \<Rightarrow> ProviderMessage list \<Rightarrow> int tx" where
  "import_messages cfg conversationId [] = tx_return 0"
| "import_messages cfg conversationId (m # ms) =
    tx_bind (tx_read (\<lambda>db. list_ex (\<lambda>x. ms_externalMessageId x = pm_id m) (tb_messages db))) (\<lambda>duplicate.
    tx_bind (if duplicate then tx_return () else tx_modify (\<lambda>db. db\<lparr>tb_messages := tb_messages db @ [imported_message cfg conversationId m]\<rparr>)) (\<lambda>_.
    tx_bind (import_messages cfg conversationId ms) (\<lambda>n. tx_return (n + (if duplicate then 0 else 1)))))"

definition store_messages_tx :: "HistoryConfig \<Rightarrow> HistoryJob \<Rightarrow> HistoryWork \<Rightarrow> ident \<Rightarrow> Creator \<times> ident \<times> bool \<Rightarrow> ProviderMessage ProviderPage \<Rightarrow> millis \<Rightarrow> unit tx" where
  "store_messages_tx cfg job work owner known page now =
    (case known of (creator, conversationId, imported) \<Rightarrow>
      tx_bind (import_messages cfg conversationId (pp_items page)) (\<lambda>n.
      tx_bind (rebuildHistoricalContactState (hj_shopId job) (cr_id creator)) (\<lambda>_.
      tx_bind (update_work (hw_id work) (\<lambda>w. w\<lparr>hw_state := (if pp_hasMore page then HistoryConversationWorkState.RUNNING else HistoryConversationWorkState.COMPLETE),
        hw_messagePageToken := pp_nextPageToken page, hw_messagesImported := hw_messagesImported w + n,
        hw_providerRequests := hw_providerRequests w + 1, hw_completedAt := (if pp_hasMore page then None else Some now)\<rparr>)) (\<lambda>_.
      tx_bind (update_owned (hj_id job) owner (\<lambda>j. (after_success cfg now j)\<lparr>hj_messagesImported := hj_messagesImported j + n,
        hj_conversationsImported := hj_conversationsImported j + (if imported then 1 else 0),
        hj_conversationsCompleted := hj_conversationsCompleted j + (if pp_hasMore page then 0 else 1)\<rparr>)) (\<lambda>_.
      if n > 0 then shop_audit (hj_shopId job) ''HISTORY_MESSAGES_IMPORTED''
        (JObj [(''conversationId'', JStr (hw_externalConversationId work)), (''imported'', JNum (of_int n))]) else tx_return ())))))"

definition work_item :: "HistoryWork \<Rightarrow> ProviderConversation" where
  "work_item work = \<lparr>pc_id = hw_externalConversationId work, pc_creatorOpenId = None, pc_creatorImId = hw_creatorImId work,
     pc_username = hw_username work, pc_avatarUrl = hw_avatarUrl work, pc_unreadCount = Some (hw_unreadCount work)\<rparr>"

definition fetchMessagePage :: "HistoryConfig \<Rightarrow> HistoryJob \<Rightarrow> HistoryWork \<Rightarrow> ident \<Rightarrow> unit prog" where
  "fetchMessagePage cfg job work owner =
    p_bind (ensureConversation (work_item work) (hj_shopId job)) (\<lambda>known.
    p_bind (list_messages (hw_externalConversationId work) (hw_creatorImId work) (hw_messagePageToken work)) (\<lambda>page.
    p_bind clock (\<lambda>now.
    transact (\<lambda>_. store_messages_tx cfg job work owner known page now))))"

section \<open>The end of a page\<close>

definition page_done :: "HistoryConfig \<Rightarrow> millis \<Rightarrow> HistoryJob \<Rightarrow> HistoryJob" where
  "page_done cfg now j = j\<lparr>hj_pagesProcessed := hj_pagesProcessed j + 1, hj_pageSequence := hj_pageSequence j + 1, hj_phase := LIST,
     hj_pendingNextPageToken := None, hj_pendingHasMore := None, hj_leaseOwner := None, hj_leaseExpiresAt := None,
     hj_nextAttemptAt := Some (now + hc_successSpacingMs cfg)\<rparr>"

definition auditPage :: "ident \<Rightarrow> int \<Rightarrow> string \<Rightarrow> unit prog" where
  "auditPage shopId pagesProcessed passKind =
    (if pagesProcessed = 1 \<or> pagesProcessed mod 10 = 0
     then transact (\<lambda>_. shop_audit shopId ''HISTORY_PROVIDER_PAGE_COMPLETED''
       (JObj [(''pagesProcessed'', JNum (of_int pagesProcessed)), (''passKind'', JStr passKind)]))
     else Return ())"

definition head_done :: "HistoryConfig \<Rightarrow> millis \<Rightarrow> HistoryJob \<Rightarrow> HistoryJob" where
  "head_done cfg now j = (page_done cfg now j)\<lparr>hj_passKind := BACKFILL, hj_incrementalPageToken := None, hj_backfillPagesSinceHead := 0\<rparr>"

definition backfill_next :: "HistoryConfig \<Rightarrow> HistoryJob \<Rightarrow> millis \<Rightarrow> HistoryJob \<Rightarrow> HistoryJob" where
  "backfill_next cfg job now j =
    (let pagesSinceHead = hj_backfillPagesSinceHead job + 1;
         next = (page_done cfg now j)\<lparr>hj_backfillPageToken := hj_pendingNextPageToken job, hj_backfillPagesSinceHead := pagesSinceHead\<rparr>
     in if pagesSinceHead \<ge> hc_headEveryBackfillPages cfg then next\<lparr>hj_passKind := HEAD, hj_incrementalPageToken := None\<rparr> else next)"

definition backfill_done :: "HistoryConfig \<Rightarrow> HistoryJob \<Rightarrow> millis \<Rightarrow> HistoryJob \<Rightarrow> HistoryJob" where
  "backfill_done cfg job now j = (page_done cfg now j)\<lparr>hj_state := HistorySyncState.COMPLETE, hj_mode := HistorySyncMode.INCREMENTAL,
     hj_passKind := HistorySyncPassKind.INCREMENTAL, hj_backfillPageToken := None, hj_incrementalPageToken := None,
     hj_initialCompletedAt := or_else (hj_initialCompletedAt job) (Some now), hj_completedAt := Some now,
     hj_nextAttemptAt := Some (now + hc_incrementalIntervalMs cfg)\<rparr>"

definition incremental_next :: "HistoryConfig \<Rightarrow> HistoryJob \<Rightarrow> millis \<Rightarrow> HistoryJob \<Rightarrow> HistoryJob" where
  "incremental_next cfg job now j = (page_done cfg now j)\<lparr>hj_incrementalPageToken := hj_pendingNextPageToken job,
     hj_incrementalPageIndex := hj_incrementalPageIndex job + 1\<rparr>"

definition incremental_done :: "HistoryConfig \<Rightarrow> millis \<Rightarrow> HistoryJob \<Rightarrow> HistoryJob" where
  "incremental_done cfg now j = (page_done cfg now j)\<lparr>hj_state := HistorySyncState.COMPLETE, hj_passKind := HistorySyncPassKind.INCREMENTAL,
     hj_incrementalPageToken := None, hj_incrementalPageIndex := 0, hj_completedAt := Some now,
     hj_nextAttemptAt := Some (now + hc_incrementalIntervalMs cfg)\<rparr>"

definition create_sync_run :: "HistoryJob \<Rightarrow> millis \<Rightarrow> unit tx" where
  "create_sync_run job now = tx_modify (\<lambda>db. db\<lparr>tb_syncRuns := tb_syncRuns db @ [\<lparr>sy_shopId = hj_shopId job, sy_source = SOURCE,
     sy_state = ''COMPLETE'', sy_conversationsScanned = hj_conversationsCompleted job, sy_messagesImported = hj_messagesImported job,
     sy_startedAt = or_else (hj_startedAt job) (Some now), sy_completedAt = Some now\<rparr>]\<rparr>)"

definition missing_cursor :: TikTokApiError where
  "missing_cursor = \<lparr>te_kind = ''MALFORMED_RESPONSE'', te_operation = LIST_CONVERSATIONS, te_httpStatus = None, te_providerCode = None,
     te_requestId = None, te_message = ''Missing continuation cursor'', te_retryAfterMs = None, te_nextPermittedAt = None, te_locallyBlocked = False\<rparr>"

definition advanceCompletedPage :: "HistoryConfig \<Rightarrow> HistoryJob \<Rightarrow> ident \<Rightarrow> unit prog" where
  "advanceCompletedPage cfg job owner = p_bind clock (\<lambda>now.
    (let nextToken = hj_pendingNextPageToken job;
         hasMore = hj_pendingHasMore job = Some True;
         nextIndex = hj_incrementalPageIndex job + 1
     in case hj_passKind job of
       HEAD \<Rightarrow> transact (\<lambda>_. tx_seq [update_owned (hj_id job) owner (head_done cfg now),
         shop_audit (hj_shopId job) ''HISTORY_HEAD_RECONCILED'' (JObj [(''conversationsCompleted'', JNum (of_int (hj_conversationsCompleted job)))])])
     | BACKFILL \<Rightarrow>
         if hasMore \<and> \<not> truthy nextToken then Throw (ReadError missing_cursor)
         else if hasMore then
           p_then (transact (\<lambda>_. update_owned (hj_id job) owner (backfill_next cfg job now)))
             (auditPage (hj_shopId job) (hj_pagesProcessed job + 1) ''BACKFILL'')
         else transact (\<lambda>_. tx_seq [update_owned (hj_id job) owner (backfill_done cfg job now), create_sync_run job now,
           shop_audit (hj_shopId job) ''HISTORY_INITIAL_BACKFILL_COMPLETE'' (JObj [(''pagesProcessed'', JNum (of_int (hj_pagesProcessed job + 1))),
             (''conversationsCompleted'', JNum (of_int (hj_conversationsCompleted job))), (''messagesImported'', JNum (of_int (hj_messagesImported job)))])])
     | HistorySyncPassKind.INCREMENTAL \<Rightarrow>
         if hasMore \<and> truthy nextToken \<and> nextIndex < hc_incrementalPages cfg
         then transact (\<lambda>_. update_owned (hj_id job) owner (incremental_next cfg job now))
         else transact (\<lambda>_. tx_seq [update_owned (hj_id job) owner (incremental_done cfg now),
           shop_audit (hj_shopId job) ''HISTORY_INCREMENTAL_PASS_COMPLETE'' (JObj [(''pagesRead'', JNum (of_int nextIndex)),
             (''conversationsCompleted'', JNum (of_int (hj_conversationsCompleted job))), (''messagesImported'', JNum (of_int (hj_messagesImported job)))])])))"

definition open_work :: "HistoryJob \<Rightarrow> Tables \<Rightarrow> HistoryWork option" where
  "open_work job db = (case js_sort (cmp_by hw_createdAt) (filter (\<lambda>w. hw_historySyncJobId w = hj_id job \<and> hw_pageSequence w = hj_pageSequence job \<and>
       hw_state w \<noteq> HistoryConversationWorkState.COMPLETE) (tb_historyWork db)) of [] \<Rightarrow> None | w # _ \<Rightarrow> Some w)"

definition processClaimed :: "HistoryConfig \<Rightarrow> ident \<Rightarrow> ident \<Rightarrow> unit prog" where
  "processClaimed cfg jobId owner =
    p_bind (transact (\<lambda>_. tx_bind (tx_read (owned_job jobId owner)) tx_found)) (\<lambda>job.
    if hj_phase job = LIST then fetchConversationPage cfg job owner
    else p_bind (transact (\<lambda>_. tx_read (open_work job))) (\<lambda>found.
      case found of Some work \<Rightarrow> fetchMessagePage cfg job work owner | None \<Rightarrow> advanceCompletedPage cfg job owner))"

section \<open>Errors\<close>

definition isCursorInvalid :: "HistoryJob \<Rightarrow> Err \<Rightarrow> bool" where
  "isCursorInvalid job e = (case e of ReadError t \<Rightarrow> te_operation t = LIST_CONVERSATIONS \<and> truthy (listCursor job) \<and> te_kind t = ''PROVIDER'' \<and>
       (te_httpStatus t = Some 400 \<or> te_providerCode t = Some 100004 \<or> te_providerCode t = Some 11012003) | _ \<Rightarrow> False)"

definition exponential_ms :: "int \<Rightarrow> int" where
  "exponential_ms n = min TEMPORARY_MAX_MS (TEMPORARY_BASE_MS * 2 ^ nat (min (max 0 (n - 1)) 20))"

definition cursor_recovery :: "HistoryJob \<Rightarrow> TikTokApiError \<Rightarrow> millis \<Rightarrow> HistoryJob \<Rightarrow> HistoryJob" where
  "cursor_recovery job e now j = j\<lparr>hj_state := HistorySyncState.QUEUED,
     hj_passKind := (if hj_mode job = INITIAL_BACKFILL then BACKFILL else HistorySyncPassKind.INCREMENTAL), hj_phase := LIST,
     hj_backfillPageToken := None, hj_incrementalPageToken := None, hj_pendingNextPageToken := None, hj_pendingHasMore := None,
     hj_cursorRecoveryCount := hj_cursorRecoveryCount j + 1, hj_pageSequence := hj_pageSequence j + 1,
     hj_lastProviderCode := Some (publicErrorCode e), hj_lastErrorCategory := Some ''CURSOR_INVALID_RECOVERING'',
     hj_totalProviderRequests := hj_totalProviderRequests j + 1, hj_nextAttemptAt := Some (now + 30000),
     hj_leaseOwner := None, hj_leaseExpiresAt := None\<rparr>"

definition failure_count :: "HistoryJob \<Rightarrow> TikTokApiError \<Rightarrow> int" where
  "failure_count job e = hj_consecutiveFailureCount job + (if te_locallyBlocked e then 0 else 1)"

definition backoff_until :: "HistoryJob \<Rightarrow> TikTokApiError \<Rightarrow> millis \<Rightarrow> millis" where
  "backoff_until job e now = (case te_nextPermittedAt e of Some t \<Rightarrow> t
     | None \<Rightarrow> now + max (case te_retryAfterMs e of None \<Rightarrow> 0 | Some r \<Rightarrow> r) (exponential_ms (failure_count job e)))"

definition backing_off :: "HistoryJob \<Rightarrow> TikTokApiError \<Rightarrow> millis \<Rightarrow> HistoryJob \<Rightarrow> HistoryJob" where
  "backing_off job e now j = j\<lparr>hj_state := HistorySyncState.BACKING_OFF, hj_nextAttemptAt := Some (backoff_until job e now),
     hj_consecutiveFailureCount := failure_count job e,
     hj_totalProviderRequests := hj_totalProviderRequests j + (if te_locallyBlocked e then 0 else 1),
     hj_lastProviderCode := Some (publicErrorCode e), hj_lastErrorCategory := Some (te_kind e),
     hj_leaseOwner := None, hj_leaseExpiresAt := None\<rparr>"

definition failure_category :: "Err \<Rightarrow> string" where
  "failure_category e = (case e of ReadError t \<Rightarrow> te_kind t | _ \<Rightarrow> ''HISTORY_WORKER_FAILURE'')"

definition failed_job :: "Err \<Rightarrow> HistoryJob \<Rightarrow> HistoryJob" where
  "failed_job e j = j\<lparr>hj_state := HistorySyncState.FAILED, hj_lastErrorCategory := Some (failure_category e),
     hj_lastProviderCode := (case e of ReadError t \<Rightarrow> Some (publicErrorCode t) | _ \<Rightarrow> None),
     hj_totalProviderRequests := hj_totalProviderRequests j +
       (case e of ReadError t \<Rightarrow> if \<not> te_locallyBlocked t \<and> (te_httpStatus t \<noteq> None \<or> te_requestId t \<noteq> None) then 1 else 0 | _ \<Rightarrow> 0),
     hj_nextAttemptAt := None, hj_leaseOwner := None, hj_leaseExpiresAt := None\<rparr>"

definition error_tx :: "HistoryJob \<Rightarrow> Err \<Rightarrow> millis \<Rightarrow> unit tx" where
  "error_tx job e now =
    (case e of
       ReadError t \<Rightarrow>
         if isCursorInvalid job e then
           tx_seq [tx_modify (\<lambda>db. db\<lparr>tb_historyWork := del_where (\<lambda>w. hw_historySyncJobId w = hj_id job \<and> hw_pageSequence w = hj_pageSequence job) (tb_historyWork db)\<rparr>),
             update_job (hj_id job) (cursor_recovery job t now),
             shop_audit (hj_shopId job) ''HISTORY_CURSOR_RECOVERY_STARTED'' (JObj [(''recoveryCount'', JNum (of_int (hj_cursorRecoveryCount job + 1)))])]
         else if te_kind t = ''RATE_LIMIT'' \<or> te_kind t = ''TEMPORARY'' then
           tx_seq [update_job (hj_id job) (backing_off job t now),
             shop_audit (hj_shopId job) ''HISTORY_BACKOFF_ENTERED'' (JObj [(''category'', JStr (te_kind t)), (''providerCode'', JStr (publicErrorCode t)),
               (''nextAttemptAt'', JStr (to_iso_string (backoff_until job t now)))])]
         else tx_seq [update_job (hj_id job) (failed_job e), shop_audit (hj_shopId job) ''HISTORY_SYNC_FAILED'' (JObj [(''category'', JStr (failure_category e))])]
     | _ \<Rightarrow> tx_seq [update_job (hj_id job) (failed_job e), shop_audit (hj_shopId job) ''HISTORY_SYNC_FAILED'' (JObj [(''category'', JStr (failure_category e))])])"

definition handleError :: "ident \<Rightarrow> ident \<Rightarrow> Err \<Rightarrow> unit prog" where
  "handleError jobId owner e =
    p_bind clock (\<lambda>now.
    p_bind (transact (\<lambda>_. tx_read (owned_job jobId owner))) (\<lambda>found.
    case found of None \<Rightarrow> Return () | Some job \<Rightarrow> transact (\<lambda>_. error_tx job e now)))"

text \<open>The adapter is the one handed in, or the one the integration service builds, which may fail: \<open>adapter\<close> is that step.\<close>

definition processNext :: "HistoryConfig \<Rightarrow> unit prog \<Rightarrow> bool prog" where
  "processNext cfg adapter =
    p_bind clock (\<lambda>now.
    p_bind (transact (\<lambda>_. tx_read (next_job now))) (\<lambda>found.
    case found of None \<Rightarrow> Return False
    | Some candidate \<Rightarrow>
      if hj_state candidate = HistorySyncState.COMPLETE \<and> hj_mode candidate \<noteq> HistorySyncMode.INCREMENTAL then Return False
      else p_bind (transact (\<lambda>env. tx_bind (claim_tx cfg candidate now (e_fresh env 0)) (\<lambda>n. tx_return (n, e_fresh env 0)))) (\<lambda>(n, owner).
        if n \<noteq> 1 then Return True
        else p_then (if hj_state candidate = HistorySyncState.BACKING_OFF
            then transact (\<lambda>_. shop_audit (hj_shopId candidate) ''HISTORY_BACKOFF_EXITED'' (JObj [(''resumedAt'', JStr (to_iso_string now))]))
            else Return ())
          (p_then (p_catch (p_then adapter (processClaimed cfg (hj_id candidate) owner)) (handleError (hj_id candidate) owner))
            (Return True)))))"

section \<open>The controls\<close>

text \<open>The active shop is looked up by the integration service: \<open>shopId\<close> is what it answers.\<close>

definition job_of :: "ident \<Rightarrow> Tables \<Rightarrow> HistoryJob option" where
  "job_of shopId db = List.find (\<lambda>j. hj_shopId j = shopId) (tb_historyJobs db)"

definition new_job :: "ident \<Rightarrow> ident \<Rightarrow> millis \<Rightarrow> HistoryJob" where
  "new_job i shopId now = \<lparr>hj_id = i, hj_shopId = shopId, hj_state = HistorySyncState.QUEUED, hj_mode = INITIAL_BACKFILL, hj_passKind = BACKFILL,
     hj_phase = LIST, hj_pageSequence = 0, hj_pagesProcessed = 0, hj_conversationsDiscovered = 0, hj_conversationsImported = 0,
     hj_conversationsCompleted = 0, hj_messagesImported = 0, hj_totalProviderRequests = 0, hj_consecutiveFailureCount = 0,
     hj_cursorRecoveryCount = 0, hj_backfillPagesSinceHead = 0, hj_incrementalPageIndex = 0, hj_backfillPageToken = None,
     hj_incrementalPageToken = None, hj_pendingNextPageToken = None, hj_pendingHasMore = None, hj_lastProviderCode = None,
     hj_lastErrorCategory = None, hj_lastSuccessfulProviderRequestAt = None, hj_nextAttemptAt = None, hj_leaseOwner = None,
     hj_leaseExpiresAt = None, hj_startedAt = None, hj_initialCompletedAt = None, hj_completedAt = None, hj_createdAt = now\<rparr>"

definition mode_text :: "HistorySyncMode \<Rightarrow> string" where
  "mode_text m = (case m of INITIAL_BACKFILL \<Rightarrow> ''INITIAL_BACKFILL'' | HistorySyncMode.INCREMENTAL \<Rightarrow> ''INCREMENTAL'')"

definition restarted :: "HistoryJob \<Rightarrow> HistoryJob \<Rightarrow> HistoryJob" where
  "restarted existing j = (let j' = j\<lparr>hj_state := HistorySyncState.QUEUED, hj_nextAttemptAt := None, hj_lastErrorCategory := None,
       hj_lastProviderCode := None, hj_completedAt := None\<rparr>
     in if hj_state existing = HistorySyncState.FAILED then j'\<lparr>hj_leaseOwner := None, hj_leaseExpiresAt := None\<rparr> else j')"

text \<open>An \<open>update\<close> that answers with the row, and a \<open>create\<close> that keeps one job per shop.\<close>

definition change_job :: "ident \<Rightarrow> (HistoryJob \<Rightarrow> HistoryJob) \<Rightarrow> HistoryJob tx" where
  "change_job i f = tx_bind (update_job i f) (\<lambda>_. tx_bind (tx_read (find_job i)) tx_found)"

definition create_job :: "HistoryJob \<Rightarrow> HistoryJob tx" where
  "create_job j =
    tx_bind (tx_read (\<lambda>db. list_ex (\<lambda>x. hj_id x = hj_id j \<or> hj_shopId x = hj_shopId j) (tb_historyJobs db))) (\<lambda>clash.
    tx_bind (tx_guard (\<not> clash) (DbError UniqueViolation)) (\<lambda>_.
    tx_bind (tx_modify (\<lambda>db. db\<lparr>tb_historyJobs := tb_historyJobs db @ [j]\<rparr>)) (\<lambda>_. tx_return j)))"

definition historyStatus :: "ident \<Rightarrow> PublicHistoryJob option prog" where
  "historyStatus shopId = p_bind (transact (\<lambda>_. tx_read (job_of shopId))) (\<lambda>job. Return (map_option publicHistoryJob job))"

definition announced :: "ident \<Rightarrow> string \<Rightarrow> HistoryJob \<Rightarrow> PublicHistoryJob prog" where
  "announced shopId eventType job =
    p_then (transact (\<lambda>_. shop_audit shopId eventType (JObj [(''mode'', JStr (mode_text (hj_mode job)))]))) (Return (publicHistoryJob job))"

definition startHistorySync :: "ident \<Rightarrow> PublicHistoryJob prog" where
  "startHistorySync shopId =
    p_bind (transact (\<lambda>_. tx_read (job_of shopId))) (\<lambda>existing.
    case existing of
      Some j \<Rightarrow> if hj_state j \<notin> {HistorySyncState.FAILED, HistorySyncState.PAUSED} then Return (publicHistoryJob j)
        else p_bind (transact (\<lambda>_. change_job (hj_id j) (restarted j))) (announced shopId ''HISTORY_SYNC_RESUMED'')
    | None \<Rightarrow> p_bind (transact (\<lambda>env. create_job (new_job (e_fresh env 0) shopId (e_now env)))) (announced shopId ''HISTORY_SYNC_STARTED''))"

definition pauseHistorySync :: "ident \<Rightarrow> PublicHistoryJob prog" where
  "pauseHistorySync shopId =
    p_bind (transact (\<lambda>_. tx_read (job_of shopId))) (\<lambda>existing.
    case existing of None \<Rightarrow> Throw (HttpError BadRequest ''Historical sync has not been started'')
    | Some j \<Rightarrow> p_bind (transact (\<lambda>_. change_job (hj_id j) (\<lambda>x. x\<lparr>hj_state := HistorySyncState.PAUSED, hj_nextAttemptAt := None\<rparr>)))
        (announced shopId ''HISTORY_SYNC_PAUSED''))"

definition incremental_requested :: "HistoryJob \<Rightarrow> HistoryJob" where
  "incremental_requested j = j\<lparr>hj_state := HistorySyncState.QUEUED, hj_mode := HistorySyncMode.INCREMENTAL, hj_passKind := HistorySyncPassKind.INCREMENTAL,
     hj_phase := LIST, hj_incrementalPageToken := None, hj_incrementalPageIndex := 0, hj_nextAttemptAt := None,
     hj_leaseOwner := None, hj_leaseExpiresAt := None\<rparr>"

definition runIncrementalNow :: "ident \<Rightarrow> PublicHistoryJob prog" where
  "runIncrementalNow shopId =
    p_bind (transact (\<lambda>_. tx_read (job_of shopId))) (\<lambda>existing.
    case existing of None \<Rightarrow> Throw (HttpError BadRequest ''Initial historical backfill is not complete'')
    | Some j \<Rightarrow>
        if hj_initialCompletedAt j = None then Throw (HttpError BadRequest ''Initial historical backfill is not complete'')
        else if hj_state j \<in> {HistorySyncState.RUNNING, HistorySyncState.BACKING_OFF} then Throw (HttpError BadRequest ''Historical sync is already active'')
        else p_bind (transact (\<lambda>_. change_job (hj_id j) incremental_requested)) (\<lambda>queued.
          p_then (transact (\<lambda>_. shop_audit shopId ''HISTORY_INCREMENTAL_REQUESTED'' (JObj []))) (Return (publicHistoryJob queued))))"

section \<open>What the transactions leave alone\<close>

text \<open>The rows of the import, and the deliveries; the operations on creators and contacts touch neither.\<close>

definition history_part :: "Tables \<Rightarrow> HistoryJob list \<times> HistoryWork list" where
  "history_part db = (tb_historyJobs db, tb_historyWork db)"

lemma frame_upsert_contact: "frame history_part (upsert_contact s c f new)" "frame tb_deliveries (upsert_contact s c f new)"
  by (auto simp: upsert_contact_def history_part_def intro!: frame_modify)

lemma frame_identity_audit: "frame history_part (identity_audit a s t ty e)" "frame tb_deliveries (identity_audit a s t ty e)"
  by (auto simp: identity_audit_def history_part_def intro!: frame_modify)

lemma frame_rebuild: "frame history_part (rebuildHistoricalContactState s c)" "frame tb_deliveries (rebuildHistoricalContactState s c)"
  unfolding rebuildHistoricalContactState_def by (auto intro!: frame_intros frame_upsert_contact)

lemma frame_identity: "frame history_part (identity k t i l e)" "frame tb_deliveries (identity k t i l e)"
  unfolding identity_def by (auto simp: history_part_def intro!: frame_intros)

lemma frame_creators: "frame history_part (create_creator c)" "frame tb_deliveries (create_creator c)"
    "frame history_part (update_creator i f)" "frame tb_deliveries (update_creator i f)"
  unfolding create_creator_def update_creator_def by (auto simp: history_part_def intro!: frame_intros)

lemma frame_marketplace: "frame history_part (ensureMarketplaceCreatorInTransaction c i)" "frame tb_deliveries (ensureMarketplaceCreatorInTransaction c i)"
  unfolding ensureMarketplaceCreatorInTransaction_def by (intro frame_intros frame_basic frame_creators frame_identity)+

lemma frame_conversation_tx: "frame history_part (both_identifiers_tx v a b i)" "frame tb_deliveries (both_identifiers_tx v a b i)"
    "frame history_part (im_only_tx v a i)" "frame tb_deliveries (im_only_tx v a i)"
  unfolding both_identifiers_tx_def im_only_tx_def by (intro frame_intros frame_basic frame_creators frame_identity frame_identity_audit)+

lemma frame_rebuildContactState: "frame history_part (rebuildContactState s c f)" "frame tb_deliveries (rebuildContactState s c f)"
  unfolding rebuildContactState_def by (auto simp: history_part_def intro!: frame_intros)

lemma frame_merge: "frame history_part (merge_creators s t e)" "frame tb_deliveries (merge_creators s t e)"
  unfolding merge_creators_def
  by (auto simp: history_part_def move_rows_def intro!: frame_intros frame_creators frame_identity_audit frame_rebuildContactState)

lemma frame_link: "frame history_part (linkExactProviderIdentities s t e)" "frame tb_deliveries (linkExactProviderIdentities s t e)"
  unfolding linkExactProviderIdentities_def by (intro frame_intros frame_basic frame_identity frame_merge)+

lemmas frames = frame_rebuild frame_marketplace frame_conversation_tx frame_link

section \<open>The jobs stay well formed\<close>

text \<open>
  What a job is at every moment: it is in its initial backfill until that has completed once, and then only reads
  increments; a page whose messages are read is one whose answer was stored; a lease has an owner and an end; a head
  pass starts from no token, is due after a bounded number of backfill pages, and an incremental pass is bounded too.
\<close>

definition job_ok :: "HistoryConfig \<Rightarrow> HistoryJob \<Rightarrow> bool" where
  "job_ok cfg j \<longleftrightarrow>
    (hj_mode j = INITIAL_BACKFILL \<longleftrightarrow> hj_passKind j \<noteq> HistorySyncPassKind.INCREMENTAL) \<and>
    (hj_mode j = INITIAL_BACKFILL \<longleftrightarrow> hj_initialCompletedAt j = None) \<and>
    (hj_phase j = MESSAGES \<longrightarrow> hj_pendingHasMore j \<noteq> None) \<and>
    (hj_leaseOwner j = None \<longleftrightarrow> hj_leaseExpiresAt j = None) \<and> (hj_leaseOwner j \<noteq> None \<longrightarrow> hj_state j \<noteq> HistorySyncState.COMPLETE) \<and>
    (hj_state j = HistorySyncState.COMPLETE \<longrightarrow> hj_mode j \<noteq> INITIAL_BACKFILL \<and> hj_phase j = LIST) \<and>
    (hj_passKind j = HEAD \<longrightarrow> hj_incrementalPageToken j = None) \<and>
    (hj_passKind j = BACKFILL \<longrightarrow> hj_backfillPagesSinceHead j < hc_headEveryBackfillPages cfg) \<and>
    0 \<le> hj_backfillPagesSinceHead j \<and> 0 \<le> hj_consecutiveFailureCount j \<and> 0 \<le> hj_pageSequence j \<and>
    0 \<le> hj_incrementalPageIndex j \<and> hj_incrementalPageIndex j < max 1 (hc_incrementalPages cfg)"

definition jobs_ok :: "HistoryConfig \<Rightarrow> Tables \<Rightarrow> bool" where
  "jobs_ok cfg db \<longleftrightarrow> distinct (map hj_id (tb_historyJobs db)) \<and> (\<forall>j \<in> set (tb_historyJobs db). job_ok cfg j)"

lemma jobs_ok_frame: "jobs_ok cfg db \<Longrightarrow> history_part db' = history_part db \<Longrightarrow> jobs_ok cfg db'"
  by (simp add: jobs_ok_def history_part_def)

lemma jobs_ok_job: "jobs_ok cfg db \<Longrightarrow> j \<in> set (tb_historyJobs db) \<Longrightarrow> job_ok cfg j"
  by (simp add: jobs_ok_def)

lemma same_job: "jobs_ok cfg db \<Longrightarrow> j \<in> set (tb_historyJobs db) \<Longrightarrow> k \<in> set (tb_historyJobs db) \<Longrightarrow> hj_id k = hj_id j \<Longrightarrow> k = j"
  by (auto simp: jobs_ok_def dest: distinct_map_eqD)

lemma jobs_ok_update:
  assumes ok: "jobs_ok cfg db" and j: "job \<in> set (tb_historyJobs db)" and f: "\<And>j. hj_id (f j) = hj_id j" "job_ok cfg (f job)"
    and P: "\<And>j. P j \<Longrightarrow> hj_id j = hj_id job"
    and parts: "tb_historyJobs db' = upd_where P f (tb_historyJobs db)"
  shows "jobs_ok cfg db'"
proof -
  have "job_ok cfg k" if k: "k \<in> set (tb_historyJobs db')" for k
  proof -
    obtain k0 where k0: "k0 \<in> set (tb_historyJobs db)" "k = (if P k0 then f k0 else k0)" using k unfolding parts by (auto simp: set_upd_where)
    then show ?thesis using same_job [OF ok j k0(1)] P [of k0] f(2) jobs_ok_job [OF ok k0(1)] by (cases "P k0") auto
  qed
  moreover have "map hj_id (tb_historyJobs db') = map hj_id (tb_historyJobs db)" unfolding parts by (rule map_upd_where_id) (rule f(1))
  ultimately show ?thesis using ok by (simp add: jobs_ok_def)
qed

lemma update_owned_jobs: "update_owned i owner f db = Inr (u, db') \<Longrightarrow>
    db' = db\<lparr>tb_historyJobs := upd_where (\<lambda>j. hj_id j = i \<and> hj_leaseOwner j = Some owner) f (tb_historyJobs db)\<rparr>"
  by (simp add: update_owned_def update_jobs_def)

lemma update_job_jobs: "update_job i f db = Inr (u, db') \<Longrightarrow>
    db' = db\<lparr>tb_historyJobs := upd_where (\<lambda>j. hj_id j = i) f (tb_historyJobs db)\<rparr>"
  by (auto simp: update_job_def update_jobs_def split: option.splits)

lemma frame_audit_work:
  "frame tb_historyJobs (shop_audit s ty p)" "frame tb_historyJobs (create_sync_run job now)" "frame tb_historyJobs (update_work i fw)"
  "frame tb_historyJobs (upsert_work job item i now)"
  unfolding shop_audit_def create_sync_run_def update_work_def upsert_work_def by (auto intro!: frame_intros)

lemma frame_import: "frame history_part (import_messages cfg c ms)" "frame tb_deliveries (import_messages cfg c ms)"
  by (induction ms) (auto simp: history_part_def intro!: frame_intros)

lemma frame_jobs: "frame history_part t \<Longrightarrow> frame tb_historyJobs t"
  by (auto simp: frame_def history_part_def)

text \<open>The jobs after each transaction of the processor.\<close>

lemma seq_then_frame:
  assumes "tx_seq (t # ts) db = Inr (u, db')" "\<And>s. s \<in> set ts \<Longrightarrow> frame part s"
  obtains v db1 where "t db = Inr (v, db1)" "part db' = part db1"
proof -
  obtain v db1 where 1: "t db = Inr (v, db1)" and 2: "tx_seq ts db1 = Inr (u, db')" using assms(1) unfolding tx_seq.simps by (rule tx_bind_InrE)
  have "frame part (tx_seq ts)" by (rule frame_seq) (rule assms(2))
  from frameD [OF this 2] show thesis by (rule that [OF 1])
qed

lemma store_page_jobs:
  assumes "store_page_tx cfg job owner page now fresh db = Inr (u, db')"
  shows "tb_historyJobs db' = upd_where (\<lambda>j. hj_id j = hj_id job \<and> hj_leaseOwner j = Some owner)
    (\<lambda>j. (after_success cfg now j)\<lparr>hj_phase := MESSAGES, hj_pendingNextPageToken := pp_nextPageToken page,
      hj_pendingHasMore := Some (pp_hasMore page), hj_conversationsDiscovered := hj_conversationsDiscovered j + int (length (pp_items page))\<rparr>) (tb_historyJobs db)"
proof -
  have f: "frame tb_historyJobs (tx_each (\<lambda>(item, k). upsert_work job item (fresh k) now) xs)" for xs
    by (rule frame_each) (auto intro: frame_audit_work)
  show ?thesis using assms unfolding store_page_tx_def
    by (rule tx_bind_InrE) (drule update_owned_jobs, drule frameD [OF f], simp)
qed

lemma store_messages_jobs:
  assumes "store_messages_tx cfg job work owner known page now db = Inr (u, db')"
  obtains n b where "tb_historyJobs db' = upd_where (\<lambda>j. hj_id j = hj_id job \<and> hj_leaseOwner j = Some owner)
    (\<lambda>j. (after_success cfg now j)\<lparr>hj_messagesImported := hj_messagesImported j + n,
        hj_conversationsImported := hj_conversationsImported j + (if b then 1 else 0),
        hj_conversationsCompleted := hj_conversationsCompleted j + (if pp_hasMore page then 0 else 1)\<rparr>) (tb_historyJobs db)"
proof -
  obtain creator conversationId imported where k: "known = (creator, conversationId, imported)" by (cases known)
  obtain n db1 where 1: "import_messages cfg conversationId (pp_items page) db = Inr (n, db1)"
    and r1: "tx_bind (rebuildHistoricalContactState (hj_shopId job) (cr_id creator)) (\<lambda>_.
      tx_bind (update_work (hw_id work) (\<lambda>w. w\<lparr>hw_state := (if pp_hasMore page then HistoryConversationWorkState.RUNNING else HistoryConversationWorkState.COMPLETE),
        hw_messagePageToken := pp_nextPageToken page, hw_messagesImported := hw_messagesImported w + n,
        hw_providerRequests := hw_providerRequests w + 1, hw_completedAt := (if pp_hasMore page then None else Some now)\<rparr>)) (\<lambda>_.
      tx_bind (update_owned (hj_id job) owner (\<lambda>j. (after_success cfg now j)\<lparr>hj_messagesImported := hj_messagesImported j + n,
        hj_conversationsImported := hj_conversationsImported j + (if imported then 1 else 0),
        hj_conversationsCompleted := hj_conversationsCompleted j + (if pp_hasMore page then 0 else 1)\<rparr>)) (\<lambda>_.
      if n > 0 then shop_audit (hj_shopId job) ''HISTORY_MESSAGES_IMPORTED''
        (JObj [(''conversationId'', JStr (hw_externalConversationId work)), (''imported'', JNum (of_int n))]) else tx_return ()))) db1 = Inr (u, db')"
    using assms unfolding store_messages_tx_def k prod.case by (rule tx_bind_InrE)
  from r1 obtain u2 db2 u3 db3 u4 db4 where
    2: "rebuildHistoricalContactState (hj_shopId job) (cr_id creator) db1 = Inr (u2, db2)"
    and 3: "update_work (hw_id work) (\<lambda>w. w\<lparr>hw_state := (if pp_hasMore page then HistoryConversationWorkState.RUNNING else HistoryConversationWorkState.COMPLETE),
        hw_messagePageToken := pp_nextPageToken page, hw_messagesImported := hw_messagesImported w + n,
        hw_providerRequests := hw_providerRequests w + 1, hw_completedAt := (if pp_hasMore page then None else Some now)\<rparr>) db2 = Inr (u3, db3)"
    and 4: "update_owned (hj_id job) owner (\<lambda>j. (after_success cfg now j)\<lparr>hj_messagesImported := hj_messagesImported j + n,
        hj_conversationsImported := hj_conversationsImported j + (if imported then 1 else 0),
        hj_conversationsCompleted := hj_conversationsCompleted j + (if pp_hasMore page then 0 else 1)\<rparr>) db3 = Inr (u4, db4)"
    and 5: "(if n > 0 then shop_audit (hj_shopId job) ''HISTORY_MESSAGES_IMPORTED''
        (JObj [(''conversationId'', JStr (hw_externalConversationId work)), (''imported'', JNum (of_int n))]) else tx_return ()) db4 = Inr (u, db')"
    by (elim tx_bind_InrE) (rule that, assumption+)
  have "tb_historyJobs db3 = tb_historyJobs db"
    using frameD [OF frame_jobs [OF frame_import(1)] 1] frameD [OF frame_jobs [OF frame_rebuild(1)] 2] frameD [OF frame_audit_work(3) 3] by simp
  moreover have "tb_historyJobs db' = tb_historyJobs db4"
    using 5 frameD [OF frame_audit_work(1)] by (cases "n > 0") auto
  ultimately show thesis using that update_owned_jobs [OF 4] by simp
qed

lemma error_jobs:
  assumes "error_tx job e now db = Inr (u, db')"
  obtains f where "tb_historyJobs db' = upd_where (\<lambda>j. hj_id j = hj_id job) f (tb_historyJobs db)"
    "(\<exists>t. e = ReadError t \<and> isCursorInvalid job e \<and> f = cursor_recovery job t now) \<or>
     (\<exists>t. e = ReadError t \<and> \<not> isCursorInvalid job e \<and> te_kind t \<in> {''RATE_LIMIT'', ''TEMPORARY''} \<and> f = backing_off job t now) \<or>
     \<not> isCursorInvalid job e \<and> (\<forall>t. e = ReadError t \<longrightarrow> te_kind t \<notin> {''RATE_LIMIT'', ''TEMPORARY''}) \<and> f = failed_job e"
proof -
  have work: "frame tb_historyJobs (tx_modify (\<lambda>db. db\<lparr>tb_historyWork := del_where P (tb_historyWork db)\<rparr>))" for P
    by (auto intro: frame_modify)
  have plain: "\<exists>g. tb_historyJobs db' = upd_where (\<lambda>j. hj_id j = hj_id job) g (tb_historyJobs db) \<and> g = f"
    if run: "tx_seq [update_job (hj_id job) f, shop_audit s ty p] db = Inr (u, db')" for f s ty p
  proof -
    obtain v db1 where "update_job (hj_id job) f db = Inr (v, db1)" "tb_historyJobs db' = tb_historyJobs db1"
      by (rule seq_then_frame [OF run, of tb_historyJobs]) (auto intro: frame_audit_work)
    then show ?thesis using update_job_jobs by fastforce
  qed
  show thesis
  proof (cases "isCursorInvalid job e")
    case True
    then obtain t where t: "e = ReadError t" by (auto simp: isCursorInvalid_def split: Err.splits)
    have "tx_seq [tx_modify (\<lambda>db. db\<lparr>tb_historyWork := del_where (\<lambda>w. hw_historySyncJobId w = hj_id job \<and> hw_pageSequence w = hj_pageSequence job) (tb_historyWork db)\<rparr>),
        update_job (hj_id job) (cursor_recovery job t now),
        shop_audit (hj_shopId job) ''HISTORY_CURSOR_RECOVERY_STARTED'' (JObj [(''recoveryCount'', JNum (of_int (hj_cursorRecoveryCount job + 1)))])] db = Inr (u, db')"
      using assms True unfolding t error_tx_def by simp
    then obtain db1 where "tb_historyJobs db1 = tb_historyJobs db" and
      run: "tx_seq [update_job (hj_id job) (cursor_recovery job t now),
        shop_audit (hj_shopId job) ''HISTORY_CURSOR_RECOVERY_STARTED'' (JObj [(''recoveryCount'', JNum (of_int (hj_cursorRecoveryCount job + 1)))])] db1 = Inr (u, db')"
      unfolding tx_seq.simps(2) [of "tx_modify f" for f] by (rule tx_bind_InrE) (drule frameD [OF work], blast)
    moreover obtain v db2 where "update_job (hj_id job) (cursor_recovery job t now) db1 = Inr (v, db2)" "tb_historyJobs db' = tb_historyJobs db2"
      by (rule seq_then_frame [OF run, of tb_historyJobs]) (auto intro: frame_audit_work)
    ultimately have "tb_historyJobs db' = upd_where (\<lambda>j. hj_id j = hj_id job) (cursor_recovery job t now) (tb_historyJobs db)"
      using update_job_jobs by fastforce
    then show thesis using that True t by blast
  next
    case no: False
    show thesis
    proof (cases "\<exists>t. e = ReadError t \<and> te_kind t \<in> {''RATE_LIMIT'', ''TEMPORARY''}")
      case True
      then obtain t where t: "e = ReadError t" "te_kind t \<in> {''RATE_LIMIT'', ''TEMPORARY''}" by blast
      have "tx_seq [update_job (hj_id job) (backing_off job t now), shop_audit (hj_shopId job) ''HISTORY_BACKOFF_ENTERED''
          (JObj [(''category'', JStr (te_kind t)), (''providerCode'', JStr (publicErrorCode t)), (''nextAttemptAt'', JStr (to_iso_string (backoff_until job t now)))])] db = Inr (u, db')"
        using assms no t(2) unfolding t(1) error_tx_def by auto
      from plain [OF this] show thesis using that no t by blast
    next
      case False
      have "tx_seq [update_job (hj_id job) (failed_job e), shop_audit (hj_shopId job) ''HISTORY_SYNC_FAILED'' (JObj [(''category'', JStr (failure_category e))])] db = Inr (u, db')"
        using assms no False unfolding error_tx_def by (cases e) auto
      from plain [OF this] show thesis using that no False by blast
    qed
  qed
qed

text \<open>What the updates keep.\<close>

lemma after_success_ok: "job_ok cfg j \<Longrightarrow> job_ok cfg ((after_success cfg now j)\<lparr>hj_phase := MESSAGES, hj_pendingNextPageToken := t, hj_pendingHasMore := Some b,
    hj_conversationsDiscovered := n\<rparr>)" if "hj_state j \<noteq> HistorySyncState.COMPLETE"
  using that by (auto simp: job_ok_def after_success_def)

lemma messages_ok: "job_ok cfg j \<Longrightarrow> job_ok cfg ((after_success cfg now j)\<lparr>hj_messagesImported := a, hj_conversationsImported := b, hj_conversationsCompleted := c\<rparr>)"
  by (auto simp: job_ok_def after_success_def)

lemma claimed_ok:
  assumes "job_ok cfg j" "hj_state j = HistorySyncState.COMPLETE \<Longrightarrow> hj_mode j \<noteq> INITIAL_BACKFILL"
  shows "job_ok cfg (claimed_job cfg j now owner j)" "hj_state (claimed_job cfg j now owner j) = HistorySyncState.RUNNING"
    "hj_leaseOwner (claimed_job cfg j now owner j) = Some owner"
  using assms by (auto simp: job_ok_def claimed_job_def Let_def)

lemma head_done_ok: "job_ok cfg j \<Longrightarrow> hj_passKind j = HEAD \<Longrightarrow> 1 \<le> hc_headEveryBackfillPages cfg \<Longrightarrow> hj_state j \<noteq> HistorySyncState.COMPLETE \<Longrightarrow> job_ok cfg (head_done cfg now j)"
  by (auto simp: job_ok_def head_done_def page_done_def)

lemma backfill_next_ok: "job_ok cfg j \<Longrightarrow> hj_passKind j = BACKFILL \<Longrightarrow> hj_state j \<noteq> HistorySyncState.COMPLETE \<Longrightarrow> job_ok cfg (backfill_next cfg j now j)"
  by (auto simp: job_ok_def backfill_next_def page_done_def Let_def)

lemma backfill_done_ok: "job_ok cfg j \<Longrightarrow> hj_passKind j = BACKFILL \<Longrightarrow> job_ok cfg (backfill_done cfg j now j)"
  by (auto simp: job_ok_def backfill_done_def page_done_def or_else_def split: option.splits)

lemma incremental_next_ok: "job_ok cfg j \<Longrightarrow> hj_passKind j = HistorySyncPassKind.INCREMENTAL \<Longrightarrow> hj_incrementalPageIndex j + 1 < hc_incrementalPages cfg \<Longrightarrow>
    job_ok cfg (incremental_next cfg j now j)"
  by (auto simp: job_ok_def incremental_next_def page_done_def)

lemma incremental_done_ok: "job_ok cfg j \<Longrightarrow> hj_passKind j = HistorySyncPassKind.INCREMENTAL \<Longrightarrow> job_ok cfg (incremental_done cfg now j)"
  by (auto simp: job_ok_def incremental_done_def page_done_def)

lemma cursor_recovery_ok:
  assumes "job_ok cfg j" "isCursorInvalid j e"
  shows "job_ok cfg (cursor_recovery j t now j)"
proof -
  have "hj_passKind j \<noteq> HEAD" using assms by (auto simp: isCursorInvalid_def listCursor_def truthy_def job_ok_def split: Err.splits)
  then have "hj_mode j = INITIAL_BACKFILL \<longrightarrow> hj_passKind j = BACKFILL" using assms(1) by (cases "hj_passKind j") (auto simp: job_ok_def)
  then show ?thesis using assms(1) by (auto simp: job_ok_def cursor_recovery_def)
qed

lemma backing_off_ok: "job_ok cfg j \<Longrightarrow> job_ok cfg (backing_off j t now j)"
  by (auto simp: job_ok_def backing_off_def failure_count_def)

lemma failed_ok: "job_ok cfg j \<Longrightarrow> job_ok cfg (failed_job e j)"
  by (auto simp: job_ok_def failed_job_def)

section \<open>The processor, run alone\<close>

abbreviation ok_now :: "HistoryConfig \<Rightarrow> World \<Rightarrow> bool" where
  "ok_now cfg w \<equiv> jobs_ok cfg (w_tables w)"

lemma alone_found:
  assumes "I w" "\<And>e. E e w" "\<And>a. f (w_tables w) = Some a \<Longrightarrow> Q a w"
  shows "alone I (transact (\<lambda>_. tx_bind (tx_read f) tx_found)) Q E w"
  using assms by (intro alone_transact) (auto simp: tx_found_def split: option.splits)

lemma alone_lists:
  "I w \<Longrightarrow> (\<And>e. E e w) \<Longrightarrow> (\<And>page. Q page w) \<Longrightarrow> alone I (list_conversations t) Q E w"
  "I w \<Longrightarrow> (\<And>e. E e w) \<Longrightarrow> (\<And>page. Q' page w) \<Longrightarrow> alone I (list_messages c i t) Q' E w"
  by (auto simp: list_conversations_def list_messages_def alone_Act split: sum.split)

lemma owned_job_SomeD: "owned_job i owner db = Some j \<Longrightarrow> j \<in> set (tb_historyJobs db) \<and> hj_id j = i \<and> hj_leaseOwner j = Some owner"
  by (auto simp: owned_job_def dest: find_SomeD)

lemma ids_kept [simp]:
  "hj_id (after_success cfg now j) = hj_id j" "hj_id (page_done cfg now j) = hj_id j" "hj_id (head_done cfg now j) = hj_id j"
  "hj_id (backfill_next cfg job now j) = hj_id j" "hj_id (backfill_done cfg job now j) = hj_id j"
  "hj_id (incremental_next cfg job now j) = hj_id j" "hj_id (incremental_done cfg now j) = hj_id j"
  "hj_id (cursor_recovery job t now j) = hj_id j" "hj_id (backing_off job t now j) = hj_id j" "hj_id (failed_job e j) = hj_id j"
  "hj_id (claimed_job cfg c now owner j) = hj_id j"
  by (simp_all add: after_success_def page_done_def head_done_def backfill_next_def backfill_done_def incremental_next_def
      incremental_done_def cursor_recovery_def backing_off_def failed_job_def claimed_job_def Let_def)

lemma owned_not_complete: "job_ok cfg j \<Longrightarrow> hj_leaseOwner j = Some owner \<Longrightarrow> hj_state j \<noteq> HistorySyncState.COMPLETE"
  by (auto simp: job_ok_def)

definition same_history :: "World \<Rightarrow> World \<Rightarrow> bool" where
  "same_history w w' \<longleftrightarrow> history_part (w_tables w') = history_part (w_tables w)"

lemma same_history_order: "reflp same_history" "transp same_history"
  by (auto simp: same_history_def intro: reflpI transpI)

lemma steps_same_history: "(\<And>env. frame history_part (t env)) \<Longrightarrow> steps same_history (transact t)"
  by (rule steps_transact) (auto simp: same_history_order same_history_def dest: frameD)

lemma resolver_same_history: "steps same_history (ensureConversationCreator c)"
  unfolding ensureConversationCreator_def
  by (auto intro!: steps_bind steps_same_history frames split: option.split)

lemma conversation_same_history: "steps same_history (ensureConversation item s)"
  unfolding ensureConversation_def
  by (intro steps_bind resolver_same_history steps_same_history steps_clock same_history_order frame_intros frame_basic)
    (auto simp: history_part_def)

text \<open>The ways a claim can change its job.\<close>

definition stored_page :: "HistoryConfig \<Rightarrow> millis \<Rightarrow> ProviderConversation ProviderPage \<Rightarrow> HistoryJob \<Rightarrow> HistoryJob" where
  "stored_page cfg now page j = (after_success cfg now j)\<lparr>hj_phase := MESSAGES, hj_pendingNextPageToken := pp_nextPageToken page,
     hj_pendingHasMore := Some (pp_hasMore page), hj_conversationsDiscovered := hj_conversationsDiscovered j + int (length (pp_items page))\<rparr>"

definition stored_messages :: "HistoryConfig \<Rightarrow> millis \<Rightarrow> int \<Rightarrow> bool \<Rightarrow> bool \<Rightarrow> HistoryJob \<Rightarrow> HistoryJob" where
  "stored_messages cfg now n imported hasMore j = (after_success cfg now j)\<lparr>hj_messagesImported := hj_messagesImported j + n,
     hj_conversationsImported := hj_conversationsImported j + (if imported then 1 else 0),
     hj_conversationsCompleted := hj_conversationsCompleted j + (if hasMore then 0 else 1)\<rparr>"

inductive claim_effect :: "HistoryConfig \<Rightarrow> Tables \<Rightarrow> HistoryJob \<Rightarrow> (HistoryJob \<Rightarrow> HistoryJob) \<Rightarrow> bool" for cfg db job where
  listed: "hj_phase job = LIST \<Longrightarrow> claim_effect cfg db job (stored_page cfg now page)"
| read: "hj_phase job = MESSAGES \<Longrightarrow> claim_effect cfg db job (stored_messages cfg now n imported hasMore)"
| head: "hj_phase job = MESSAGES \<Longrightarrow> open_work job db = None \<Longrightarrow> hj_passKind job = HEAD \<Longrightarrow> claim_effect cfg db job (head_done cfg now)"
| backfill: "hj_phase job = MESSAGES \<Longrightarrow> open_work job db = None \<Longrightarrow> hj_passKind job = BACKFILL \<Longrightarrow> hj_pendingHasMore job = Some True \<Longrightarrow>
    truthy (hj_pendingNextPageToken job) \<Longrightarrow> claim_effect cfg db job (backfill_next cfg job now)"
| backfilled: "hj_phase job = MESSAGES \<Longrightarrow> open_work job db = None \<Longrightarrow> hj_passKind job = BACKFILL \<Longrightarrow> hj_pendingHasMore job \<noteq> Some True \<Longrightarrow>
    claim_effect cfg db job (backfill_done cfg job now)"
| increment: "hj_phase job = MESSAGES \<Longrightarrow> open_work job db = None \<Longrightarrow> hj_passKind job = HistorySyncPassKind.INCREMENTAL \<Longrightarrow>
    hj_incrementalPageIndex job + 1 < hc_incrementalPages cfg \<Longrightarrow> claim_effect cfg db job (incremental_next cfg job now)"
| incremented: "hj_phase job = MESSAGES \<Longrightarrow> open_work job db = None \<Longrightarrow> hj_passKind job = HistorySyncPassKind.INCREMENTAL \<Longrightarrow>
    claim_effect cfg db job (incremental_done cfg now)"

definition changed_by :: "ident \<Rightarrow> ident \<Rightarrow> (HistoryJob \<Rightarrow> HistoryJob) \<Rightarrow> World \<Rightarrow> World \<Rightarrow> bool" where
  "changed_by i owner f w w' \<longleftrightarrow>
    tb_historyJobs (w_tables w') = upd_where (\<lambda>j. hj_id j = i \<and> hj_leaseOwner j = Some owner) f (tb_historyJobs (w_tables w))"

lemma alone_update_seq:
  assumes "I w" "\<And>e. E e w" "\<And>t. t \<in> set ts \<Longrightarrow> frame tb_historyJobs t" "\<And>w'. changed_by i owner f w w' \<Longrightarrow> I w' \<and> Q () w'"
  shows "alone I (transact (\<lambda>_. tx_seq (update_owned i owner f # ts))) Q E w"
proof (rule alone_transact)
  fix u tables assume run: "tx_seq (update_owned i owner f # ts) (w_tables w) = Inr (u, tables)"
  obtain v db1 where "update_owned i owner f (w_tables w) = Inr (v, db1)" "tb_historyJobs tables = tb_historyJobs db1"
    by (rule seq_then_frame [OF run, of tb_historyJobs]) (rule assms(3))
  then have "changed_by i owner f w (w\<lparr>w_tables := tables\<rparr>)" using update_owned_jobs by (fastforce simp: changed_by_def)
  from assms(4) [OF this] show "I (w\<lparr>w_tables := tables\<rparr>) \<and> Q u (w\<lparr>w_tables := tables\<rparr>)" by simp
qed (use assms(1,2) in simp_all)

lemma alone_update:
  assumes "I w" "\<And>e. E e w" "\<And>w'. changed_by i owner f w w' \<Longrightarrow> I w' \<and> Q () w'"
  shows "alone I (transact (\<lambda>_. update_owned i owner f)) Q E w"
proof (rule alone_transact)
  fix u tables assume "update_owned i owner f (w_tables w) = Inr (u, tables)"
  from update_owned_jobs [OF this] have "changed_by i owner f w (w\<lparr>w_tables := tables\<rparr>)" by (simp add: changed_by_def)
  from assms(3) [OF this] show "I (w\<lparr>w_tables := tables\<rparr>) \<and> Q u (w\<lparr>w_tables := tables\<rparr>)" by simp
qed (use assms(1,2) in simp_all)

text \<open>
  What holds wherever the rows of the import are as they were, and wherever the claimed job has changed in one of the
  ways above, holds throughout a claim.
\<close>

definition claim_safe :: "HistoryConfig \<Rightarrow> ident \<Rightarrow> ident \<Rightarrow> World \<Rightarrow> (World \<Rightarrow> bool) \<Rightarrow> HistoryJob \<Rightarrow> bool" where
  "claim_safe cfg i owner w I job \<longleftrightarrow> hj_id job = i \<and> (\<forall>w'. same_history w w' \<longrightarrow> I w') \<and>
    (\<forall>f w'. claim_effect cfg (w_tables w) job f \<longrightarrow> changed_by i owner f w w' \<longrightarrow> I w')"

lemma claim_safeD:
  assumes "claim_safe cfg i owner w I job"
  shows "hj_id job = i" "same_history w w' \<Longrightarrow> I w'"
    "claim_effect cfg (w_tables w) job f \<Longrightarrow> changed_by i owner f w w' \<Longrightarrow> I w'" "I w"
  using assms by (auto simp: claim_safe_def same_history_def)

lemma conversations_alone:
  assumes safe: "claim_safe cfg i owner w I job" and ph: "hj_phase job = LIST"
  shows "alone I (fetchConversationPage cfg job owner) (\<lambda>_. I) (\<lambda>_. I) w"
  unfolding fetchConversationPage_def
proof (intro alone_bind alone_lists alone_clock alone_transact)
  fix page now env a tables assume run: "store_page_tx cfg job owner page now (e_fresh env) (w_tables w) = Inr (a, tables)"
  have "changed_by i owner (stored_page cfg now page) w (w\<lparr>w_tables := tables\<rparr>)"
    using store_page_jobs [OF run] unfolding changed_by_def stored_page_def claim_safeD(1) [OF safe] by simp
  from claim_safeD(3) [OF safe, OF listed [OF ph] this] show "I (w\<lparr>w_tables := tables\<rparr>) \<and> I (w\<lparr>w_tables := tables\<rparr>)" by simp
qed (simp_all add: claim_safeD(4) [OF safe])

lemma messages_alone:
  assumes safe: "claim_safe cfg i owner w I job" and ph: "hj_phase job = MESSAGES"
  shows "alone I (fetchMessagePage cfg job work owner) (\<lambda>_. I) (\<lambda>_. I) w"
  unfolding fetchMessagePage_def
proof (rule alone_bind, rule alone_steps [OF conversation_same_history same_history_order], intro conjI allI)
  fix w' known assume w': "same_history w w'"
  show "I w'" by (rule claim_safeD(2) [OF safe w'])
  show "alone I (p_bind (list_messages (hw_externalConversationId work) (hw_creatorImId work) (hw_messagePageToken work)) (\<lambda>page.
    p_bind clock (\<lambda>now. transact (\<lambda>_. store_messages_tx cfg job work owner known page now)))) (\<lambda>_. I) (\<lambda>_. I) w'"
  proof (intro alone_bind alone_lists alone_clock alone_transact)
    fix page now a tables assume run: "store_messages_tx cfg job work owner known page now (w_tables w') = Inr (a, tables)"
    obtain n b where "changed_by i owner (stored_messages cfg now n b (pp_hasMore page)) w (w'\<lparr>w_tables := tables\<rparr>)"
      by (rule store_messages_jobs [OF run])
        (use w' in \<open>simp add: changed_by_def stored_messages_def [abs_def] claim_safeD(1) [OF safe] same_history_def history_part_def\<close>)
    from claim_safeD(3) [OF safe, OF read [OF ph] this] show "I (w'\<lparr>w_tables := tables\<rparr>) \<and> I (w'\<lparr>w_tables := tables\<rparr>)" by simp
  qed (simp_all add: claim_safeD(2) [OF safe w'])
qed (rule claim_safeD(2) [OF safe])

lemma page_audit_alone:
  assumes safe: "claim_safe cfg i owner w I job" and ph: "changed_by i owner f w w'" "claim_effect cfg (w_tables w) job f"
  shows "alone I (auditPage s n k) (\<lambda>_. I) (\<lambda>_. I) w'"
  using claim_safeD(3) [OF safe, OF ph(2)] ph(1) unfolding auditPage_def
  by (auto intro!: alone_transact simp: shop_audit_def changed_by_def)

lemma advance_alone:
  assumes safe: "claim_safe cfg i owner w I job" and ph: "hj_phase job = MESSAGES" "open_work job (w_tables w) = None"
  shows "alone I (advanceCompletedPage cfg job owner) (\<lambda>_. I) (\<lambda>_. I) w"
proof (cases "hj_passKind job")
  case HEAD
  show ?thesis unfolding advanceCompletedPage_def Let_def HEAD HistorySyncPassKind.case claim_safeD(1) [OF safe]
    by (intro alone_bind alone_clock claim_safeD(4) [OF safe] alone_update_seq conjI; (rule claim_safeD(3) [OF safe, OF claim_effect.head [OF ph HEAD]])?)
      (auto intro: frame_audit_work)
next
  case BACKFILL
  have "alone I (p_then (transact (\<lambda>_. update_owned i owner (backfill_next cfg job now))) (auditPage s n k)) (\<lambda>_. I) (\<lambda>_. I) w"
    if "hj_pendingHasMore job = Some True" "truthy (hj_pendingNextPageToken job)" for now s n k
    by (intro alone_then alone_update claim_safeD(4) [OF safe] conjI)
      (use claim_safeD(3) [OF safe, OF backfill [OF ph BACKFILL that]] page_audit_alone [OF safe _ backfill [OF ph BACKFILL that]] in auto)
  then show ?thesis unfolding advanceCompletedPage_def Let_def BACKFILL HistorySyncPassKind.case claim_safeD(1) [OF safe]
    by (intro alone_bind alone_clock claim_safeD(4) [OF safe])
      (auto simp del: tx_seq.simps intro!: alone_update_seq claim_safeD(4) [OF safe] frame_audit_work intro: claim_safeD(3) [OF safe, OF backfilled [OF ph BACKFILL]])
next
  case INCREMENTAL
  show ?thesis unfolding advanceCompletedPage_def Let_def INCREMENTAL HistorySyncPassKind.case claim_safeD(1) [OF safe]
    by (intro alone_bind alone_clock claim_safeD(4) [OF safe])
      (auto simp del: tx_seq.simps intro!: alone_update alone_update_seq claim_safeD(4) [OF safe] frame_audit_work
        intro: claim_safeD(3) [OF safe, OF increment [OF ph INCREMENTAL]] claim_safeD(3) [OF safe, OF incremented [OF ph INCREMENTAL]])
qed

lemma phase_cases: "p \<noteq> LIST \<longleftrightarrow> p = MESSAGES" by (cases p) auto

lemma processClaimed_rule:
  assumes same: "\<And>w'. same_history w w' \<Longrightarrow> I w'"
    and change: "\<And>job f w'. owned_job i owner (w_tables w) = Some job \<Longrightarrow> claim_effect cfg (w_tables w) job f \<Longrightarrow> changed_by i owner f w w' \<Longrightarrow> I w'"
  shows "alone I (processClaimed cfg i owner) (\<lambda>_. I) (\<lambda>_. I) w"
  unfolding processClaimed_def
proof (rule alone_bind, rule alone_found)
  show I: "I w" by (rule same) (simp add: same_history_def)
  then show "I w" .
  fix job assume owned: "owned_job i owner (w_tables w) = Some job"
  have safe: "claim_safe cfg i owner w I job"
    unfolding claim_safe_def using owned_job_SomeD [OF owned] same change [OF owned] by blast
  show "alone I (if hj_phase job = LIST then fetchConversationPage cfg job owner
      else p_bind (transact (\<lambda>_. tx_read (open_work job))) (\<lambda>found.
        case found of Some work \<Rightarrow> fetchMessagePage cfg job work owner | None \<Rightarrow> advanceCompletedPage cfg job owner)) (\<lambda>_. I) (\<lambda>_. I) w"
    using conversations_alone [OF safe] messages_alone [OF safe] advance_alone [OF safe] I
    by (auto simp: phase_cases intro!: alone_bind alone_read split: option.split)
qed

section \<open>The jobs stay well formed, whatever runs\<close>

lemma effect_ok:
  assumes "job_ok cfg job" "hj_leaseOwner job = Some owner" "1 \<le> hc_headEveryBackfillPages cfg" "claim_effect cfg db job f"
  shows "job_ok cfg (f job)" "hj_id (f j) = hj_id j"
proof -
  note active = owned_not_complete [OF assms(1,2)]
  show "job_ok cfg (f job)" using assms(4)
    by cases (use assms(1,3) active in \<open>simp_all add: stored_page_def stored_messages_def after_success_ok messages_ok
        head_done_ok backfill_next_ok backfill_done_ok incremental_next_ok incremental_done_ok\<close>)
  show "hj_id (f j) = hj_id j" using assms(4) by cases (simp_all add: stored_page_def stored_messages_def)
qed

lemma processClaimed_alone:
  assumes ok: "ok_now cfg w" and cfg: "1 \<le> hc_headEveryBackfillPages cfg"
  shows "alone (ok_now cfg) (processClaimed cfg i owner) (\<lambda>_. ok_now cfg) (\<lambda>_. ok_now cfg) w"
proof (rule processClaimed_rule)
  show "ok_now cfg w'" if "same_history w w'" for w' using that ok jobs_ok_frame by (auto simp: same_history_def)
  fix job f w' assume "owned_job i owner (w_tables w) = Some job" and f: "claim_effect cfg (w_tables w) job f" and ch: "changed_by i owner f w w'"
  then have job: "job \<in> set (tb_historyJobs (w_tables w))" "hj_id job = i" "hj_leaseOwner job = Some owner" using owned_job_SomeD by blast+
  note e = effect_ok [OF jobs_ok_job [OF ok job(1)] job(3) cfg f]
  show "ok_now cfg w'"
    by (rule jobs_ok_update [OF ok job(1) e(2,1) _ ch [unfolded changed_by_def]]) (use job(2) in simp)
qed

lemma error_keeps:
  assumes ok: "jobs_ok cfg db" and job: "job \<in> set (tb_historyJobs db)" and run: "error_tx job e now db = Inr (u, db')"
  shows "jobs_ok cfg db'"
proof -
  note jok = jobs_ok_job [OF ok job]
  obtain f where f: "tb_historyJobs db' = upd_where (\<lambda>j. hj_id j = hj_id job) f (tb_historyJobs db)"
    "(\<exists>t. e = ReadError t \<and> isCursorInvalid job e \<and> f = cursor_recovery job t now) \<or>
     (\<exists>t. e = ReadError t \<and> \<not> isCursorInvalid job e \<and> te_kind t \<in> {''RATE_LIMIT'', ''TEMPORARY''} \<and> f = backing_off job t now) \<or>
     \<not> isCursorInvalid job e \<and> (\<forall>t. e = ReadError t \<longrightarrow> te_kind t \<notin> {''RATE_LIMIT'', ''TEMPORARY''}) \<and> f = failed_job e"
    by (rule error_jobs [OF run])
  have "job_ok cfg (f job) \<and> (\<forall>j. hj_id (f j) = hj_id j)"
    using f(2) cursor_recovery_ok [OF jok] backing_off_ok [OF jok] failed_ok [OF jok] by auto
  then show ?thesis by (intro jobs_ok_update [OF ok job _ _ _ f(1)]) auto
qed

lemma handleError_alone:
  assumes ok: "ok_now cfg w"
  shows "alone (ok_now cfg) (handleError i owner e) (\<lambda>_. ok_now cfg) (\<lambda>_. ok_now cfg) w"
  unfolding handleError_def
proof (intro alone_bind alone_clock alone_read ok)
  fix now
  have "alone (ok_now cfg) (transact (\<lambda>_. error_tx job e now)) (\<lambda>_. ok_now cfg) (\<lambda>_. ok_now cfg) w"
    if "owned_job i owner (w_tables w) = Some job" for job
    by (rule alone_transact) (use ok error_keeps [OF ok] owned_job_SomeD [OF that] in auto)
  then show "alone (ok_now cfg) (case owned_job i owner (w_tables w) of None \<Rightarrow> Return () | Some job \<Rightarrow> transact (\<lambda>_. error_tx job e now))
      (\<lambda>_. ok_now cfg) (\<lambda>_. ok_now cfg) w"
    using ok by (auto split: option.split)
qed

lemma next_job_SomeD: "next_job now db = Some j \<Longrightarrow> j \<in> set (tb_historyJobs db) \<and> startable now j"
proof -
  assume "next_job now db = Some j"
  then have "j \<in> set (js_sort due_order (filter (startable now) (tb_historyJobs db)))"
    unfolding next_job_def by (cases "js_sort due_order (filter (startable now) (tb_historyJobs db))") auto
  then show ?thesis by simp
qed

lemma claim_keeps:
  assumes ok: "jobs_ok cfg db" and c: "c \<in> set (tb_historyJobs db)" "hj_state c = HistorySyncState.COMPLETE \<Longrightarrow> hj_mode c \<noteq> INITIAL_BACKFILL"
    and run: "claim_tx cfg c now owner db = Inr (n, db')"
  shows "jobs_ok cfg db'"
proof -
  have "tb_historyJobs db' = upd_where (\<lambda>j. hj_id j = hj_id c \<and> runnable (hj_state j) \<and> lease_free now j) (claimed_job cfg c now owner) (tb_historyJobs db)"
    using run by (auto simp: claim_tx_def update_jobs_def Let_def)
  from jobs_ok_update [OF ok c(1) _ _ _ this] show ?thesis using claimed_ok(1) [OF jobs_ok_job [OF ok c(1)] c(2)] by simp
qed

lemma processNext_alone:
  assumes ok: "ok_now cfg w" and cfg: "1 \<le> hc_headEveryBackfillPages cfg" and adapter: "steps same_history adapter"
  shows "alone (ok_now cfg) (processNext cfg adapter) (\<lambda>_. ok_now cfg) (\<lambda>_. ok_now cfg) w"
proof -
  have audit: "alone (ok_now cfg) (transact (\<lambda>_. shop_audit s ty p)) (\<lambda>_. ok_now cfg) (\<lambda>_. ok_now cfg) v" if "ok_now cfg v" for s ty p v
    using that by (auto intro!: alone_transact simp: shop_audit_def jobs_ok_def)
  have claimed: "alone (ok_now cfg) (p_catch (p_then adapter (processClaimed cfg i owner)) (handleError i owner)) (\<lambda>_. ok_now cfg) (\<lambda>_. ok_now cfg) v"
    if v: "ok_now cfg v" for i owner v
  proof (rule alone_catch, rule alone_then, rule alone_steps [OF adapter same_history_order])
    fix v' assume "same_history v v'"
    then have ok': "ok_now cfg v'" using v jobs_ok_frame by (auto simp: same_history_def)
    have "alone (ok_now cfg) (processClaimed cfg i owner) (\<lambda>_. ok_now cfg) (\<lambda>e u. alone (ok_now cfg) (handleError i owner e) (\<lambda>_. ok_now cfg) (\<lambda>_. ok_now cfg) u \<and> ok_now cfg u) v'"
      by (rule alone_weaken [OF processClaimed_alone [OF ok' cfg]]) (auto intro: handleError_alone)
    then show "ok_now cfg v' \<and> (\<forall>_::unit. alone (ok_now cfg) (processClaimed cfg i owner) (\<lambda>_. ok_now cfg)
        (\<lambda>e u. alone (ok_now cfg) (handleError i owner e) (\<lambda>_. ok_now cfg) (\<lambda>_. ok_now cfg) u \<and> ok_now cfg u) v') \<and>
        (\<forall>e. alone (ok_now cfg) (handleError i owner e) (\<lambda>_. ok_now cfg) (\<lambda>_. ok_now cfg) v' \<and> ok_now cfg v')"
      using ok' handleError_alone [OF ok'] by blast
  qed
  have after: "alone (ok_now cfg) (if n \<noteq> 1 then Return True
        else p_then (if b then transact (\<lambda>_. shop_audit s ty p) else Return ())
          (p_then (p_catch (p_then adapter (processClaimed cfg i owner)) (handleError i owner)) (Return True)))
      (\<lambda>_. ok_now cfg) (\<lambda>_. ok_now cfg) v" if v: "ok_now cfg v" for n :: int and b s ty p i owner v
  proof -
    have rest: "alone (ok_now cfg) (p_then (p_catch (p_then adapter (processClaimed cfg i owner)) (handleError i owner)) (Return True)) (\<lambda>_. ok_now cfg) (\<lambda>_. ok_now cfg) u"
      if "ok_now cfg u" for u
      by (rule alone_then, rule alone_weaken [OF claimed [OF that]]) auto
    have "alone (ok_now cfg) (p_then (if b then transact (\<lambda>_. shop_audit s ty p) else Return ())
        (p_then (p_catch (p_then adapter (processClaimed cfg i owner)) (handleError i owner)) (Return True))) (\<lambda>_. ok_now cfg) (\<lambda>_. ok_now cfg) v"
    proof (rule alone_then, cases b)
      case True
      show "alone (ok_now cfg) (if b then transact (\<lambda>_. shop_audit s ty p) else Return ())
        (\<lambda>_. alone (ok_now cfg) (p_then (p_catch (p_then adapter (processClaimed cfg i owner)) (handleError i owner)) (Return True)) (\<lambda>_. ok_now cfg) (\<lambda>_. ok_now cfg))
        (\<lambda>_. ok_now cfg) v"
        unfolding if_P [OF True] by (rule alone_weaken [OF audit [OF v]]) (rule rest)
    qed (simp add: rest v)
    then show ?thesis using v by simp
  qed
  have go: "alone (ok_now cfg) (if hj_state c = HistorySyncState.COMPLETE \<and> hj_mode c \<noteq> HistorySyncMode.INCREMENTAL then Return False
      else p_bind (transact (\<lambda>env. tx_bind (claim_tx cfg c now (e_fresh env 0)) (\<lambda>n. tx_return (n, e_fresh env 0)))) (\<lambda>(n, owner).
        if n \<noteq> 1 then Return True
        else p_then (if hj_state c = HistorySyncState.BACKING_OFF
            then transact (\<lambda>_. shop_audit (hj_shopId c) ''HISTORY_BACKOFF_EXITED'' (JObj [(''resumedAt'', JStr (to_iso_string now))]))
            else Return ())
          (p_then (p_catch (p_then adapter (processClaimed cfg (hj_id c) owner)) (handleError (hj_id c) owner))
            (Return True)))) (\<lambda>_. ok_now cfg) (\<lambda>_. ok_now cfg) w"
    if c: "next_job now (w_tables w) = Some c" for c now
  proof (cases "hj_state c = HistorySyncState.COMPLETE \<and> hj_mode c \<noteq> HistorySyncMode.INCREMENTAL")
    case False
    have "alone (ok_now cfg) (transact (\<lambda>env. tx_bind (claim_tx cfg c now (e_fresh env 0)) (\<lambda>n. tx_return (n, e_fresh env 0)))) (\<lambda>_. ok_now cfg) (\<lambda>_. ok_now cfg) w"
    proof (rule alone_transact)
      fix env a tables assume "tx_bind (claim_tx cfg c now (e_fresh env 0)) (\<lambda>n. tx_return (n, e_fresh env 0)) (w_tables w) = Inr (a, tables)"
      then obtain n where "claim_tx cfg c now (e_fresh env 0) (w_tables w) = Inr (n, tables)" by (rule tx_bind_InrE) simp
      then have "jobs_ok cfg tables"
        by (rule claim_keeps [OF ok, rotated 2]) (use next_job_SomeD [OF c] False in auto)
      then show "ok_now cfg (w\<lparr>w_tables := tables\<rparr>) \<and> ok_now cfg (w\<lparr>w_tables := tables\<rparr>)" by simp
    qed (use ok in simp_all)
    then show ?thesis unfolding if_not_P [OF False]
      by (intro alone_bind) (elim alone_weaken, simp only: case_prod_beta, rule after)
  qed (use ok in simp)
  show ?thesis unfolding processNext_def
    by (intro alone_bind alone_clock alone_read ok) (use ok go in \<open>auto split: option.split\<close>)
qed

lemma controls_alone:
  assumes ok: "ok_now cfg w" and cfg: "1 \<le> hc_headEveryBackfillPages cfg"
  shows "alone (ok_now cfg) (startHistorySync s) (\<lambda>_. ok_now cfg) (\<lambda>_. ok_now cfg) w"
    "alone (ok_now cfg) (pauseHistorySync s) (\<lambda>_. ok_now cfg) (\<lambda>_. ok_now cfg) w"
    "alone (ok_now cfg) (runIncrementalNow s) (\<lambda>_. ok_now cfg) (\<lambda>_. ok_now cfg) w"
proof -
  have audit: "alone (ok_now cfg) (p_then (transact (\<lambda>_. shop_audit s ty p)) (Return x)) (\<lambda>_. ok_now cfg) (\<lambda>_. ok_now cfg) v" if "ok_now cfg v" for ty p v and x :: PublicHistoryJob
    using that by (intro alone_then) (auto intro!: alone_transact simp: shop_audit_def jobs_ok_def)
  have found: "j \<in> set (tb_historyJobs (w_tables w))" if "job_of s (w_tables w) = Some j" for j
    using that by (auto simp: job_of_def dest: find_SomeD)
  have change: "alone (ok_now cfg) (transact (\<lambda>_. change_job (hj_id j) f)) (\<lambda>_. ok_now cfg) (\<lambda>_. ok_now cfg) w"
    if j: "job_of s (w_tables w) = Some j" and f: "\<And>j. hj_id (f j) = hj_id j" "job_ok cfg (f j)" for j f
  proof (rule alone_transact)
    fix a tables assume "change_job (hj_id j) f (w_tables w) = Inr (a, tables)"
    then obtain u where "update_job (hj_id j) f (w_tables w) = Inr (u, tables)"
      unfolding change_job_def by (rule tx_bind_InrE) (auto simp: tx_found_def split: option.splits)
    from update_job_jobs [OF this] have "jobs_ok cfg tables"
      by (intro jobs_ok_update [OF ok found [OF j] f, where P = "\<lambda>x. hj_id x = hj_id j"]) simp_all
    then show "ok_now cfg (w\<lparr>w_tables := tables\<rparr>) \<and> ok_now cfg (w\<lparr>w_tables := tables\<rparr>)" by simp
  qed (use ok in simp_all)
  have jok: "job_ok cfg j" if "job_of s (w_tables w) = Some j" for j using found [OF that] jobs_ok_job [OF ok] by blast
  have restarted: "job_ok cfg (restarted j j)" if "job_of s (w_tables w) = Some j" for j
    using jok [OF that] by (auto simp: job_ok_def restarted_def Let_def)
  have create: "alone (ok_now cfg) (transact (\<lambda>env. create_job (new_job (e_fresh env 0) s (e_now env)))) (\<lambda>_. ok_now cfg) (\<lambda>_. ok_now cfg) w"
    by (rule alone_transact) (use ok cfg in \<open>auto simp: create_job_def tx_bind_guard jobs_ok_def list_ex_iff job_ok_def new_job_def split: if_splits\<close>)
  show "alone (ok_now cfg) (startHistorySync s) (\<lambda>_. ok_now cfg) (\<lambda>_. ok_now cfg) w"
    unfolding startHistorySync_def announced_def
    by (rule alone_bind, rule alone_read)
      (use ok in \<open>auto intro!: alone_bind audit alone_weaken [OF create] alone_weaken [OF change] restarted simp: restarted_def Let_def split: option.split\<close>)
  show "alone (ok_now cfg) (pauseHistorySync s) (\<lambda>_. ok_now cfg) (\<lambda>_. ok_now cfg) w"
    unfolding pauseHistorySync_def announced_def
    by (rule alone_bind, rule alone_read)
      (use ok jok in \<open>auto intro!: alone_bind audit alone_weaken [OF change] simp: job_ok_def split: option.split\<close>)
  show "alone (ok_now cfg) (runIncrementalNow s) (\<lambda>_. ok_now cfg) (\<lambda>_. ok_now cfg) w"
    unfolding runIncrementalNow_def
    by (rule alone_bind, rule alone_read)
      (use ok jok in \<open>auto intro!: alone_bind audit alone_weaken [OF change] simp: job_ok_def incremental_requested_def split: option.split\<close>)
qed

definition history_programs :: "HistoryConfig \<Rightarrow> unit prog set" where
  "history_programs cfg = {p_then (processNext cfg adapter) (Return ()) | adapter. steps same_history adapter} \<union>
     {p_then (startHistorySync s) (Return ()) | s. True} \<union> {p_then (pauseHistorySync s) (Return ()) | s. True} \<union>
     {p_then (runIncrementalNow s) (Return ()) | s. True}"

text \<open>
  C17. However often an import is started, paused, asked for an increment and claimed, one after
  the other and whatever the provider answers, every job stays well formed: it backfills until
  that has completed once, reads messages only of a page it has stored, holds a lease with an
  owner and an end, and its head and incremental passes stay within their bounds.
\<close>

theorem history_jobs_stay_well_formed:
  assumes "jobs_ok cfg (w_tables w)" "1 \<le> hc_headEveryBackfillPages cfg" "snd ` set runs \<subseteq> history_programs cfg"
  shows "jobs_ok cfg (w_tables (fold (\<lambda>(envs, program) v. snd (p_run envs program v)) runs w))"
  using assms(1,3)
proof (induction runs arbitrary: w)
  case (Cons r runs)
  obtain envs program where r: "r = (envs, program)" by (cases r)
  have unit: "alone (ok_now cfg) (p_then p (Return ())) (\<lambda>_. ok_now cfg) (\<lambda>_. ok_now cfg) w"
    if "alone (ok_now cfg) p (\<lambda>_. ok_now cfg) (\<lambda>_. ok_now cfg) w" for p :: "'b prog"
    by (rule alone_then, rule alone_weaken [OF that]) simp_all
  have unit': "alone (ok_now cfg) (p_then p (Return ())) (\<lambda>_. ok_now cfg) (\<lambda>_. ok_now cfg) w"
    if "alone (ok_now cfg) p (\<lambda>_. ok_now cfg) (\<lambda>_. ok_now cfg) w" for p :: "bool prog"
    by (rule alone_then, rule alone_weaken [OF that]) simp_all
  have "program \<in> history_programs cfg" using Cons.prems(2) r by auto
  then have "alone (ok_now cfg) program (\<lambda>_. ok_now cfg) (\<lambda>_. ok_now cfg) w"
    using unit [OF controls_alone(1) [OF Cons.prems(1) assms(2)]] unit [OF controls_alone(2) [OF Cons.prems(1) assms(2)]]
      unit [OF controls_alone(3) [OF Cons.prems(1) assms(2)]] unit' [OF processNext_alone [OF Cons.prems(1) assms(2)]]
    by (auto simp: history_programs_def)
  from alone_run [OF this Cons.prems(1)] show ?case using Cons.IH Cons.prems(2) by (simp add: r)
qed simp

section \<open>No page is left before it is finished\<close>










section \<open>What an import keeps\<close>

text \<open>
  Importing a page of messages again changes nothing: after a first import every message of
  the page is on record, each once, the rows inserted are those that were not there before, and
  any later import of the same page inserts none.
\<close>

theorem reimport_changes_nothing:
  "\<exists>new. import_messages cfg c ms db = Inr (int (length new), db\<lparr>tb_messages := tb_messages db @ new\<rparr>) \<and>
     import_messages cfg' c' ms (db\<lparr>tb_messages := tb_messages db @ new\<rparr>) = Inr (0, db\<lparr>tb_messages := tb_messages db @ new\<rparr>) \<and>
     distinct (map ms_externalMessageId new) \<and>
     ms_externalMessageId ` set new = pm_id ` set ms - ms_externalMessageId ` set (tb_messages db)"
proof -
  have again: "import_messages cfg' c' ms db = Inr (0, db)" if "pm_id ` set ms \<subseteq> ms_externalMessageId ` set (tb_messages db)" for ms db
    using that by (induction ms) (force simp: list_ex_iff)+
  have "\<exists>new. import_messages cfg c ms db = Inr (int (length new), db\<lparr>tb_messages := tb_messages db @ new\<rparr>) \<and>
     distinct (map ms_externalMessageId new) \<and>
     ms_externalMessageId ` set new = pm_id ` set ms - ms_externalMessageId ` set (tb_messages db)"
  proof (induction ms arbitrary: db)
    case (Cons m ms)
    show ?case
    proof (cases "list_ex (\<lambda>x. ms_externalMessageId x = pm_id m) (tb_messages db)")
      case True
      then have "pm_id m \<in> ms_externalMessageId ` set (tb_messages db)" by (force simp: list_ex_iff)
      then show ?thesis using Cons.IH [of db] True by (auto simp: tx_bind_def)
    next
      case False
      let ?m = "imported_message cfg c m"
      have m: "ms_externalMessageId ?m = pm_id m" by (simp add: imported_message_def)
      obtain new where new: "import_messages cfg c ms (db\<lparr>tb_messages := tb_messages db @ [?m]\<rparr>) =
          Inr (int (length new), db\<lparr>tb_messages := tb_messages db @ [?m] @ new\<rparr>)" "distinct (map ms_externalMessageId new)"
        "ms_externalMessageId ` set new = pm_id ` set ms - (ms_externalMessageId ` set (tb_messages db) \<union> {pm_id m})"
        using Cons.IH [of "db\<lparr>tb_messages := tb_messages db @ [?m]\<rparr>"] m by auto
      have "pm_id m \<notin> ms_externalMessageId ` set (tb_messages db)" using False by (auto simp: list_ex_iff)
      then show ?thesis using new False m by (intro exI [of _ "?m # new"]) (auto simp: tx_bind_def)
    qed
  qed simp
  then obtain new where new: "import_messages cfg c ms db = Inr (int (length new), db\<lparr>tb_messages := tb_messages db @ new\<rparr>)"
    "distinct (map ms_externalMessageId new)" "ms_externalMessageId ` set new = pm_id ` set ms - ms_externalMessageId ` set (tb_messages db)" by blast
  moreover have "import_messages cfg' c' ms (db\<lparr>tb_messages := tb_messages db @ new\<rparr>) = Inr (0, db\<lparr>tb_messages := tb_messages db @ new\<rparr>)"
    by (rule again) (use new(3) in auto)
  ultimately show ?thesis by blast
qed

section \<open>Errors\<close>

lemma exponential_bounds: "30000 \<le> exponential_ms n \<and> exponential_ms n \<le> 1800000"
proof -
  have "(1 :: int) \<le> 2 ^ k" for k by simp
  then show ?thesis by (simp add: exponential_ms_def TEMPORARY_BASE_MS_def TEMPORARY_MAX_MS_def min_def)
qed

text \<open>
  C32. After an error the lease of the claim is given back, and the job is where the error puts
  it: queued again from the start of its pass, in half a minute, when the provider refused the
  page token; when the error is temporary, backing off until the very instant the error names,
  however near, if it names one (the read governor names the end of its spacing or cooldown), and
  otherwise for at least half a minute, at least as long as the provider asked for, and at most
  the longer of that and half an hour; and failed, with no next attempt, after any other error.
\<close>

theorem failed_claim_is_released:
  assumes "error_tx job e now db = Inr (u, db')" "j \<in> set (tb_historyJobs db')" "hj_id j = hj_id job"
  shows "hj_leaseOwner j = None \<and> hj_leaseExpiresAt j = None \<and>
    (if isCursorInvalid job e then
       hj_state j = HistorySyncState.QUEUED \<and> hj_phase j = LIST \<and> listCursor j = None \<and> hj_nextAttemptAt j = Some (now + 30000)
     else if \<exists>t. e = ReadError t \<and> te_kind t \<in> {''RATE_LIMIT'', ''TEMPORARY''} then
       hj_state j = HistorySyncState.BACKING_OFF \<and> (\<exists>t d. e = ReadError t \<and> hj_nextAttemptAt j = Some d \<and>
         (case te_nextPermittedAt t of Some p \<Rightarrow> d = p
          | None \<Rightarrow> now + 30000 \<le> d \<and> now + (case te_retryAfterMs t of None \<Rightarrow> 0 | Some r \<Rightarrow> r) \<le> d \<and>
              d \<le> now + max (case te_retryAfterMs t of None \<Rightarrow> 0 | Some r \<Rightarrow> r) 1800000))
     else hj_state j = HistorySyncState.FAILED \<and> hj_nextAttemptAt j = None)"
proof -
  obtain f where f: "tb_historyJobs db' = upd_where (\<lambda>j. hj_id j = hj_id job) f (tb_historyJobs db)"
    "(\<exists>t. e = ReadError t \<and> isCursorInvalid job e \<and> f = cursor_recovery job t now) \<or>
     (\<exists>t. e = ReadError t \<and> \<not> isCursorInvalid job e \<and> te_kind t \<in> {''RATE_LIMIT'', ''TEMPORARY''} \<and> f = backing_off job t now) \<or>
     \<not> isCursorInvalid job e \<and> (\<forall>t. e = ReadError t \<longrightarrow> te_kind t \<notin> {''RATE_LIMIT'', ''TEMPORARY''}) \<and> f = failed_job e"
    by (rule error_jobs [OF assms(1)])
  obtain j0 where "j = (if hj_id j0 = hj_id job then f j0 else j0)"
    using assms(2) unfolding f(1) set_upd_where by (elim imageE) (rule that)
  then have j: "j = f j0" using assms(3) by (auto split: if_splits)
  from f(2) show ?thesis
  proof (elim disjE exE conjE)
    fix t assume *: "e = ReadError t" "isCursorInvalid job e" "f = cursor_recovery job t now"
    show ?thesis using *(2) by (simp add: j *(3) cursor_recovery_def listCursor_def)
  next
    fix t assume *: "e = ReadError t" "\<not> isCursorInvalid job e" "te_kind t \<in> {''RATE_LIMIT'', ''TEMPORARY''}" "f = backing_off job t now"
    have "now + 30000 \<le> backoff_until job t now \<and> now + (case te_retryAfterMs t of None \<Rightarrow> 0 | Some r \<Rightarrow> r) \<le> backoff_until job t now \<and>
        backoff_until job t now \<le> now + max (case te_retryAfterMs t of None \<Rightarrow> 0 | Some r \<Rightarrow> r) 1800000"
      if "te_nextPermittedAt t = None"
      using exponential_bounds [of "failure_count job t"] that by (auto simp: backoff_until_def)
    then show ?thesis using *(1-3) by (auto simp: j *(4) backing_off_def backoff_until_def split: option.split)
  next
    assume *: "\<not> isCursorInvalid job e" "\<forall>t. e = ReadError t \<longrightarrow> te_kind t \<notin> {''RATE_LIMIT'', ''TEMPORARY''}" "f = failed_job e"
    show ?thesis using *(1,2) by (auto simp: j *(3) failed_job_def)
  qed
qed

section \<open>No delivery is claimed here\<close>

text \<open>The resolver and the import may run at any time beside the outreach: none of their transactions makes a delivery claimable.\<close>

lemma frame_update_jobs: "frame tb_deliveries (update_jobs P f)" "frame tb_deliveries (update_job i f)" "frame tb_deliveries (update_owned i owner f)"
    "frame tb_deliveries (update_work i fw)" "frame tb_deliveries (shop_audit s ty p)" "frame tb_deliveries (create_sync_run job now)"
    "frame tb_deliveries (upsert_work job item i now)"
  unfolding update_job_def update_jobs_def update_owned_def update_work_def shop_audit_def create_sync_run_def upsert_work_def
  by (auto intro!: frame_intros)

lemma frame_claim: "frame tb_deliveries (claim_tx cfg c now owner)"
  unfolding claim_tx_def Let_def by (intro frame_intros frame_basic frame_update_jobs)

lemma frame_store_page: "frame tb_deliveries (store_page_tx cfg job owner page now fresh)"
  unfolding store_page_tx_def by (intro frame_intros frame_update_jobs) (auto intro: frame_update_jobs)

lemma frame_store_messages: "frame tb_deliveries (store_messages_tx cfg job work owner known page now)"
  unfolding store_messages_tx_def
  by (cases known, simp only: prod.case) (intro frame_intros frame_basic frame_import frame_rebuild frame_update_jobs)

lemma frame_error: "frame tb_deliveries (error_tx job e now)"
  unfolding error_tx_def
  by (cases e) (auto simp del: tx_seq.simps intro!: frame_seq frame_update_jobs frame_modify)

lemma frame_jobs_changes: "frame tb_deliveries (change_job i f)" "frame tb_deliveries (create_job j)"
  unfolding change_job_def create_job_def by (auto intro!: frame_intros frame_update_jobs)

lemma keeps_lists: "keeps (list_conversations t)" "keeps (list_messages c i t)"
  unfolding list_conversations_def list_messages_def
  by (rule keeps_silent; simp add: keeps_Return keeps_Throw split: sum.split)+

lemmas keeps_steps = keeps_rules keeps_option keeps_read keeps_lists

lemma keeps_resolver: "keeps (ensureMarketplaceCreator candidate)" "keeps (ensureConversationCreator conversation)"
proof -
  show "keeps (ensureMarketplaceCreator candidate)"
    unfolding ensureMarketplaceCreator_def by (intro keeps_if keeps_Throw keeps_frame frames)
  show "keeps (ensureConversationCreator conversation)"
    unfolding ensureConversationCreator_def
    by (auto intro!: keeps_rules keeps_read keeps_frame frames split: option.split)
qed

lemma keeps_processClaimed: "keeps (processClaimed cfg i owner)"
proof -
  have audit: "keeps (auditPage s n k)" for s n k
    unfolding auditPage_def by (intro keeps_if keeps_Return keeps_frame frame_update_jobs)
  have "keeps (advanceCompletedPage cfg job owner)" for job
    unfolding advanceCompletedPage_def Let_def
    by (auto simp del: tx_seq.simps intro!: keeps_rules keeps_frame frame_seq frame_update_jobs audit split: HistorySyncPassKind.split)
  moreover have "keeps (ensureConversation item s)" for item s
    unfolding ensureConversation_def
    by (intro keeps_rules keeps_resolver keeps_read keeps_frame frame_intros frame_basic) auto
  then have "keeps (fetchMessagePage cfg job work owner)" for job work
    unfolding fetchMessagePage_def by (intro keeps_rules keeps_lists keeps_frame frame_store_messages)
  moreover have "keeps (fetchConversationPage cfg job owner)" for job
    unfolding fetchConversationPage_def by (intro keeps_rules keeps_lists keeps_frame frame_store_page)
  ultimately show ?thesis unfolding processClaimed_def by (intro keeps_rules keeps_option keeps_read) auto
qed

lemma keeps_processNext:
  assumes "keeps adapter"
  shows "keeps (processNext cfg adapter)"
proof -
  have err: "keeps (handleError i owner e)" for i owner e
    unfolding handleError_def by (intro keeps_rules keeps_option keeps_read keeps_frame frame_error)
  have audit: "claimless (shop_audit s ty p)" for s ty p
    by (intro claimless_frame frame_update_jobs)
  have claim: "claimless (tx_bind (claim_tx cfg c now owner) (\<lambda>n. tx_return (n, owner)))" for c now owner
    by (intro claimless_frame frame_bind frame_claim frame_basic)
  show ?thesis unfolding processNext_def
    by (auto intro!: keeps_rules keeps_option keeps_read keeps_processClaimed err assms audit claim claimless_basic split: prod.split)
qed

lemma keeps_controls: "keeps (startHistorySync s)" "keeps (pauseHistorySync s)" "keeps (runIncrementalNow s)" "keeps (historyStatus s)"
  unfolding startHistorySync_def pauseHistorySync_def runIncrementalNow_def historyStatus_def announced_def
  by (auto intro!: keeps_rules keeps_option keeps_read keeps_frame frame_jobs_changes frame_update_jobs)

section \<open>Runs of the import\<close>

definition ex_history_config :: HistoryConfig where
  "ex_history_config = \<lparr>hc_sha256 = rev, hc_successSpacingMs = 1000, hc_incrementalIntervalMs = 21600000, hc_incrementalPages = 3,
     hc_headEveryBackfillPages = 5, hc_leaseMs = None\<rparr>"

definition ex_history_world :: World where
  "ex_history_world = \<lparr>w_tables = ex_tables, w_jobs = [], w_requests = []\<rparr>"

definition ex_history_runs :: "(Env list \<times> unit prog) list" where
  "ex_history_runs = [(replicate 3 (ex_client ''h1''), p_then (startHistorySync ''s1'') (Return ())),
     (replicate 7 (ex_client ''h2''), p_then (processNext ex_history_config (Return ())) (Return ()))]"

definition ex_imported :: World where
  "ex_imported = fold (\<lambda>(envs, program) v. snd (p_run envs program v)) ex_history_runs ex_history_world"

lemma ex_imported_job: "map (\<lambda>j. (hj_phase j, hj_leaseOwner j, hj_totalProviderRequests j)) (tb_historyJobs (w_tables ex_imported)) = [(MESSAGES, None, 1)]"
  by code_simp

lemma history_jobs_stay_well_formed_witness:
  "jobs_ok ex_history_config (w_tables ex_imported) \<and>
   map (\<lambda>j. (hj_phase j, hj_leaseOwner j, hj_totalProviderRequests j)) (tb_historyJobs (w_tables ex_imported)) = [(MESSAGES, None, 1)]"
proof -
  have 1: "jobs_ok ex_history_config (w_tables ex_history_world)" by (simp add: ex_history_world_def ex_tables_def jobs_ok_def)
  have 2: "1 \<le> hc_headEveryBackfillPages ex_history_config" by (simp add: ex_history_config_def)
  have 3: "snd ` set ex_history_runs \<subseteq> history_programs ex_history_config"
    unfolding ex_history_runs_def history_programs_def by (simp only: list.set image_insert snd_conv image_empty) (auto intro!: exI [of _ "Return ()"])
  show ?thesis using history_jobs_stay_well_formed [OF 1 2 3] ex_imported_job unfolding ex_imported_def by blast
qed

text \<open>A job whose page is read to the end, and a provider that answers the next request with a temporary error.\<close>

definition ex_history_job :: HistoryJob where
  "ex_history_job = (new_job ''h1'' ''s1'' 0)\<lparr>hj_state := HistorySyncState.RUNNING, hj_phase := MESSAGES, hj_pendingHasMore := Some True,
     hj_pendingNextPageToken := Some ''t2'', hj_leaseOwner := Some ''me'', hj_leaseExpiresAt := Some 9000\<rparr>"

definition ex_page_read :: World where
  "ex_page_read = \<lparr>w_tables = ex_tables\<lparr>tb_historyJobs := [ex_history_job]\<rparr>, w_jobs = [], w_requests = []\<rparr>"




definition ex_refusal :: TikTokApiError where
  "ex_refusal = \<lparr>te_kind = ''TEMPORARY'', te_operation = LIST_CONVERSATIONS, te_httpStatus = Some 503, te_providerCode = None,
     te_requestId = None, te_message = [], te_retryAfterMs = Some 45000, te_nextPermittedAt = None, te_locallyBlocked = False\<rparr>"

definition ex_refused :: Tables where
  "ex_refused = (w_tables ex_page_read)\<lparr>tb_historyJobs := [backing_off ex_history_job ex_refusal 2000 ex_history_job],
     tb_audit := tb_audit (w_tables ex_page_read) @ [\<lparr>au_shopId = ''s1'', au_campaignId = None, au_eventType = ''HISTORY_BACKOFF_ENTERED'',
       au_payload = JObj [(''category'', JStr ''TEMPORARY''), (''providerCode'', JStr (publicErrorCode ex_refusal)),
         (''nextAttemptAt'', JStr (to_iso_string (backoff_until ex_history_job ex_refusal 2000)))]\<rparr>]\<rparr>"

lemma ex_refused_run: "error_tx ex_history_job (ReadError ex_refusal) 2000 (w_tables ex_page_read) = Inr ((), ex_refused)"
  by (simp add: error_tx_def isCursorInvalid_def listCursor_def truthy_def ex_history_job_def new_job_def ex_refusal_def update_job_def update_jobs_def
      find_job_def shop_audit_def ex_refused_def ex_page_read_def)

lemma failed_claim_is_released_witness:
  "\<exists>j. tb_historyJobs ex_refused = [j] \<and> hj_leaseOwner j = None \<and> hj_state j = HistorySyncState.BACKING_OFF"
proof -
  define j where "j = backing_off ex_history_job ex_refusal 2000 ex_history_job"
  have j: "j \<in> set (tb_historyJobs ex_refused)" "hj_id j = hj_id ex_history_job" by (simp_all add: ex_refused_def j_def)
  have no: "\<not> isCursorInvalid ex_history_job (ReadError ex_refusal)" by (simp add: isCursorInvalid_def ex_refusal_def)
  have temporary: "\<exists>t. ReadError ex_refusal = ReadError t \<and> te_kind t \<in> {''RATE_LIMIT'', ''TEMPORARY''}" by (simp add: ex_refusal_def)
  have "hj_leaseOwner j = None \<and> hj_state j = HistorySyncState.BACKING_OFF"
    using failed_claim_is_released [OF ex_refused_run j] unfolding if_not_P [OF no] if_P [OF temporary] by blast
  moreover have "tb_historyJobs ex_refused = [j]" by (simp add: ex_refused_def j_def)
  ultimately show ?thesis by blast
qed

text \<open>
  A pause does not outlast the page it falls into: the job that was paused while a claim ran is handed out again
  after a temporary error.
\<close>

lemma pause_is_undone_by_an_error:
  assumes "error_tx job (ReadError t) now db = Inr (u, db')" "j \<in> set (tb_historyJobs db')" "hj_id j = hj_id job"
    "te_kind t \<in> {''RATE_LIMIT'', ''TEMPORARY''}"
  shows "runnable (hj_state j)"
proof -
  obtain f where f: "tb_historyJobs db' = upd_where (\<lambda>j. hj_id j = hj_id job) f (tb_historyJobs db)"
    "(\<exists>t'. ReadError t = ReadError t' \<and> isCursorInvalid job (ReadError t) \<and> f = cursor_recovery job t' now) \<or>
     (\<exists>t'. ReadError t = ReadError t' \<and> \<not> isCursorInvalid job (ReadError t) \<and> te_kind t' \<in> {''RATE_LIMIT'', ''TEMPORARY''} \<and> f = backing_off job t' now) \<or>
     \<not> isCursorInvalid job (ReadError t) \<and> (\<forall>t'. ReadError t = ReadError t' \<longrightarrow> te_kind t' \<notin> {''RATE_LIMIT'', ''TEMPORARY''}) \<and> f = failed_job (ReadError t)"
    by (rule error_jobs [OF assms(1)])
  have "runnable (hj_state (f x))" for x
    using f(2) assms(4) by (auto simp: cursor_recovery_def backing_off_def runnable_def)
  then show ?thesis using assms(2,3) unfolding f(1) set_upd_where by (auto split: if_splits)
qed

end
