(* ===== verification/Crawl.thy ===== *)
theory Crawl
  imports Runs
begin

text \<open>
  The queue of the marketplace crawl, \<open>apps/api/src/creator-database/creator-sync.processor.ts\<close>: how finished
  partitions are expanded into narrower ones (\<open>expandReadyBranches\<close>) and how the next partition is chosen and
  claimed (\<open>claimPartition\<close>). A row the database creates gets the id \<open>fresh n\<close>, with \<open>n\<close> the number of rows
  there are; the clock does not move within a transaction.
\<close>

record CrawlConfig =
  cg_widthRules :: FollowerWidthRules
  cg_deepMinimumYield :: real
  cg_lowValueYield :: real
  cg_saturationMinRows :: int
  cg_saturationMaxRows :: int
  cg_primaryCycle :: int
  cg_g4Cadence :: int
  cg_successSpacingMs :: int
  cg_leaseMs :: "int option"
  cg_md5 :: "string \<Rightarrow> nat list"

definition V3_ADAPTIVE_GENERATION :: int where "V3_ADAPTIVE_GENERATION = 3"

definition SPECIFIC_GMV_BUCKET_CODES :: "string list" where
  "SPECIFIC_GMV_BUCKET_CODES = map gb_code CREATOR_GMV_BUCKETS"

definition specific_code :: "SearchPartition \<Rightarrow> bool" where
  "specific_code p \<longleftrightarrow> (case pt_gmvBucket p of None \<Rightarrow> False | Some b \<Rightarrow> b \<in> set SPECIFIC_GMV_BUCKET_CODES)"

definition is_specific :: "SearchPartition \<Rightarrow> bool" where
  "is_specific p \<longleftrightarrow> isSpecificGmvPartition (pt_gmvBucket p) (pt_gmvRange p)"

definition is_production :: "SearchPartition \<Rightarrow> bool" where
  "is_production p \<longleftrightarrow> (case pt_partitionType p of Production _ \<Rightarrow> True | _ \<Rightarrow> False)"

section \<open>Rows\<close>

abbreviation partitions :: "Tables \<Rightarrow> SearchPartition list" where "partitions db \<equiv> cw_partitions (tb_crawl db)"

definition on_crawl :: "(CrawlTables \<Rightarrow> CrawlTables) \<Rightarrow> unit tx" where
  "on_crawl f = tx_modify (\<lambda>db. db\<lparr>tb_crawl := f (tb_crawl db)\<rparr>)"

definition find_partition :: "ident \<Rightarrow> Tables \<Rightarrow> SearchPartition option" where
  "find_partition i db = List.find (\<lambda>p. pt_id p = i) (partitions db)"

definition update_partitions :: "(SearchPartition \<Rightarrow> bool) \<Rightarrow> (SearchPartition \<Rightarrow> SearchPartition) \<Rightarrow> unit tx" where
  "update_partitions P f = on_crawl (\<lambda>c. c\<lparr>cw_partitions := upd_where P f (cw_partitions c)\<rparr>)"

definition update_partition :: "ident \<Rightarrow> (SearchPartition \<Rightarrow> SearchPartition) \<Rightarrow> unit tx" where
  "update_partition i f = tx_bind (tx_bind (tx_read (find_partition i)) tx_found) (\<lambda>_. update_partitions (\<lambda>p. pt_id p = i) f)"

definition log_sync_event :: "SyncEvent \<Rightarrow> unit tx" where
  "log_sync_event e = on_crawl (\<lambda>c. c\<lparr>cw_events := cw_events c @ [e]\<rparr>)"

definition new_event :: "ident \<Rightarrow> string \<Rightarrow> millis \<Rightarrow> SyncEvent" where
  "new_event job stage occurredAt = \<lparr>se_creatorSyncJobId = job, se_creatorSearchPartitionId = None, se_partitionKey = None,
     se_partitionLabel = None, se_stage = stage, se_pageNumber = None, se_httpStatus = None, se_tiktokCode = None,
     se_googleApiCode = None, se_retryable = None, se_safeMessage = None, se_creatorsReturned = None, se_creatorsAdded = None,
     se_duplicates = None, se_nextAttemptAt = None, se_occurredAt = occurredAt\<rparr>"

definition label_of :: "SearchPartition \<Rightarrow> string" where
  "label_of p = partitionLabel (pt_categoryName p) (pt_categoryChildName p) (pt_followersMin p) (pt_followersMax p) (pt_gmvBucket p)"

definition about_partition :: "SearchPartition option \<Rightarrow> SyncEvent \<Rightarrow> SyncEvent" where
  "about_partition p e = e\<lparr>se_creatorSearchPartitionId := map_option pt_id p, se_partitionKey := map_option pt_partitionKey p,
     se_partitionLabel := map_option label_of p\<rparr>"

text \<open>\<open>createMany\<close> with \<open>skipDuplicates\<close>: a row whose id is taken, or whose key is taken within its job, is left out.\<close>

definition collides :: "SearchPartition \<Rightarrow> SearchPartition \<Rightarrow> bool" where
  "collides p q \<longleftrightarrow> pt_id q = pt_id p \<or> pt_creatorSyncJobId q = pt_creatorSyncJobId p \<and> pt_partitionKey q = pt_partitionKey p"

definition insert_partition :: "(nat \<Rightarrow> ident) \<Rightarrow> SearchPartition \<Rightarrow> int tx" where
  "insert_partition fresh p =
    tx_bind (tx_read (\<lambda>db. p\<lparr>pt_id := fresh (length (partitions db))\<rparr>)) (\<lambda>row.
    tx_bind (tx_read (\<lambda>db. list_ex (collides row) (partitions db))) (\<lambda>clash.
    if clash then tx_return 0
    else tx_bind (on_crawl (\<lambda>c. c\<lparr>cw_partitions := cw_partitions c @ [row]\<rparr>)) (\<lambda>_. tx_return 1)))"

fun create_partitions :: "(nat \<Rightarrow> ident) \<Rightarrow> SearchPartition list \<Rightarrow> int tx" where
  "create_partitions fresh [] = tx_return 0"
| "create_partitions fresh (p # ps) = tx_bind (insert_partition fresh p) (\<lambda>n.
     tx_bind (create_partitions fresh ps) (\<lambda>m. tx_return (n + m)))"

section \<open>Expansion\<close>

definition numericYield :: "SearchPartition \<Rightarrow> real option" where
  "numericYield p = or_else (pt_incrementalYield p) (pt_originalYield p)"

definition new_per_page :: "SearchPartition \<Rightarrow> real option" where
  "new_per_page p = (if pt_pagesCompleted p \<noteq> 0 then Some (of_int (pt_uniqueCreatorsAdded p) / of_int (pt_pagesCompleted p)) else None)"

definition no_evidence :: ProductivityEvidence where
  "no_evidence = \<lparr>pe_rows = 0, pe_newCreators = 0, pe_yield = None\<rparr>"

definition childPriority :: "SearchPartition \<Rightarrow> int \<Rightarrow> ProductionPartitionType \<Rightarrow> SchedulerPriority" where
  "childPriority parent depth partitionType = scoreSchedulerPriority
     \<lparr>sp_partitionType = partitionType, sp_adaptiveDepth = depth,
      sp_branchClassification = (if pt_partitionType parent = Production V2_SEED then UNCLASSIFIED else pt_branchClassification parent),
      sp_expectedYield = numericYield parent, sp_expectedNewPerSuccessfulPage = new_per_page parent,
      sp_observedSaturated = (pt_observedSaturationState parent = OBSERVED_SATURATED),
      sp_evidenceRows = Some (of_int (pt_rowsReturned parent)), sp_gmvBucket = pt_gmvBucket parent,
      sp_categoryEvidence = no_evidence, sp_followerEvidence = no_evidence, sp_globalEvidence = no_evidence\<rparr>"

definition no_scheduler :: SchedulerColumns where
  "no_scheduler = \<lparr>sd_class = None, sd_claimSequence = None, sd_categoryRows = None, sd_categoryYield = None, sd_categoryWeight = None,
     sd_followerRows = None, sd_followerYield = None, sd_followerWeight = None, sd_ancestorYield = None,
     sd_newPerSuccessfulPage = None, sd_familyKey = None, sd_g1G2FirstBucket = None, sd_wasFirstG1G2Sibling = False,
     sd_isG4Probe = False, sd_wasCategoryExploration = False, sd_coverageMode = False\<rparr>"

definition no_split :: SplitColumns where
  "no_split = \<lparr>sl_decisionReason = None, sl_parentRows = None, sl_parentUniqueRate = None, sl_parentNewPerPage = None,
     sl_parentObservedSaturated = None\<rparr>"

text \<open>A row with the defaults of the schema; \<open>key\<close>, \<open>name\<close> and \<open>position\<close> have none.\<close>

definition blank_partition :: "ident \<Rightarrow> string \<Rightarrow> string \<Rightarrow> int \<Rightarrow> SearchPartition" where
  "blank_partition job key name position = \<lparr>pt_id = [], pt_creatorSyncJobId = job, pt_partitionKey = key, pt_generation = 1,
     pt_partitionType = LEGACY, pt_adaptiveDepth = 0, pt_categoryId = None, pt_categoryName = name, pt_categoryChildId = None,
     pt_categoryChildName = None, pt_categoryChildIds = [], pt_followerBucket = None, pt_followersMin = None, pt_followersMax = None,
     pt_gmvBucket = None, pt_gmvRange = None, pt_parentPartitionId = None, pt_status = PartitionStatus.QUEUED,
     pt_queuePosition = position, pt_searchKey = None, pt_nextPageToken = None, pt_pagesCompleted = 0, pt_rowsReturned = 0,
     pt_uniqueCreatorsAdded = 0, pt_duplicates = 0, pt_marketplaceRequests = 0, pt_throttleAttempts = 0,
     pt_newCreatorsPerRequest = None, pt_duplicateRate = None, pt_originalYield = None, pt_incrementalYield = None,
     pt_combinedChildIncrementalYield = None, pt_observedSaturationState = UNKNOWN_SATURATION,
     pt_branchClassification = UNCLASSIFIED, pt_mayStillBeDense = False, pt_followerSplitExplored = False,
     pt_followerRecursionTerminal = False, pt_followerRecursionStopReason = None, pt_gmvSplitCreated = False,
     pt_priorityScore = 0, pt_priorityReason = None, pt_priorityUpdatedAt = None, pt_scheduler = no_scheduler,
     pt_split = no_split, pt_businessRetryCount = 0, pt_businessRetryPage = None, pt_startedAt = None, pt_completedAt = None,
     pt_lastRequestAt = None, pt_lastSuccessAt = None, pt_lastError = None\<rparr>"

definition new_child :: "SearchPartition \<Rightarrow> int \<Rightarrow> bounds \<Rightarrow> SchedulerPriority \<Rightarrow> string \<Rightarrow> millis \<Rightarrow> SearchPartition" where
  "new_child parent k bound priority reason now =
    (blank_partition (pt_creatorSyncJobId parent) (adaptiveFollowerPartitionKey (pt_partitionKey parent) (fst bound) (snd bound))
      (pt_categoryName parent) (pt_queuePosition parent * 100 + (k + 1)))
    \<lparr>pt_generation := V3_ADAPTIVE_GENERATION, pt_partitionType := Production ADAPTIVE_FOLLOWER,
     pt_adaptiveDepth := pt_adaptiveDepth parent + 1, pt_categoryId := pt_categoryId parent,
     pt_categoryChildId := pt_categoryChildId parent, pt_categoryChildName := pt_categoryChildName parent,
     pt_categoryChildIds := pt_categoryChildIds parent, pt_followersMin := Some (fst bound), pt_followersMax := Some (snd bound),
     pt_parentPartitionId := Some (pt_id parent), pt_gmvBucket := pt_gmvBucket parent, pt_gmvRange := pt_gmvRange parent,
     pt_status := (if pt_gmvBucket parent = Some ''G4'' then PartitionStatus.EXPERIMENT_ONLY else PartitionStatus.QUEUED),
     pt_priorityScore := pr_score priority, pt_priorityReason := Some (pr_reason priority), pt_priorityUpdatedAt := Some now,
     pt_split := \<lparr>sl_decisionReason = Some reason, sl_parentRows = Some (pt_rowsReturned parent),
       sl_parentUniqueRate = Some (ratio (pt_uniqueCreatorsAdded parent) (pt_rowsReturned parent)),
       sl_parentNewPerPage = Some (ratio (pt_uniqueCreatorsAdded parent) (pt_pagesCompleted parent)),
       sl_parentObservedSaturated = Some (pt_observedSaturationState parent = OBSERVED_SATURATED)\<rparr>\<rparr>"

definition gmv_combination :: "SearchPartition \<Rightarrow> string option" where
  "gmv_combination p = specificGmvCombinationKey (pt_categoryId p) (pt_categoryChildId p) (pt_followersMin p) (pt_followersMax p) (pt_gmvBucket p)"

definition child_key :: "SearchPartition \<Rightarrow> bounds \<Rightarrow> string option" where
  "child_key parent bound = specificGmvCombinationKey (pt_categoryId parent) (pt_categoryChildId parent)
     (Some (fst bound)) (Some (snd bound)) (pt_gmvBucket parent)"

definition existing_children :: "SearchPartition \<Rightarrow> bounds list \<Rightarrow> Tables \<Rightarrow> SearchPartition list" where
  "existing_children parent bs db = filter (\<lambda>p. pt_creatorSyncJobId p = pt_creatorSyncJobId parent \<and>
     pt_categoryId p = pt_categoryId parent \<and> pt_categoryChildId p = pt_categoryChildId parent \<and> pt_gmvBucket p = pt_gmvBucket parent \<and>
     pt_followersMin p \<in> Some ` fst ` set bs \<and> pt_followersMax p \<in> Some ` snd ` set bs) (partitions db)"

definition range_text :: "bounds \<Rightarrow> string" where
  "range_text b = to_locale_string (fst b) @ en_dash @ to_locale_string (snd b)"

definition split_event :: "SearchPartition \<Rightarrow> bounds \<times> bounds \<Rightarrow> string \<Rightarrow> millis \<Rightarrow> SyncEvent" where
  "split_event parent bs reason now = about_partition (Some parent)
     ((new_event (pt_creatorSyncJobId parent) ''ADAPTIVE_SPLIT_CREATED'' now)
       \<lparr>se_safeMessage := Some (reason @ '': '' @ range_text (fst bs) @ '' '' @ right_arrow @ '' '' @ range_text (snd bs))\<rparr>)"

definition createFollowerChildren :: "(nat \<Rightarrow> ident) \<Rightarrow> millis \<Rightarrow> SearchPartition \<Rightarrow> bounds \<times> bounds \<Rightarrow> string \<Rightarrow> int tx" where
  "createFollowerChildren fresh now parent bs reason =
    (let priority = childPriority parent (pt_adaptiveDepth parent + 1) ADAPTIVE_FOLLOWER; both = [fst bs, snd bs]
     in if \<not> is_specific parent then tx_throw (PlainError ''Follower recursion requires a specific documented GMV branch'')
        else tx_bind (tx_read (existing_children parent both)) (\<lambda>existing.
          tx_bind (create_partitions fresh (map (\<lambda>(k, b). new_child parent k b priority reason now)
            (filter (\<lambda>(k, b). child_key parent b \<notin> set (map gmv_combination existing)) [(0, fst bs), (1, snd bs)]))) (\<lambda>created.
          tx_bind (update_partition (pt_id parent) (\<lambda>p. p\<lparr>pt_followerSplitExplored := True\<rparr>)) (\<lambda>_.
          tx_bind (if created \<noteq> 0 then log_sync_event (split_event parent bs reason now) else tx_return ()) (\<lambda>_.
          tx_return created)))))"

definition expansionFor :: "CrawlConfig \<Rightarrow> SearchPartition \<Rightarrow> AdaptiveExpansion" where
  "expansionFor cfg p = (case (pt_followersMin p, pt_partitionType p) of
     (Some lo, Production t) \<Rightarrow> adaptiveExpansion
       \<lparr>ei_partitionType = t, ei_observedSaturationState = pt_observedSaturationState p, ei_followersMin = lo,
        ei_followersMax = pt_followersMax p, ei_yield = numericYield p, ei_rowsReturned = pt_rowsReturned p,
        ei_successfulPages = pt_pagesCompleted p, ei_uniqueCreatorsAdded = pt_uniqueCreatorsAdded p,
        ei_followerSplitExplored = pt_followerSplitExplored p, ei_followerRecursionTerminal = pt_followerRecursionTerminal p,
        ei_gmvSplitCreated = pt_gmvSplitCreated p, ei_gmvBucket = pt_gmvBucket p, ei_gmvRange = pt_gmvRange p\<rparr>
       (cg_widthRules cfg) (cg_deepMinimumYield cfg) DEFAULT_BRANCH_EVIDENCE_MIN_ROWS
   | _ \<Rightarrow> NoExpansion ''NOT_PRODUCTION_FOLLOWER_BRANCH'')"

definition expand_one :: "CrawlConfig \<Rightarrow> (nat \<Rightarrow> ident) \<Rightarrow> millis \<Rightarrow> SearchPartition \<Rightarrow> unit tx" where
  "expand_one cfg fresh now p = (case expansionFor cfg p of
     ExpandFollower bs reason \<Rightarrow> tx_bind (createFollowerChildren fresh now p bs reason) (\<lambda>_. tx_return ())
   | NoExpansion reason \<Rightarrow> update_partition (pt_id p)
       (\<lambda>q. q\<lparr>pt_followerRecursionTerminal := True, pt_followerRecursionStopReason := Some reason\<rparr>))"

definition unexplored :: "SearchPartition \<Rightarrow> bool" where
  "unexplored p \<longleftrightarrow> \<not> pt_followerSplitExplored p \<and> \<not> pt_followerRecursionTerminal p \<and> \<not> pt_gmvSplitCreated p"

definition ready_seeds :: "ident \<Rightarrow> Tables \<Rightarrow> SearchPartition list" where
  "ready_seeds job db = filter (\<lambda>p. pt_creatorSyncJobId p = job \<and> pt_partitionType p = Production V2_SEED \<and> specific_code p \<and>
     pt_status p \<in> {PartitionStatus.COMPLETE, SPLIT} \<and> unexplored p) (partitions db)"

definition finished :: "SearchPartition \<Rightarrow> bool" where
  "finished p \<longleftrightarrow> pt_status p \<in> {PartitionStatus.COMPLETE, SPLIT, DEEPLY_SATURATED}"

definition ready_children :: "ident \<Rightarrow> Tables \<Rightarrow> SearchPartition list" where
  "ready_children job db = filter (\<lambda>p. pt_creatorSyncJobId p = job \<and> pt_partitionType p = Production ADAPTIVE_FOLLOWER \<and>
     specific_code p \<and> finished p \<and> unexplored p \<and> pt_parentPartitionId p \<noteq> None) (partitions db)"

text \<open>A \<open>Set\<close> keeps the first of equal elements.\<close>

definition as_set :: "'a list \<Rightarrow> 'a list" where "as_set xs = rev (remdups (rev xs))"

definition ready_parents :: "ident \<Rightarrow> Tables \<Rightarrow> ident list" where
  "ready_parents job db = as_set (map (\<lambda>p. the (pt_parentPartitionId p)) (ready_children job db))"

text \<open>PostgreSQL sorts a missing value last.\<close>

definition sibling_cmp :: "SearchPartition \<Rightarrow> SearchPartition \<Rightarrow> int" where
  "sibling_cmp = cmp_then (cmp_by (\<lambda>p. if pt_followersMin p = None then 1 else 0 :: int))
     (cmp_then (cmp_by (\<lambda>p. case pt_followersMin p of None \<Rightarrow> 0 | Some lo \<Rightarrow> lo)) (\<lambda>a b. locale_compare (pt_id a) (pt_id b)))"

definition siblings_of :: "ident \<Rightarrow> ident \<Rightarrow> Tables \<Rightarrow> SearchPartition list" where
  "siblings_of job parentId db = js_sort sibling_cmp (filter (\<lambda>p. pt_creatorSyncJobId p = job \<and>
     pt_parentPartitionId p = Some parentId \<and> pt_partitionType p = Production ADAPTIVE_FOLLOWER) (partitions db))"

definition combined_yield :: "SearchPartition list \<Rightarrow> real" where
  "combined_yield ps = combinedIncrementalYield (map (\<lambda>p. (pt_rowsReturned p, pt_uniqueCreatorsAdded p)) ps)"

definition low_value :: "CrawlConfig \<Rightarrow> SearchPartition list \<Rightarrow> bool" where
  "low_value cfg ps \<longleftrightarrow> list_all (\<lambda>p. pt_rowsReturned p \<ge> 200) ps \<and>
     list_all (\<lambda>p. pt_rowsReturned p > 0 \<and> of_int (pt_uniqueCreatorsAdded p) / of_int (pt_rowsReturned p) < cg_lowValueYield cfg) ps \<and>
     combined_yield ps < cg_lowValueYield cfg"

text \<open>\<open>toFixed(2)\<close> of a number that is not negative.\<close>

definition to_fixed_2 :: "real \<Rightarrow> string" where
  "to_fixed_2 x = (let n = \<lfloor>x * 100 + 1 / 2\<rfloor> in show_int (n div 100) @ ''.'' @ pad_left 2 (CHR ''0'') (show_int (n mod 100)))"

definition low_value_event :: "ident \<Rightarrow> SearchPartition \<Rightarrow> real \<Rightarrow> millis \<Rightarrow> SyncEvent" where
  "low_value_event job parent combined now = about_partition (Some parent) ((new_event job ''ADAPTIVE_BRANCH_LOW_VALUE'' now)
     \<lparr>se_safeMessage := Some (''Branch low-value '' @ em_dash @ '' follower recursion stopped ('' @ to_fixed_2 (combined * 100)
       @ ''% combined incremental yield)'')\<rparr>)"

definition expand_siblings :: "CrawlConfig \<Rightarrow> (nat \<Rightarrow> ident) \<Rightarrow> millis \<Rightarrow> ident \<Rightarrow> ident \<Rightarrow> unit tx" where
  "expand_siblings cfg fresh now job parentId =
    tx_bind (tx_read (siblings_of job parentId)) (\<lambda>siblings.
    if length siblings \<noteq> 2 \<or> list_ex (\<lambda>p. \<not> finished p) siblings then tx_return ()
    else tx_bind (update_partition parentId (\<lambda>p. p\<lparr>pt_combinedChildIncrementalYield := Some (combined_yield siblings),
        pt_branchClassification := classifyIncrementalYield (Some (Fin (combined_yield siblings))),
        pt_followerRecursionTerminal := low_value cfg siblings\<rparr>)) (\<lambda>_.
      tx_bind (tx_bind (tx_read (find_partition parentId)) tx_found) (\<lambda>parent.
      if low_value cfg siblings then tx_seq [
        update_partitions (\<lambda>p. pt_id p \<in> pt_id ` set siblings) (\<lambda>p. p\<lparr>pt_followerRecursionTerminal := True,
          pt_followerRecursionStopReason := Some ''BOTH_CHILDREN_BELOW_FIVE_PERCENT''\<rparr>),
        log_sync_event (low_value_event job parent (combined_yield siblings) now)]
      else tx_each (expand_one cfg fresh now) siblings)))"

definition expandReadyBranches :: "CrawlConfig \<Rightarrow> (nat \<Rightarrow> ident) \<Rightarrow> millis \<Rightarrow> ident \<Rightarrow> unit tx" where
  "expandReadyBranches cfg fresh now job =
    tx_bind (tx_read (ready_seeds job)) (\<lambda>seeds.
    tx_bind (tx_each (expand_one cfg fresh now) seeds) (\<lambda>_.
    tx_bind (tx_read (ready_parents job)) (\<lambda>parents.
    tx_each (expand_siblings cfg fresh now job) parents)))"

definition prepareAdaptiveQueue :: "CrawlConfig \<Rightarrow> ident \<Rightarrow> unit prog" where
  "prepareAdaptiveQueue cfg job = transact (\<lambda>env. expandReadyBranches cfg (e_fresh env) (e_now env) job)"

section \<open>The next partition\<close>

abbreviation categories :: "Tables \<Rightarrow> MarketplaceCategory list" where "categories db \<equiv> cw_categories (tb_crawl db)"

abbreviation sync_jobs :: "Tables \<Rightarrow> SyncJob list" where "sync_jobs db \<equiv> cw_jobs (tb_crawl db)"

definition update_sync_jobs :: "(SyncJob \<Rightarrow> bool) \<Rightarrow> (SyncJob \<Rightarrow> SyncJob) \<Rightarrow> unit tx" where
  "update_sync_jobs P f = on_crawl (\<lambda>c. c\<lparr>cw_jobs := upd_where P f (cw_jobs c)\<rparr>)"

definition holds_lease :: "ident \<Rightarrow> ident \<Rightarrow> SyncJob \<Rightarrow> bool" where
  "holds_lease i lease j \<longleftrightarrow> cj_id j = i \<and> cj_leaseId j = Some lease"

definition leased_job :: "ident \<Rightarrow> ident \<Rightarrow> Tables \<Rightarrow> SyncJob option" where
  "leased_job i lease db = List.find (holds_lease i lease) (sync_jobs db)"

definition queue_cmp :: "SearchPartition \<Rightarrow> SearchPartition \<Rightarrow> int" where
  "queue_cmp = cmp_then (cmp_by pt_queuePosition) (\<lambda>a b. locale_compare (pt_id a) (pt_id b))"

definition is_g4 :: "SearchPartition \<Rightarrow> bool" where "is_g4 p \<longleftrightarrow> pt_gmvBucket p = Some ''G4''"

text \<open>A partition a job goes on with: one of a documented bucket that was started, and of Very High only a probe.\<close>

definition resumable :: "SearchPartition \<Rightarrow> bool" where
  "resumable p \<longleftrightarrow> is_specific p \<and>
     pt_status p \<in> {STARTING, PartitionStatus.RUNNING, WAITING_RETRY, PartitionStatus.PAUSED} \<and>
     (is_g4 p \<longrightarrow> sd_isG4Probe (pt_scheduler p))"

subsection \<open>Families of seeds and the category catalog\<close>

definition family_key :: "SearchPartition \<Rightarrow> string option" where
  "family_key p = or_else (sd_familyKey (pt_scheduler p))
     (g1G2FamilyKey (pt_categoryId p) (pt_categoryChildId p) (pt_followersMin p) (pt_followersMax p))"

definition primary_family_rows :: "ident \<Rightarrow> Tables \<Rightarrow> SearchPartition list" where
  "primary_family_rows job db = js_sort queue_cmp (filter (\<lambda>p. pt_creatorSyncJobId p = job \<and>
     pt_partitionType p = Production V2_SEED \<and> pt_gmvBucket p \<in> {Some ''G1'', Some ''G2''}) (partitions db))"

definition family_touched :: "SearchPartition list \<Rightarrow> string \<Rightarrow> bool" where
  "family_touched rows key \<longleftrightarrow> list_ex (\<lambda>r. family_key r = Some key \<and> (pt_startedAt r \<noteq> None \<or> pt_status r \<noteq> PartitionStatus.QUEUED)) rows"

definition family_buckets :: "SearchPartition list \<Rightarrow> string \<Rightarrow> string option list" where
  "family_buckets rows key = remdups (map pt_gmvBucket (filter (\<lambda>r. family_key r = Some key) rows))"

definition valid_parent :: "MarketplaceCategory list \<Rightarrow> ident \<Rightarrow> MarketplaceCategory option" where
  "valid_parent cats i = List.find (\<lambda>c. mc_categoryId c = i \<and> mc_parentCategoryId c = None \<and> mc_enabledForCreatorCrawl c \<and>
     mc_availableForCreatorFilter c) cats"

definition is_valid_child :: "MarketplaceCategory list \<Rightarrow> MarketplaceCategory \<Rightarrow> bool" where
  "is_valid_child cats c \<longleftrightarrow> mc_availableForCreatorFilter c \<and>
     (case mc_parentCategoryId c of None \<Rightarrow> False | Some p \<Rightarrow> valid_parent cats p \<noteq> None)"

definition valid_child :: "MarketplaceCategory list \<Rightarrow> ident \<Rightarrow> MarketplaceCategory option" where
  "valid_child cats i = List.find (\<lambda>c. mc_categoryId c = i \<and> is_valid_child cats c) cats"

definition valid_seed :: "MarketplaceCategory list \<Rightarrow> SearchPartition \<Rightarrow> bool" where
  "valid_seed cats p \<longleftrightarrow> truthy (pt_categoryId p) \<and> truthy (pt_categoryChildId p) \<and>
     valid_parent cats (the (pt_categoryId p)) \<noteq> None \<and>
     (case valid_child cats (the (pt_categoryChildId p)) of None \<Rightarrow> False | Some c \<Rightarrow> mc_parentCategoryId c = pt_categoryId p) \<and>
     pt_categoryChildIds p = [the (pt_categoryChildId p)] \<and>
     (case pt_followersMin p of None \<Rightarrow> False | Some lo \<Rightarrow> (case pt_followersMax p of None \<Rightarrow> True | Some hi \<Rightarrow> lo \<le> hi))"

text \<open>Of an untouched family with both buckets only the seed of the designated bucket may start.\<close>

definition eligible_seed :: "CrawlConfig \<Rightarrow> MarketplaceCategory list \<Rightarrow> SearchPartition list \<Rightarrow> SearchPartition \<Rightarrow> bool" where
  "eligible_seed cfg cats rows p \<longleftrightarrow> pt_status p = PartitionStatus.QUEUED \<and> valid_seed cats p \<and>
     (\<not> truthy (family_key p) \<or> family_touched rows (the (family_key p)) \<or> length (family_buckets rows (the (family_key p))) \<noteq> 2 \<or>
      pt_gmvBucket p = or_else (sd_g1G2FirstBucket (pt_scheduler p)) (Some (designatedFirstG1G2Bucket (cg_md5 cfg) (the (family_key p)))))"

definition malformed_seed :: "MarketplaceCategory list \<Rightarrow> SearchPartition \<Rightarrow> bool" where
  "malformed_seed cats p \<longleftrightarrow> pt_status p = PartitionStatus.QUEUED \<and> \<not> valid_seed cats p"

definition sampled_children :: "MarketplaceCategory list \<Rightarrow> ident \<Rightarrow> int" where
  "sampled_children cats parentId = count_where (\<lambda>c. is_valid_child cats c \<and> mc_creatorFirstSampledAt c \<noteq> None \<and>
     mc_parentCategoryId c = Some parentId) cats"

definition coverage_candidate :: "MarketplaceCategory list \<Rightarrow> SearchPartition \<Rightarrow> SearchPartition CategoryExplorationCandidate" where
  "coverage_candidate cats p =
    (let parent = the (valid_parent cats (the (pt_categoryId p))); child = the (valid_child cats (the (pt_categoryChildId p)))
     in \<lparr>ce_candidate = p, ce_id = pt_id p, ce_categoryId = the (pt_categoryId p), ce_categoryChildId = the (pt_categoryChildId p),
       ce_queuePosition = pt_queuePosition p, ce_parentSampledChildren = sampled_children cats (the (pt_categoryId p)),
       ce_parentLastExplorationClaimAt = mc_creatorLastExplorationClaimAt parent, ce_parentSortOrder = mc_sortOrder parent,
       ce_childFirstSampledAt = mc_creatorFirstSampledAt child, ce_childLastSampledAt = mc_creatorLastSampledAt child,
       ce_childLastExplorationClaimAt = mc_creatorLastExplorationClaimAt child, ce_childSortOrder = mc_sortOrder child\<rparr>)"

definition coverage_mode :: "SearchPartition CategoryExplorationCandidate list \<Rightarrow> CategoryCoverageMode" where
  "coverage_mode candidates = (if list_ex (\<lambda>c. ce_childFirstSampledAt c = None) candidates then COVERAGE else BALANCED)"

subsection \<open>Candidates and their scores\<close>

record Candidate =
  cd_partition :: SearchPartition
  cd_category :: ProductivityEvidence
  cd_follower :: ProductivityEvidence
  cd_expectedYield :: "real option"
  cd_expectedNew :: "real option"

definition with_parent :: "Tables \<Rightarrow> SearchPartition \<Rightarrow> SearchPartition \<times> SearchPartition option" where
  "with_parent db p = (p, Option.bind (pt_parentPartitionId p) (\<lambda>i. find_partition i db))"

definition adaptive_rows :: "ident \<Rightarrow> string list \<Rightarrow> PartitionStatus \<Rightarrow> Tables \<Rightarrow> SearchPartition list" where
  "adaptive_rows job codes status db = filter (\<lambda>p. pt_creatorSyncJobId p = job \<and> pt_status p = status \<and>
     pt_partitionType p \<in> {Production ADAPTIVE_FOLLOWER, Production ADAPTIVE_GMV} \<and> (\<exists>b \<in> set codes. pt_gmvBucket p = Some b))
     (partitions db)"

definition first_seed :: "ident \<Rightarrow> string \<Rightarrow> PartitionStatus \<Rightarrow> Tables \<Rightarrow> SearchPartition option" where
  "first_seed job code status db = first_of (js_sort queue_cmp (filter (\<lambda>p. pt_creatorSyncJobId p = job \<and>
     pt_partitionType p = Production V2_SEED \<and> pt_gmvBucket p = Some code \<and> pt_status p = status) (partitions db)))"

definition exceptional :: "SearchPartition \<times> SearchPartition option \<Rightarrow> bool" where
  "exceptional c = (let evidence = (case snd c of Some q \<Rightarrow> q | None \<Rightarrow> fst c)
     in pt_rowsReturned evidence \<ge> 200 \<and> ratio (pt_uniqueCreatorsAdded evidence) (pt_rowsReturned evidence) \<ge> 1 / 10 \<and>
        ratio (pt_uniqueCreatorsAdded evidence) (pt_pagesCompleted evidence) \<ge> 4)"

definition g4_probe :: "ident \<Rightarrow> Tables \<Rightarrow> (SearchPartition \<times> SearchPartition option) option" where
  "g4_probe job db = or_else
     (List.find exceptional (map (with_parent db) (js_sort queue_cmp (adaptive_rows job [''G4''] PartitionStatus.EXPERIMENT_ONLY db))))
     (map_option (\<lambda>p. (p, None)) (first_seed job ''G4'' PartitionStatus.EXPERIMENT_ONLY db))"

definition observation :: "SearchPartition \<Rightarrow> SchedulerObservation" where
  "observation p = \<lparr>so_categoryChildId = pt_categoryChildId p, so_followersMin = pt_followersMin p, so_followersMax = pt_followersMax p,
     so_gmvBucket = pt_gmvBucket p, so_rowsReturned = of_int (pt_rowsReturned p),
     so_uniqueCreatorsAdded = of_int (pt_uniqueCreatorsAdded p), so_lastSuccessAt = pt_lastSuccessAt p\<rparr>"

definition observations :: "ident \<Rightarrow> Tables \<Rightarrow> SchedulerObservation list" where
  "observations job db = map observation (filter (\<lambda>p. pt_creatorSyncJobId p = job \<and> is_production p \<and> specific_code p \<and>
     finished p \<and> pt_rowsReturned p > 0) (partitions db))"

definition production_type :: "SearchPartition \<Rightarrow> ProductionPartitionType" where
  "production_type p = (case pt_partitionType p of Production t \<Rightarrow> t | _ \<Rightarrow> ADAPTIVE_GMV)"

definition parent_yield :: "SearchPartition option \<Rightarrow> real option" where
  "parent_yield parent = Option.bind parent (\<lambda>q. or_else (numericYield q) (pt_combinedChildIncrementalYield q))"

definition scoreCandidate :: "millis \<Rightarrow> SchedulerObservation list \<Rightarrow> SearchPartition \<times> SearchPartition option \<Rightarrow> Candidate ScoredSchedulerCandidate" where
  "scoreCandidate now obs c =
    (let p = fst c; parent = snd c;
         category = categoryEvidence obs (pt_categoryChildId p) now (pt_gmvBucket p);
         follower = followerEvidence obs (pt_followersMin p) (pt_followersMax p) now (pt_gmvBucket p);
         expectedYield = or_else (numericYield p) (parent_yield parent);
         expectedNew = (if pt_pagesCompleted p > 0 then new_per_page p
           else Option.bind parent (\<lambda>q. if pt_pagesCompleted q > 0 then new_per_page q else None))
     in \<lparr>sc_candidate = \<lparr>cd_partition = p, cd_category = category, cd_follower = follower,
           cd_expectedYield = expectedYield, cd_expectedNew = expectedNew\<rparr>,
         sc_priority = scoreSchedulerPriority
           \<lparr>sp_partitionType = production_type p, sp_adaptiveDepth = pt_adaptiveDepth p,
            sp_branchClassification = (case parent of
               Some q \<Rightarrow> if pt_branchClassification p = UNCLASSIFIED \<and> pt_partitionType q \<noteq> Production V2_SEED
                 then pt_branchClassification q else pt_branchClassification p
             | None \<Rightarrow> pt_branchClassification p),
            sp_expectedYield = expectedYield, sp_expectedNewPerSuccessfulPage = expectedNew,
            sp_observedSaturated = (pt_observedSaturationState (case parent of Some q \<Rightarrow> q | None \<Rightarrow> p) = OBSERVED_SATURATED),
            sp_evidenceRows = Some (of_int (if pt_rowsReturned p > 0 then pt_rowsReturned p
              else case parent of Some q \<Rightarrow> pt_rowsReturned q | None \<Rightarrow> 0)),
            sp_gmvBucket = pt_gmvBucket p, sp_categoryEvidence = category, sp_followerEvidence = follower,
            sp_globalEvidence = aggregateEvidence (if truthy (pt_gmvBucket p)
              then filter (\<lambda>ob. so_gmvBucket ob = pt_gmvBucket p) obs else []) now (\<lambda>_. 1)\<rparr>,
         sc_queuePosition = pt_queuePosition p, sc_id = pt_id p, sc_gmvBucket = pt_gmvBucket p\<rparr>)"

subsection \<open>The choice\<close>

record ClaimChoice =
  ch_selected :: "Candidate ScoredSchedulerCandidate option"
  ch_slot :: SchedulerSlot
  ch_mode :: CategoryCoverageMode
  ch_exploration :: bool

definition shop_categories :: "ident \<Rightarrow> Tables \<Rightarrow> MarketplaceCategory list" where
  "shop_categories shopId db = filter (\<lambda>c. mc_shopId c = shopId) (categories db)"

definition eligible_seeds :: "CrawlConfig \<Rightarrow> SyncJob \<Rightarrow> Tables \<Rightarrow> SearchPartition list" where
  "eligible_seeds cfg job db = (let rows = primary_family_rows (cj_id job) db
     in filter (eligible_seed cfg (shop_categories (cj_shopId job) db) rows) rows)"

definition coverage_candidates :: "CrawlConfig \<Rightarrow> SyncJob \<Rightarrow> Tables \<Rightarrow> SearchPartition CategoryExplorationCandidate list" where
  "coverage_candidates cfg job db = map (coverage_candidate (shop_categories (cj_shopId job) db)) (eligible_seeds cfg job db)"

definition job_coverage_mode :: "CrawlConfig \<Rightarrow> SyncJob \<Rightarrow> Tables \<Rightarrow> CategoryCoverageMode" where
  "job_coverage_mode cfg job db = coverage_mode (coverage_candidates cfg job db)"

definition coverage_seed :: "CrawlConfig \<Rightarrow> SyncJob \<Rightarrow> Tables \<Rightarrow> SearchPartition option" where
  "coverage_seed cfg job db = map_option ce_candidate
     (selectCategoryExplorationCandidate (coverage_candidates cfg job db) (job_coverage_mode cfg job db))"

text \<open>The candidates in the order in which they are scored, each with its parent where the query asks for it.\<close>

definition claim_candidates :: "CrawlConfig \<Rightarrow> SyncJob \<Rightarrow> Tables \<Rightarrow> (SearchPartition \<times> SearchPartition option) list" where
  "claim_candidates cfg job db =
    (let seed = first_of (eligible_seeds cfg job db); cover = coverage_seed cfg job db
     in map (with_parent db) (adaptive_rows (cj_id job) [''G1'', ''G2'', ''G3''] PartitionStatus.QUEUED db)
       @ (case seed of None \<Rightarrow> [] | Some s \<Rightarrow> [(s, None)])
       @ (case cover of None \<Rightarrow> [] | Some s \<Rightarrow> if Some (pt_id s) = map_option pt_id seed then [] else [(s, None)])
       @ (case first_seed (cj_id job) ''G3'' PartitionStatus.QUEUED db of None \<Rightarrow> [] | Some s \<Rightarrow> [(s, None)])
       @ (case g4_probe (cj_id job) db of None \<Rightarrow> [] | Some c \<Rightarrow> [c]))"

definition choose_partition :: "CrawlConfig \<Rightarrow> SyncJob \<Rightarrow> millis \<Rightarrow> Tables \<Rightarrow> ClaimChoice result" where
  "choose_partition cfg job now db =
    (let mode = job_coverage_mode cfg job db;
         scored = map (scoreCandidate now (observations (cj_id job) db)) (claim_candidates cfg job db)
     in case schedulerSlot (Fin (of_int (cj_partitionClaimSequence job + 1))) mode (Fin (of_int (cg_g4Cadence cfg)))
            (Fin (of_int (cg_primaryCycle cfg))) of
          Inl m \<Rightarrow> Inl m
        | Inr slot \<Rightarrow>
            (let coverageSelected = (case coverage_seed cfg job db of
                   Some s \<Rightarrow> if slot = PRIMARY_EXPLORATION then List.find (\<lambda>c. sc_id c = pt_id s) scored else None
                 | None \<Rightarrow> None)
             in Inr \<lparr>ch_selected = or_else coverageSelected (selectSchedulerCandidate scored slot), ch_slot = slot, ch_mode = mode,
                  ch_exploration = (coverageSelected \<noteq> None)\<rparr>))"

subsection \<open>claimPartition\<close>

definition claimed_columns :: "CrawlConfig \<Rightarrow> ClaimChoice \<Rightarrow> Candidate ScoredSchedulerCandidate \<Rightarrow> int \<Rightarrow> bool \<Rightarrow> SchedulerColumns" where
  "claimed_columns cfg ch selected sequence first =
    (let p = cd_partition (sc_candidate selected); c = sc_candidate selected;
         familyKey = (if pt_partitionType p = Production V2_SEED \<and> pt_gmvBucket p \<in> {Some ''G1'', Some ''G2''} then family_key p else None)
     in \<lparr>sd_class = Some (pr_schedulerClass (sc_priority selected)), sd_claimSequence = Some sequence,
       sd_categoryRows = Some (pe_rows (cd_category c)), sd_categoryYield = pe_yield (cd_category c),
       sd_categoryWeight = Some (pr_categoryWeight (sc_priority selected)),
       sd_followerRows = Some (pe_rows (cd_follower c)), sd_followerYield = pe_yield (cd_follower c),
       sd_followerWeight = Some (pr_followerWeight (sc_priority selected)),
       sd_ancestorYield = cd_expectedYield c, sd_newPerSuccessfulPage = cd_expectedNew c, sd_familyKey = familyKey,
       sd_g1G2FirstBucket = (if truthy familyKey then Some (designatedFirstG1G2Bucket (cg_md5 cfg) (the familyKey)) else None),
       sd_wasFirstG1G2Sibling = (truthy familyKey \<and> first), sd_isG4Probe = (ch_slot ch = G4_PROBE \<and> is_g4 p),
       sd_wasCategoryExploration = ch_exploration ch, sd_coverageMode = (ch_mode ch = COVERAGE)\<rparr>)"

definition claimed_partition :: "CrawlConfig \<Rightarrow> ClaimChoice \<Rightarrow> Candidate ScoredSchedulerCandidate \<Rightarrow> int \<Rightarrow> bool \<Rightarrow> millis \<Rightarrow> SearchPartition \<Rightarrow> SearchPartition" where
  "claimed_partition cfg ch selected sequence first now p = p\<lparr>pt_status := STARTING, pt_startedAt := Some now,
     pt_priorityScore := pr_score (sc_priority selected), pt_priorityReason := Some (pr_reason (sc_priority selected)),
     pt_priorityUpdatedAt := Some now, pt_scheduler := claimed_columns cfg ch selected sequence first\<rparr>"

definition selection_message :: "ClaimChoice \<Rightarrow> Candidate ScoredSchedulerCandidate \<Rightarrow> string" where
  "selection_message ch selected =
    (if ch_exploration ch
     then (if ch_mode ch = COVERAGE then ''Selected untouched category '' @ em_dash @ '' category coverage exploration''
       else ''Selected least-recently sampled category '' @ em_dash @ '' balanced exploration'')
     else schedulerSelectionMessage (sc_priority selected) (production_type (cd_partition (sc_candidate selected)))
       (pt_adaptiveDepth (cd_partition (sc_candidate selected))))"

definition STALE_SNAPSHOT :: string where "STALE_SNAPSHOT = ''Category coverage skipped: invalid or stale category snapshot''"

definition mark_malformed :: "ident \<Rightarrow> MarketplaceCategory list \<Rightarrow> millis \<Rightarrow> unit tx" where
  "mark_malformed job cats now =
    tx_bind (tx_read (\<lambda>db. map pt_id (filter (malformed_seed cats) (primary_family_rows job db)))) (\<lambda>ids.
    if ids = [] then tx_return ()
    else update_partitions (\<lambda>p. pt_id p \<in> set ids \<and> (case pt_priorityReason p of None \<Rightarrow> False | Some r \<Rightarrow> r \<noteq> STALE_SNAPSHOT))
      (\<lambda>p. p\<lparr>pt_priorityReason := Some STALE_SNAPSHOT, pt_priorityUpdatedAt := Some now\<rparr>))"

definition explored_category :: "millis \<Rightarrow> MarketplaceCategory \<Rightarrow> MarketplaceCategory" where
  "explored_category now c = c\<lparr>mc_creatorExplorationClaimCount := mc_creatorExplorationClaimCount c + 1,
     mc_creatorLastExplorationClaimAt := Some now\<rparr>"

definition update_categories :: "(MarketplaceCategory \<Rightarrow> bool) \<Rightarrow> (MarketplaceCategory \<Rightarrow> MarketplaceCategory) \<Rightarrow> unit tx" where
  "update_categories P f = on_crawl (\<lambda>c. c\<lparr>cw_categories := upd_where P f (cw_categories c)\<rparr>)"

definition claim_selected :: "CrawlConfig \<Rightarrow> ident \<Rightarrow> SyncJob \<Rightarrow> ClaimChoice \<Rightarrow> Candidate ScoredSchedulerCandidate \<Rightarrow> bool \<Rightarrow> millis \<Rightarrow> SearchPartition tx" where
  "claim_selected cfg lease job ch selected first now =
    (let p = cd_partition (sc_candidate selected);
         sequence = cj_partitionClaimSequence job + 1;
         wanted = (if is_g4 p then PartitionStatus.EXPERIMENT_ONLY else PartitionStatus.QUEUED);
         mine = (\<lambda>q. pt_id q = pt_id p \<and> pt_status q = wanted);
         claim = claimed_partition cfg ch selected sequence first now
     in tx_bind (tx_read (\<lambda>db. count_where mine (partitions db))) (\<lambda>n.
        tx_bind (update_partitions mine claim) (\<lambda>_.
        tx_bind (tx_guard (n = 1) (PlainError ''Marketplace partition claim raced'')) (\<lambda>_.
        tx_bind (tx_seq [
          update_sync_jobs (holds_lease (cj_id job) lease) (\<lambda>j. j\<lparr>cj_currentPartitionId := Some (pt_id p), cj_searchKey := None,
            cj_nextPageToken := None, cj_partitionClaimSequence := sequence, cj_currentStage := ''STARTING_PARTITION'',
            cj_categoryCoverageCompletedAt := (if ch_mode ch = COVERAGE then None
              else or_else (cj_categoryCoverageCompletedAt job) (Some now))\<rparr>),
          if ch_exploration ch \<and> truthy (pt_categoryId p) \<and> truthy (pt_categoryChildId p)
          then update_categories (\<lambda>c. mc_shopId c = cj_shopId job \<and> mc_categoryId c \<in> {the (pt_categoryId p), the (pt_categoryChildId p)})
            (explored_category now) else tx_return (),
          log_sync_event (about_partition (Some p) ((new_event (cj_id job) ''PARTITION_STARTED'' now)
            \<lparr>se_pageNumber := Some 1, se_safeMessage := Some (selection_message ch selected)\<rparr>))]) (\<lambda>_.
        tx_return (claim p))))))"

definition all_complete :: "SyncJob \<Rightarrow> SyncJob" where
  "all_complete j = j\<lparr>cj_state := EXHAUSTED, cj_currentStage := ''ALL_PARTITIONS_COMPLETE'', cj_leaseId := None, cj_leaseExpiresAt := None\<rparr>"

definition claim_next :: "CrawlConfig \<Rightarrow> ident \<Rightarrow> SyncJob \<Rightarrow> millis \<Rightarrow> SearchPartition option tx" where
  "claim_next cfg lease job now =
    tx_bind (tx_read (\<lambda>db. (shop_categories (cj_shopId job) db, primary_family_rows (cj_id job) db))) (\<lambda>(cats, rows).
    tx_bind (tx_read (choose_partition cfg job now)) (\<lambda>choice.
    tx_bind (mark_malformed (cj_id job) cats now) (\<lambda>_.
    case choice of
      Inl m \<Rightarrow> tx_throw (PlainError m)
    | Inr ch \<Rightarrow> (case ch_selected ch of
        None \<Rightarrow> tx_bind (update_sync_jobs (holds_lease (cj_id job) lease) all_complete) (\<lambda>_. tx_return None)
      | Some selected \<Rightarrow> tx_bind (claim_selected cfg lease job ch selected
            (case family_key (cd_partition (sc_candidate selected)) of None \<Rightarrow> True | Some key \<Rightarrow> \<not> family_touched rows key) now)
          (\<lambda>p. tx_return (Some p))))))"

definition released_pointer :: "SyncJob \<Rightarrow> SyncJob" where
  "released_pointer j = j\<lparr>cj_currentPartitionId := None, cj_searchKey := None, cj_nextPageToken := None, cj_currentStage := ''CLAIMING_PARTITION''\<rparr>"

definition claim_partition_tx :: "CrawlConfig \<Rightarrow> ident \<Rightarrow> ident \<Rightarrow> (nat \<Rightarrow> ident) \<Rightarrow> millis \<Rightarrow> SearchPartition option tx" where
  "claim_partition_tx cfg i lease fresh now =
    tx_bind (expandReadyBranches cfg fresh now i) (\<lambda>_.
    tx_bind (tx_bind (tx_read (leased_job i lease)) tx_found) (\<lambda>job.
    case cj_currentPartitionId job of
      None \<Rightarrow> claim_next cfg lease job now
    | Some c \<Rightarrow> tx_bind (tx_read (find_partition c)) (\<lambda>current.
        if (case current of None \<Rightarrow> False | Some p \<Rightarrow> resumable p) then tx_return current
        else tx_bind (update_sync_jobs (\<lambda>j. holds_lease i lease j \<and> cj_currentPartitionId j = Some c) released_pointer) (\<lambda>_.
          claim_next cfg lease job now))))"

definition claimPartition :: "CrawlConfig \<Rightarrow> ident \<Rightarrow> ident \<Rightarrow> SearchPartition option prog" where
  "claimPartition cfg i lease =
    p_bind (transact (\<lambda>_. tx_bind (tx_read (leased_job i lease)) tx_found)) (\<lambda>job.
    case cj_currentPartitionId job of
      None \<Rightarrow> transact (\<lambda>env. claim_partition_tx cfg i lease (e_fresh env) (e_now env))
    | Some c \<Rightarrow> p_bind (transact (\<lambda>_. tx_bind (tx_read (find_partition c)) tx_found)) (\<lambda>current.
        if resumable current then Return (Some current)
        else transact (\<lambda>env. claim_partition_tx cfg i lease (e_fresh env) (e_now env))))"

section \<open>Transactions on the crawl leave the other tables alone\<close>

definition blind :: "(Tables \<Rightarrow> 'b) \<Rightarrow> bool" where
  "blind part \<longleftrightarrow> (\<forall>db c. part (db\<lparr>tb_crawl := c\<rparr>) = part db)"

lemma blind_tables [simp]: "blind tb_deliveries" "blind tb_creators" "blind tb_identities" "blind tb_snapshots"
  by (simp_all add: blind_def)

lemma frame_on_crawl: "blind part \<Longrightarrow> frame part (on_crawl f)"
  unfolding on_crawl_def by (rule frame_modify) (simp add: blind_def)

lemma frame_crawl_rows:
  assumes "blind part"
  shows "frame part (update_partitions P f)" "frame part (update_partition i f)" "frame part (log_sync_event e)"
    "frame part (update_sync_jobs PJ fj)" "frame part (update_categories PC fc)"
  unfolding update_partitions_def update_partition_def log_sync_event_def update_sync_jobs_def update_categories_def
  by (intro frame_intros frame_basic frame_on_crawl assms)+

lemma frame_create_partitions: "blind part \<Longrightarrow> frame part (create_partitions fresh ps)"
  by (induction ps) (auto simp: insert_partition_def intro!: frame_intros frame_on_crawl)

lemma frame_expand_one: "blind part \<Longrightarrow> frame part (expand_one cfg fresh now p)"
  unfolding expand_one_def createFollowerChildren_def Let_def
  by (cases "expansionFor cfg p") (auto intro!: frame_intros frame_create_partitions frame_crawl_rows)

lemma frame_expand:
  assumes "blind part"
  shows "frame part (expandReadyBranches cfg fresh now job)"
proof -
  have "frame part (expand_siblings cfg fresh now job i)" for i
    unfolding expand_siblings_def using assms
    by (auto simp del: tx_seq.simps intro!: frame_intros frame_crawl_rows frame_expand_one)
  then show ?thesis unfolding expandReadyBranches_def using assms by (auto intro!: frame_intros frame_expand_one)
qed

lemma frame_claim_next:
  assumes "blind part"
  shows "frame part (claim_next cfg lease job now)"
proof -
  have "frame part (claim_selected cfg lease job ch selected first now)" for ch selected first
    unfolding claim_selected_def Let_def using assms
    by (auto simp del: tx_seq.simps intro!: frame_intros frame_crawl_rows)
  moreover have "frame part (mark_malformed i cats now)" for i cats
    unfolding mark_malformed_def using assms by (auto intro!: frame_intros frame_crawl_rows)
  ultimately show ?thesis unfolding claim_next_def using assms
    by (auto simp del: tx_seq.simps intro!: frame_intros frame_crawl_rows split: prod.split sum.split)
qed

lemma frame_claim_partition: "blind part \<Longrightarrow> frame part (claim_partition_tx cfg i lease fresh now)"
  unfolding claim_partition_tx_def by (auto intro!: frame_intros frame_expand frame_claim_next frame_crawl_rows)

lemma keeps_crawl_queue: "keeps (claimPartition cfg i lease)" "keeps (prepareAdaptiveQueue cfg i)"
  unfolding claimPartition_def prepareAdaptiveQueue_def
  by (auto intro!: keeps_rules keeps_option keeps_read keeps_frame frame_claim_partition frame_expand)

section \<open>The partition that is claimed\<close>

lemma g4_class: "pr_schedulerClass (scoreSchedulerPriority i) = SchedulerClass.EXPERIMENT_ONLY \<longleftrightarrow> sp_gmvBucket i = Some ''G4''"
  by (auto simp: scoreSchedulerPriority_def seed_priority_def adaptive_class_def Let_def)

lemma scoreCandidate_simps [simp]:
  "cd_partition (sc_candidate (scoreCandidate now obs c)) = fst c" "sc_id (scoreCandidate now obs c) = pt_id (fst c)"
  "sc_gmvBucket (scoreCandidate now obs c) = pt_gmvBucket (fst c)"
  "pr_schedulerClass (sc_priority (scoreCandidate now obs c)) = SchedulerClass.EXPERIMENT_ONLY \<longleftrightarrow> is_g4 (fst c)"
  by (simp_all add: scoreCandidate_def Let_def g4_class is_g4_def)

text \<open>The rows that may be claimed for a job: queued ones of the first three buckets, and rows of Very High kept for probes.\<close>

definition may_be_claimed :: "ident \<Rightarrow> SearchPartition \<Rightarrow> bool" where
  "may_be_claimed job p \<longleftrightarrow> pt_creatorSyncJobId p = job \<and> is_production p \<and>
     (pt_gmvBucket p \<in> {Some ''G1'', Some ''G2'', Some ''G3''} \<and> pt_status p = PartitionStatus.QUEUED \<or>
      is_g4 p \<and> pt_status p = PartitionStatus.EXPERIMENT_ONLY)"

lemma first_of_mem: "first_of xs = Some x \<Longrightarrow> x \<in> set xs"
  by (auto simp: first_of_def split: list.splits)

lemma eligible_seeds_rows:
  "s \<in> set (eligible_seeds cfg job db) \<Longrightarrow> s \<in> set (partitions db) \<and> may_be_claimed (cj_id job) s \<and> \<not> is_g4 s"
  by (auto simp: eligible_seeds_def eligible_seed_def primary_family_rows_def may_be_claimed_def is_production_def is_g4_def Let_def)

lemma coverage_seed_rows:
  assumes "coverage_seed cfg job db = Some s"
  shows "s \<in> set (eligible_seeds cfg job db)"
proof -
  obtain c where c: "selectCategoryExplorationCandidate (coverage_candidates cfg job db) (job_coverage_mode cfg job db) = Some c" "s = ce_candidate c"
    using assms by (auto simp: coverage_seed_def)
  then have "c \<in> set (coverage_candidates cfg job db)"
    by (auto simp: selectCategoryExplorationCandidate_def exploration_pool_def Let_def dest!: first_of_mem split: if_splits)
  then show ?thesis using c(2) by (auto simp: coverage_candidates_def coverage_candidate_def Let_def)
qed

lemma first_seed_rows: "first_seed job code status db = Some s \<Longrightarrow> s \<in> set (partitions db) \<and> pt_creatorSyncJobId s = job \<and>
    pt_partitionType s = Production V2_SEED \<and> pt_gmvBucket s = Some code \<and> pt_status s = status"
  by (auto simp: first_seed_def dest!: first_of_mem)

lemma g4_probe_rows: "g4_probe job db = Some c \<Longrightarrow> fst c \<in> set (partitions db) \<and> may_be_claimed job (fst c) \<and> is_g4 (fst c)"
  by (auto simp: g4_probe_def or_else_def adaptive_rows_def with_parent_def may_be_claimed_def is_production_def is_g4_def
      dest!: find_SomeD first_seed_rows split: option.splits)

lemma mem_case_option: "x \<in> set (case v of None \<Rightarrow> [] | Some s \<Rightarrow> f s) \<longleftrightarrow> (\<exists>s. v = Some s \<and> x \<in> set (f s))"
  by (cases v) auto

lemma mem_claim_candidates:
  "c \<in> set (claim_candidates cfg job db) \<longleftrightarrow>
     (\<exists>p \<in> set (adaptive_rows (cj_id job) [''G1'', ''G2'', ''G3''] PartitionStatus.QUEUED db). c = with_parent db p) \<or>
     (\<exists>s. first_of (eligible_seeds cfg job db) = Some s \<and> c = (s, None)) \<or>
     (\<exists>s. coverage_seed cfg job db = Some s \<and> Some (pt_id s) \<noteq> map_option pt_id (first_of (eligible_seeds cfg job db)) \<and> c = (s, None)) \<or>
     (\<exists>s. first_seed (cj_id job) ''G3'' PartitionStatus.QUEUED db = Some s \<and> c = (s, None)) \<or> g4_probe (cj_id job) db = Some c"
  unfolding claim_candidates_def Let_def set_append Un_iff mem_case_option by (cases c) (auto split: if_splits)

lemma claim_candidates_rows:
  assumes "c \<in> set (claim_candidates cfg job db)"
  shows "fst c \<in> set (partitions db) \<and> may_be_claimed (cj_id job) (fst c)"
  using assms unfolding mem_claim_candidates
proof (elim disjE exE conjE bexE)
  fix p assume "p \<in> set (adaptive_rows (cj_id job) [''G1'', ''G2'', ''G3''] PartitionStatus.QUEUED db)" "c = with_parent db p"
  then show ?thesis by (auto simp: adaptive_rows_def with_parent_def may_be_claimed_def is_production_def)
next
  fix s assume "first_seed (cj_id job) ''G3'' PartitionStatus.QUEUED db = Some s" "c = (s, None)"
  then show ?thesis by (auto dest!: first_seed_rows simp: may_be_claimed_def is_production_def)
next
  fix s assume "first_of (eligible_seeds cfg job db) = Some s" "c = (s, None)"
  then show ?thesis using eligible_seeds_rows [OF first_of_mem] by simp
next
  fix s assume "coverage_seed cfg job db = Some s" "c = (s, None)"
  then show ?thesis using eligible_seeds_rows [OF coverage_seed_rows] by simp
next
  assume "g4_probe (cj_id job) db = Some c"
  then show ?thesis using g4_probe_rows by blast
qed

lemma scored_schedulable:
  "c \<in> set (claim_candidates cfg job db) \<Longrightarrow> schedulable slot (scoreCandidate now obs c) \<longleftrightarrow> (is_g4 (fst c) \<longrightarrow> slot = G4_PROBE)"
  using claim_candidates_rows [of c cfg job db] by (auto simp: schedulable_def may_be_claimed_def is_g4_def)

end
