(* ===== verification/Sync.thy ===== *)
theory Sync
  imports Crawl History
begin

text \<open>
  The crawl of the marketplace, \<open>apps/api/src/creator-database/creator-sync.processor.ts\<close>: a claim of the job reads
  one page of its partition, stores it as received, saves its creators, writes them to the spreadsheet and
  commits it, which moves the cursor. An error decides whether and when the job goes on. Parameters: the
  answers of the provider and of the spreadsheet, what the integration service does before it hands out the
  adapter, and what the database client reports about an error of its own (\<open>sc_databaseFailure\<close>).
\<close>

record SyncConfig =
  sc_crawl :: CrawlConfig
  sc_adapter :: "Env \<Rightarrow> Err + unit"
  sc_databaseFailure :: "Err \<Rightarrow> DatabaseFailure"

definition CRAWL_LEASE_MS :: int where "CRAWL_LEASE_MS = 2 * 60000"
definition BUSINESS_16032001_MAX_ATTEMPTS :: int where "BUSINESS_16032001_MAX_ATTEMPTS = 10"
definition SHEETS_RETRY_BASE_DELAYS_MS :: "int list" where
  "SHEETS_RETRY_BASE_DELAYS_MS = [5000, 10000, 20000, 40000, 60000, 120000, 300000]"
definition SHEETS_BLOCKED_RETRY_MS :: int where "SHEETS_BLOCKED_RETRY_MS = 300000"
definition SHEETS_RETRY_JITTER_RATIO :: real where "SHEETS_RETRY_JITTER_RATIO = 0.10"
definition SHEETS_EVENT_MILESTONES :: "int list" where "SHEETS_EVENT_MILESTONES = [1, 2, 3, 5, 10, 20, 50, 100]"

definition sheetsRetryDelayMs :: "int \<Rightarrow> bool \<Rightarrow> real \<Rightarrow> int" where
  "sheetsRetryDelayMs attempt retryable random =
    (if \<not> retryable then SHEETS_BLOCKED_RETRY_MS
     else (let ordinal = max 1 attempt;
               base = SHEETS_RETRY_BASE_DELAYS_MS ! nat (min (ordinal - 1) (int (length SHEETS_RETRY_BASE_DELAYS_MS) - 1));
               jitterRoom = max 0 (SHEETS_BLOCKED_RETRY_MS - base)
           in base + \<lfloor>min (of_int base * SHEETS_RETRY_JITTER_RATIO) (of_int jitterRoom) * min 1 (max 0 random)\<rfloor>))"

definition shouldCheckpointSheetsFailure :: "int \<Rightarrow> bool" where
  "shouldCheckpointSheetsFailure attempt \<longleftrightarrow> attempt \<in> set SHEETS_EVENT_MILESTONES \<or> attempt > 100 \<and> attempt mod 100 = 0"

definition receiptRequestKey :: "ident \<Rightarrow> string \<Rightarrow> string" where
  "receiptRequestKey partitionId token = ''PARTITION:'' @ partitionId @ '':'' @ token"

section \<open>Messages\<close>

definition databaseFailureDetails :: "SyncConfig \<Rightarrow> Err \<Rightarrow> DatabaseFailure" where
  "databaseFailureDetails cfg e = (case e of PersistenceError d \<Rightarrow> d | _ \<Rightarrow> sc_databaseFailure cfg e)"

definition safeDatabaseMessage :: "DatabaseFailure \<Rightarrow> string" where
  "safeDatabaseMessage d =
    (let place = (if truthy (df_constraint d) then [''Constraint: '' @ the (df_constraint d)]
           else if truthy (df_field d) then [''Field: '' @ the (df_field d)] else []);
         position = (case (df_recordNumber d, df_totalRecords d) of
             (Some n, Some m) \<Rightarrow> if n \<noteq> 0 \<and> m \<noteq> 0 then [''Record: '' @ show_int n @ ''/'' @ show_int m] else []
           | _ \<Rightarrow> [])
     in ''PostgreSQL save failed'' @ concat (map (\<lambda>s. ''; '' @ s) (place @ position)) @ ''; Page remains uncommitted'')"

definition safeTikTokMessage :: "TikTokApiError \<Rightarrow> string" where
  "safeTikTokMessage e =
    (if te_providerCode e = Some 36009002 then ''Too many Marketplace requests''
     else if te_kind e = ''RATE_LIMIT'' then ''TikTok Marketplace rate limit''
     else if te_kind e = ''TEMPORARY'' then ''TikTok Marketplace is temporarily unavailable''
     else if te_kind e = ''AUTH_EXPIRED'' then ''TikTok authorization expired''
     else if te_kind e = ''PERMISSION'' then ''TikTok permission denied''
     else if te_kind e = ''INVALID_SHOP_CIPHER'' then ''TikTok shop selection is invalid''
     else if te_kind e = ''MALFORMED_RESPONSE'' then ''TikTok returned an invalid response''
     else ''TikTok Marketplace request failed'')"

definition googleSheetsFailure :: "Err \<Rightarrow> SheetsFailure" where
  "googleSheetsFailure e = (case e of SheetsError d \<Rightarrow> d
     | _ \<Rightarrow> \<lparr>gf_httpStatus = None, gf_googleApiCode = None, gf_retryable = True, gf_safeReason = Some ''provider response unavailable''\<rparr>)"

definition safeSheetsFailureMessage :: "SheetsFailure \<Rightarrow> string" where
  "safeSheetsFailureMessage d =
    (case gf_httpStatus d of None \<Rightarrow> ''HTTP unavailable'' | Some n \<Rightarrow> ''HTTP '' @ show_int n) @ ''; '' @
    (if truthy (gf_googleApiCode d) then ''Google API error code '' @ the (gf_googleApiCode d) else ''Google API error code unavailable'') @ ''; '' @
    (if gf_retryable d then ''retryable'' else ''non-retryable'') @
    (if truthy (gf_safeReason d) then '': '' @ the (gf_safeReason d) else [])"

section \<open>Claiming the job\<close>

abbreviation sync_pages :: "Tables \<Rightarrow> SyncPage list" where "sync_pages db \<equiv> cw_pages (tb_crawl db)"

definition find_sync_job :: "ident \<Rightarrow> Tables \<Rightarrow> SyncJob option" where
  "find_sync_job i db = List.find (\<lambda>j. cj_id j = i) (sync_jobs db)"

definition update_sync_job :: "ident \<Rightarrow> (SyncJob \<Rightarrow> SyncJob) \<Rightarrow> unit tx" where
  "update_sync_job i f = tx_bind (tx_bind (tx_read (find_sync_job i)) tx_found) (\<lambda>_. update_sync_jobs (\<lambda>j. cj_id j = i) f)"

definition find_page :: "ident \<Rightarrow> Tables \<Rightarrow> SyncPage option" where
  "find_page i db = List.find (\<lambda>g. sg_id g = i) (sync_pages db)"

definition update_page :: "ident \<Rightarrow> (SyncPage \<Rightarrow> SyncPage) \<Rightarrow> unit tx" where
  "update_page i f = tx_bind (tx_bind (tx_read (find_page i)) tx_found) (\<lambda>_.
     on_crawl (\<lambda>c. c\<lparr>cw_pages := upd_where (\<lambda>g. sg_id g = i) f (cw_pages c)\<rparr>))"

definition claimable_job :: "SyncJob \<Rightarrow> bool" where
  "claimable_job j \<longleftrightarrow> cj_state j \<in> {CreatorSyncState.RUNNING, WAITING}"

definition lease_over :: "millis \<Rightarrow> SyncJob \<Rightarrow> bool" where
  "lease_over now j \<longleftrightarrow> cj_leaseId j = None \<or> (case cj_leaseExpiresAt j of None \<Rightarrow> False | Some t \<Rightarrow> t \<le> now)"

definition due_job :: "ident \<Rightarrow> millis \<Rightarrow> Tables \<Rightarrow> SyncJob option" where
  "due_job shopId now db = List.find (\<lambda>j. cj_shopId j = shopId \<and> claimable_job j \<and>
     (case cj_nextAttemptAt j of None \<Rightarrow> True | Some t \<Rightarrow> t \<le> now) \<and> lease_over now j) (sync_jobs db)"

definition claimed_sync_job :: "SyncConfig \<Rightarrow> ident \<Rightarrow> millis \<Rightarrow> SyncJob \<Rightarrow> SyncJob" where
  "claimed_sync_job cfg lease now j = j\<lparr>cj_state := CreatorSyncState.RUNNING, cj_leaseId := Some lease,
     cj_leaseExpiresAt := Some (now + (case cg_leaseMs (sc_crawl cfg) of None \<Rightarrow> CRAWL_LEASE_MS | Some ms \<Rightarrow> ms)), cj_nextAttemptAt := None\<rparr>"

definition claim_job_tx :: "SyncConfig \<Rightarrow> ident \<Rightarrow> ident \<Rightarrow> millis \<Rightarrow> int tx" where
  "claim_job_tx cfg i lease now =
    (let free = (\<lambda>j. cj_id j = i \<and> claimable_job j \<and> lease_over now j)
     in tx_bind (tx_read (\<lambda>db. count_where free (sync_jobs db))) (\<lambda>n.
        tx_bind (update_sync_jobs free (claimed_sync_job cfg lease now)) (\<lambda>_. tx_return n)))"

text \<open>An event and a change of the job, as long as the lease is held.\<close>

definition recordActivity :: "ident \<Rightarrow> ident \<Rightarrow> SearchPartition option \<Rightarrow> string \<Rightarrow> millis option \<Rightarrow>
    (SyncEvent \<Rightarrow> SyncEvent) \<Rightarrow> (SyncJob \<Rightarrow> SyncJob) \<Rightarrow> unit prog" where
  "recordActivity i lease p stage occurredAt details change = transact (\<lambda>env.
    tx_bind (tx_read (\<lambda>db. count_where (holds_lease i lease) (sync_jobs db))) (\<lambda>n.
    tx_bind (update_sync_jobs (holds_lease i lease) (\<lambda>j. change (j\<lparr>cj_currentStage := stage\<rparr>))) (\<lambda>_.
    tx_bind (tx_guard (n = 1) (PlainError ''Creator sync lease changed before activity was recorded'')) (\<lambda>_.
    log_sync_event (details (about_partition p (new_event i stage (case occurredAt of None \<Rightarrow> e_now env | Some t \<Rightarrow> t))))))))"

section \<open>Saving creators\<close>

definition metrics_json :: "CreatorCandidate \<Rightarrow> Json" where
  "metrics_json c = JObj (json_opt ''liveGmv'' money_json (cc_liveGmv c) @ json_opt ''videoGmv'' money_json (cc_videoGmv c)
     @ json_opt ''gmvRange'' JStr (cc_gmvRange c) @ json_opt ''topAgeRanges'' (JArr \<circ> map JStr) (cc_topAgeRanges c)
     @ json_opt ''majorGender'' JStr (cc_majorGender c) @ json_opt ''majorGenderPercentage'' JNum (cc_majorGenderPercentage c))"

definition snapshot_columns :: "ident \<Rightarrow> CreatorCandidate \<Rightarrow> millis \<Rightarrow> Snapshot \<Rightarrow> Snapshot" where
  "snapshot_columns shopId c now s = s\<lparr>sn_shopId := Some shopId, sn_followerCount := cc_followerCount c,
     sn_categoryIds := JArr (map JStr (cc_categoryIds c)), sn_gmvAmount := map_option m_amount (cc_gmv c),
     sn_gmvCurrency := or_else (map_option m_currency (cc_gmv c)) (sn_gmvCurrency s), sn_unitsSold := cc_unitsSold c,
     sn_avgVideoViews := cc_avgVideoViews c, sn_avgLiveViewers := cc_avgLiveViewers c, sn_engagementRate := cc_engagementRate c,
     sn_metrics := metrics_json c, sn_rawPayload := JObj (candidate_fields c), sn_sourceFetchedAt := now\<rparr>"

definition empty_snapshot :: "ident \<Rightarrow> ident \<Rightarrow> string \<Rightarrow> Snapshot" where
  "empty_snapshot i creatorId key = \<lparr>sn_id = i, sn_creatorId = creatorId, sn_shopId = None, sn_followerCount = None,
     sn_categoryIds = JArr [], sn_gmvAmount = None, sn_gmvCurrency = None, sn_unitsSold = None, sn_avgVideoViews = None,
     sn_avgLiveViewers = None, sn_engagementRate = None, sn_metrics = JObj [], sn_rawPayload = JObj [],
     sn_sourceFetchedAt = 0, sn_sourcePageKey = Some key\<rparr>"

definition upsert_snapshot :: "ident \<Rightarrow> ident \<Rightarrow> string \<Rightarrow> (Snapshot \<Rightarrow> Snapshot) \<Rightarrow> unit tx" where
  "upsert_snapshot i creatorId key f = tx_modify (\<lambda>db. db\<lparr>tb_snapshots :=
     (if list_ex (\<lambda>s. sn_creatorId s = creatorId \<and> sn_sourcePageKey s = Some key) (tb_snapshots db)
      then upd_where (\<lambda>s. sn_creatorId s = creatorId \<and> sn_sourcePageKey s = Some key) f (tb_snapshots db)
      else tb_snapshots db @ [f (empty_snapshot i creatorId key)])\<rparr>)"

definition persist_creator :: "ident \<Rightarrow> string \<Rightarrow> (nat \<Rightarrow> ident) \<Rightarrow> millis \<Rightarrow> nat \<Rightarrow> CreatorCandidate \<Rightarrow> unit tx" where
  "persist_creator shopId sourcePageKey fresh now k c =
    tx_bind (ensureMarketplaceCreatorInTransaction c (fresh (2 * k))) (\<lambda>stored.
    upsert_snapshot (fresh (2 * k + 1)) (cr_id stored) (sourcePageKey @ '':'' @ cc_creatorOpenId c) (snapshot_columns shopId c now))"

text \<open>An error is thrown again as a \<open>CreatorPersistenceError\<close> that says which record failed.\<close>

definition tx_map_error :: "(Err \<Rightarrow> Err) \<Rightarrow> 'a tx \<Rightarrow> 'a tx" where
  "tx_map_error f t db = (case t db of Inl e \<Rightarrow> Inl (f e) | Inr r \<Rightarrow> Inr r)"

fun persist_batch :: "SyncConfig \<Rightarrow> ident \<Rightarrow> string \<Rightarrow> (nat \<Rightarrow> ident) \<Rightarrow> millis \<Rightarrow> int \<Rightarrow> int \<Rightarrow> nat \<Rightarrow> CreatorCandidate list \<Rightarrow> unit tx" where
  "persist_batch cfg shopId key fresh now offset records k [] = tx_return ()"
| "persist_batch cfg shopId key fresh now offset records k (c # cs) =
    tx_bind (tx_map_error (\<lambda>e. PersistenceError ((databaseFailureDetails cfg e)
        \<lparr>df_recordNumber := Some (offset + int k + 1), df_totalRecords := Some records\<rparr>))
      (persist_creator shopId key fresh now k c)) (\<lambda>_.
    persist_batch cfg shopId key fresh now offset records (Suc k) cs)"

definition BATCH_SIZE :: nat where "BATCH_SIZE = 20"

function persist_from :: "SyncConfig \<Rightarrow> ident \<Rightarrow> string \<Rightarrow> CreatorCandidate list \<Rightarrow> nat \<Rightarrow> unit prog" where
  "persist_from cfg shopId key creators offset =
    (if offset < length creators
     then p_then (transact (\<lambda>env. persist_batch cfg shopId key (e_fresh env) (e_now env) (int offset) (int (length creators)) 0
         (take BATCH_SIZE (drop offset creators))))
       (persist_from cfg shopId key creators (offset + BATCH_SIZE))
     else Return ())"
  by auto
termination by (relation "measure (\<lambda>(cfg, s, k, cs, n). length cs - n)") (auto simp: BATCH_SIZE_def)

declare persist_from.simps [simp del]

definition persistCreators :: "SyncConfig \<Rightarrow> CreatorCandidate list \<Rightarrow> ident \<Rightarrow> string \<Rightarrow> unit prog" where
  "persistCreators cfg creators shopId key = persist_from cfg shopId key creators 0"

section \<open>One page of a partition\<close>

definition search_creators :: "CreatorFilters \<Rightarrow> string option \<Rightarrow> string option \<Rightarrow> SearchPage prog" where
  "search_creators filters pageToken searchKey = Act (\<lambda>env w. case e_search env filters (sent_token pageToken) (sent_token searchKey) of
     Inl e \<Rightarrow> (Throw e, w) | Inr page \<Rightarrow> (Return page, w))"

definition discoveryAdapter :: "SyncConfig \<Rightarrow> unit prog" where
  "discoveryAdapter cfg = Act (\<lambda>env w. case sc_adapter cfg env of Inl e \<Rightarrow> (Throw e, w) | Inr u \<Rightarrow> (Return u, w))"

definition read_sheet :: "string \<Rightarrow> CreatorCandidate list prog" where
  "read_sheet spreadsheetId = Act (\<lambda>env w. case e_readSheet env spreadsheetId of Inl e \<Rightarrow> (Throw e, w) | Inr cs \<Rightarrow> (Return cs, w))"

definition reconcile_sheet :: "string \<Rightarrow> CreatorCandidate list \<Rightarrow> unit prog" where
  "reconcile_sheet spreadsheetId creators = Act (\<lambda>env w. case e_reconcileSheet env spreadsheetId creators of
     Inl e \<Rightarrow> (Throw e, w) | Inr u \<Rightarrow> (Return u, w))"

definition catalog_nodes :: "ident \<Rightarrow> Tables \<Rightarrow> CategoryNode list" where
  "catalog_nodes shopId db = map (\<lambda>c. \<lparr>cn_categoryId = mc_categoryId c, cn_categoryName = None,
     cn_parentCategoryId = mc_parentCategoryId c, cn_enabledForCreatorCrawl = Some (mc_enabledForCreatorCrawl c),
     cn_availableForCreatorFilter = Some (mc_availableForCreatorFilter c), cn_sortOrder = None\<rparr>) (shop_categories shopId db)"

text \<open>What the request of a partition is refused for; a missing category is in no catalog.\<close>

definition selection_result :: "SearchPartition \<Rightarrow> CategoryNode list \<Rightarrow> unit result" where
  "selection_result p catalog = (let validate = (if is_production p then validateV2CategorySelection else validateMarketplaceCategorySelection)
     in if \<not> is_specific p then Inl ''Future Marketplace partitions must specify one documented GMV bucket''
        else case (case pt_categoryId p of None \<Rightarrow> validate [] (pt_categoryChildIds p) []
            | Some c \<Rightarrow> validate c (pt_categoryChildIds p) catalog) of
          Inl m \<Rightarrow> Inl m
        | Inr _ \<Rightarrow> if is_production p \<and> Some (hd (pt_categoryChildIds p)) \<noteq> pt_categoryChildId p
            then Inl ''V2 Marketplace partition child identity does not match its one-child request snapshot'' else Inr ())"

definition cursor_problem :: "SearchPartition \<Rightarrow> SearchPage \<Rightarrow> string option" where
  "cursor_problem p page =
    (if sr_hasMore page \<and> \<not> truthy (sr_nextPageToken page) then Some ''TikTok response had has_more without a next page token''
     else if truthy (pt_nextPageToken p) \<and> sr_nextPageToken page = pt_nextPageToken p then Some ''TikTok repeated the current page token''
     else if \<not> truthy (pt_searchKey p) \<and> \<not> truthy (sr_searchKey page) then Some ''TikTok omitted the search key'' else None)"

definition used_search_key :: "SearchPartition \<Rightarrow> SearchPage \<Rightarrow> string" where
  "used_search_key p page = (if truthy (pt_searchKey p) then the (pt_searchKey p) else the (sr_searchKey page))"

definition request_token :: "SearchPartition \<Rightarrow> string" where
  "request_token p = receiptRequestKey (pt_id p) (case pt_nextPageToken p of None \<Rightarrow> ''FIRST'' | Some t \<Rightarrow> t)"

definition open_ids :: "CreatorCandidate list \<Rightarrow> ident list" where
  "open_ids cs = as_set (map cc_creatorOpenId cs)"

definition stored_open_ids :: "ident list \<Rightarrow> Tables \<Rightarrow> ident list" where
  "stored_open_ids ids db = List.map_filter (\<lambda>c. if (case cr_creatorOpenId c of None \<Rightarrow> False | Some i \<Rightarrow> i \<in> set ids)
     then cr_creatorOpenId c else None) (tb_creators db)"

definition received_page_of :: "ident \<Rightarrow> SearchPartition \<Rightarrow> SearchPage \<Rightarrow> ident list \<Rightarrow> ident \<Rightarrow> millis \<Rightarrow> SyncPage" where
  "received_page_of job p page newIds i now = \<lparr>sg_id = i, sg_creatorSyncJobId = job, sg_creatorSearchPartitionId = Some (pt_id p),
     sg_state = RECEIVED, sg_pageNumber = pt_pagesCompleted p + 1, sg_requestToken = request_token p,
     sg_nextToken = sr_nextPageToken page, sg_searchKey = used_search_key p page, sg_providerHasMore = sr_hasMore page,
     sg_creatorsReturned = int (length (sr_creators page)), sg_newUniqueCreators = Some (int (length newIds)),
     sg_duplicateRows = Some (max 0 (int (length (sr_creators page)) - int (length newIds))), sg_newCreatorOpenIds = newIds,
     sg_payload = sr_creators page, sg_databasePersistedAt = None, sg_sheetsAttemptCount = 0, sg_nextSheetsAttemptAt = None,
     sg_sheetsFirstFailureAt = None, sg_sheetsLastAttemptAt = None, sg_lastSheetsHttpStatus = None, sg_lastSheetsApiCode = None,
     sg_lastSheetsRetryable = None, sg_lastSheetsError = None, sg_receivedAt = now, sg_committedAt = None\<rparr>"

definition same_receipt :: "ident \<Rightarrow> string \<Rightarrow> SyncPage \<Rightarrow> bool" where
  "same_receipt job token g \<longleftrightarrow> sg_creatorSyncJobId g = job \<and> sg_requestToken g = token"

text \<open>The page is stored once for its request; a repeated request finds the stored one.\<close>

definition upsert_receipt :: "SyncPage \<Rightarrow> SyncPage tx" where
  "upsert_receipt new = tx_bind (tx_read (\<lambda>db. List.find (same_receipt (sg_creatorSyncJobId new) (sg_requestToken new)) (sync_pages db)))
     (\<lambda>found. case found of
        Some g \<Rightarrow> tx_return g
      | None \<Rightarrow> tx_bind (tx_read (\<lambda>db. list_ex (\<lambda>g. sg_id g = sg_id new) (sync_pages db))) (\<lambda>clash.
          tx_bind (tx_guard (\<not> clash) (DbError UniqueViolation)) (\<lambda>_.
          tx_bind (on_crawl (\<lambda>c. c\<lparr>cw_pages := cw_pages c @ [new]\<rparr>)) (\<lambda>_. tx_return new))))"

definition sampled_category :: "ident \<Rightarrow> SearchPartition \<Rightarrow> millis \<Rightarrow> unit tx" where
  "sampled_category shopId p respondedAt =
    (if truthy (pt_categoryChildId p)
     then (let mine = (\<lambda>c. mc_shopId c = shopId \<and> Some (mc_categoryId c) = pt_categoryChildId p)
       in tx_seq [update_categories (\<lambda>c. mine c \<and> mc_creatorFirstSampledAt c = None) (\<lambda>c. c\<lparr>mc_creatorFirstSampledAt := Some respondedAt\<rparr>),
         update_categories mine (\<lambda>c. c\<lparr>mc_creatorLastSampledAt := Some respondedAt\<rparr>)])
     else tx_return ())"

definition stage_tx :: "ident \<Rightarrow> ident \<Rightarrow> SearchPartition \<Rightarrow> SearchPage \<Rightarrow> ident list \<Rightarrow> ident \<Rightarrow> millis \<Rightarrow> millis \<Rightarrow> SyncPage tx" where
  "stage_tx job shopId p page newIds i respondedAt now =
    tx_bind (upsert_receipt (received_page_of job p page newIds i now)) (\<lambda>receipt.
    tx_bind (sampled_category shopId p respondedAt) (\<lambda>_. tx_return receipt))"

definition filters_of :: "SearchPartition \<Rightarrow> CreatorFilters result" where
  "filters_of p = partitionFilters (pt_categoryId p) (pt_categoryChildIds p) (pt_followersMin p) (pt_followersMax p)
     (pt_gmvBucket p) (pt_gmvRange p)"

section \<open>Committing a page\<close>

definition received_page :: "ident \<Rightarrow> ident \<Rightarrow> Tables \<Rightarrow> SyncPage option" where
  "received_page job i db = List.find (\<lambda>g. sg_id g = i \<and> sg_creatorSyncJobId g = job \<and> sg_state g = RECEIVED) (sync_pages db)"

definition stored_before :: "SyncPage \<Rightarrow> int prog" where
  "stored_before page = (let ids = open_ids (sg_payload page)
     in if sg_newUniqueCreators page = None \<and> ids \<noteq> []
        then transact (\<lambda>_. tx_read (\<lambda>db. count_where (\<lambda>c. case cr_creatorOpenId c of None \<Rightarrow> False | Some i \<Rightarrow> i \<in> set ids) (tb_creators db)))
        else Return 0)"

definition creators_added :: "SyncPage \<Rightarrow> int \<Rightarrow> int" where
  "creators_added page before = (case sg_newUniqueCreators page of Some n \<Rightarrow> n
     | None \<Rightarrow> min (int (length (sg_payload page))) (max 0 (int (length (open_ids (sg_payload page))) - before)))"

definition page_duplicates :: "SyncPage \<Rightarrow> int \<Rightarrow> int" where
  "page_duplicates page added = (case sg_duplicateRows page of Some n \<Rightarrow> n | None \<Rightarrow> max 0 (int (length (sg_payload page)) - added))"

definition page_event :: "ident \<Rightarrow> SearchPartition \<Rightarrow> SyncPage \<Rightarrow> string \<Rightarrow> int \<Rightarrow> int \<Rightarrow> millis \<Rightarrow> SyncEvent" where
  "page_event job p page stage added dups now = about_partition (Some p) ((new_event job stage now)
     \<lparr>se_pageNumber := Some (sg_pageNumber page), se_creatorsReturned := Some (int (length (sg_payload page))),
      se_creatorsAdded := Some added, se_duplicates := Some dups\<rparr>)"

definition sheet_attempt_tx :: "ident \<Rightarrow> ident \<Rightarrow> SearchPartition \<Rightarrow> SyncPage \<Rightarrow> int \<Rightarrow> int \<Rightarrow> millis \<Rightarrow> unit tx" where
  "sheet_attempt_tx i lease p page added dups now =
    (let attempt = sg_sheetsAttemptCount page + 1
     in tx_bind (update_page (sg_id page) (\<lambda>g. g\<lparr>sg_sheetsAttemptCount := attempt, sg_sheetsLastAttemptAt := Some now, sg_nextSheetsAttemptAt := None\<rparr>)) (\<lambda>_.
        tx_bind (tx_read (\<lambda>db. count_where (holds_lease i lease) (sync_jobs db))) (\<lambda>n.
        tx_bind (update_sync_jobs (holds_lease i lease) (\<lambda>j. j\<lparr>cj_currentStage := (if attempt = 1 then ''SAVING_SHEET'' else ''RECONCILING_SHEET'')\<rparr>)) (\<lambda>_.
        tx_bind (tx_guard (n = 1) (PlainError ''Creator sync lease changed before the Sheets attempt was recorded'')) (\<lambda>_.
        if attempt = 1 then log_sync_event (page_event i p page ''SAVING_SHEET'' added dups now) else tx_return ())))))"

definition strategy_disabled :: "SearchPartition \<Rightarrow> bool" where "strategy_disabled p \<longleftrightarrow> \<not> is_specific p"

text \<open>The counters of the partition grow in place; its rates are computed from the row \<open>commitPage\<close> has read.\<close>

definition progressed :: "SearchPartition \<Rightarrow> SyncPage \<Rightarrow> int \<Rightarrow> int \<Rightarrow> millis \<Rightarrow> SearchPartition \<Rightarrow> SearchPartition" where
  "progressed p page added dups now q =
    (let rows = pt_rowsReturned p + sg_creatorsReturned page; unique = pt_uniqueCreatorsAdded p + added; yield = ratio unique rows
     in q\<lparr>pt_searchKey := Some (sg_searchKey page), pt_pagesCompleted := pt_pagesCompleted q + 1,
       pt_rowsReturned := pt_rowsReturned q + sg_creatorsReturned page, pt_uniqueCreatorsAdded := pt_uniqueCreatorsAdded q + added,
       pt_duplicates := pt_duplicates q + dups, pt_newCreatorsPerRequest := Some (of_int unique / of_int (max 1 (pt_marketplaceRequests p))),
       pt_duplicateRate := Some (ratio (pt_duplicates p + dups) rows),
       pt_originalYield := (if pt_partitionType p = Production V2_SEED then Some yield else pt_originalYield p),
       pt_incrementalYield := (if pt_partitionType p \<in> {Production ADAPTIVE_FOLLOWER, Production ADAPTIVE_GMV} then Some yield else pt_incrementalYield p),
       pt_lastSuccessAt := Some now, pt_lastError := None\<rparr>)"

definition committed_job :: "CrawlConfig \<Rightarrow> SyncPage \<Rightarrow> int \<Rightarrow> int \<Rightarrow> bool \<Rightarrow> millis \<Rightarrow> SyncJob \<Rightarrow> SyncJob" where
  "committed_job cfg page added dups goesOn now j = j\<lparr>cj_pagesCompleted := cj_pagesCompleted j + 1,
     cj_creatorsFetched := cj_creatorsFetched j + sg_creatorsReturned page,
     cj_creatorsFetchedThisRun := cj_creatorsFetchedThisRun j + sg_creatorsReturned page, cj_pauseRequested := False,
     cj_lastPageAt := Some now, cj_lastSuccessAt := Some now, cj_lastError := None, cj_lastProviderCode := Some ''0'', cj_lastSafeError := None,
     cj_lastCreatorsReturned := Some (int (length (sg_payload page))), cj_lastCreatorsAdded := Some added, cj_lastDuplicates := Some dups,
     cj_nextAttemptAt := (if goesOn then Some (now + cg_successSpacingMs cfg) else None), cj_leaseId := None, cj_leaseExpiresAt := None\<rparr>"

definition advance_tx :: "CrawlConfig \<Rightarrow> ident \<Rightarrow> ident \<Rightarrow> SearchPartition \<Rightarrow> SyncPage \<Rightarrow> int \<Rightarrow> int \<Rightarrow> bool \<Rightarrow> millis \<Rightarrow> unit tx" where
  "advance_tx cfg i lease p page added dups pause now =
    (let off = strategy_disabled p; stops = off \<or> pause
     in tx_seq [
       update_partition (pt_id p) (\<lambda>q. (progressed p page added dups now q)
         \<lparr>pt_status := (if off then DISABLED_BY_STRATEGY else if pause then PartitionStatus.PAUSED else PartitionStatus.RUNNING),
          pt_nextPageToken := sg_nextToken page\<rparr>),
       update_sync_jobs (\<lambda>j. holds_lease i lease j \<and> cj_currentPartitionId j = Some (pt_id p)) (\<lambda>j. (committed_job cfg page added dups (\<not> stops) now j)
         \<lparr>cj_state := (if stops then CreatorSyncState.PAUSED else CreatorSyncState.RUNNING),
          cj_currentStage := (if off then ''GMV_ALL_DISABLED_BY_STRATEGY'' else if pause then ''PAUSED'' else ''PAGE_COMMITTED''),
          cj_searchKey := Some (sg_searchKey page), cj_nextPageToken := sg_nextToken page\<rparr>),
       if stops then tx_return () else log_sync_event (about_partition (Some p) ((new_event i ''CURSOR_ADVANCED'' (now + 1))
         \<lparr>se_pageNumber := Some (sg_pageNumber page + 1), se_safeMessage := Some (''Continuing to page '' @ show_int (sg_pageNumber page + 1))\<rparr>))])"

definition queued_partitions :: "ident \<Rightarrow> Tables \<Rightarrow> int" where
  "queued_partitions job db = count_where (\<lambda>p. pt_creatorSyncJobId p = job \<and> is_production p \<and> specific_code p \<and>
     pt_status p = PartitionStatus.QUEUED) (partitions db)"

definition final_saturation :: "CrawlConfig \<Rightarrow> SearchPartition \<Rightarrow> SyncPage \<Rightarrow> ObservedSaturationState" where
  "final_saturation cfg p page = observedSaturationState True (pt_rowsReturned p + sg_creatorsReturned page)
     (cg_saturationMinRows cfg) (cg_saturationMaxRows cfg)"

definition final_status :: "CrawlConfig \<Rightarrow> SearchPartition \<Rightarrow> SyncPage \<Rightarrow> PartitionStatus" where
  "final_status cfg p page = (if strategy_disabled p then DISABLED_BY_STRATEGY
     else if pt_partitionType p = Production ADAPTIVE_GMV \<and> final_saturation cfg p page = OBSERVED_SATURATED then DEEPLY_SATURATED
     else PartitionStatus.COMPLETE)"

definition finished_partition :: "CrawlConfig \<Rightarrow> SearchPartition \<Rightarrow> SyncPage \<Rightarrow> int \<Rightarrow> int \<Rightarrow> millis \<Rightarrow> SearchPartition \<Rightarrow> SearchPartition" where
  "finished_partition cfg p page added dups now q = (progressed p page added dups now q)
     \<lparr>pt_status := final_status cfg p page, pt_nextPageToken := None, pt_observedSaturationState := final_saturation cfg p page,
      pt_branchClassification := classifyIncrementalYield (Some (Fin (ratio (pt_uniqueCreatorsAdded p + added) (pt_rowsReturned p + sg_creatorsReturned page)))),
      pt_mayStillBeDense := (final_saturation cfg p page = OBSERVED_SATURATED), pt_completedAt := Some now\<rparr>"

definition finished_job :: "CrawlConfig \<Rightarrow> SearchPartition \<Rightarrow> SyncPage \<Rightarrow> int \<Rightarrow> int \<Rightarrow> bool \<Rightarrow> int \<Rightarrow> millis \<Rightarrow> SyncJob \<Rightarrow> SyncJob" where
  "finished_job cfg p page added dups pause queued now j =
    (let off = strategy_disabled p
     in (committed_job cfg page added dups (\<not> off \<and> \<not> pause \<and> queued \<noteq> 0) now j)
       \<lparr>cj_state := (if off \<or> pause then CreatorSyncState.PAUSED else if queued \<noteq> 0 then CreatorSyncState.RUNNING else EXHAUSTED),
        cj_currentStage := (if off then ''GMV_ALL_DISABLED_BY_STRATEGY'' else if pause then ''PAUSED''
          else if final_status cfg p page = DEEPLY_SATURATED then ''DEEPLY_SATURATED'' else ''PARTITION_COMPLETE''),
        cj_currentPartitionId := (if off then Some (pt_id p) else None),
        cj_searchKey := (if off then Some (sg_searchKey page) else None), cj_nextPageToken := None\<rparr>)"

definition finish_tx :: "CrawlConfig \<Rightarrow> ident \<Rightarrow> ident \<Rightarrow> SearchPartition \<Rightarrow> SyncPage \<Rightarrow> int \<Rightarrow> int \<Rightarrow> bool \<Rightarrow> (nat \<Rightarrow> ident) \<Rightarrow> millis \<Rightarrow> unit tx" where
  "finish_tx cfg i lease p page added dups pause fresh now =
    tx_bind (update_partition (pt_id p) (finished_partition cfg p page added dups now)) (\<lambda>_.
    tx_bind (if strategy_disabled p then tx_return () else expandReadyBranches cfg fresh now i) (\<lambda>_.
    tx_bind (tx_read (queued_partitions i)) (\<lambda>queued.
    tx_bind (update_sync_jobs (\<lambda>j. holds_lease i lease j \<and> cj_currentPartitionId j = Some (pt_id p)) (finished_job cfg p page added dups pause queued now)) (\<lambda>_.
    if final_saturation cfg p page = OBSERVED_SATURATED
    then log_sync_event (about_partition (Some p) ((new_event i ''OBSERVED_SATURATED'' (now + 1))\<lparr>se_pageNumber := Some (sg_pageNumber page),
      se_safeMessage := Some (show_int (pt_rowsReturned p + sg_creatorsReturned page) @ '' rows '' @ em_dash @ '' empirically observed saturated'')\<rparr>))
    else tx_return ()))))"

definition recovered_event :: "ident \<Rightarrow> SearchPartition \<Rightarrow> SyncPage \<Rightarrow> int \<Rightarrow> int \<Rightarrow> millis \<Rightarrow> SyncEvent" where
  "recovered_event i p page added dups now = (page_event i p page ''SHEET_RECOVERED'' added dups (now - 2))
     \<lparr>se_safeMessage := Some (''Google Sheets save recovered automatically after '' @ show_int (sg_sheetsAttemptCount page) @ '' failed '' @
       (if sg_sheetsAttemptCount page = 1 then ''attempt'' else ''attempts''))\<rparr>"

definition commit_tx :: "CrawlConfig \<Rightarrow> ident \<Rightarrow> ident \<Rightarrow> SearchPartition \<Rightarrow> SyncPage \<Rightarrow> int \<Rightarrow> int \<Rightarrow> (nat \<Rightarrow> ident) \<Rightarrow> millis \<Rightarrow> unit tx" where
  "commit_tx cfg i lease p page added dups fresh now =
    tx_bind (tx_bind (tx_read (leased_job i lease)) tx_found) (\<lambda>latest.
    tx_bind (update_page (sg_id page) (\<lambda>g. g\<lparr>sg_state := COMMITTED, sg_committedAt := Some now, sg_nextSheetsAttemptAt := None\<rparr>)) (\<lambda>_.
    tx_bind (if sg_sheetsAttemptCount page > 0 then log_sync_event (recovered_event i p page added dups now) else tx_return ()) (\<lambda>_.
    tx_bind (if sg_providerHasMore page then advance_tx cfg i lease p page added dups (cj_pauseRequested latest) now
      else finish_tx cfg i lease p page added dups (cj_pauseRequested latest) fresh now) (\<lambda>_.
    log_sync_event (page_event i p page (if sg_providerHasMore page then ''PAGE_COMMITTED'' else ''PARTITION_EXHAUSTED'') added dups now)))))"

definition persist_page :: "SyncConfig \<Rightarrow> ident \<Rightarrow> ident \<Rightarrow> SyncJob \<Rightarrow> SearchPartition \<Rightarrow> SyncPage \<Rightarrow> unit prog" where
  "persist_page cfg i lease job p page =
    (if sg_databasePersistedAt page \<noteq> None then Return ()
     else p_seq [
       recordActivity i lease (Some p) ''SAVING_DATABASE'' None (\<lambda>v. v\<lparr>se_pageNumber := Some (sg_pageNumber page),
         se_creatorsReturned := Some (int (length (sg_payload page)))\<rparr>) id,
       persistCreators cfg (sg_payload page) (cj_shopId job) (''creator-sync-page:'' @ sg_id page),
       transact (\<lambda>env. update_page (sg_id page) (\<lambda>g. g\<lparr>sg_databasePersistedAt := Some (e_now env)\<rparr>))])"

definition commit_received :: "SyncConfig \<Rightarrow> ident \<Rightarrow> ident \<Rightarrow> SyncJob \<Rightarrow> SearchPartition \<Rightarrow> SyncPage \<Rightarrow> unit prog" where
  "commit_received cfg i lease job p page =
    p_bind (stored_before page) (\<lambda>before.
    let added = creators_added page before; dups = page_duplicates page added
    in p_then (persist_page cfg i lease job p page)
      (p_then (transact (\<lambda>env. sheet_attempt_tx i lease p page added dups (e_now env)))
      (p_then (reconcile_sheet (cj_spreadsheetId job) (sg_payload page))
      (p_then (recordActivity i lease (Some p) ''COMMITTING_PAGE'' None (\<lambda>v. v\<lparr>se_pageNumber := Some (sg_pageNumber page),
        se_creatorsReturned := Some (int (length (sg_payload page))), se_creatorsAdded := Some added, se_duplicates := Some dups\<rparr>) id)
      (transact (\<lambda>env. commit_tx (sc_crawl cfg) i lease p page added dups (e_fresh env) (e_now env)))))))"

definition commitPage :: "SyncConfig \<Rightarrow> ident \<Rightarrow> ident \<Rightarrow> ident \<Rightarrow> unit prog" where
  "commitPage cfg i lease pageId =
    p_bind (transact (\<lambda>_. tx_bind (tx_read (received_page i pageId)) tx_found)) (\<lambda>page.
    if \<not> truthy (sg_creatorSearchPartitionId page) then Throw (PlainError ''Pending structured page has no partition'')
    else p_bind (transact (\<lambda>_. tx_bind (tx_read (leased_job i lease)) tx_found)) (\<lambda>job.
    p_bind (transact (\<lambda>_. tx_bind (tx_read (find_partition (the (sg_creatorSearchPartitionId page)))) tx_found)) (\<lambda>p.
    commit_received cfg i lease job p page)))"

section \<open>A claim of the job\<close>

definition search_page :: "SyncConfig \<Rightarrow> ident \<Rightarrow> ident \<Rightarrow> SyncJob \<Rightarrow> SearchPartition \<Rightarrow> SearchPage prog" where
  "search_page cfg i lease job p =
    p_bind clock (\<lambda>attemptedAt.
    p_bind (transact (\<lambda>_. tx_read (catalog_nodes (cj_shopId job)))) (\<lambda>catalog.
    case selection_result p catalog of
      Inl m \<Rightarrow> Throw (StageError ''PARTITION_CONFIG_ERROR'' m)
    | Inr _ \<Rightarrow> (case filters_of p of
        Inl m \<Rightarrow> Throw (PlainError m)
      | Inr filters \<Rightarrow>
        p_then (recordActivity i lease (Some p) (if pt_pagesCompleted p \<noteq> 0 then ''REQUESTING_TIKTOK'' else ''STARTING_MARKETPLACE_SEARCH'')
          (Some attemptedAt) (\<lambda>v. v\<lparr>se_pageNumber := Some (pt_pagesCompleted p + 1)\<rparr>)
          (\<lambda>j. j\<lparr>cj_lastAttemptAt := Some attemptedAt, cj_lastAttemptPage := Some (pt_pagesCompleted p + 1), cj_lastHttpStatus := None,
             cj_lastTikTokCode := None, cj_lastSafeError := None\<rparr>))
        (p_then (transact (\<lambda>_. update_partitions (\<lambda>q. pt_id q = pt_id p) (\<lambda>q. q\<lparr>pt_status := (if pt_pagesCompleted p \<noteq> 0 then PartitionStatus.RUNNING else STARTING),
             pt_lastRequestAt := Some attemptedAt\<rparr>)))
        (p_then (discoveryAdapter cfg)
        (p_then (transact (\<lambda>_. update_partition (pt_id p) (\<lambda>q. q\<lparr>pt_marketplaceRequests := pt_marketplaceRequests q + 1\<rparr>)))
        (search_creators filters (pt_nextPageToken p) (pt_searchKey p))))))))"

definition receive_page :: "ident \<Rightarrow> ident \<Rightarrow> SyncJob \<Rightarrow> SearchPartition \<Rightarrow> SearchPage \<Rightarrow> SyncPage prog" where
  "receive_page i lease job p page =
    (let number = pt_pagesCompleted p + 1; returned = int (length (sr_creators page)); ids = open_ids (sr_creators page)
     in p_bind clock (\<lambda>respondedAt.
     p_then (transact (\<lambda>_. update_partitions (\<lambda>q. pt_id q = pt_id p) (\<lambda>q. q\<lparr>pt_businessRetryCount := 0, pt_businessRetryPage := None\<rparr>)))
     (p_then (recordActivity i lease (Some p) ''TIKTOK_SUCCESS'' (Some respondedAt)
        (\<lambda>v. v\<lparr>se_pageNumber := Some number, se_httpStatus := Some 200, se_creatorsReturned := Some returned\<rparr>)
        (\<lambda>j. j\<lparr>cj_lastResponseAt := Some respondedAt, cj_lastHttpStatus := Some 200, cj_lastTikTokCode := Some ''0'', cj_lastSafeError := None,
           cj_lastCreatorsReturned := Some returned\<rparr>))
     (case cursor_problem p page of
        Some m \<Rightarrow> Throw (StageError ''CURSOR_ERROR'' m)
      | None \<Rightarrow>
        p_then (recordActivity i lease (Some p) ''STAGING_PAGE'' None
          (\<lambda>v. v\<lparr>se_pageNumber := Some number, se_creatorsReturned := Some returned\<rparr>) id)
        (p_bind (if ids = [] then Return [] else transact (\<lambda>_. tx_read (stored_open_ids ids))) (\<lambda>stored.
        transact (\<lambda>env. stage_tx i (cj_shopId job) p page (filter (\<lambda>x. x \<notin> set stored) ids) (e_fresh env 0) respondedAt (e_now env))))))))"

definition pauseClaimed :: "SyncJob \<Rightarrow> ident \<Rightarrow> SearchPartition option \<Rightarrow> unit prog" where
  "pauseClaimed job lease p = transact (\<lambda>env. tx_seq [
     update_sync_jobs (holds_lease (cj_id job) lease) (\<lambda>j. j\<lparr>cj_state := CreatorSyncState.PAUSED, cj_currentStage := ''PAUSED'',
       cj_pauseRequested := False, cj_nextAttemptAt := None, cj_leaseId := None, cj_leaseExpiresAt := None\<rparr>),
     (case p of None \<Rightarrow> tx_return () | Some q \<Rightarrow> update_partition (pt_id q) (\<lambda>q. q\<lparr>pt_status := PartitionStatus.PAUSED\<rparr>)),
     log_sync_event ((new_event (cj_id job) ''PAUSED'' (e_now env))
       \<lparr>se_creatorSearchPartitionId := (case p of None \<Rightarrow> cj_currentPartitionId job | Some q \<Rightarrow> Some (pt_id q))\<rparr>)])"

definition pending_page :: "ident \<Rightarrow> Tables \<Rightarrow> SyncPage option" where
  "pending_page job db = first_of (js_sort (cmp_by sg_receivedAt) (filter (\<lambda>g. sg_creatorSyncJobId g = job \<and> sg_state g = RECEIVED \<and>
     (case Option.bind (sg_creatorSearchPartitionId g) (\<lambda>k. find_partition k db) of None \<Rightarrow> False | Some p \<Rightarrow> is_production p)) (sync_pages db)))"

definition my_job :: "ident \<Rightarrow> ident \<Rightarrow> SyncJob prog" where
  "my_job i lease = transact (\<lambda>_. tx_bind (tx_read (leased_job i lease)) tx_found)"

definition import_sheet :: "SyncConfig \<Rightarrow> ident \<Rightarrow> ident \<Rightarrow> SyncJob \<Rightarrow> SyncJob prog" where
  "import_sheet cfg i lease job =
    (if cj_sheetImportedAt job \<noteq> None then Return job
     else p_bind (read_sheet (cj_spreadsheetId job)) (\<lambda>existing.
       p_then (persistCreators cfg existing (cj_shopId job) (''sheet-import:'' @ cj_id job))
       (p_then (transact (\<lambda>env. update_sync_jobs (holds_lease i lease) (\<lambda>j. j\<lparr>cj_sheetImportedAt := Some (e_now env)\<rparr>)))
       (my_job i lease))))"

definition crawl_partition :: "SyncConfig \<Rightarrow> ident \<Rightarrow> ident \<Rightarrow> SearchPartition \<Rightarrow> unit prog" where
  "crawl_partition cfg i lease p =
    p_bind (my_job i lease) (\<lambda>job.
    if cj_pauseRequested job then pauseClaimed job lease (Some p)
    else if is_g4 p \<and> \<not> sd_isG4Probe (pt_scheduler p)
    then Throw (StageError ''PARTITION_CONFIG_ERROR'' ''Very High Marketplace work requires a persisted rare-probe scheduler claim'')
    else p_bind (search_page cfg i lease job p) (\<lambda>page.
      p_bind (receive_page i lease job p page) (\<lambda>receipt. commitPage cfg i lease (sg_id receipt))))"

definition processClaimed_crawl :: "SyncConfig \<Rightarrow> ident \<Rightarrow> ident \<Rightarrow> unit prog" where
  "processClaimed_crawl cfg i lease =
    p_bind (my_job i lease) (\<lambda>job.
    p_bind (transact (\<lambda>_. tx_read (pending_page i))) (\<lambda>pending.
    case pending of
      Some g \<Rightarrow> commitPage cfg i lease (sg_id g)
    | None \<Rightarrow> p_bind (import_sheet cfg i lease job) (\<lambda>job.
        if cj_pauseRequested job then pauseClaimed job lease None
        else p_bind (claimPartition (sc_crawl cfg) i lease) (\<lambda>claimed.
          case claimed of None \<Rightarrow> Return () | Some p \<Rightarrow> crawl_partition cfg i lease p))))"

section \<open>Errors\<close>

text \<open>A job that is put aside: paused by the operator, or waiting for its next attempt. The lease is given back.\<close>

definition put_aside :: "bool \<Rightarrow> string \<Rightarrow> string \<Rightarrow> millis \<Rightarrow> string \<Rightarrow> SyncJob \<Rightarrow> SyncJob" where
  "put_aside pause pausedStage waitingStage nextAttemptAt safe j = j\<lparr>cj_state := (if pause then CreatorSyncState.PAUSED else WAITING),
     cj_currentStage := (if pause then pausedStage else waitingStage), cj_pauseRequested := False,
     cj_nextAttemptAt := (if pause then None else Some nextAttemptAt), cj_lastError := Some safe, cj_lastSafeError := Some safe,
     cj_leaseId := None, cj_leaseExpiresAt := None\<rparr>"

definition waiting_partition :: "bool \<Rightarrow> string \<Rightarrow> SearchPartition \<Rightarrow> SearchPartition" where
  "waiting_partition pause safe q = q\<lparr>pt_status := (if pause then PartitionStatus.PAUSED else WAITING_RETRY), pt_lastError := Some safe\<rparr>"

subsection \<open>The spreadsheet\<close>

definition ceil_seconds :: "int \<Rightarrow> int" where "ceil_seconds ms = \<lceil>of_int ms / 1000 :: real\<rceil>"

definition sheets_message :: "bool \<Rightarrow> SheetsFailure \<Rightarrow> int \<Rightarrow> int \<Rightarrow> string" where
  "sheets_message pause d attempt delayMs =
    (if pause then ''Google Sheets unavailable '' @ em_dash @ '' attempt '' @ show_int attempt @ ''; retry paused by operator; ''
     else if gf_retryable d then ''Google Sheets unavailable '' @ em_dash @ '' attempt '' @ show_int attempt @ ''; next retry in '' @ show_int (ceil_seconds delayMs) @ ''s; ''
     else ''Google Sheets blocked '' @ em_dash @ '' attempt '' @ show_int attempt @ ''; next automatic retry in '' @ show_int (ceil_seconds delayMs) @ ''s; '')
    @ safeSheetsFailureMessage d"

definition sheets_failure_tx :: "SyncJob \<Rightarrow> SearchPartition option \<Rightarrow> SyncPage \<Rightarrow> SheetsFailure \<Rightarrow> millis \<Rightarrow> real \<Rightarrow> unit tx" where
  "sheets_failure_tx job p page d now random =
    (let pause = cj_pauseRequested job; attempt = max 1 (sg_sheetsAttemptCount page);
         delayMs = sheetsRetryDelayMs attempt (gf_retryable d) random; nextAttemptAt = now + delayMs;
         safe = sheets_message pause d attempt delayMs
     in tx_seq [
       update_page (sg_id page) (\<lambda>g. g\<lparr>sg_sheetsAttemptCount := attempt, sg_nextSheetsAttemptAt := (if pause then None else Some nextAttemptAt),
         sg_sheetsFirstFailureAt := or_else (sg_sheetsFirstFailureAt page) (Some now),
         sg_sheetsLastAttemptAt := or_else (sg_sheetsLastAttemptAt page) (Some now),
         sg_lastSheetsHttpStatus := gf_httpStatus d, sg_lastSheetsApiCode := gf_googleApiCode d,
         sg_lastSheetsRetryable := Some (gf_retryable d), sg_lastSheetsError := Some safe\<rparr>),
       update_sync_job (cj_id job) (\<lambda>j. (put_aside pause ''PAUSED'' (if gf_retryable d then ''WAITING_SHEET_RETRY'' else ''SHEETS_BLOCKED_RETRYING'')
           nextAttemptAt safe j)\<lparr>cj_lastHttpStatus := gf_httpStatus d, cj_lastTikTokCode := None,
         cj_lastProviderCode := or_else (gf_googleApiCode d) (Some ''GOOGLE_SHEETS'')\<rparr>),
       (case p of None \<Rightarrow> tx_return () | Some q \<Rightarrow> update_partition (pt_id q) (\<lambda>r. if strategy_disabled q
          then r\<lparr>pt_status := DISABLED_BY_STRATEGY, pt_lastError := Some safe\<rparr> else waiting_partition pause safe r)),
       if pause \<or> shouldCheckpointSheetsFailure attempt
       then log_sync_event ((about_partition p (new_event (cj_id job) (if pause then ''SHEET_ERROR''
             else if attempt = 1 then ''SHEETS_RETRY_STARTED'' else ''SHEETS_RETRY_FAILED'') now))
         \<lparr>se_pageNumber := Some (sg_pageNumber page), se_httpStatus := gf_httpStatus d, se_googleApiCode := gf_googleApiCode d,
          se_retryable := Some (gf_retryable d), se_safeMessage := Some safe, se_creatorsReturned := Some (sg_creatorsReturned page),
          se_nextAttemptAt := (if pause then None else Some nextAttemptAt)\<rparr>)
       else tx_return ()])"

definition pending_any :: "ident \<Rightarrow> Tables \<Rightarrow> SyncPage option" where
  "pending_any job db = first_of (js_sort (cmp_by sg_receivedAt)
     (filter (\<lambda>g. sg_creatorSyncJobId g = job \<and> sg_state g = RECEIVED) (sync_pages db)))"

definition handleSheetsFailure :: "SyncJob \<Rightarrow> SearchPartition option \<Rightarrow> Err \<Rightarrow> bool prog" where
  "handleSheetsFailure job p e =
    p_bind (transact (\<lambda>_. tx_read (\<lambda>db. map_option (\<lambda>g. (g, Option.bind (sg_creatorSearchPartitionId g) (\<lambda>k. find_partition k db)))
      (pending_any (cj_id job) db)))) (\<lambda>found.
    case found of
      None \<Rightarrow> Return False
    | Some (page, owner) \<Rightarrow>
        p_bind (Act (\<lambda>env w. (Return (e_now env, e_random env), w))) (\<lambda>(now, random).
        p_bind (transact (\<lambda>_. sheets_failure_tx job (or_else p owner) page (googleSheetsFailure e) now random)) (\<lambda>_. Return True)))"

subsection \<open>The provider\<close>

definition is_business_error :: "TikTokApiError \<Rightarrow> bool" where
  "is_business_error t \<longleftrightarrow> te_operation t = SEARCH_CREATORS \<and> te_providerCode t = Some 16032001"

definition business_attempt :: "SearchPartition \<Rightarrow> int" where
  "business_attempt p = (if pt_businessRetryPage p = Some (pt_pagesCompleted p + 1) then pt_businessRetryCount p + 1 else 1)"

definition business_message :: "int \<Rightarrow> string" where
  "business_message attempt = ''TikTok business error '' @ em_dash @ '' 16032001 '' @ em_dash @
     (if attempt \<ge> BUSINESS_16032001_MAX_ATTEMPTS
      then '' retry limit reached ('' @ show_int attempt @ ''/'' @ show_int BUSINESS_16032001_MAX_ATTEMPTS @ '')''
      else '' transient retry '' @ show_int attempt @ ''/'' @ show_int BUSINESS_16032001_MAX_ATTEMPTS @ '' in 5s'')"

definition business_error_tx :: "SyncJob \<Rightarrow> SearchPartition \<Rightarrow> TikTokApiError \<Rightarrow> millis \<Rightarrow> unit tx" where
  "business_error_tx job p t now =
    (let attempt = business_attempt p; limitReached = (attempt \<ge> BUSINESS_16032001_MAX_ATTEMPTS);
         nextAttemptAt = now + CREATOR_MARKETPLACE_RETRY_MS; safe = business_message attempt; pause = (cj_pauseRequested job \<or> limitReached)
     in tx_seq [
       update_sync_job (cj_id job) (\<lambda>j. (put_aside pause (if limitReached then ''TIKTOK_BUSINESS_RETRY_LIMIT'' else ''PAUSED'')
           ''WAITING_BUSINESS_RETRY'' nextAttemptAt safe j)
         \<lparr>cj_lastProviderCode := Some ''16032001'', cj_lastResponseAt := Some now, cj_lastHttpStatus := or_else (te_httpStatus t) (cj_lastHttpStatus j),
          cj_lastTikTokCode := Some ''16032001'', cj_lastCreatorsReturned := None, cj_lastCreatorsAdded := None, cj_lastDuplicates := None\<rparr>),
       update_partition (pt_id p) (\<lambda>q. (waiting_partition pause safe q)\<lparr>pt_businessRetryCount := attempt,
         pt_businessRetryPage := Some (pt_pagesCompleted p + 1)\<rparr>),
       log_sync_event ((about_partition (Some p) (new_event (cj_id job) (if limitReached then ''TIKTOK_BUSINESS_RETRY_LIMIT'' else ''TIKTOK_BUSINESS_RETRY'') now))
         \<lparr>se_pageNumber := Some (pt_pagesCompleted p + 1), se_httpStatus := te_httpStatus t, se_tiktokCode := Some ''16032001'',
          se_safeMessage := Some safe, se_nextAttemptAt := (if pause then None else Some nextAttemptAt)\<rparr>)])"

definition marketplace_throttle :: "TikTokApiError \<Rightarrow> bool" where
  "marketplace_throttle t \<longleftrightarrow> te_operation t = SEARCH_CREATORS \<and> te_kind t = ''RATE_LIMIT'' \<and>
     (te_httpStatus t = Some 429 \<or> te_providerCode t = Some 36009002)"

definition retry_at :: "SyncJob \<Rightarrow> TikTokApiError \<Rightarrow> millis \<Rightarrow> millis" where
  "retry_at job t now =
    (let delay = (if marketplace_throttle t then marketplaceRetryDelayMs (cj_marketplaceRetryDelaySeconds job) else CREATOR_MARKETPLACE_RETRY_MS);
         local = now + max delay (case te_retryAfterMs t of None \<Rightarrow> 0 | Some ms \<Rightarrow> ms)
     in case te_nextPermittedAt t of Some permitted \<Rightarrow> if permitted > local then permitted else local | None \<Rightarrow> local)"

definition code_text :: "TikTokApiError \<Rightarrow> string option" where
  "code_text t = (case te_providerCode t of Some n \<Rightarrow> if n \<noteq> 0 then Some (show_int n) else None | None \<Rightarrow> None)"

definition next_page_of :: "SearchPartition option \<Rightarrow> int" where
  "next_page_of p = (case p of None \<Rightarrow> 0 | Some q \<Rightarrow> pt_pagesCompleted q) + 1"

definition throttled_tx :: "SyncJob \<Rightarrow> SearchPartition option \<Rightarrow> TikTokApiError \<Rightarrow> millis \<Rightarrow> unit tx" where
  "throttled_tx job p t now =
    (let nextAttemptAt = retry_at job t now; safe = safeTikTokMessage t; pause = cj_pauseRequested job
     in tx_seq [
       update_sync_job (cj_id job) (\<lambda>j. (put_aside pause ''PAUSED'' ''WAITING_RETRY'' nextAttemptAt safe j)
         \<lparr>cj_lastProviderCode := or_else (code_text t) (Some (te_kind t)),
          cj_lastResponseAt := (if te_httpStatus t = None then cj_lastResponseAt job else Some now),
          cj_lastHttpStatus := or_else (te_httpStatus t) (cj_lastHttpStatus j), cj_lastTikTokCode := or_else (code_text t) (cj_lastTikTokCode j)\<rparr>),
       (case p of None \<Rightarrow> tx_return () | Some q \<Rightarrow> update_partition (pt_id q) (\<lambda>r. (waiting_partition pause safe r)
         \<lparr>pt_throttleAttempts := pt_throttleAttempts r + (if te_kind t = ''RATE_LIMIT'' then 1 else 0)\<rparr>)),
       log_sync_event ((about_partition p (new_event (cj_id job) (if te_kind t = ''RATE_LIMIT'' then ''TIKTOK_THROTTLED'' else ''TIKTOK_ERROR'') now))
         \<lparr>se_pageNumber := Some (next_page_of p), se_httpStatus := te_httpStatus t, se_tiktokCode := code_text t,
          se_safeMessage := Some safe, se_nextAttemptAt := (if pause then None else Some nextAttemptAt)\<rparr>)])"

subsection \<open>Everything else\<close>

definition error_stage :: "SyncJob \<Rightarrow> Err \<Rightarrow> string" where
  "error_stage job e = (case e of StageError stage m \<Rightarrow> stage | ReadError t \<Rightarrow> ''TIKTOK_ERROR''
     | _ \<Rightarrow> if cj_currentStage job \<in> {''STAGING_PAGE'', ''SAVING_DATABASE''} then ''DATABASE_ERROR''
         else if cj_currentStage job = ''SAVING_SHEET'' then ''SHEET_ERROR''
         else if cj_currentStage job = ''COMMITTING_PAGE'' then ''CURSOR_ERROR'' else ''SYNC_ERROR'')"

definition error_text :: "SyncConfig \<Rightarrow> SyncJob \<Rightarrow> Err \<Rightarrow> string" where
  "error_text cfg job e = (case e of ReadError t \<Rightarrow> safeTikTokMessage t
     | _ \<Rightarrow> (let stage = error_stage job e
         in if stage = ''PARTITION_CONFIG_ERROR'' then (case e of StageError s m \<Rightarrow> m | _ \<Rightarrow> ''Marketplace partition category configuration is invalid'')
            else if stage = ''DATABASE_ERROR'' then safeDatabaseMessage (databaseFailureDetails cfg e)
            else if stage = ''SHEET_ERROR'' then ''Google Sheets save failed; the page was not committed''
            else if stage = ''CURSOR_ERROR'' then ''Page commit failed; the cursor was not advanced''
            else ''Creator synchronization failed before the page was committed''))"

definition failed_sync_job :: "SyncConfig \<Rightarrow> SyncJob \<Rightarrow> Err \<Rightarrow> millis \<Rightarrow> SyncJob \<Rightarrow> SyncJob" where
  "failed_sync_job cfg job e now j = j\<lparr>cj_state := CreatorSyncState.ERROR, cj_currentStage := error_stage job e,
     cj_lastError := Some (error_text cfg job e), cj_lastSafeError := Some (error_text cfg job e),
     cj_lastResponseAt := (case e of ReadError t \<Rightarrow> if te_httpStatus t \<noteq> None then Some now else cj_lastResponseAt job | _ \<Rightarrow> cj_lastResponseAt job),
     cj_lastHttpStatus := (case e of ReadError t \<Rightarrow> or_else (te_httpStatus t) (cj_lastHttpStatus j) | _ \<Rightarrow> cj_lastHttpStatus job),
     cj_lastTikTokCode := (case e of ReadError t \<Rightarrow> code_text t | _ \<Rightarrow> None),
     cj_lastProviderCode := (case e of ReadError t \<Rightarrow> Some (case te_providerCode t of Some n \<Rightarrow> show_int n | None \<Rightarrow> te_kind t) | _ \<Rightarrow> cj_lastProviderCode job),
     cj_nextAttemptAt := None, cj_leaseId := None, cj_leaseExpiresAt := None\<rparr>"

definition failed_tx :: "SyncConfig \<Rightarrow> SyncJob \<Rightarrow> SearchPartition option \<Rightarrow> Err \<Rightarrow> millis \<Rightarrow> unit tx" where
  "failed_tx cfg job p e now = tx_seq [
     update_sync_job (cj_id job) (failed_sync_job cfg job e now),
     (case p of None \<Rightarrow> tx_return () | Some q \<Rightarrow> update_partition (pt_id q)
       (\<lambda>r. r\<lparr>pt_status := PartitionStatus.ERROR, pt_lastError := Some (error_text cfg job e)\<rparr>)),
     log_sync_event ((about_partition p (new_event (cj_id job) (error_stage job e) now))
       \<lparr>se_pageNumber := Some (next_page_of p), se_safeMessage := Some (error_text cfg job e)\<rparr>)]"

definition provider_tx :: "SyncConfig \<Rightarrow> SyncJob \<Rightarrow> SearchPartition option \<Rightarrow> Err \<Rightarrow> millis \<Rightarrow> unit tx" where
  "provider_tx cfg job p e now = (case e of
     ReadError t \<Rightarrow>
       (if is_business_error t \<and> p \<noteq> None then business_error_tx job (the p) t now
        else if te_kind t \<in> {''RATE_LIMIT'', ''TEMPORARY''} then throttled_tx job p t now else failed_tx cfg job p e now)
   | _ \<Rightarrow> failed_tx cfg job p e now)"

definition SHEET_STAGES :: "string list" where
  "SHEET_STAGES = [''SAVING_SHEET'', ''RECONCILING_SHEET'', ''WAITING_SHEET_RETRY'', ''SHEETS_BLOCKED_RETRYING'']"

definition handleError_crawl :: "SyncConfig \<Rightarrow> ident \<Rightarrow> ident \<Rightarrow> Err \<Rightarrow> unit prog" where
  "handleError_crawl cfg i lease e =
    p_bind (transact (\<lambda>_. tx_read (leased_job i lease))) (\<lambda>found.
    case found of
      None \<Rightarrow> Return ()
    | Some job \<Rightarrow>
        p_bind (case cj_currentPartitionId job of None \<Rightarrow> Return None | Some k \<Rightarrow> transact (\<lambda>_. tx_read (find_partition k))) (\<lambda>p.
        p_bind clock (\<lambda>now.
        p_bind (transact (\<lambda>_. tx_read (pending_any i))) (\<lambda>pending.
        p_bind (if pending \<noteq> None \<and> cj_currentStage job \<in> set SHEET_STAGES then handleSheetsFailure job p e else Return False) (\<lambda>handled.
        if handled then Return () else transact (\<lambda>_. provider_tx cfg job p e now))))))"

definition processNext_crawl :: "SyncConfig \<Rightarrow> ident \<Rightarrow> bool prog" where
  "processNext_crawl cfg shopId =
    p_bind clock (\<lambda>now.
    p_bind (transact (\<lambda>_. tx_read (due_job shopId now))) (\<lambda>candidate.
    case candidate of
      None \<Rightarrow> Return False
    | Some job \<Rightarrow>
        p_bind (transact (\<lambda>env. tx_bind (claim_job_tx cfg (cj_id job) (e_fresh env 0) now) (\<lambda>n. tx_return (n, e_fresh env 0)))) (\<lambda>(n, lease).
        if n \<noteq> 1 then Return True
        else p_then (p_catch (processClaimed_crawl cfg (cj_id job) lease) (handleError_crawl cfg (cj_id job) lease)) (Return True))))"

section \<open>Transactions on the crawl leave the other tables alone\<close>

lemma frame_update_row: "blind part \<Longrightarrow> frame part (update_page i f)" "blind part \<Longrightarrow> frame part (update_sync_job j g)"
  unfolding update_page_def update_sync_job_def by (intro frame_intros frame_basic frame_on_crawl frame_crawl_rows; assumption)+

lemma frame_stage: "blind part \<Longrightarrow> frame part (stage_tx job s p page ids i respondedAt now)"
  unfolding stage_tx_def upsert_receipt_def sampled_category_def Let_def
  by (auto simp del: tx_seq.simps intro!: frame_intros frame_on_crawl frame_crawl_rows)

lemma frame_commit:
  assumes "blind part"
  shows "frame part (commit_tx cfg i lease p page added dups fresh now)"
proof -
  have "frame part (advance_tx cfg i lease p page added dups pause now)" for pause
    unfolding advance_tx_def Let_def using assms by (auto simp del: tx_seq.simps intro!: frame_seq frame_crawl_rows)
  moreover have "frame part (finish_tx cfg i lease p page added dups pause fresh now)" for pause
    unfolding finish_tx_def using assms by (auto intro!: frame_intros frame_crawl_rows frame_expand)
  ultimately show ?thesis unfolding commit_tx_def using assms
    by (auto intro!: frame_intros frame_crawl_rows frame_update_row)
qed

lemma frame_sheet_attempt: "blind part \<Longrightarrow> frame part (sheet_attempt_tx i lease p page added dups now)"
  unfolding sheet_attempt_tx_def Let_def by (intro frame_intros frame_basic frame_crawl_rows frame_update_row)

lemma frame_errors:
  assumes "blind part"
  shows "frame part (sheets_failure_tx job p page d now random)" "frame part (provider_tx cfg job p e now)"
proof -
  show "frame part (sheets_failure_tx job p page d now random)"
    unfolding sheets_failure_tx_def Let_def using assms
    by (auto simp del: tx_seq.simps intro!: frame_seq frame_crawl_rows frame_update_row split: option.split)
  have "frame part (failed_tx cfg job p e now)" "frame part (business_error_tx job q t now)" "frame part (throttled_tx job p t now)" for q t
    unfolding failed_tx_def business_error_tx_def throttled_tx_def Let_def using assms
    by (auto simp del: tx_seq.simps intro!: frame_seq frame_crawl_rows frame_update_row split: option.split)
  then show "frame part (provider_tx cfg job p e now)" by (auto simp: provider_tx_def split: Err.split)
qed

lemma frame_map_error: "frame part t \<Longrightarrow> frame part (tx_map_error f t)"
  by (auto simp: frame_def tx_map_error_def split: sum.splits)

lemma frame_persist: "frame tb_deliveries (persist_batch cfg s key fresh now offset n k cs)"
proof (induction cs arbitrary: k)
  case (Cons c cs)
  have "frame tb_deliveries (persist_creator s key fresh now k c)"
    unfolding persist_creator_def upsert_snapshot_def by (auto intro!: frame_intros frame_marketplace)
  then show ?case using Cons.IH by (auto intro!: frame_intros frame_map_error)
qed simp

lemma keeps_recordActivity: "keeps (recordActivity i lease p stage occurredAt details change)"
  unfolding recordActivity_def by (intro keeps_frame frame_intros frame_basic frame_crawl_rows blind_tables)

lemma keeps_asks: "keeps (search_creators filters token key)" "keeps (discoveryAdapter cfg)" "keeps (read_sheet s)" "keeps (reconcile_sheet s cs)"
  unfolding search_creators_def discoveryAdapter_def read_sheet_def reconcile_sheet_def
  by (rule keeps_silent; simp add: keeps_Return keeps_Throw split: sum.split)+

lemma keeps_persistCreators: "keeps (persistCreators cfg creators s key)"
proof -
  have "keeps (persist_from cfg s key creators n)" for n
  proof (induction cfg s key creators n rule: persist_from.induct)
    case (1 cfg s key creators n)
    then show ?case by (subst persist_from.simps) (auto intro!: keeps_rules keeps_frame frame_persist)
  qed
  then show ?thesis by (simp add: persistCreators_def)
qed

lemma keeps_my_job: "keeps (my_job i lease)"
  unfolding my_job_def by (rule keeps_read)

lemma keeps_commitPage: "keeps (commitPage cfg i lease g)"
proof -
  have "keeps (persist_page cfg i lease job p page)" for job p page
    unfolding persist_page_def
    by (auto intro!: keeps_rules keeps_recordActivity keeps_persistCreators keeps_frame frame_update_row)
  moreover have "keeps (stored_before page)" for page
    unfolding stored_before_def Let_def by (intro keeps_if keeps_Return keeps_frame frame_basic)
  ultimately show ?thesis unfolding commitPage_def commit_received_def Let_def
    by (auto intro!: keeps_rules keeps_read keeps_asks keeps_recordActivity keeps_frame frame_sheet_attempt frame_commit)
qed

lemma keeps_processNext_crawl: "keeps (processNext_crawl cfg shopId)"
proof -
  have pause: "keeps (pauseClaimed job lease p)" for job lease p
    unfolding pauseClaimed_def by (auto simp del: tx_seq.simps intro!: keeps_frame frame_seq frame_crawl_rows split: option.split)
  have search: "keeps (search_page cfg i lease job p)" for i lease job p
    unfolding search_page_def
    by (auto intro!: keeps_rules keeps_read keeps_asks keeps_recordActivity keeps_frame frame_crawl_rows split: sum.split)
  have receive: "keeps (receive_page i lease job p page)" for i lease job p page
    unfolding receive_page_def Let_def
    by (auto intro!: keeps_rules keeps_read keeps_recordActivity keeps_frame frame_crawl_rows frame_stage split: option.split)
  have import: "keeps (import_sheet cfg i lease job)" for i lease job
    unfolding import_sheet_def by (auto intro!: keeps_rules keeps_asks keeps_persistCreators keeps_my_job keeps_frame frame_crawl_rows)
  have crawl: "keeps (crawl_partition cfg i lease p)" for i lease p
    unfolding crawl_partition_def by (auto intro!: keeps_rules keeps_my_job keeps_commitPage pause search receive)
  have claimed: "keeps (processClaimed_crawl cfg i lease)" for i lease
    unfolding processClaimed_crawl_def
    by (auto intro!: keeps_rules keeps_option keeps_read keeps_my_job keeps_commitPage keeps_crawl_queue pause import crawl)
  have sheets: "keeps (handleSheetsFailure job p e)" for job p e
    unfolding handleSheetsFailure_def
    by (auto intro!: keeps_rules keeps_option keeps_read keeps_frame frame_errors keeps_silent split: prod.split)
  have err: "keeps (handleError_crawl cfg i lease e)" for i lease e
    unfolding handleError_crawl_def by (auto intro!: keeps_rules keeps_option keeps_read keeps_frame frame_errors sheets)
  have "frame tb_deliveries (claim_job_tx cfg i lease now)" for i lease now
    unfolding claim_job_tx_def Let_def by (intro frame_intros frame_basic frame_crawl_rows blind_tables)
  then show ?thesis unfolding processNext_crawl_def
    by (auto intro!: keeps_rules keeps_option keeps_read claimed err keeps_frame frame_bind split: prod.split)
qed

end
