(* ===== verification/Queue.thy ===== *)
theory Queue
  imports Crawl
begin

text \<open>
  What the queue of the marketplace crawl (\<open>Crawl\<close>) guarantees: which partition a claim starts and when it finds
  none, that expansion leaves nothing to expand and keeps the partitions a tree of halved ranges.
\<close>

section \<open>The claim\<close>

lemma on_crawl_run [simp]:
  "on_crawl f db = Inr ((), db\<lparr>tb_crawl := f (tb_crawl db)\<rparr>)"
  "tx_bind (on_crawl f) k db = k () (db\<lparr>tb_crawl := f (tb_crawl db)\<rparr>)"
  by (simp_all add: on_crawl_def)

lemmas crawl_updates = update_partitions_def update_sync_jobs_def update_categories_def log_sync_event_def

lemma same_id: "distinct (map pt_id ps) \<Longrightarrow> p \<in> set ps \<Longrightarrow> q \<in> set ps \<Longrightarrow> pt_id p = pt_id q \<Longrightarrow> p = q"
  by (auto simp: distinct_map inj_on_def)

lemma choose_InrD:
  assumes "choose_partition cfg job now db = Inr ch"
  shows "ch_selected ch = or_else
      (case coverage_seed cfg job db of None \<Rightarrow> None
       | Some s \<Rightarrow> if ch_slot ch = PRIMARY_EXPLORATION
           then List.find (\<lambda>c. sc_id c = pt_id s) (map (scoreCandidate now (observations (cj_id job) db)) (claim_candidates cfg job db)) else None)
      (selectSchedulerCandidate (map (scoreCandidate now (observations (cj_id job) db)) (claim_candidates cfg job db)) (ch_slot ch))"
proof (cases "schedulerSlot (Fin (of_int (cj_partitionClaimSequence job + 1))) (job_coverage_mode cfg job db)
    (Fin (of_int (cg_g4Cadence cfg))) (Fin (of_int (cg_primaryCycle cfg)))")
  case (Inl m)
  then show ?thesis using assms unfolding choose_partition_def Let_def by simp
next
  case (Inr slot)
  show ?thesis using assms unfolding choose_partition_def Let_def Inr sum.case sum.inject
    by (rule subst) (unfold ClaimChoice.select_convs, rule refl)
qed

lemma chosen_row:
  assumes ids: "distinct (map pt_id (partitions db))" and ch: "choose_partition cfg job now db = Inr ch" "ch_selected ch = Some sel"
  shows "\<exists>c \<in> set (claim_candidates cfg job db). sel = scoreCandidate now (observations (cj_id job) db) c \<and>
    (is_g4 (fst c) \<longrightarrow> ch_slot ch = G4_PROBE)"
proof -
  let ?score = "scoreCandidate now (observations (cj_id job) db)" and ?cs = "claim_candidates cfg job db"
  consider (cover) s where "coverage_seed cfg job db = Some s" "List.find (\<lambda>c. sc_id c = pt_id s) (map ?score ?cs) = Some sel"
    | (best) "selectSchedulerCandidate (map ?score ?cs) (ch_slot ch) = Some sel"
    using choose_InrD [OF ch(1)] ch(2) by (auto simp: or_else_def split: option.splits if_splits)
  then show ?thesis
  proof cases
    case (cover s)
    obtain c where c: "c \<in> set ?cs" "sel = ?score c" "pt_id (fst c) = pt_id s" using find_SomeD [OF cover(2)] by auto
    have "fst c = s"
      using same_id [OF ids] claim_candidates_rows [OF c(1)] eligible_seeds_rows [OF coverage_seed_rows [OF cover(1)]] c(3) by blast
    then show ?thesis using c eligible_seeds_rows [OF coverage_seed_rows [OF cover(1)]] by blast
  next
    case best
    then obtain c where "c \<in> set ?cs" "sel = ?score c" using selection_mem by fastforce
    then show ?thesis using selection_mem [OF best] scored_schedulable by blast
  qed
qed

lemma no_choice:
  assumes "choose_partition cfg job now db = Inr ch" "ch_selected ch = None" "c \<in> set (claim_candidates cfg job db)"
  shows "is_g4 (fst c)"
proof -
  let ?score = "scoreCandidate now (observations (cj_id job) db)" and ?cs = "claim_candidates cfg job db"
  have "selectSchedulerCandidate (map ?score ?cs) (ch_slot ch) = None"
    using choose_InrD [OF assms(1)] assms(2) by (auto simp: or_else_def split: option.splits)
  then have "\<not> schedulable (ch_slot ch) (?score c)" using assms(3) selection_none [of "map ?score ?cs"] by auto
  then show ?thesis using scored_schedulable [OF assms(3)] by blast
qed

lemma mark_malformed_run:
  assumes "mark_malformed job cats now db = Inr (u, db')"
  shows "sync_jobs db' = sync_jobs db \<and>
    (\<exists>P. partitions db' = upd_where P (\<lambda>p. p\<lparr>pt_priorityReason := Some STALE_SNAPSHOT, pt_priorityUpdatedAt := Some now\<rparr>) (partitions db))"
proof (cases "map pt_id (filter (malformed_seed cats) (primary_family_rows job db)) = []")
  case True
  then have "db' = db" using assms by (simp add: mark_malformed_def)
  then show ?thesis by (auto simp: upd_where_def intro: exI [of _ "\<lambda>_. False"])
next
  case False
  then show ?thesis using assms by (auto simp: mark_malformed_def crawl_updates)
qed

lemma claim_next_InrE:
  assumes "claim_next cfg lease job now db = Inr (r, db')"
  obtains (exhausted) ch db1 where "choose_partition cfg job now db = Inr ch" "ch_selected ch = None" "r = None"
      "mark_malformed (cj_id job) (shop_categories (cj_shopId job) db) now db = Inr ((), db1)"
      "update_sync_jobs (holds_lease (cj_id job) lease) all_complete db1 = Inr ((), db')"
  | (started) ch sel p first db1 where "choose_partition cfg job now db = Inr ch" "ch_selected ch = Some sel" "r = Some p"
      "mark_malformed (cj_id job) (shop_categories (cj_shopId job) db) now db = Inr ((), db1)"
      "claim_selected cfg lease job ch sel first now db1 = Inr (p, db')"
proof -
  obtain db1 where 1: "mark_malformed (cj_id job) (shop_categories (cj_shopId job) db) now db = Inr ((), db1)"
    and 2: "(case choose_partition cfg job now db of Inl m \<Rightarrow> tx_throw (PlainError m)
       | Inr ch \<Rightarrow> (case ch_selected ch of
           None \<Rightarrow> tx_bind (update_sync_jobs (holds_lease (cj_id job) lease) all_complete) (\<lambda>_. tx_return None)
         | Some selected \<Rightarrow> tx_bind (claim_selected cfg lease job ch selected
               (case family_key (cd_partition (sc_candidate selected)) of None \<Rightarrow> True
                | Some key \<Rightarrow> \<not> family_touched (primary_family_rows (cj_id job) db) key) now)
             (\<lambda>p. tx_return (Some p)))) db1 = Inr (r, db')"
    using assms unfolding claim_next_def tx_bind_read prod.case by (rule tx_bind_InrE) auto
  show thesis
  proof (cases "choose_partition cfg job now db")
    case (Inl m)
    then show ?thesis using 2 by simp
  next
    case (Inr ch)
    show ?thesis
    proof (cases "ch_selected ch")
      case None
      then have "r = None \<and> update_sync_jobs (holds_lease (cj_id job) lease) all_complete db1 = Inr ((), db')"
        using 2 Inr by (auto elim!: tx_bind_InrE)
      then show ?thesis using exhausted [OF Inr None _ 1] by blast
    next
      case (Some sel)
      then obtain p first where "r = Some p" "claim_selected cfg lease job ch sel first now db1 = Inr (p, db')"
        using 2 Inr by (auto elim!: tx_bind_InrE)
      then show ?thesis using started [OF Inr Some _ 1] by blast
    qed
  qed
qed

lemma claim_selected_run:
  assumes "claim_selected cfg lease job ch sel first now db = Inr (p, db')"
  shows "p = claimed_partition cfg ch sel (cj_partitionClaimSequence job + 1) first now (cd_partition (sc_candidate sel)) \<and>
    (let row = cd_partition (sc_candidate sel);
         mine = (\<lambda>q. pt_id q = pt_id row \<and> pt_status q = (if is_g4 row then PartitionStatus.EXPERIMENT_ONLY else PartitionStatus.QUEUED))
     in count_where mine (partitions db) = 1 \<and>
        partitions db' = upd_where mine (claimed_partition cfg ch sel (cj_partitionClaimSequence job + 1) first now) (partitions db)) \<and>
    (\<forall>j \<in> set (sync_jobs db'). holds_lease (cj_id job) lease j \<longrightarrow>
       cj_currentPartitionId j = Some (pt_id (cd_partition (sc_candidate sel))) \<and> cj_partitionClaimSequence j = cj_partitionClaimSequence job + 1)"
  using assms unfolding claim_selected_def Let_def
  by (auto simp: crawl_updates tx_bind_guard set_upd_where holds_lease_def split: if_splits)

text \<open>
  C20. Whatever partition a claim starts, it was a row of the job that may be claimed: a queued
  row of the first three buckets, or a row of Very High kept for probes, which is then marked as a
  probe. It becomes STARTING and the current partition of the leased job, whose claim sequence
  goes up by one, and no other row changes its status.
\<close>

theorem claim_starts_a_claimable_partition:
  assumes "distinct (map pt_id (partitions db))" "claim_next cfg lease job now db = Inr (Some p, db')"
  shows "\<exists>q \<in> set (partitions db). pt_id q = pt_id p \<and> may_be_claimed (cj_id job) q \<and> pt_gmvBucket p = pt_gmvBucket q \<and>
    pt_status p = STARTING \<and> pt_startedAt p = Some now \<and> (is_g4 p \<longrightarrow> sd_isG4Probe (pt_scheduler p)) \<and> (is_specific q \<longrightarrow> resumable p) \<and>
    p \<in> set (partitions db') \<and> map pt_id (partitions db') = map pt_id (partitions db) \<and>
    (\<forall>r' \<in> set (partitions db'). pt_id r' \<noteq> pt_id p \<longrightarrow> (\<exists>r \<in> set (partitions db). pt_id r = pt_id r' \<and> pt_status r = pt_status r')) \<and>
    (\<forall>j \<in> set (sync_jobs db'). holds_lease (cj_id job) lease j \<longrightarrow>
       cj_currentPartitionId j = Some (pt_id p) \<and> cj_partitionClaimSequence j = cj_partitionClaimSequence job + 1)"
  using assms(2)
proof (cases rule: claim_next_InrE)
  case (started ch sel p' first db1)
  obtain c where c: "c \<in> set (claim_candidates cfg job db)" "sel = scoreCandidate now (observations (cj_id job) db) c"
    "is_g4 (fst c) \<longrightarrow> ch_slot ch = G4_PROBE" using chosen_row [OF assms(1) started(1,2)] by blast
  define q where "q = fst c"
  have q: "q \<in> set (partitions db)" "may_be_claimed (cj_id job) q" using claim_candidates_rows [OF c(1)] by (simp_all add: q_def)
  obtain P where P: "partitions db1 = upd_where P (\<lambda>p. p\<lparr>pt_priorityReason := Some STALE_SNAPSHOT, pt_priorityUpdatedAt := Some now\<rparr>) (partitions db)"
    using mark_malformed_run [OF started(4)] by blast
  define claim where "claim = claimed_partition cfg ch sel (cj_partitionClaimSequence job + 1) first now"
  define mine :: "SearchPartition \<Rightarrow> bool" where "mine r \<longleftrightarrow> pt_id r = pt_id q \<and> pt_status r = (if is_g4 q then PartitionStatus.EXPERIMENT_ONLY else PartitionStatus.QUEUED)" for r
  have row: "cd_partition (sc_candidate sel) = q" by (simp add: c(2) q_def)
  note run = claim_selected_run [OF started(5), unfolded Let_def row, folded claim_def mine_def]
  have p: "p = claim q" and rows: "partitions db' = upd_where mine claim (partitions db1)" using run started(3) by (auto simp: mine_def [abs_def])
  have claims: "pt_id (claim r) = pt_id r" "pt_status (claim r) = STARTING" "pt_gmvBucket (claim r) = pt_gmvBucket r" "pt_startedAt (claim r) = Some now"
    "pt_gmvRange (claim r) = pt_gmvRange r" "sd_isG4Probe (pt_scheduler (claim r)) \<longleftrightarrow> ch_slot ch = G4_PROBE \<and> is_g4 q" for r
    by (simp_all add: claim_def claimed_partition_def claimed_columns_def Let_def row)
  have again: "claim (r\<lparr>pt_priorityReason := x, pt_priorityUpdatedAt := y\<rparr>) = claim r" for r x y
    by (simp add: claim_def claimed_partition_def)
  define stale where "stale r = (if P r then r\<lparr>pt_priorityReason := Some STALE_SNAPSHOT, pt_priorityUpdatedAt := Some now\<rparr> else r)" for r
  have stale: "pt_id (stale r) = pt_id r" "pt_status (stale r) = pt_status r" "claim (stale r) = claim r" for r
    by (simp_all add: stale_def again)
  have db1: "set (partitions db1) = stale ` set (partitions db)" unfolding P set_upd_where stale_def ..
  have "mine (stale q)" using q(2) by (auto simp: mine_def stale may_be_claimed_def is_g4_def)
  then have "claim (stale q) \<in> set (partitions db')" unfolding rows set_upd_where db1 using q(1) by (auto intro!: image_eqI [of _ _ q])
  then have mem: "p \<in> set (partitions db')" by (simp add: p stale)
  have others: "\<exists>r \<in> set (partitions db). pt_id r = pt_id r' \<and> pt_status r = pt_status r'" if r': "r' \<in> set (partitions db')" "pt_id r' \<noteq> pt_id p" for r'
  proof -
    obtain r where r: "r \<in> set (partitions db)" "r' = (if mine (stale r) then claim (stale r) else stale r)"
      using r'(1) unfolding rows set_upd_where db1 by auto
    then have "\<not> mine (stale r)" using r'(2) by (auto simp: mine_def stale claims p)
    then show ?thesis using r stale by metis
  qed
  have ids: "map pt_id (partitions db') = map pt_id (partitions db)" unfolding rows P by (simp add: upd_where_def claims)
  have g4: "is_g4 p \<longleftrightarrow> is_g4 q" "is_specific p \<longleftrightarrow> is_specific q" by (simp_all add: p is_g4_def is_specific_def claims)
  show ?thesis
    by (rule bexI [OF _ q(1)])
      (use q(2) g4 c(3) run mem others ids claims(1-4) claims(6) in \<open>auto simp: p resumable_def q_def\<close>)
qed simp

text \<open>
  C21. A claim finds nothing only when nothing may run: no queued adaptive partition and no queued
  seed of the third bucket is left, and the queued seeds of the first two are malformed or wait
  for the other bucket of their family. The leased job then is exhausted and its lease is given
  back.
\<close>

theorem exhausted_only_when_nothing_may_run:
  assumes "claim_next cfg lease job now db = Inr (None, db')"
  shows "(\<forall>q \<in> set (partitions db). may_be_claimed (cj_id job) q \<and> \<not> is_g4 q \<longrightarrow>
      pt_partitionType q = Production V2_SEED \<and> pt_gmvBucket q \<in> {Some ''G1'', Some ''G2''} \<and> q \<notin> set (eligible_seeds cfg job db)) \<and>
    eligible_seeds cfg job db = [] \<and>
    (\<forall>j \<in> set (sync_jobs db). holds_lease (cj_id job) lease j \<longrightarrow> all_complete j \<in> set (sync_jobs db'))"
  using assms
proof (cases rule: claim_next_InrE)
  case (exhausted ch db1)
  note none = no_choice [OF exhausted(1,2)]
  have seeds: "eligible_seeds cfg job db = []"
  proof (rule ccontr)
    assume "eligible_seeds cfg job db \<noteq> []"
    then obtain s where s: "first_of (eligible_seeds cfg job db) = Some s" by (cases "eligible_seeds cfg job db") (auto simp: first_of_def)
    then have "(s, None) \<in> set (claim_candidates cfg job db)" by (auto simp: mem_claim_candidates)
    then show False using none eligible_seeds_rows [OF first_of_mem [OF s]] by fastforce
  qed
  have g3: "first_seed (cj_id job) ''G3'' PartitionStatus.QUEUED db = None"
  proof (rule ccontr)
    assume "first_seed (cj_id job) ''G3'' PartitionStatus.QUEUED db \<noteq> None"
    then obtain s where s: "first_seed (cj_id job) ''G3'' PartitionStatus.QUEUED db = Some s" by blast
    then have "(s, None) \<in> set (claim_candidates cfg job db)" by (auto simp: mem_claim_candidates)
    then show False using none first_seed_rows [OF s] by (fastforce simp: is_g4_def)
  qed
  have adaptive: "adaptive_rows (cj_id job) [''G1'', ''G2'', ''G3''] PartitionStatus.QUEUED db = []"
  proof (rule ccontr)
    assume "adaptive_rows (cj_id job) [''G1'', ''G2'', ''G3''] PartitionStatus.QUEUED db \<noteq> []"
    then obtain p where p: "p \<in> set (adaptive_rows (cj_id job) [''G1'', ''G2'', ''G3''] PartitionStatus.QUEUED db)" by fastforce
    then have "with_parent db p \<in> set (claim_candidates cfg job db)" by (auto simp: mem_claim_candidates)
    then show False using none [of "with_parent db p"] p by (auto simp: with_parent_def adaptive_rows_def is_g4_def)
  qed
  have "pt_partitionType q = Production V2_SEED \<and> pt_gmvBucket q \<in> {Some ''G1'', Some ''G2''}"
    if q: "q \<in> set (partitions db)" "may_be_claimed (cj_id job) q" "\<not> is_g4 q" for q
  proof -
    obtain t where t: "pt_partitionType q = Production t" using q(2) by (auto simp: may_be_claimed_def is_production_def split: PartitionType.splits)
    have "t = V2_SEED"
      using adaptive q t by (cases t) (auto simp: adaptive_rows_def may_be_claimed_def filter_empty_conv)
    moreover have "pt_gmvBucket q \<noteq> Some ''G3''"
      using g3 q t calculation by (auto simp: first_seed_def may_be_claimed_def is_g4_def dest!: arg_cong [of "js_sort _ _" "[]" set])
    ultimately show ?thesis using q(2,3) t by (auto simp: may_be_claimed_def)
  qed
  moreover have "\<forall>j \<in> set (sync_jobs db). holds_lease (cj_id job) lease j \<longrightarrow> all_complete j \<in> set (sync_jobs db')"
    using exhausted(5) mark_malformed_run [OF exhausted(4)] by (auto simp: crawl_updates set_upd_where)
  ultimately show ?thesis using seeds by simp
qed simp

section \<open>Expansion\<close>

text \<open>
  The rows of a job form trees: an adaptive follower partition has a parent that counts as explored, with the same
  category and bucket, and searches one half of its parent's range.
\<close>

definition is_child :: "ident \<Rightarrow> SearchPartition \<Rightarrow> bool" where
  "is_child job p \<longleftrightarrow> pt_creatorSyncJobId p = job \<and> pt_partitionType p = Production ADAPTIVE_FOLLOWER"

definition half_of :: "SearchPartition \<Rightarrow> SearchPartition \<Rightarrow> bool" where
  "half_of q p \<longleftrightarrow> (case pt_followersMin q of None \<Rightarrow> False
     | Some lo \<Rightarrow> (case binaryFollowerRange lo (pt_followersMax q) of None \<Rightarrow> False
       | Some (a, b) \<Rightarrow> \<exists>h \<in> {a, b}. pt_followersMin p = Some (fst h) \<and> pt_followersMax p = Some (snd h))) \<and>
     pt_categoryId p = pt_categoryId q \<and> pt_categoryChildId p = pt_categoryChildId q \<and> pt_gmvBucket p = pt_gmvBucket q \<and>
     pt_adaptiveDepth p = pt_adaptiveDepth q + 1"

definition child_in :: "SearchPartition list \<Rightarrow> SearchPartition \<Rightarrow> bool" where
  "child_in ps p \<longleftrightarrow> (\<exists>q \<in> set ps. pt_parentPartitionId p = Some (pt_id q) \<and> pt_followerSplitExplored q \<and> half_of q p)"

definition trees_ok :: "ident \<Rightarrow> SearchPartition list \<Rightarrow> bool" where
  "trees_ok job ps \<longleftrightarrow> distinct (map pt_id ps) \<and> (\<forall>p \<in> set ps. is_child job p \<longrightarrow> child_in ps p)"

text \<open>What expansion may change of a row, and of the rows together: rows are added that have not run.\<close>

definition core :: "SearchPartition \<Rightarrow> SearchPartition" where
  "core p = p\<lparr>pt_followerSplitExplored := False, pt_followerRecursionTerminal := False, pt_followerRecursionStopReason := None,
     pt_combinedChildIncrementalYield := None, pt_branchClassification := UNCLASSIFIED\<rparr>"

definition kept :: "SearchPartition \<Rightarrow> SearchPartition \<Rightarrow> bool" where
  "kept p p' \<longleftrightarrow> core p' = core p \<and> (pt_followerSplitExplored p \<longrightarrow> pt_followerSplitExplored p') \<and> (unexplored p' \<longrightarrow> unexplored p)"

definition not_run :: "SearchPartition \<Rightarrow> bool" where
  "not_run p \<longleftrightarrow> pt_status p = (if pt_gmvBucket p = Some ''G4'' then PartitionStatus.EXPERIMENT_ONLY else PartitionStatus.QUEUED) \<and>
     pt_searchKey p = None \<and> pt_nextPageToken p = None \<and> pt_pagesCompleted p = 0 \<and> pt_rowsReturned p = 0 \<and>
     pt_uniqueCreatorsAdded p = 0 \<and> pt_duplicates p = 0 \<and> pt_marketplaceRequests p = 0 \<and> pt_throttleAttempts p = 0 \<and>
     pt_businessRetryCount p = 0 \<and> pt_startedAt p = None \<and> pt_completedAt p = None \<and> pt_lastRequestAt p = None \<and>
     pt_lastSuccessAt p = None \<and> pt_lastError p = None"

lemma not_run_unfinished: "not_run p \<Longrightarrow> \<not> finished p"
  by (simp add: not_run_def finished_def split: if_splits)

definition growth :: "ident \<Rightarrow> SearchPartition list \<Rightarrow> SearchPartition list \<Rightarrow> bool" where
  "growth job ps ps' \<longleftrightarrow> distinct (map pt_id ps') \<and> (\<exists>g new. ps' = map g ps @ new \<and> (\<forall>p \<in> set ps. kept p (g p)) \<and>
     (\<forall>n \<in> set new. not_run n \<and> is_child job n \<and> child_in ps' n))"

lemma core_cols:
  assumes "core p' = core p"
  shows "pt_id p' = pt_id p" "pt_creatorSyncJobId p' = pt_creatorSyncJobId p" "pt_partitionType p' = pt_partitionType p"
    "pt_status p' = pt_status p" "pt_parentPartitionId p' = pt_parentPartitionId p" "pt_followersMin p' = pt_followersMin p"
    "pt_followersMax p' = pt_followersMax p" "pt_categoryId p' = pt_categoryId p" "pt_categoryChildId p' = pt_categoryChildId p"
    "pt_gmvBucket p' = pt_gmvBucket p" "pt_adaptiveDepth p' = pt_adaptiveDepth p"
  using arg_cong [OF assms, of pt_id] arg_cong [OF assms, of pt_creatorSyncJobId] arg_cong [OF assms, of pt_partitionType]
    arg_cong [OF assms, of pt_status] arg_cong [OF assms, of pt_parentPartitionId] arg_cong [OF assms, of pt_followersMin]
    arg_cong [OF assms, of pt_followersMax] arg_cong [OF assms, of pt_categoryId] arg_cong [OF assms, of pt_categoryChildId]
    arg_cong [OF assms, of pt_gmvBucket] arg_cong [OF assms, of pt_adaptiveDepth]
  by (simp_all add: core_def)

lemma kept_refl [simp]: "kept p p" by (simp add: kept_def)

lemma kept_trans: "kept p q \<Longrightarrow> kept q r \<Longrightarrow> kept p r" by (auto simp: kept_def)

lemma kept_not_run: "core p' = core p \<Longrightarrow> not_run p' = not_run p"
proof -
  have *: "not_run (core q) = not_run q" for q by (simp add: not_run_def core_def)
  assume "core p' = core p"
  then show ?thesis using * [of p] * [of p'] by simp
qed

lemma kept_cols:
  assumes "kept p p'"
  shows "pt_id p' = pt_id p" "pt_parentPartitionId p' = pt_parentPartitionId p" "finished p' = finished p" "is_child job p' = is_child job p"
    "half_of p' c = half_of p c" "half_of q p' = half_of q p" "pt_partitionType p' = pt_partitionType p" "specific_code p' = specific_code p"
    "pt_creatorSyncJobId p' = pt_creatorSyncJobId p" "pt_status p' = pt_status p" "pt_followerSplitExplored p \<Longrightarrow> pt_followerSplitExplored p'"
    "unexplored p' \<Longrightarrow> unexplored p" "not_run p' = not_run p"
proof -
  have same: "core p' = core p" using assms by (simp add: kept_def)
  note c = core_cols [OF same]
  show "not_run p' = not_run p" by (rule kept_not_run [OF same])
  show "pt_id p' = pt_id p" "pt_parentPartitionId p' = pt_parentPartitionId p" "finished p' = finished p" "is_child job p' = is_child job p"
    "half_of p' c = half_of p c" "half_of q p' = half_of q p" "pt_partitionType p' = pt_partitionType p" "specific_code p' = specific_code p"
    "pt_creatorSyncJobId p' = pt_creatorSyncJobId p" "pt_status p' = pt_status p"
    unfolding finished_def is_child_def half_of_def specific_code_def c by (rule refl)+
qed (use assms in \<open>simp_all add: kept_def\<close>)

lemma child_in_kept:
  assumes "child_in ps c" "\<forall>p \<in> set ps. kept p (g p)" "kept c c'"
  shows "child_in (map g ps @ new) c'"
proof -
  obtain q where q: "q \<in> set ps" "pt_parentPartitionId c = Some (pt_id q)" "pt_followerSplitExplored q" "half_of q c"
    using assms(1) by (auto simp: child_in_def)
  have "kept q (g q)" using assms(2) q(1) by blast
  then have "pt_parentPartitionId c' = Some (pt_id (g q))" "pt_followerSplitExplored (g q)" "half_of (g q) c'"
    using q kept_cols [OF assms(3)] kept_cols [of q "g q"] by simp_all
  then show ?thesis using q(1) unfolding child_in_def by (intro bexI [of _ "g q"]) auto
qed

lemma growthE:
  assumes "growth job ps ps'"
  obtains g new where "ps' = map g ps @ new" "\<forall>p \<in> set ps. kept p (g p)" "distinct (map pt_id ps')"
    "\<forall>n \<in> set new. not_run n \<and> \<not> finished n \<and> is_child job n \<and> child_in ps' n"
  using assms not_run_unfinished unfolding growth_def by blast

lemma growth_trans:
  assumes "growth job ps qs" "growth job qs rs"
  shows "growth job ps rs"
proof -
  from assms(1) obtain g new where 1: "qs = map g ps @ new" "\<forall>p \<in> set ps. kept p (g p)" "distinct (map pt_id qs)"
    "\<forall>n \<in> set new. not_run n \<and> \<not> finished n \<and> is_child job n \<and> child_in qs n" by (rule growthE)
  from assms(2) obtain h new' where 2: "rs = map h qs @ new'" "\<forall>p \<in> set qs. kept p (h p)" "distinct (map pt_id rs)"
    "\<forall>n \<in> set new'. not_run n \<and> \<not> finished n \<and> is_child job n \<and> child_in rs n" by (rule growthE)
  have "not_run (h n) \<and> is_child job (h n) \<and> child_in rs (h n)" if n: "n \<in> set new" for n
  proof -
    have "kept n (h n)" using 2(2) n 1(1) by simp
    then show ?thesis using bspec [OF 1(4) n] child_in_kept [of qs n h "h n" new'] 2(1,2) by (simp add: kept_cols)
  qed
  moreover have "kept p (h (g p))" if "p \<in> set ps" for p using kept_trans [OF bspec [OF 1(2) that] bspec [OF 2(2)]] that 1(1) by simp
  moreover have "rs = map (h \<circ> g) ps @ (map h new @ new')" by (simp add: 1(1) 2(1))
  ultimately show ?thesis using 2(3,4) unfolding growth_def
    by (intro conjI exI [of _ "h \<circ> g"] exI [of _ "map h new @ new'"]) auto
qed

lemma growth_trees:
  assumes "trees_ok job ps" "growth job ps ps'"
  shows "trees_ok job ps'"
proof -
  from assms(2) obtain g new where g: "ps' = map g ps @ new" "\<forall>p \<in> set ps. kept p (g p)" and d: "distinct (map pt_id ps')"
    and new: "\<forall>n \<in> set new. not_run n \<and> \<not> finished n \<and> is_child job n \<and> child_in ps' n" by (rule growthE)
  have "child_in ps' (g p)" if p: "p \<in> set ps" "is_child job (g p)" for p
  proof -
    have "child_in ps p" using assms(1) p kept_cols(4) [OF bspec [OF g(2) p(1)]] by (auto simp: trees_ok_def)
    then show ?thesis unfolding g(1) using child_in_kept g(2) p(1) by blast
  qed
  then show ?thesis using g(1) d new by (auto simp: trees_ok_def)
qed

text \<open>A row of the outcome that is still unexplored was there before, unexplored.\<close>

lemma growth_back:
  assumes "growth job ps ps'" "p' \<in> set ps'" "finished p' \<or> \<not> is_child job p'"
  shows "\<exists>p \<in> set ps. kept p p'"
proof -
  from assms(1) obtain g new where g: "ps' = map g ps @ new" "\<forall>p \<in> set ps. kept p (g p)" "distinct (map pt_id ps')"
    "\<forall>n \<in> set new. not_run n \<and> \<not> finished n \<and> is_child job n \<and> child_in ps' n" by (rule growthE)
  then have "p' \<in> set (map g ps)" using assms(2,3) by auto
  then show ?thesis using g(2) by auto
qed

lemma growth_forward:
  assumes "growth job ps ps'" "p \<in> set ps" "p' \<in> set ps'" "pt_id p' = pt_id p"
  shows "kept p p'"
proof -
  from assms(1) obtain g new where g: "ps' = map g ps @ new" "\<forall>p \<in> set ps. kept p (g p)" and d: "distinct (map pt_id ps')"
    and "\<forall>n \<in> set new. not_run n \<and> \<not> finished n \<and> is_child job n \<and> child_in ps' n" by (rule growthE)
  have "kept p (g p)" using g(2) assms(2) by blast
  then have "p' = g p" using same_id [OF d assms(3), of "g p"] assms(2,4) g(1) by (simp add: kept_cols)
  then show ?thesis using \<open>kept p (g p)\<close> by simp
qed

lemma growth_refl: "trees_ok job ps \<Longrightarrow> growth job ps ps"
  unfolding growth_def trees_ok_def by (intro conjI exI [of _ id] exI [of _ "[]"]) auto

lemma insert_partition_run:
  "insert_partition fresh p db = Inr (n, db') \<Longrightarrow> db' = db \<or>
    (\<exists>i. partitions db' = partitions db @ [p\<lparr>pt_id := i\<rparr>] \<and> i \<notin> pt_id ` set (partitions db))"
  by (auto simp: insert_partition_def list_ex_iff collides_def split: if_splits intro!: exI [of _ "fresh (length (partitions db))"])

lemma create_partitions_run:
  "create_partitions fresh ps db = Inr (n, db') \<Longrightarrow> distinct (map pt_id (partitions db)) \<Longrightarrow>
    \<exists>new. partitions db' = partitions db @ new \<and> (\<forall>r \<in> set new. \<exists>p \<in> set ps. \<exists>i. r = p\<lparr>pt_id := i\<rparr>) \<and> distinct (map pt_id (partitions db'))"
proof (induction ps arbitrary: n db)
  case (Cons p ps)
  obtain k db1 m where 1: "insert_partition fresh p db = Inr (k, db1)" and 2: "create_partitions fresh ps db1 = Inr (m, db')"
    using Cons.prems(1) by (auto elim!: tx_bind_InrE)
  obtain added where added: "partitions db1 = partitions db @ added" "\<forall>r \<in> set added. \<exists>i. r = p\<lparr>pt_id := i\<rparr>" "distinct (map pt_id (partitions db1))"
    using insert_partition_run [OF 1] Cons.prems(2) by (elim disjE exE) auto
  obtain new where "partitions db' = partitions db1 @ new" "\<forall>r \<in> set new. \<exists>p \<in> set ps. \<exists>i. r = p\<lparr>pt_id := i\<rparr>" "distinct (map pt_id (partitions db'))"
    using Cons.IH [OF 2 added(3)] by blast
  then show ?case using added by (intro exI [of _ "added @ new"]) auto
qed simp

lemma update_partition_run: "update_partition i f db = Inr (u, db') \<Longrightarrow> partitions db' = upd_where (\<lambda>p. pt_id p = i) f (partitions db)"
  by (auto simp: update_partition_def crawl_updates split: option.splits)

lemma growth_update:
  assumes "trees_ok job ps" "\<And>p. p \<in> set ps \<Longrightarrow> Q p \<Longrightarrow> kept p (f p)"
  shows "growth job ps (upd_where Q f ps)"
proof -
  let ?g = "\<lambda>p. if Q p then f p else p"
  have k: "kept p (?g p)" if "p \<in> set ps" for p using assms(2) that by simp
  then have ids: "map pt_id (map ?g ps) = map pt_id ps" unfolding map_map by (intro map_cong refl) (simp only: o_def kept_cols)
  show ?thesis unfolding growth_def upd_where_def ids
    by (intro conjI exI [of _ ?g] exI [of _ "[]"]) (use k assms(1) in \<open>simp_all add: trees_ok_def\<close>)
qed

text \<open>A row that is expanded: other rows of before are untouched, and its own is not unexplored any more.\<close>

definition expanded :: "ident \<Rightarrow> SearchPartition \<Rightarrow> Tables \<Rightarrow> Tables \<Rightarrow> bool" where
  "expanded job p db db' \<longleftrightarrow> growth job (partitions db) (partitions db') \<and>
     (\<forall>r \<in> set (partitions db). pt_id r \<noteq> pt_id p \<longrightarrow> r \<in> set (partitions db')) \<and>
     (\<forall>r \<in> set (partitions db'). pt_id r = pt_id p \<longrightarrow> \<not> unexplored r)"

lemma half_of_new:
  assumes "pt_followersMin p = Some lo" "binaryFollowerRange lo (pt_followersMax p) = Some bs" "b \<in> {fst bs, snd bs}"
  shows "half_of p ((new_child p k b pr reason now)\<lparr>pt_id := i\<rparr>)"
  using assms by (cases bs) (auto simp: half_of_def new_child_def blank_partition_def)

lemma createFollowerChildren_run:
  assumes ok: "trees_ok job (partitions db)" and p: "p \<in> set (partitions db)" "pt_creatorSyncJobId p = job"
    and range: "pt_followersMin p = Some lo" "binaryFollowerRange lo (pt_followersMax p) = Some bs"
    and run: "createFollowerChildren fresh now p bs reason db = Inr (n, db')"
  shows "expanded job p db db'"
proof -
  let ?mark = "\<lambda>r. if pt_id r = pt_id p then r\<lparr>pt_followerSplitExplored := True\<rparr> else r"
  define missing :: "(int \<times> bounds) list" where "missing = filter (\<lambda>(k, b). child_key p b \<notin> set (map gmv_combination (existing_children p [fst bs, snd bs] db))) [(0, fst bs), (1, snd bs)]"
  let ?new = "map (\<lambda>(k, b). new_child p k b (childPriority p (pt_adaptiveDepth p + 1) ADAPTIVE_FOLLOWER) reason now) missing"
  have m: "set missing \<subseteq> {(0, fst bs), (1, snd bs)}" by (auto simp: missing_def)
  have "tx_bind (create_partitions fresh ?new) (\<lambda>created.
      tx_bind (update_partition (pt_id p) (\<lambda>p. p\<lparr>pt_followerSplitExplored := True\<rparr>)) (\<lambda>_.
      tx_bind (if created \<noteq> 0 then log_sync_event (split_event p bs reason now) else tx_return ()) (\<lambda>_. tx_return created))) db = Inr (n, db')"
    using run unfolding createFollowerChildren_def Let_def tx_bind_read missing_def by (simp split: if_splits)
  then obtain c db1 where 1: "create_partitions fresh ?new db = Inr (c, db1)"
    and "tx_bind (update_partition (pt_id p) (\<lambda>p. p\<lparr>pt_followerSplitExplored := True\<rparr>)) (\<lambda>_.
      tx_bind (if c \<noteq> 0 then log_sync_event (split_event p bs reason now) else tx_return ()) (\<lambda>_. tx_return c)) db1 = Inr (n, db')"
    by (rule tx_bind_InrE)
  then obtain db2 where up: "update_partition (pt_id p) (\<lambda>p. p\<lparr>pt_followerSplitExplored := True\<rparr>) db1 = Inr ((), db2)"
    and "partitions db' = partitions db2"
    by (auto simp: crawl_updates split: if_splits elim!: tx_bind_InrE)
  then have 2: "partitions db' = upd_where (\<lambda>r. pt_id r = pt_id p) (\<lambda>p. p\<lparr>pt_followerSplitExplored := True\<rparr>) (partitions db1)"
    using update_partition_run [OF up] by simp
  obtain new where new: "partitions db1 = partitions db @ new" "distinct (map pt_id (partitions db1))"
    "\<forall>r \<in> set new. \<exists>k i. \<exists>b \<in> {fst bs, snd bs}. r = (new_child p k b (childPriority p (pt_adaptiveDepth p + 1) ADAPTIVE_FOLLOWER) reason now)\<lparr>pt_id := i\<rparr>"
    using create_partitions_run [OF 1] ok m by (fastforce simp: trees_ok_def)
  have rows: "partitions db' = map ?mark (partitions db) @ map ?mark new"
    unfolding 2 new(1) upd_where_def by simp
  have ids: "distinct (map pt_id (partitions db'))"
    using new(1,2) unfolding rows by (simp add: o_def if_distrib cong: if_cong)
  have apart: "pt_id r \<noteq> pt_id p" if "r \<in> set new" for r
    using new(1,2) p(1) that by force
  have "not_run r \<and> is_child job r \<and> child_in (partitions db') r" if r: "r \<in> set new" for r
  proof -
    obtain k i b where b: "b \<in> {fst bs, snd bs}" "r = (new_child p k b (childPriority p (pt_adaptiveDepth p + 1) ADAPTIVE_FOLLOWER) reason now)\<lparr>pt_id := i\<rparr>"
      using new(3) r by blast
    have "half_of (p\<lparr>pt_followerSplitExplored := True\<rparr>) r" 
      using half_of_new [OF range b(1)] kept_cols(5) [of p "p\<lparr>pt_followerSplitExplored := True\<rparr>"]
      by (simp add: b(2) kept_def core_def unexplored_def)
    moreover have "p\<lparr>pt_followerSplitExplored := True\<rparr> \<in> set (partitions db')" using p(1) unfolding rows by force
    ultimately have "child_in (partitions db') r" unfolding child_in_def by (intro bexI) (auto simp: b(2) new_child_def)
    then show ?thesis using p(2) by (auto simp: b(2) new_child_def blank_partition_def not_run_def is_child_def)
  qed
  moreover have "kept r (?mark r)" for r by (simp add: kept_def core_def unexplored_def)
  moreover have "map ?mark new = new" using apart by (auto intro: map_idI)
  ultimately have "growth job (partitions db) (partitions db')"
    using ids unfolding growth_def by (intro conjI exI [of _ ?mark] exI [of _ new]) (auto simp: rows)
  then show ?thesis unfolding expanded_def rows by (auto simp: unexplored_def intro!: image_eqI)
qed

lemma expands:
  assumes "expansionFor cfg p = ExpandFollower bs reason"
  shows "\<exists>lo. pt_followersMin p = Some lo \<and> binaryFollowerRange lo (pt_followersMax p) = Some bs"
proof -
  show ?thesis using assms
    by (auto simp: expansionFor_def adaptiveExpansion_def splitFollowerRange_def dest!: branch_expansion_same split: option.splits PartitionType.splits if_splits)
qed

lemma expand_one_run:
  assumes ok: "trees_ok job (partitions db)" and p: "p \<in> set (partitions db)" "pt_creatorSyncJobId p = job"
    and run: "expand_one cfg fresh now p db = Inr (u, db')"
  shows "expanded job p db db'"
proof (cases "expansionFor cfg p")
  case (ExpandFollower bs reason)
  obtain n where "createFollowerChildren fresh now p bs reason db = Inr (n, db')"
    using run by (auto simp: expand_one_def ExpandFollower elim!: tx_bind_InrE)
  then show ?thesis using expands [OF ExpandFollower] createFollowerChildren_run [OF ok p] by blast
next
  case (NoExpansion reason)
  let ?f = "\<lambda>q. q\<lparr>pt_followerRecursionTerminal := True, pt_followerRecursionStopReason := Some reason\<rparr>"
  have rows: "partitions db' = upd_where (\<lambda>r. pt_id r = pt_id p) ?f (partitions db)"
    using run by (simp add: expand_one_def NoExpansion update_partition_run)
  have "growth job (partitions db) (partitions db')"
    unfolding rows by (rule growth_update [OF ok]) (simp add: kept_def core_def unexplored_def)
  then show ?thesis unfolding expanded_def by (auto simp: rows set_upd_where unexplored_def)
qed

lemma growth_has: "growth job ps ps' \<Longrightarrow> p \<in> set ps \<Longrightarrow> \<exists>p' \<in> set ps'. kept p p'"
  by (auto simp: growth_def)

text \<open>An id whose row is explored or terminal.\<close>

definition closed :: "ident \<Rightarrow> Tables \<Rightarrow> bool" where
  "closed i db \<longleftrightarrow> (\<forall>r \<in> set (partitions db). pt_id r = i \<longrightarrow> \<not> unexplored r)"

lemma closed_growth:
  assumes "closed i db" "growth job (partitions db) (partitions db')" "p \<in> set (partitions db)" "pt_id p = i"
  shows "closed i db'"
  unfolding closed_def
proof (intro ballI impI)
  fix r assume "r \<in> set (partitions db')" "pt_id r = i"
  then have "kept p r" using growth_forward [OF assms(2,3)] assms(4) by simp
  then show "\<not> unexplored r" using kept_cols(12) [of p r] assms(1,3,4) by (auto simp: closed_def)
qed

lemma expand_rows_run:
  "tx_each (expand_one cfg fresh now) ps db = Inr (u, db') \<Longrightarrow> trees_ok job (partitions db) \<Longrightarrow> set ps \<subseteq> set (partitions db) \<Longrightarrow>
    (\<forall>p \<in> set ps. pt_creatorSyncJobId p = job) \<Longrightarrow> distinct (map pt_id ps) \<Longrightarrow>
    growth job (partitions db) (partitions db') \<and> (\<forall>p \<in> set ps. closed (pt_id p) db')"
proof (induction ps arbitrary: db)
  case Nil
  then show ?case by (simp add: growth_refl)
next
  case (Cons p ps)
  obtain db1 where 1: "expand_one cfg fresh now p db = Inr ((), db1)" and 2: "tx_each (expand_one cfg fresh now) ps db1 = Inr (u, db')"
    using Cons.prems(1) by (auto elim!: tx_bind_InrE)
  have p: "p \<in> set (partitions db)" "pt_creatorSyncJobId p = job" using Cons.prems(3,4) by auto
  have e: "expanded job p db db1" by (rule expand_one_run [OF Cons.prems(2) p 1])
  then have g: "growth job (partitions db) (partitions db1)" and c: "closed (pt_id p) db1" by (simp_all add: expanded_def closed_def)
  have apart: "pt_id p \<notin> pt_id ` set ps" using Cons.prems(5) by simp
  have "r \<in> set (partitions db1)" if r: "r \<in> set ps" for r
  proof -
    have "r \<in> set (partitions db)" using Cons.prems(3) r by auto
    moreover have "pt_id r \<noteq> pt_id p" using apart imageI [OF r, of pt_id] by metis
    ultimately show ?thesis using e unfolding expanded_def by blast
  qed
  then have "set ps \<subseteq> set (partitions db1)" by blast
  then have rest: "growth job (partitions db1) (partitions db')" "\<forall>p \<in> set ps. closed (pt_id p) db'"
    using Cons.IH [OF 2 growth_trees [OF Cons.prems(2) g]] Cons.prems(4,5) by auto
  obtain p1 where p1: "p1 \<in> set (partitions db1)" "kept p p1" using growth_has [OF g p(1)] by blast
  have "closed (pt_id p) db'" by (rule closed_growth [OF c rest(1) p1(1)]) (simp add: kept_cols [OF p1(2)])
  then show ?case using growth_trans [OF g rest(1)] rest(2) by simp
qed

definition sibling :: "ident \<Rightarrow> ident \<Rightarrow> SearchPartition \<Rightarrow> bool" where
  "sibling job k p \<longleftrightarrow> is_child job p \<and> pt_parentPartitionId p = Some k"

lemma siblings_of_eq: "siblings_of job k db = js_sort sibling_cmp (filter (sibling job k) (partitions db))"
  unfolding siblings_of_def sibling_def is_child_def by (intro arg_cong [of _ _ "js_sort _"] filter_cong) auto

lemma siblings_simps [simp]:
  "set (siblings_of job k db) = {p \<in> set (partitions db). sibling job k p}"
  "length (siblings_of job k db) = length (filter (sibling job k) (partitions db))"
  by (auto simp: siblings_of_eq)

lemma siblings_distinct: "distinct (map pt_id (partitions db)) \<Longrightarrow> distinct (map pt_id (siblings_of job k db))"
  by (simp add: siblings_of_eq distinct_map_filter)

text \<open>Nothing is left to do for the children of a partition.\<close>

definition settled :: "ident \<Rightarrow> ident \<Rightarrow> Tables \<Rightarrow> bool" where
  "settled job k db \<longleftrightarrow> length (siblings_of job k db) \<noteq> 2 \<or> (\<exists>s \<in> set (siblings_of job k db). \<not> finished s) \<or>
     (\<forall>s \<in> set (siblings_of job k db). \<not> unexplored s)"

lemma settled_growth:
  assumes "settled job k db" "growth job (partitions db) (partitions db')"
  shows "settled job k db'"
proof -
  from assms(2) obtain g new where g: "partitions db' = map g (partitions db) @ new" "\<forall>p \<in> set (partitions db). kept p (g p)"
    "distinct (map pt_id (partitions db'))" "\<forall>n \<in> set new. not_run n \<and> \<not> finished n \<and> is_child job n \<and> child_in (partitions db') n" by (rule growthE)
  have same: "sibling job k (g p) = sibling job k p" "finished (g p) = finished p" "unexplored (g p) \<Longrightarrow> unexplored p" if "p \<in> set (partitions db)" for p
    using kept_cols [of p "g p"] g(2) that by (simp_all add: sibling_def)
  show ?thesis
  proof (cases "filter (sibling job k) new = []")
    case True
    have "length (filter (sibling job k) (partitions db')) = length (filter (sibling job k) (partitions db))"
      unfolding g(1) using True same(1) by (simp add: filter_map o_def cong: filter_cong)
    then show ?thesis using assms(1) same True unfolding settled_def siblings_simps g(1) by (auto simp: filter_empty_conv)
  next
    case False
    then show ?thesis using g(1,4) by (auto simp: settled_def filter_empty_conv)
  qed
qed



lemma sibling_not_parent:
  assumes "trees_ok job ps" "s \<in> set ps" "sibling job k s"
  shows "pt_id s \<noteq> k" "\<exists>q \<in> set ps. pt_id q = k \<and> pt_followerSplitExplored q"
proof -
  obtain q where q: "q \<in> set ps" "pt_id q = k" "pt_followerSplitExplored q" "half_of q s"
    using assms unfolding trees_ok_def sibling_def child_in_def by fastforce
  then show "\<exists>q \<in> set ps. pt_id q = k \<and> pt_followerSplitExplored q" by blast
  show "pt_id s \<noteq> k"
  proof
    assume "pt_id s = k"
    then have "s = q" using same_id [of ps s q] assms q by (simp add: trees_ok_def)
    then show False using q(4) by (simp add: half_of_def)
  qed
qed

lemma expand_siblings_run:
  assumes ok: "trees_ok job (partitions db)" and run: "expand_siblings cfg fresh now job k db = Inr (u, db')"
  shows "growth job (partitions db) (partitions db') \<and> settled job k db'"
proof (cases "length (siblings_of job k db) \<noteq> 2 \<or> list_ex (\<lambda>p. \<not> finished p) (siblings_of job k db)")
  case True
  then have "db' = db" using run unfolding expand_siblings_def tx_bind_read if_P [OF True] by simp
  moreover have "settled job k db" using True unfolding settled_def list_ex_iff by blast
  ultimately show ?thesis using growth_refl [OF ok] by simp
next
  case False
  let ?ss = "siblings_of job k db"
  let ?f = "\<lambda>p. p\<lparr>pt_combinedChildIncrementalYield := Some (combined_yield ?ss),
        pt_branchClassification := classifyIncrementalYield (Some (Fin (combined_yield ?ss))), pt_followerRecursionTerminal := low_value cfg ?ss\<rparr>"
  let ?low = "\<lambda>p. p\<lparr>pt_followerRecursionTerminal := True, pt_followerRecursionStopReason := Some ''BOTH_CHILDREN_BELOW_FIVE_PERCENT''\<rparr>"
  have ids: "distinct (map pt_id (partitions db))" using ok by (simp add: trees_ok_def)
  have "filter (sibling job k) (partitions db) \<noteq> []" using False by fastforce
  then obtain s where s: "s \<in> set (partitions db)" "sibling job k s" by (auto simp: filter_empty_conv)
  obtain db1 where up: "update_partition k ?f db = Inr ((), db1)"
    and "tx_bind (tx_bind (tx_read (find_partition k)) tx_found) (\<lambda>parent. if low_value cfg ?ss
        then tx_seq [update_partitions (\<lambda>p. pt_id p \<in> pt_id ` set ?ss) ?low, log_sync_event (low_value_event job parent (combined_yield ?ss) now)]
        else tx_each (expand_one cfg fresh now) ?ss) db1 = Inr (u, db')"
    using run unfolding expand_siblings_def tx_bind_read if_not_P [OF False] by (rule tx_bind_InrE) auto
  then obtain parent where rest: "(if low_value cfg ?ss
        then tx_seq [update_partitions (\<lambda>p. pt_id p \<in> pt_id ` set ?ss) ?low, log_sync_event (low_value_event job parent (combined_yield ?ss) now)]
        else tx_each (expand_one cfg fresh now) ?ss) db1 = Inr (u, db')"
    by (auto simp del: tx_seq.simps siblings_simps split: option.splits)
  have rows: "partitions db1 = upd_where (\<lambda>p. pt_id p = k) ?f (partitions db)" by (rule update_partition_run [OF up])
  obtain q where q: "q \<in> set (partitions db)" "pt_id q = k" "pt_followerSplitExplored q" using sibling_not_parent(2) [OF ok s] by blast
  have g: "growth job (partitions db) (partitions db1)" unfolding rows
  proof (rule growth_update [OF ok])
    fix p assume "p \<in> set (partitions db)" "pt_id p = k"
    then have "p = q" using same_id [OF ids _ q(1)] q(2) by simp
    then show "kept p (?f p)" using q(3) by (simp add: kept_def core_def unexplored_def)
  qed
  note ok1 = growth_trees [OF ok g]
  have mem: "r \<in> set (partitions db1)" "pt_creatorSyncJobId r = job" if r: "r \<in> set ?ss" for r
    using r sibling_not_parent(1) [OF ok, of r k] unfolding rows by (force simp: set_upd_where, simp add: sibling_def is_child_def)
  have all: "growth job (partitions db1) (partitions db') \<and> (\<forall>r \<in> set ?ss. closed (pt_id r) db')"
  proof (cases "low_value cfg ?ss")
    case True
    then have eq: "partitions db' = upd_where (\<lambda>p. pt_id p \<in> pt_id ` set ?ss) ?low (partitions db1)"
      using rest by (auto simp: crawl_updates simp del: siblings_simps)
    have "growth job (partitions db1) (partitions db')" unfolding eq
      by (rule growth_update [OF ok1]) (simp add: kept_def core_def unexplored_def)
    then show ?thesis by (auto simp: closed_def eq set_upd_where unexplored_def)
  next
    case False
    then have "tx_each (expand_one cfg fresh now) ?ss db1 = Inr (u, db')" using rest by simp
    from expand_rows_run [OF this ok1] mem siblings_distinct [OF ids] show ?thesis by blast
  qed
  have "\<not> unexplored r" if r: "r \<in> set (siblings_of job k db')" "finished r" for r
  proof -
    obtain p where p: "p \<in> set (partitions db)" "kept p r"
      using growth_back [OF growth_trans [OF g conjunct1 [OF all]]] r by fastforce
    then have "p \<in> set ?ss" using r kept_cols [OF p(2)] by (simp add: sibling_def)
    then show ?thesis using all r p kept_cols(1) [OF p(2)] by (auto simp: closed_def)
  qed
  then show ?thesis using growth_trans [OF g] all unfolding settled_def by blast
qed

lemma expand_parents_run:
  "tx_each (expand_siblings cfg fresh now job) ks db = Inr (u, db') \<Longrightarrow> trees_ok job (partitions db) \<Longrightarrow>
    growth job (partitions db) (partitions db') \<and> (\<forall>k \<in> set ks. settled job k db')"
proof (induction ks arbitrary: db)
  case Nil
  then show ?case by (simp add: growth_refl)
next
  case (Cons k ks)
  obtain db1 where 1: "expand_siblings cfg fresh now job k db = Inr ((), db1)" and 2: "tx_each (expand_siblings cfg fresh now job) ks db1 = Inr (u, db')"
    using Cons.prems(1) by (auto elim!: tx_bind_InrE)
  have g: "growth job (partitions db) (partitions db1)" "settled job k db1" using expand_siblings_run [OF Cons.prems(2) 1] by auto
  have rest: "growth job (partitions db1) (partitions db')" "\<forall>k \<in> set ks. settled job k db'"
    using Cons.IH [OF 2 growth_trees [OF Cons.prems(2) g(1)]] by auto
  show ?case using growth_trans [OF g(1) rest(1)] settled_growth [OF g(2) rest(1)] rest(2) by simp
qed

lemma ready_seeds_gone:
  assumes "growth job (partitions db) (partitions db')" "\<forall>p \<in> set (ready_seeds job db). closed (pt_id p) db'"
  shows "ready_seeds job db' = []"
proof -
  have False if r: "r \<in> set (ready_seeds job db')" for r
  proof -
    have "r \<in> set (partitions db')" "\<not> is_child job r" using r by (auto simp: ready_seeds_def is_child_def)
    then obtain p where p: "p \<in> set (partitions db)" "kept p r" using growth_back [OF assms(1)] by blast
    then have "p \<in> set (ready_seeds job db)" using r kept_cols [OF p(2)] by (simp add: ready_seeds_def)
    then have "closed (pt_id r) db'" using assms(2) kept_cols(1) [OF p(2)] by simp
    then show False using r by (auto simp: closed_def ready_seeds_def)
  qed
  then show ?thesis using last_in_set by blast
qed

lemma ready_children_back:
  assumes "growth job (partitions db) (partitions db')" "c \<in> set (ready_children job db')"
  shows "\<exists>p \<in> set (ready_children job db). pt_parentPartitionId p = pt_parentPartitionId c"
proof -
  have "c \<in> set (partitions db')" "finished c" using assms(2) by (auto simp: ready_children_def)
  then obtain p where p: "p \<in> set (partitions db)" "kept p c" using growth_back [OF assms(1)] by blast
  then have "p \<in> set (ready_children job db)" using assms(2) kept_cols [OF p(2)] by (simp add: ready_children_def)
  then show ?thesis using kept_cols(2) [OF p(2)] by metis
qed

lemma ready_parents_eq [simp]: "set (ready_parents job db) = (\<lambda>p. the (pt_parentPartitionId p)) ` set (ready_children job db)"
  by (simp add: ready_parents_def as_set_def)

lemma expansion_run:
  assumes ok: "trees_ok job (partitions db)" and run: "expandReadyBranches cfg fresh now job db = Inr (u, db')"
  shows "growth job (partitions db) (partitions db') \<and> ready_seeds job db' = [] \<and> (\<forall>k \<in> set (ready_parents job db'). settled job k db')"
proof -
  obtain db1 where 1: "tx_each (expand_one cfg fresh now) (ready_seeds job db) db = Inr ((), db1)"
    and 2: "tx_each (expand_siblings cfg fresh now job) (ready_parents job db1) db1 = Inr (u, db')"
    using run unfolding expandReadyBranches_def tx_bind_read by (rule tx_bind_InrE) auto
  have "distinct (map pt_id (ready_seeds job db))" using ok by (simp add: ready_seeds_def trees_ok_def distinct_map_filter)
  moreover have "set (ready_seeds job db) \<subseteq> set (partitions db)" "\<forall>p \<in> set (ready_seeds job db). pt_creatorSyncJobId p = job"
    by (auto simp: ready_seeds_def)
  ultimately have g1: "growth job (partitions db) (partitions db1)" and seeds: "\<forall>p \<in> set (ready_seeds job db). closed (pt_id p) db1"
    using expand_rows_run [OF 1 ok] by blast+
  note ok1 = growth_trees [OF ok g1]
  have g2: "growth job (partitions db1) (partitions db')" and waits: "\<forall>k \<in> set (ready_parents job db1). settled job k db'"
    using expand_parents_run [OF 2 ok1] by auto
  have "ready_seeds job db1 = []" by (rule ready_seeds_gone [OF g1 seeds])
  then have "ready_seeds job db' = []" using ready_seeds_gone [OF g2] by simp
  moreover have "settled job k db'" if k: "k \<in> set (ready_parents job db')" for k
  proof -
    obtain c where c: "c \<in> set (ready_children job db')" "k = the (pt_parentPartitionId c)" using k by auto
    obtain p where p: "p \<in> set (ready_children job db1)" "pt_parentPartitionId p = pt_parentPartitionId c"
      using ready_children_back [OF g2 c(1)] by blast
    then have "k \<in> set (ready_parents job db1)" unfolding ready_parents_eq c(2) by (intro image_eqI [of _ _ p]) auto
    then show ?thesis using waits by blast
  qed
  ultimately show ?thesis using growth_trans [OF g1 g2] by blast
qed

text \<open>A parent of a ready child that is settled waits for a sibling of that child.\<close>

lemma settled_waits:
  assumes "settled job k db" "k \<in> set (ready_parents job db)"
  shows "length (siblings_of job k db) \<noteq> 2 \<or> (\<exists>s \<in> set (siblings_of job k db). \<not> finished s)"
proof -
  obtain c where c: "c \<in> set (ready_children job db)" "k = the (pt_parentPartitionId c)" using assms(2) by auto
  then have "c \<in> set (siblings_of job k db)" "unexplored c" by (auto simp: ready_children_def sibling_def is_child_def)
  then show ?thesis using assms(1) by (auto simp: settled_def)
qed

lemma nothing_to_expand:
  assumes "ready_seeds job db = []" "\<forall>k \<in> set (ready_parents job db). settled job k db"
  shows "expandReadyBranches cfg fresh now job db = Inr ((), db)"
proof -
  have one: "expand_siblings cfg fresh now job k db = Inr ((), db)" if "k \<in> set (ready_parents job db)" for k
  proof -
    have *: "length (siblings_of job k db) \<noteq> 2 \<or> list_ex (\<lambda>p. \<not> finished p) (siblings_of job k db)"
      using settled_waits [OF bspec [OF assms(2) that] that] by (auto simp: list_ex_iff)
    then show ?thesis unfolding expand_siblings_def tx_bind_read if_P [OF *] by simp
  qed
  have "tx_each (expand_siblings cfg fresh now job) ks db = Inr ((), db)" if "set ks \<subseteq> set (ready_parents job db)" for ks
    using that one by (induction ks) auto
  then show ?thesis by (simp add: expandReadyBranches_def assms(1))
qed

text \<open>
  C22. Expansion keeps the partitions of a job a forest: every adaptive follower partition
  searches one half of the range of its parent, in the same category and bucket and one level
  deeper, and its parent counts as explored. The rows there were stay in their order and change
  only in the columns expansion is about; the rows that are added behind them are children of the
  job that have not run: queued, or EXPERIMENT_ONLY in bucket G4, with all counters at zero and
  neither a search key, a page token nor a time.
\<close>

theorem expansion_keeps_the_trees:
  assumes "trees_ok job (partitions db)" "expandReadyBranches cfg fresh now job db = Inr (u, db')"
  shows "trees_ok job (partitions db') \<and>
    (\<exists>old new. partitions db' = old @ new \<and> map core old = map core (partitions db) \<and>
       (\<forall>n \<in> set new. is_child job n \<and> not_run n))"
proof -
  have g: "growth job (partitions db) (partitions db')" using expansion_run [OF assms] by blast
  obtain f new where f: "partitions db' = map f (partitions db) @ new" "\<forall>p \<in> set (partitions db). kept p (f p)"
    and new: "\<forall>n \<in> set new. not_run n \<and> \<not> finished n \<and> is_child job n \<and> child_in (partitions db') n"
    using g by (rule growthE)
  have "map core (map f (partitions db)) = map core (partitions db)" using f(2) by (simp add: kept_def)
  then show ?thesis using growth_trees [OF assms(1) g] f(1) new by blast
qed

text \<open>
  C23. Expansion is complete and idempotent: afterwards no finished seed is left to expand, every
  finished child that is left to expand waits for its sibling, and expanding again, at any time
  and under any settings, changes nothing.
\<close>

theorem expansion_is_idempotent:
  assumes "trees_ok job (partitions db)" "expandReadyBranches cfg fresh now job db = Inr (u, db')"
  shows "ready_seeds job db' = [] \<and>
    (\<forall>k \<in> set (ready_parents job db'). length (siblings_of job k db') \<noteq> 2 \<or> (\<exists>s \<in> set (siblings_of job k db'). \<not> finished s)) \<and>
    expandReadyBranches cfg' fresh' now' job db' = Inr ((), db')"
  using expansion_run [OF assms] settled_waits nothing_to_expand by blast

section \<open>A small crawl\<close>

definition ex_crawl_config :: CrawlConfig where
  "ex_crawl_config = \<lparr>cg_widthRules = DEFAULT_FOLLOWER_WIDTH_RULES, cg_deepMinimumYield = 1 / 10, cg_lowValueYield = 1 / 20,
     cg_saturationMinRows = 200, cg_saturationMaxRows = 250, cg_primaryCycle = 10, cg_g4Cadence = 100, cg_successSpacingMs = 5000,
     cg_leaseMs = None, cg_md5 = (\<lambda>_. [])\<rparr>"

definition ex_crawl_job :: SyncJob where
  "ex_crawl_job = \<lparr>cj_id = ''j1'', cj_shopId = ''s1'', cj_state = CreatorSyncState.RUNNING, cj_searchKey = None, cj_nextPageToken = None,
     cj_pagesCompleted = 0, cj_creatorsFetched = 0, cj_creatorsFetchedThisRun = 0, cj_pauseRequested = False,
     cj_marketplaceRetryDelaySeconds = 5, cj_nextAttemptAt = None, cj_startedAt = Some 0, cj_lastPageAt = None, cj_lastSuccessAt = None,
     cj_lastError = None, cj_lastProviderCode = None, cj_currentStage = ''STARTING'', cj_lastAttemptAt = None, cj_lastResponseAt = None,
     cj_lastAttemptPage = None, cj_lastHttpStatus = None, cj_lastTikTokCode = None, cj_lastSafeError = None,
     cj_lastCreatorsReturned = None, cj_lastCreatorsAdded = None, cj_lastDuplicates = None, cj_spreadsheetId = ''sheet'',
     cj_sheetImportedAt = Some 0, cj_leaseId = Some ''me'', cj_leaseExpiresAt = Some 9000, cj_currentPartitionId = None,
     cj_crawlerGeneration = 3, cj_partitionClaimSequence = 0, cj_categoryCoverageCompletedAt = None\<rparr>"

definition ex_seed :: SearchPartition where
  "ex_seed = (blank_partition ''j1'' ''10:11:1000-9999:G3'' ''Beauty'' 1)\<lparr>pt_id := ''p1'', pt_generation := 3,
     pt_partitionType := Production V2_SEED, pt_categoryId := Some ''10'', pt_categoryChildId := Some ''11'', pt_categoryChildIds := [''11''],
     pt_followersMin := Some 1000, pt_followersMax := Some 9999, pt_gmvBucket := Some ''G3'', pt_gmvRange := Some ''GMV_RANGE_1000_10000''\<rparr>"

definition ex_crawl_tables :: "SearchPartition list \<Rightarrow> Tables" where
  "ex_crawl_tables ps = ex_tables\<lparr>tb_creators := [], tb_crawl := no_crawl\<lparr>cw_jobs := [ex_crawl_job], cw_partitions := ps\<rparr>\<rparr>"

lemma ex_started: "case claim_next ex_crawl_config ''me'' ex_crawl_job 1000 (ex_crawl_tables [ex_seed]) of
    Inr (Some p, _) \<Rightarrow> pt_id p = ''p1'' | _ \<Rightarrow> False"
  by code_simp

lemma ex_exhausted: "case claim_next ex_crawl_config ''me'' ex_crawl_job 1000 (ex_crawl_tables []) of
    Inr (None, _) \<Rightarrow> True | _ \<Rightarrow> False"
  by code_simp

definition ex_dense_seed :: SearchPartition where
  "ex_dense_seed = ex_seed\<lparr>pt_status := PartitionStatus.COMPLETE, pt_pagesCompleted := 20, pt_rowsReturned := 240,
     pt_uniqueCreatorsAdded := 120, pt_observedSaturationState := OBSERVED_SATURATED, pt_originalYield := Some (1 / 2)\<rparr>"

lemma ex_expanded: "case expandReadyBranches ex_crawl_config (\<lambda>n. ''f'' @ show_int (int n)) 1000 ''j1'' (ex_crawl_tables [ex_dense_seed]) of
    Inr (_, db') \<Rightarrow> map (\<lambda>p. (pt_id p, pt_followersMin p, pt_followersMax p)) (partitions db') =
      [(''p1'', Some 1000, Some 9999), (''f1'', Some 1000, Some 5499), (''f2'', Some 5500, Some 9999)]
  | Inl _ \<Rightarrow> False"
  by code_simp

lemma claim_starts_a_claimable_partition_witness:
  "\<exists>p db'. claim_next ex_crawl_config ''me'' ex_crawl_job 1000 (ex_crawl_tables [ex_seed]) = Inr (Some p, db') \<and>
     pt_id p = ''p1'' \<and> pt_status p = STARTING \<and> p \<in> set (partitions db')"
proof -
  obtain p db' where run: "claim_next ex_crawl_config ''me'' ex_crawl_job 1000 (ex_crawl_tables [ex_seed]) = Inr (Some p, db')"
    and p: "pt_id p = ''p1''" using ex_started by (auto split: sum.splits prod.splits option.splits)
  have "distinct (map pt_id (partitions (ex_crawl_tables [ex_seed])))" by (simp add: ex_crawl_tables_def)
  from claim_starts_a_claimable_partition [OF this run] show ?thesis using run p by blast
qed

lemma exhausted_only_when_nothing_may_run_witness:
  "\<exists>db'. claim_next ex_crawl_config ''me'' ex_crawl_job 1000 (ex_crawl_tables []) = Inr (None, db') \<and> all_complete ex_crawl_job \<in> set (sync_jobs db')"
proof -
  obtain db' where run: "claim_next ex_crawl_config ''me'' ex_crawl_job 1000 (ex_crawl_tables []) = Inr (None, db')"
    using ex_exhausted by (auto split: sum.splits prod.splits option.splits)
  have "ex_crawl_job \<in> set (sync_jobs (ex_crawl_tables []))" by (simp add: ex_crawl_tables_def)
  moreover have "holds_lease (cj_id ex_crawl_job) ''me'' ex_crawl_job" by (simp add: holds_lease_def ex_crawl_job_def)
  ultimately have "all_complete ex_crawl_job \<in> set (sync_jobs db')" using exhausted_only_when_nothing_may_run [OF run] by blast
  then show ?thesis using run by blast
qed

lemma ex_trees: "trees_ok ''j1'' (partitions (ex_crawl_tables [ex_dense_seed]))"
  by (simp add: trees_ok_def is_child_def ex_crawl_tables_def ex_dense_seed_def ex_seed_def)

lemma expansion_keeps_the_trees_witness:
  "\<exists>db'. expandReadyBranches ex_crawl_config (\<lambda>n. ''f'' @ show_int (int n)) 1000 ''j1'' (ex_crawl_tables [ex_dense_seed]) = Inr ((), db') \<and>
     length (partitions db') = 3 \<and> trees_ok ''j1'' (partitions db')"
proof -
  obtain u db' where run: "expandReadyBranches ex_crawl_config (\<lambda>n. ''f'' @ show_int (int n)) 1000 ''j1'' (ex_crawl_tables [ex_dense_seed]) = Inr (u, db')"
    and rows: "map (\<lambda>p. (pt_id p, pt_followersMin p, pt_followersMax p)) (partitions db') =
      [(''p1'', Some 1000, Some 9999), (''f1'', Some 1000, Some 5499), (''f2'', Some 5500, Some 9999)]"
    using ex_expanded by (auto split: sum.splits)
  then have "length (partitions db') = 3" by auto
  then show ?thesis using expansion_keeps_the_trees [OF ex_trees run] run by auto
qed

lemma expansion_is_idempotent_witness:
  "\<exists>db'. expandReadyBranches ex_crawl_config (\<lambda>n. ''f'' @ show_int (int n)) 1000 ''j1'' (ex_crawl_tables [ex_dense_seed]) = Inr ((), db') \<and>
     db' \<noteq> ex_crawl_tables [ex_dense_seed] \<and> expandReadyBranches ex_crawl_config (\<lambda>n. ''g'') 2000 ''j1'' db' = Inr ((), db')"
proof -
  obtain u db' where run: "expandReadyBranches ex_crawl_config (\<lambda>n. ''f'' @ show_int (int n)) 1000 ''j1'' (ex_crawl_tables [ex_dense_seed]) = Inr (u, db')"
    and rows: "map (\<lambda>p. (pt_id p, pt_followersMin p, pt_followersMax p)) (partitions db') =
      [(''p1'', Some 1000, Some 9999), (''f1'', Some 1000, Some 5499), (''f2'', Some 5500, Some 9999)]"
    using ex_expanded by (auto split: sum.splits)
  have "db' \<noteq> ex_crawl_tables [ex_dense_seed]" using rows by (auto simp: ex_crawl_tables_def)
  then show ?thesis using expansion_is_idempotent [OF ex_trees run] run by auto
qed

end
