(* ===== verification/CrawlRun.thy ===== *)
theory CrawlRun
  imports Sync Queue
begin

text \<open>
  What runs of the marketplace crawl (\<open>Sync\<close>) guarantee: the books of the partitions agree with the pages that were
  committed, a page is committed once its creators are stored, and an error gives the lease back and commits nothing.
\<close>

section \<open>The books\<close>

definition committed_of :: "ident \<Rightarrow> SyncPage \<Rightarrow> bool" where
  "committed_of k g \<longleftrightarrow> sg_state g = COMMITTED \<and> sg_creatorSearchPartitionId g = Some k"

definition booked :: "SyncPage list \<Rightarrow> SearchPartition \<Rightarrow> bool" where
  "booked gs p \<longleftrightarrow> pt_pagesCompleted p = count_where (committed_of (pt_id p)) gs \<and>
     pt_rowsReturned p = sum_list (map sg_creatorsReturned (filter (committed_of (pt_id p)) gs))"

text \<open>Every partition counts exactly its committed pages and their creators; a page names an existing partition.\<close>

definition books_ok :: "Tables \<Rightarrow> bool" where
  "books_ok db \<longleftrightarrow> distinct (map pt_id (partitions db)) \<and> distinct (map sg_id (sync_pages db)) \<and>
     (\<forall>g \<in> set (sync_pages db). \<forall>k. sg_creatorSearchPartitionId g = Some k \<longrightarrow> k \<in> pt_id ` set (partitions db)) \<and>
     (\<forall>p \<in> set (partitions db). booked (sync_pages db) p)"

definition pcols :: "SearchPartition \<Rightarrow> ident \<times> int \<times> int" where
  "pcols p = (pt_id p, pt_pagesCompleted p, pt_rowsReturned p)"

definition gcols :: "SyncPage \<Rightarrow> ident \<times> ident option \<times> SyncPageState \<times> int" where
  "gcols g = (sg_id g, sg_creatorSearchPartitionId g, sg_state g, sg_creatorsReturned g)"

definition books :: "Tables \<Rightarrow> (ident \<times> int \<times> int) list \<times> (ident \<times> ident option \<times> SyncPageState \<times> int) list" where
  "books db = (map pcols (partitions db), map gcols (sync_pages db))"

definition books_fit :: "(ident \<times> int \<times> int) list \<times> (ident \<times> ident option \<times> SyncPageState \<times> int) list \<Rightarrow> bool" where
  "books_fit b \<longleftrightarrow> distinct (map fst (fst b)) \<and> distinct (map fst (snd b)) \<and>
     (\<forall>(i, k, s, n) \<in> set (snd b). case k of None \<Rightarrow> True | Some k \<Rightarrow> k \<in> fst ` set (fst b)) \<and>
     (\<forall>(i, pages, rows) \<in> set (fst b).
        pages = int (length (filter (\<lambda>(_, k, s, _). s = COMMITTED \<and> k = Some i) (snd b))) \<and>
        rows = sum_list (map (snd \<circ> snd \<circ> snd) (filter (\<lambda>(_, k, s, _). s = COMMITTED \<and> k = Some i) (snd b))))"

lemma books_ok_fit: "books_ok db = books_fit (books db)"
proof -
  have f: "filter (\<lambda>(_, k, s, _). s = COMMITTED \<and> k = Some i) (map gcols gs) = map gcols (filter (committed_of i) gs)" for i gs
    unfolding filter_map o_def by (intro arg_cong [of _ _ "map gcols"] filter_cong) (auto simp: gcols_def committed_of_def)
  have ids: "map fst (map gcols gs) = map sg_id gs" "map fst (map pcols ps) = map pt_id ps"
    "map (snd \<circ> snd \<circ> snd) (map gcols gs) = map sg_creatorsReturned gs" for gs ps
    by (simp_all add: gcols_def pcols_def o_def)
  have mem: "fst ` set (map pcols ps) = pt_id ` set ps" for ps by (simp add: image_image pcols_def)
  show ?thesis
    unfolding books_ok_def books_fit_def books_def fst_conv snd_conv f ids mem
    by (auto simp: booked_def count_where_def pcols_def gcols_def o_def split: option.splits)
qed

lemma books_ok_same: "books db' = books db \<Longrightarrow> books_ok db' = books_ok db"
  by (simp add: books_ok_fit)

section \<open>Transactions that leave the books alone\<close>

lemma frame_books_crawl: "(\<And>c. (map pcols (cw_partitions (f c)), map gcols (cw_pages (f c))) = (map pcols (cw_partitions c), map gcols (cw_pages c))) \<Longrightarrow>
    frame books (on_crawl f)"
  unfolding on_crawl_def by (rule frame_modify) (simp add: books_def)

lemma map_upd_where_same: "(\<And>p. h (f p) = h p) \<Longrightarrow> map h (upd_where Q f ps) = map h ps"
  by (simp add: upd_where_def)

lemma frame_books_rows:
  "(\<And>p. pcols (f p) = pcols p) \<Longrightarrow> frame books (update_partitions P f)"
  "(\<And>p. pcols (f p) = pcols p) \<Longrightarrow> frame books (update_partition i f)"
  "frame books (update_sync_jobs PJ fj)" "frame books (update_sync_job i fj)" "frame books (update_categories PC fc)" "frame books (log_sync_event e)"
  "(\<And>g. gcols (fg g) = gcols g) \<Longrightarrow> frame books (update_page i fg)"
  unfolding update_partitions_def update_partition_def update_sync_jobs_def update_sync_job_def update_categories_def log_sync_event_def update_page_def
  by (intro frame_intros frame_basic frame_books_crawl; simp add: map_upd_where_same)+

lemmas bcols = pcols_def gcols_def

lemma frame_crawl_identity: "frame tb_crawl (ensureMarketplaceCreatorInTransaction c i)"
  unfolding ensureMarketplaceCreatorInTransaction_def create_creator_def update_creator_def identity_def
  by (intro frame_intros frame_basic) simp_all

lemma frame_tb_crawl_books: "frame tb_crawl t \<Longrightarrow> frame books t"
  by (auto simp: frame_def books_def) 

lemma frame_books_persist: "frame tb_crawl (persist_batch cfg s key fresh now offset n k cs)"
proof (induction cs arbitrary: k)
  case (Cons c cs)
  have "frame tb_crawl (persist_creator s key fresh now k c)"
    unfolding persist_creator_def upsert_snapshot_def by (auto intro!: frame_intros frame_crawl_identity)
  then show ?case using Cons.IH by (auto intro!: frame_intros frame_map_error)
qed simp

lemma frame_books_claim: "frame books (claim_job_tx cfg i lease now)" "frame books (sheet_attempt_tx i lease p page added dups now)"
  unfolding claim_job_tx_def sheet_attempt_tx_def Let_def
  by (intro frame_intros frame_basic frame_books_rows; simp add: bcols)+

lemma frame_books_errors: "frame books (sheets_failure_tx job p page d now random)" "frame books (provider_tx cfg job p e now)"
proof -
  have w: "pcols (waiting_partition pause safe q) = pcols q" for pause safe q by (simp add: waiting_partition_def pcols_def)
  show "frame books (sheets_failure_tx job p page d now random)"
    unfolding sheets_failure_tx_def Let_def
    by (auto simp del: tx_seq.simps intro!: frame_seq frame_books_rows simp: bcols waiting_partition_def split: option.split)
  have "frame books (failed_tx cfg job p e now)" "frame books (business_error_tx job q t now)" "frame books (throttled_tx job p t now)" for q t
    unfolding failed_tx_def business_error_tx_def throttled_tx_def Let_def
    by (auto simp del: tx_seq.simps intro!: frame_seq frame_books_rows simp: bcols waiting_partition_def split: option.split)
  then show "frame books (provider_tx cfg job p e now)" by (auto simp: provider_tx_def split: Err.split)
qed

lemma frame_books_claim_next: "frame books (claim_next cfg lease job now)"
proof -
  have "frame books (claim_selected cfg lease job ch selected first now)" for ch selected first
    unfolding claim_selected_def Let_def
    by (auto simp del: tx_seq.simps intro!: frame_intros frame_books_rows simp: bcols claimed_partition_def)
  moreover have "frame books (mark_malformed i cats now)" for i cats
    unfolding mark_malformed_def by (auto intro!: frame_intros frame_books_rows simp: bcols)
  ultimately show ?thesis unfolding claim_next_def
    by (auto simp del: tx_seq.simps intro!: frame_intros frame_books_rows split: prod.split sum.split)
qed

section \<open>Transactions that open new partitions\<close>

definition opened :: "Tables \<Rightarrow> Tables \<Rightarrow> bool" where
  "opened db db' \<longleftrightarrow> map gcols (sync_pages db') = map gcols (sync_pages db) \<and>
     (\<exists>new. map pcols (partitions db') = map pcols (partitions db) @ new \<and> (\<forall>x \<in> set new. snd x = (0, 0))) \<and>
     (distinct (map pt_id (partitions db)) \<longrightarrow> distinct (map pt_id (partitions db')))"

definition opens :: "'a tx \<Rightarrow> bool" where
  "opens t \<longleftrightarrow> (\<forall>db a db'. t db = Inr (a, db') \<longrightarrow> opened db db')"

lemma opened_trans: "opened db db' \<Longrightarrow> opened db' db'' \<Longrightarrow> opened db db''"
  unfolding opened_def by (elim conjE exE) (simp, blast)

lemma map_pt_id: "map pt_id ps = map fst (map pcols ps)"
  by (simp add: pcols_def)

lemma opened_same: "books db' = books db \<Longrightarrow> opened db db'"
  unfolding opened_def map_pt_id by (simp add: books_def)

lemma opens_frame: "frame books t \<Longrightarrow> opens t"
  unfolding opens_def frame_def by (blast intro: opened_same)

lemma opens_bind:
  assumes "opens t" "\<And>a. opens (k a)"
  shows "opens (tx_bind t k)"
  unfolding opens_def
proof (intro allI impI)
  fix db b db'' assume "tx_bind t k db = Inr (b, db'')"
  then obtain a db' where "t db = Inr (a, db')" "k a db' = Inr (b, db'')" by (rule tx_bind_InrE)
  then show "opened db db''" using assms opened_trans unfolding opens_def by blast
qed

lemma opens_basic [simp]: "opens (tx_return a)" "opens (tx_read f)" "opens (tx_throw e)" "opens (tx_guard b e)" "opens (tx_found v)"
  by (simp_all add: opens_frame)

lemmas opens_rows = frame_books_rows [THEN opens_frame] frame_seq [THEN opens_frame]

lemma opens_if: "opens t \<Longrightarrow> opens u \<Longrightarrow> opens (if b then t else u)" by simp

lemma opens_each: "(\<And>a. opens (f a)) \<Longrightarrow> opens (tx_each f xs)"
  by (induction xs) (auto intro: opens_bind)

lemma opens_insert: "pt_pagesCompleted p = 0 \<Longrightarrow> pt_rowsReturned p = 0 \<Longrightarrow> opens (insert_partition fresh p)"
  unfolding opens_def opened_def insert_partition_def by (auto simp: pcols_def list_ex_iff collides_def split: if_splits)

lemma opens_create: "\<forall>p \<in> set ps. pt_pagesCompleted p = 0 \<and> pt_rowsReturned p = 0 \<Longrightarrow> opens (create_partitions fresh ps)"
  by (induction ps) (auto intro!: opens_bind opens_insert)

lemma opens_expand_one: "opens (expand_one cfg fresh now p)"
proof -
  have "opens (createFollowerChildren fresh now p bs reason)" for bs reason
    unfolding createFollowerChildren_def Let_def
    by (intro opens_if opens_bind opens_basic opens_create)
      (auto simp: new_child_def blank_partition_def intro!: opens_rows simp: bcols)
  then show ?thesis unfolding expand_one_def
    by (cases "expansionFor cfg p") (auto intro!: opens_bind opens_rows simp: bcols)
qed

lemma opens_expand: "opens (expandReadyBranches cfg fresh now job)"
proof -
  have "opens (expand_siblings cfg fresh now job i)" for i
    unfolding expand_siblings_def
    by (auto simp del: tx_seq.simps siblings_simps intro!: opens_bind opens_each opens_expand_one opens_rows frame_books_rows simp: bcols)
  then show ?thesis unfolding expandReadyBranches_def by (auto intro!: opens_bind opens_each opens_expand_one)
qed

lemma opened_keeps:
  assumes "opened db db'" "books_ok db"
  shows "books_ok db' \<and> pt_id ` set (partitions db) \<subseteq> pt_id ` set (partitions db')"
proof -
  obtain new where pages: "map gcols (sync_pages db') = map gcols (sync_pages db)"
    and new: "map pcols (partitions db') = map pcols (partitions db) @ new" "\<forall>x \<in> set new. snd x = (0, 0)"
    and ids: "distinct (map pt_id (partitions db'))"
    using assms unfolding opened_def books_ok_def by blast
  have all: "map pt_id (partitions db') = map pt_id (partitions db) @ map fst new"
    unfolding map_pt_id new(1) by simp
  have apart: "distinct (map fst (map pcols (partitions db)) @ map fst new)" by (rule ids [unfolded all, unfolded map_pt_id])
  have old: "books_fit (map pcols (partitions db), map gcols (sync_pages db))" using assms(2) by (simp add: books_ok_fit books_def)
  have named: "k \<in> fst ` set (map pcols (partitions db))" if "(i, Some k, s, n) \<in> set (map gcols (sync_pages db))" for i k s n
    using old that unfolding books_fit_def by fastforce
  have none: "filter (\<lambda>(_, k, s, _). s = COMMITTED \<and> k = Some i) (map gcols (sync_pages db)) = []" if i: "(i, n, r) \<in> set new" for i n r
  proof -
    have "i \<notin> fst ` set (map pcols (partitions db))" using imageI [OF i, of fst] apart unfolding distinct_append set_map by auto
    then show ?thesis using named unfolding filter_empty_conv by fastforce
  qed
  have "books_fit (map pcols (partitions db) @ new, map gcols (sync_pages db))"
    unfolding books_fit_def fst_conv snd_conv
  proof (intro conjI ballI)
    show "distinct (map fst (map pcols (partitions db) @ new))" using apart by simp
    show "distinct (map fst (map gcols (sync_pages db)))" using old by (simp add: books_fit_def)
    fix x assume "x \<in> set (map gcols (sync_pages db))"
    then show "case x of (i, k, s, n) \<Rightarrow> case k of None \<Rightarrow> True | Some k \<Rightarrow> k \<in> fst ` set (map pcols (partitions db) @ new)"
      using old unfolding books_fit_def fst_conv snd_conv by (fastforce simp: image_Un simp del: set_map split: option.splits)
  next
    fix x assume "x \<in> set (map pcols (partitions db) @ new)"
    then consider "x \<in> set (map pcols (partitions db))" | "x \<in> set new" by auto
    then show "case x of (i, pages, rows) \<Rightarrow>
        pages = int (length (filter (\<lambda>(_, k, s, _). s = COMMITTED \<and> k = Some i) (map gcols (sync_pages db)))) \<and>
        rows = sum_list (map (snd \<circ> snd \<circ> snd) (filter (\<lambda>(_, k, s, _). s = COMMITTED \<and> k = Some i) (map gcols (sync_pages db))))"
    proof cases
      case 1
      then show ?thesis using old unfolding books_fit_def fst_conv snd_conv by blast
    next
      case 2
      obtain i n r where x: "x = (i, n, r)" by (cases x)
      then have "snd x = (0, 0)" using 2 new(2) by blast
      then have "n = 0 \<and> r = 0" by (simp add: x)
      moreover have "filter (\<lambda>(_, k, s, _). s = COMMITTED \<and> k = Some i) (map gcols (sync_pages db)) = []"
        using none 2 x by blast
      ultimately show ?thesis by (simp only: x prod.case list.map list.size sum_list.Nil) simp
    qed
  qed
  then have "books_ok db'" by (simp add: books_ok_fit books_def new(1) pages)
  moreover have "pt_id ` set (partitions db) \<subseteq> pt_id ` set (partitions db')"
    using arg_cong [OF all, of set] by auto
  ultimately show ?thesis by blast
qed

section \<open>Committing a page keeps the books\<close>

definition commits :: "ident \<Rightarrow> ident \<times> ident option \<times> SyncPageState \<times> int \<Rightarrow> ident \<times> ident option \<times> SyncPageState \<times> int" where
  "commits gi = (\<lambda>(i, k, s, n). if i = gi then (i, k, COMMITTED, n) else (i, k, s, n))"

definition counts :: "ident \<Rightarrow> int \<Rightarrow> ident \<times> int \<times> int \<Rightarrow> ident \<times> int \<times> int" where
  "counts k n = (\<lambda>(i, c, r). if i = k then (i, c + 1, r + n) else (i, c, r))"

abbreviation "entry i \<equiv> \<lambda>(_, k, s, _). s = COMMITTED \<and> k = Some i"

lemma commits_other: "gi \<notin> fst ` set gs \<Longrightarrow> map (commits gi) gs = gs"
  by (rule map_idI) (force simp: commits_def)

lemma commits_entry:
  assumes "distinct (map fst gs)" "(gi, Some k, RECEIVED, n) \<in> set gs"
  shows "length (filter (entry i) (map (commits gi) gs)) = length (filter (entry i) gs) + (if i = k then 1 else 0) \<and>
    sum_list (map (snd \<circ> snd \<circ> snd) (filter (entry i) (map (commits gi) gs))) = sum_list (map (snd \<circ> snd \<circ> snd) (filter (entry i) gs)) + (if i = k then n else 0)"
  using assms
proof (induction gs)
  case (Cons g gs)
  show ?case
  proof (cases "g = (gi, Some k, RECEIVED, n)")
    case True
    then have "map (commits gi) gs = gs" using Cons.prems(1) by (intro commits_other) simp
    then show ?thesis using True by (simp add: commits_def)
  next
    case False
    then have m: "(gi, Some k, RECEIVED, n) \<in> set gs" using Cons.prems(2) by simp
    then have "fst g \<noteq> gi" using Cons.prems(1) imageI [OF m, of fst] by auto
    then have "commits gi g = g" by (cases g) (simp add: commits_def)
    then show ?thesis using Cons.IH Cons.prems(1) m by (cases "i = k") simp_all
  qed
qed simp

lemma commit_fit:
  assumes fit: "books_fit (ps, gs)" and g: "(gi, Some k, RECEIVED, n) \<in> set gs"
  shows "books_fit (map (counts k n) ps, map (commits gi) gs)"
proof -
  have ids: "map fst (map (counts k n) ps) = map fst ps" "map fst (map (commits gi) gs) = map fst gs"
    by (auto simp: counts_def commits_def)
  then have set_ids: "fst ` set (map (counts k n) ps) = fst ` set ps" by (metis set_map)
  have d: "distinct (map fst ps)" "distinct (map fst gs)" using fit by (simp_all add: books_fit_def)
  note entry = commits_entry [OF d(2) g]
  show ?thesis unfolding books_fit_def fst_conv snd_conv ids set_ids
  proof (intro conjI ballI d)
    fix x assume "x \<in> set (map (commits gi) gs)"
    then obtain a q b c where y: "(a, q, b, c) \<in> set gs" "x = commits gi (a, q, b, c)" by auto
    have "case q of None \<Rightarrow> True | Some k \<Rightarrow> k \<in> fst ` set ps"
      using fit y(1) unfolding books_fit_def fst_conv snd_conv by fast
    then show "case x of (i, k, s, n) \<Rightarrow> case k of None \<Rightarrow> True | Some k \<Rightarrow> k \<in> fst ` set ps"
      by (simp add: y(2) commits_def)
  next
    fix x assume "x \<in> set (map (counts k n) ps)"
    then obtain i c r where y: "(i, c, r) \<in> set ps" "x = counts k n (i, c, r)" by auto
    have "c = int (length (filter (entry i) gs)) \<and> r = sum_list (map (snd \<circ> snd \<circ> snd) (filter (entry i) gs))"
      using fit y(1) unfolding books_fit_def fst_conv snd_conv by fastforce
    then show "case x of (i, pages, rows) \<Rightarrow>
        pages = int (length (filter (entry i) (map (commits gi) gs))) \<and> rows = sum_list (map (snd \<circ> snd \<circ> snd) (filter (entry i) (map (commits gi) gs)))"
      using entry [of i] by (cases "i = k") (simp_all add: y(2) counts_def)
  qed
qed

lemma opensD: "opens t \<Longrightarrow> t db = Inr (a, db') \<Longrightarrow> opened db db'"
  by (simp add: opens_def)

lemma advance_run:
  assumes "advance_tx cfg i lease p page added dups pause now db = Inr (u, db')"
  shows "\<exists>f db1. (\<forall>q. pcols (f q) = (pt_id q, pt_pagesCompleted q + 1, pt_rowsReturned q + sg_creatorsReturned page)) \<and>
    update_partition (pt_id p) f db = Inr ((), db1) \<and> opened db1 db'"
proof -
  let ?f = "\<lambda>q. (progressed p page added dups now q)
         \<lparr>pt_status := (if strategy_disabled p then DISABLED_BY_STRATEGY else if pause then PartitionStatus.PAUSED else PartitionStatus.RUNNING),
          pt_nextPageToken := sg_nextToken page\<rparr>"
  obtain rest db1 where 1: "update_partition (pt_id p) ?f db = Inr ((), db1)" and 2: "tx_seq rest db1 = Inr (u, db')"
    and rest: "\<forall>t \<in> set rest. frame books t"
    using assms unfolding advance_tx_def Let_def tx_seq.simps(2) [of "update_partition _ _"]
    by (elim tx_bind_InrE) (auto simp del: tx_seq.simps intro!: that frame_books_rows split: if_splits)
  have "opened db1 db'" using rest by (intro opensD [of "tx_seq rest", OF _ 2] opens_frame frame_seq) blast
  then show ?thesis using 1 by (intro exI [of _ ?f] exI [of _ db1]) (simp add: progressed_def pcols_def Let_def)
qed

lemma finish_run:
  assumes "finish_tx cfg i lease p page added dups pause fresh now db = Inr (u, db')"
  shows "\<exists>f db1. (\<forall>q. pcols (f q) = (pt_id q, pt_pagesCompleted q + 1, pt_rowsReturned q + sg_creatorsReturned page)) \<and>
    update_partition (pt_id p) f db = Inr ((), db1) \<and> opened db1 db'"
proof -
  let ?rest = "tx_bind (if strategy_disabled p then tx_return () else expandReadyBranches cfg fresh now i) (\<lambda>_.
    tx_bind (tx_read (queued_partitions i)) (\<lambda>queued.
    tx_bind (update_sync_jobs (\<lambda>j. holds_lease i lease j \<and> cj_currentPartitionId j = Some (pt_id p)) (finished_job cfg p page added dups pause queued now)) (\<lambda>_.
    if final_saturation cfg p page = OBSERVED_SATURATED
    then log_sync_event (about_partition (Some p) ((new_event i ''OBSERVED_SATURATED'' (now + 1))\<lparr>se_pageNumber := Some (sg_pageNumber page),
      se_safeMessage := Some (show_int (pt_rowsReturned p + sg_creatorsReturned page) @ '' rows '' @ em_dash @ '' empirically observed saturated'')\<rparr>))
    else tx_return ())))"
  obtain db1 where 1: "update_partition (pt_id p) (finished_partition cfg p page added dups now) db = Inr ((), db1)" and 2: "?rest db1 = Inr (u, db')"
    using assms unfolding finish_tx_def by (rule tx_bind_InrE) simp
  have "opens ?rest" by (intro opens_bind opens_if opens_basic opens_expand opens_rows)
  then have "opened db1 db'" using 2 by (rule opensD)
  then show ?thesis using 1
    by (intro exI [of _ "finished_partition cfg p page added dups now"] exI [of _ db1]) (simp add: finished_partition_def progressed_def pcols_def Let_def)
qed

lemma update_partition_books: "update_partition i f db = Inr (u, db') \<Longrightarrow> (\<forall>q. pcols (f q) = (pt_id q, pt_pagesCompleted q + 1, pt_rowsReturned q + n)) \<Longrightarrow>
    books db' = (map (counts i n) (fst (books db)), snd (books db))"
  by (auto simp: update_partition_def crawl_updates books_def counts_def upd_where_def pcols_def split: option.splits)

lemma update_page_books: "update_page i f db = Inr (u, db') \<Longrightarrow> (\<forall>g. gcols (f g) = (sg_id g, sg_creatorSearchPartitionId g, COMMITTED, sg_creatorsReturned g)) \<Longrightarrow>
    books db' = (fst (books db), map (commits i) (snd (books db)))"
  by (auto simp: update_page_def books_def commits_def upd_where_def gcols_def split: option.splits)

lemma commit_books:
  assumes run: "commit_tx cfg i lease p page added dups fresh now db = Inr (u, db')" and ok: "books_ok db"
    and page: "(sg_id page, Some (pt_id p), RECEIVED, sg_creatorsReturned page) \<in> set (snd (books db))"
  shows "books_ok db'"
proof -
  let ?commit = "\<lambda>g. g\<lparr>sg_state := COMMITTED, sg_committedAt := Some now, sg_nextSheetsAttemptAt := None\<rparr>"
  let ?move = "\<lambda>pause. if sg_providerHasMore page then advance_tx cfg i lease p page added dups pause now
      else finish_tx cfg i lease p page added dups pause fresh now"
  obtain latest where latest: "leased_job i lease db = Some latest"
    using run by (cases "leased_job i lease db") (auto simp: commit_tx_def)
  note 1 = run [unfolded commit_tx_def tx_bind_found latest option.case]
  obtain db1 where 2: "update_page (sg_id page) ?commit db = Inr ((), db1)" and
    3: "tx_bind (if sg_sheetsAttemptCount page > 0 then log_sync_event (recovered_event i p page added dups now) else tx_return ()) (\<lambda>_.
    tx_bind (?move (cj_pauseRequested latest)) (\<lambda>_.
    log_sync_event (page_event i p page (if sg_providerHasMore page then ''PAGE_COMMITTED'' else ''PARTITION_EXHAUSTED'') added dups now))) db1 = Inr (u, db')"
    using 1 by (rule tx_bind_InrE) simp
  obtain x db2 where 4: "(if sg_sheetsAttemptCount page > 0 then log_sync_event (recovered_event i p page added dups now) else tx_return ()) db1 = Inr (x, db2)"
    and 5: "tx_bind (?move (cj_pauseRequested latest)) (\<lambda>_.
    log_sync_event (page_event i p page (if sg_providerHasMore page then ''PAGE_COMMITTED'' else ''PARTITION_EXHAUSTED'') added dups now)) db2 = Inr (u, db')"
    using 3 by (rule tx_bind_InrE)
  obtain y db3 where 6: "?move (cj_pauseRequested latest) db2 = Inr (y, db3)"
    and 7: "log_sync_event (page_event i p page (if sg_providerHasMore page then ''PAGE_COMMITTED'' else ''PARTITION_EXHAUSTED'') added dups now) db3 = Inr (u, db')"
    using 5 by (rule tx_bind_InrE)
  have "\<exists>f db4. (\<forall>q. pcols (f q) = (pt_id q, pt_pagesCompleted q + 1, pt_rowsReturned q + sg_creatorsReturned page)) \<and>
    update_partition (pt_id p) f db2 = Inr ((), db4) \<and> opened db4 db3"
  proof (cases "sg_providerHasMore page")
    case True
    then have "advance_tx cfg i lease p page added dups (cj_pauseRequested latest) now db2 = Inr (y, db3)" using 6 by simp
    then show ?thesis by (rule advance_run)
  next
    case False
    then have "finish_tx cfg i lease p page added dups (cj_pauseRequested latest) fresh now db2 = Inr (y, db3)" using 6 by simp
    then show ?thesis by (rule finish_run)
  qed
  then obtain f db4 where f: "\<forall>q. pcols (f q) = (pt_id q, pt_pagesCompleted q + 1, pt_rowsReturned q + sg_creatorsReturned page)"
    "update_partition (pt_id p) f db2 = Inr ((), db4)" "opened db4 db3" by blast
  have "books db2 = books db1" 
    using frameD [of books "if sg_sheetsAttemptCount page > 0 then log_sync_event (recovered_event i p page added dups now) else tx_return ()", OF _ 4]
    by (simp add: frame_books_rows)
  then have "books db4 = (map (counts (pt_id p) (sg_creatorsReturned page)) (fst (books db)), map (commits (sg_id page)) (snd (books db)))"
    using update_partition_books [OF f(2,1)] update_page_books [OF 2] by (simp add: gcols_def)
  then have "books_ok db4" using commit_fit [of "fst (books db)" "snd (books db)", OF _ page] ok by (simp add: books_ok_fit)
  moreover have "opened db4 db'" using f(3) opensD [of "log_sync_event _", OF opens_rows(6) 7] by (rule opened_trans)
  ultimately show ?thesis using opened_keeps by blast
qed

section \<open>Runs keep the books\<close>

definition same_books :: "World \<Rightarrow> World \<Rightarrow> bool" where
  "same_books w w' \<longleftrightarrow> books (w_tables w') = books (w_tables w)"

lemma same_books_order [simp]: "reflp same_books" "transp same_books"
  by (auto simp: same_books_def intro: reflpI transpI)

lemma steps_books: "(\<And>env. frame books (t env)) \<Longrightarrow> steps same_books (transact t)"
  by (rule steps_transact) (auto simp: same_books_def dest: frameD)

lemma steps_ask: "(\<And>env w. snd (f env w) = w \<and> (\<exists>a e. fst (f env w) = Return a \<or> fst (f env w) = Throw e)) \<Longrightarrow> steps same_books (Act f)"
  unfolding steps_Act same_books_def by (metis steps.simps(1,2))

lemma steps_asks: "steps same_books (search_creators filters token key)" "steps same_books (discoveryAdapter cfg)"
    "steps same_books (read_sheet s)" "steps same_books (reconcile_sheet s cs)"
  unfolding search_creators_def discoveryAdapter_def read_sheet_def reconcile_sheet_def
  by (rule steps_ask; auto split: sum.split)+

lemma steps_if: "steps R p \<Longrightarrow> steps R q \<Longrightarrow> steps R (if b then p else q)" by simp

lemma steps_option: "steps R p \<Longrightarrow> (\<And>a. steps R (f a)) \<Longrightarrow> steps R (case v of None \<Rightarrow> p | Some a \<Rightarrow> f a)" by (cases v) auto

lemma steps_ends [simp]: "steps R (Return a)" "steps R (Throw e)" by simp_all

lemmas steps_rules = steps_bind steps_then steps_if steps_option steps_ends steps_books steps_asks
  steps_clock [OF same_books_order(1)]

lemma steps_recordActivity: "(\<And>j. change j = change j) \<Longrightarrow> steps same_books (recordActivity i lease p stage occurredAt details change)"
  unfolding recordActivity_def by (intro steps_rules frame_intros frame_basic frame_books_rows)

lemma steps_persistCreators: "steps same_books (persistCreators cfg creators s key)"
proof -
  have "steps same_books (persist_from cfg s key creators n)" for n
  proof (induction cfg s key creators n rule: persist_from.induct)
    case (1 cfg s key creators n)
    then show ?case by (subst persist_from.simps) (auto intro!: steps_rules frame_tb_crawl_books frame_books_persist)
  qed
  then show ?thesis by (simp add: persistCreators_def)
qed

lemma steps_persist_page: "steps same_books (persist_page cfg i lease job p page)"
  unfolding persist_page_def
  by (auto intro!: steps_rules steps_recordActivity steps_persistCreators frame_books_rows simp: bcols)

lemma steps_stored_before: "steps same_books (stored_before page)"
  unfolding stored_before_def Let_def by (intro steps_rules frame_basic)

lemma steps_my_job: "steps same_books (my_job i lease)"
  unfolding my_job_def by (intro steps_rules frame_intros frame_basic)

lemma steps_pause: "steps same_books (pauseClaimed job lease p)"
  unfolding pauseClaimed_def
  by (auto simp del: tx_seq.simps intro!: steps_books frame_seq frame_books_rows simp: bcols split: option.split)

lemma steps_search: "steps same_books (search_page cfg i lease job p)"
  unfolding search_page_def
  by (auto intro!: steps_rules steps_recordActivity frame_books_rows simp: bcols split: sum.split)

lemma steps_import: "steps same_books (import_sheet cfg i lease job)"
  unfolding import_sheet_def by (auto intro!: steps_rules steps_persistCreators steps_my_job frame_books_rows)

lemma steps_handleError: "steps same_books (handleError_crawl cfg i lease e)"
proof -
  have "steps same_books (handleSheetsFailure job p e)" for job p
    unfolding handleSheetsFailure_def
    by (auto intro!: steps_rules frame_books_errors simp: steps_Act same_books_def split: prod.split)
  then show ?thesis unfolding handleError_crawl_def by (auto intro!: steps_rules frame_books_errors)
qed

text \<open>A program run alone from books that are in order; nothing is asked of the tables when it throws.\<close>

abbreviation balanced :: "World \<Rightarrow> bool" where "balanced w \<equiv> books_ok (w_tables w)"

definition keeping :: "'a prog \<Rightarrow> ('a \<Rightarrow> World \<Rightarrow> bool) \<Rightarrow> World \<Rightarrow> bool" where
  "keeping p Q w \<longleftrightarrow> alone balanced p Q (\<lambda>_. balanced) w"

lemma same_balanced: "same_books w w' \<Longrightarrow> balanced w' = balanced w"
  unfolding same_books_def by (rule books_ok_same)

lemma keeping_steps:
  assumes "steps same_books p" "balanced w" "\<And>a w'. same_books w w' \<Longrightarrow> Q a w'"
  shows "keeping p Q w"
  unfolding keeping_def
proof (rule alone_steps [OF assms(1) same_books_order])
  fix w' assume "same_books w w'"
  then show "balanced w' \<and> (\<forall>a. Q a w') \<and> (\<forall>e. balanced w')" using assms(2,3) same_balanced by blast
qed

lemma keeping_bind: "keeping p (\<lambda>a. keeping (k a) Q) w \<Longrightarrow> keeping (p_bind p k) Q w"
  unfolding keeping_def by (rule alone_bind)

lemma keeping_then: "keeping p (\<lambda>_. keeping q Q) w \<Longrightarrow> keeping (p_then p q) Q w"
  unfolding p_then_def by (rule keeping_bind)

lemma keeping_step: "steps same_books p \<Longrightarrow> balanced w \<Longrightarrow> (\<And>a w'. same_books w w' \<Longrightarrow> balanced w' \<Longrightarrow> keeping (k a) Q w') \<Longrightarrow> keeping (p_bind p k) Q w"
  by (rule keeping_bind, rule keeping_steps) (blast dest: same_balanced)+

lemma keeping_transact:
  assumes "balanced w" "\<And>env a db'. t env (w_tables w) = Inr (a, db') \<Longrightarrow> books_ok db' \<and> Q a (w\<lparr>w_tables := db'\<rparr>)"
  shows "keeping (transact t) Q w"
  unfolding keeping_def by (rule alone_transact) (use assms in auto)

lemma keeping_found:
  assumes "balanced w" "\<And>v. f (w_tables w) = Some v \<Longrightarrow> keeping (k v) Q w"
  shows "keeping (p_bind (transact (\<lambda>_. tx_bind (tx_read f) tx_found)) k) Q w"
  by (rule keeping_bind, rule keeping_transact [OF assms(1)]) (use assms in \<open>auto simp: tx_found_def split: option.splits\<close>)

lemma keeping_simps [simp]: "keeping (Return a) Q w \<longleftrightarrow> Q a w" "keeping (Throw e) Q w \<longleftrightarrow> balanced w"
  by (simp_all add: keeping_def)

lemma find_partition_SomeD: "find_partition i db = Some p \<Longrightarrow> p \<in> set (partitions db) \<and> pt_id p = i"
  by (auto simp: find_partition_def dest: find_SomeD)

definition known :: "SearchPartition \<Rightarrow> Tables \<Rightarrow> bool" where
  "known p db \<longleftrightarrow> pt_id p \<in> pt_id ` set (partitions db)"

lemma claim_next_known:
  assumes "claim_next cfg lease job now db = Inr (Some p, db')"
  shows "known p db'"
  using assms
proof (cases rule: claim_next_InrE)
  case (started ch sel p' first db1)
  note run = claim_selected_run [OF started(5), unfolded Let_def]
  let ?row = "cd_partition (sc_candidate sel)"
  let ?mine = "\<lambda>q. pt_id q = pt_id ?row \<and> pt_status q = (if is_g4 ?row then PartitionStatus.EXPERIMENT_ONLY else PartitionStatus.QUEUED)"
  have p: "pt_id p = pt_id ?row" using run started(3) by (simp add: claimed_partition_def)
  have "filter ?mine (partitions db1) \<noteq> []" using run by (auto simp: count_where_def)
  then obtain q where q: "q \<in> set (partitions db1)" "?mine q" unfolding filter_empty_conv by blast
  let ?f = "claimed_partition cfg ch sel (cj_partitionClaimSequence job + 1) first now"
  have "?f q \<in> (\<lambda>r. if ?mine r then ?f r else r) ` set (partitions db1)" by (rule image_eqI [OF _ q(1)]) (use q(2) in simp)
  moreover have "set (partitions db') = (\<lambda>r. if ?mine r then ?f r else r) ` set (partitions db1)"
    using run set_upd_where [of ?mine ?f "partitions db1"] by simp
  ultimately have "?f q \<in> set (partitions db')" by simp
  then have "pt_id (?f q) \<in> pt_id ` set (partitions db')" by (rule imageI)
  then show ?thesis unfolding known_def p using q(2) by (simp add: claimed_partition_def)
qed simp

lemma claim_partition_run:
  assumes "claim_partition_tx cfg i lease fresh now db = Inr (r, db')"
  shows "opened db db' \<and> (\<forall>p. r = Some p \<longrightarrow> known p db')"
proof
  have "opens (claim_partition_tx cfg i lease fresh now)"
    unfolding claim_partition_tx_def
    by (auto intro!: opens_bind opens_expand opens_if opens_rows frame_books_claim_next [THEN opens_frame] opens_basic split: option.split)
  then show "opened db db'" using assms by (rule opensD)
  obtain db1 where "tx_bind (tx_bind (tx_read (leased_job i lease)) tx_found) (\<lambda>job.
    case cj_currentPartitionId job of
      None \<Rightarrow> claim_next cfg lease job now
    | Some c \<Rightarrow> tx_bind (tx_read (find_partition c)) (\<lambda>current.
        if (case current of None \<Rightarrow> False | Some p \<Rightarrow> resumable p) then tx_return current
        else tx_bind (update_sync_jobs (\<lambda>j. holds_lease i lease j \<and> cj_currentPartitionId j = Some c) released_pointer) (\<lambda>_.
          claim_next cfg lease job now))) db1 = Inr (r, db')"
    using assms unfolding claim_partition_tx_def by (rule tx_bind_InrE)
  then show "\<forall>p. r = Some p \<longrightarrow> known p db'"
    by (auto simp: known_def split: option.splits if_splits dest: find_partition_SomeD elim!: tx_bind_InrE
        dest!: claim_next_known [unfolded known_def])
qed

lemma keeping_claim:
  assumes "balanced w" "\<And>w'. balanced w' \<Longrightarrow> Q None w'" "\<And>p w'. balanced w' \<Longrightarrow> known p (w_tables w') \<Longrightarrow> Q (Some p) w'"
  shows "keeping (claimPartition cfg i lease) Q w"
proof -
  have tx: "keeping (transact (\<lambda>env. claim_partition_tx cfg i lease (e_fresh env) (e_now env))) Q v" if v: "balanced v" for v
  proof (rule keeping_transact [OF v])
    fix env r db' assume run: "claim_partition_tx cfg i lease (e_fresh env) (e_now env) (w_tables v) = Inr (r, db')"
    then have "books_ok db'" "\<forall>p. r = Some p \<longrightarrow> known p db'" using claim_partition_run opened_keeps v by blast+
    then show "books_ok db' \<and> Q r (v\<lparr>w_tables := db'\<rparr>)" using assms(2,3) by (cases r) auto
  qed
  show ?thesis unfolding claimPartition_def
  proof (rule keeping_found [OF assms(1)])
    fix job
    show "keeping (case cj_currentPartitionId job of None \<Rightarrow> transact (\<lambda>env. claim_partition_tx cfg i lease (e_fresh env) (e_now env))
        | Some c \<Rightarrow> p_bind (transact (\<lambda>_. tx_bind (tx_read (find_partition c)) tx_found)) (\<lambda>current.
            if resumable current then Return (Some current) else transact (\<lambda>env. claim_partition_tx cfg i lease (e_fresh env) (e_now env)))) Q w"
    proof (cases "cj_currentPartitionId job")
      case (Some c)
      show ?thesis unfolding Some option.case
      proof (rule keeping_found [OF assms(1)])
        fix current assume "find_partition c (w_tables w) = Some current"
        then have "known current (w_tables w)" using find_partition_SomeD by (auto simp: known_def)
        then show "keeping (if resumable current then Return (Some current) else transact (\<lambda>env. claim_partition_tx cfg i lease (e_fresh env) (e_now env))) Q w"
          using assms tx by auto
      qed
    qed (use tx assms(1) in simp)
  qed
qed

lemma known_same: "same_books w w' \<Longrightarrow> known p (w_tables w') = known p (w_tables w)"
  unfolding same_books_def known_def books_def by (metis (no_types, lifting) fst_conv list.set_map map_pt_id)

definition received_in :: "SyncPage \<Rightarrow> Tables \<Rightarrow> bool" where
  "received_in g db \<longleftrightarrow> sg_state g = RECEIVED \<and> gcols g \<in> set (snd (books db))"

lemma received_same: "same_books w w' \<Longrightarrow> received_in g (w_tables w') = received_in g (w_tables w)"
  by (simp add: same_books_def received_in_def)

lemma keeping_commit_received:
  assumes w: "balanced w" and g: "received_in page (w_tables w)" and part: "sg_creatorSearchPartitionId page = Some (pt_id p)"
  shows "keeping (commit_received cfg i lease job p page) (\<lambda>_. balanced) w"
  unfolding commit_received_def Let_def p_then_def
proof (rule keeping_step [OF steps_stored_before w], rule keeping_step [OF steps_persist_page _], assumption,
    rule keeping_step [OF steps_books], rule frame_books_claim(2), assumption, rule keeping_step [OF steps_asks(4)], assumption,
    rule keeping_step [OF steps_recordActivity], simp, assumption)
  fix before u1 u2 u3 u4 w1 w2 w3 w4 w5
  assume same: "same_books w w1" "same_books w1 w2" "same_books w2 w3" "same_books w3 w4" "same_books w4 w5" and w5: "balanced w5"
  have "received_in page (w_tables w5)" using g received_same same by metis
  then show "keeping (transact (\<lambda>env. commit_tx (sc_crawl cfg) i lease p page (creators_added page before)
      (page_duplicates page (creators_added page before)) (e_fresh env) (e_now env))) (\<lambda>_. balanced) w5"
    by (intro keeping_transact [OF w5]) (use commit_books [OF _ w5] part in \<open>auto simp: received_in_def gcols_def\<close>)
qed

lemma keeping_commitPage:
  assumes w: "balanced w"
  shows "keeping (commitPage cfg i lease pageId) (\<lambda>_. balanced) w"
  unfolding commitPage_def
proof (rule keeping_found [OF w])
  fix page assume "received_page i pageId (w_tables w) = Some page"
  then have g: "received_in page (w_tables w)"
    by (auto simp: received_in_def received_page_def books_def dest: find_SomeD)
  show "keeping (if \<not> truthy (sg_creatorSearchPartitionId page) then Throw (PlainError ''Pending structured page has no partition'')
    else p_bind (transact (\<lambda>_. tx_bind (tx_read (leased_job i lease)) tx_found)) (\<lambda>job.
    p_bind (transact (\<lambda>_. tx_bind (tx_read (find_partition (the (sg_creatorSearchPartitionId page)))) tx_found)) (\<lambda>p.
    commit_received cfg i lease job p page))) (\<lambda>_. balanced) w"
  proof (cases "truthy (sg_creatorSearchPartitionId page)")
    case True
    have "keeping (commit_received cfg i lease job p page) (\<lambda>_. balanced) w"
      if "find_partition (the (sg_creatorSearchPartitionId page)) (w_tables w) = Some p" for job p
      by (rule keeping_commit_received [OF w g]) (use True that find_partition_SomeD in \<open>auto simp: truthy_def split: option.splits\<close>)
    then show ?thesis using True by (auto intro!: keeping_found [OF w])
  qed (use w in simp)
qed

lemma stage_books:
  assumes run: "stage_tx job s p page newIds i respondedAt now db = Inr (g, db')" and ok: "books_ok db" and p: "known p db"
  shows "books_ok db'"
proof -
  let ?new = "received_page_of job p page newIds i now"
  obtain db1 where 1: "upsert_receipt ?new db = Inr (g, db1)" and 2: "sampled_category s p respondedAt db1 = Inr ((), db')"
    using run by (auto simp: stage_tx_def elim!: tx_bind_InrE)
  have "frame books (sampled_category s p respondedAt)"
    unfolding sampled_category_def Let_def by (auto simp del: tx_seq.simps intro!: frame_seq frame_books_rows)
  then have same: "books db' = books db1" using 2 by (rule frameD)
  have "books_ok db1"
  proof (cases "List.find (same_receipt (sg_creatorSyncJobId ?new) (sg_requestToken ?new)) (sync_pages db)")
    case None
    then have new: "sg_id ?new \<notin> sg_id ` set (sync_pages db)" and db1: "sync_pages db1 = sync_pages db @ [?new]" "partitions db1 = partitions db"
      using 1 by (auto simp: upsert_receipt_def tx_bind_guard list_ex_iff split: if_splits)
    have none: "\<not> committed_of k ?new" for k by (simp add: committed_of_def received_page_of_def)
    have "booked (sync_pages db @ [?new]) q" if "booked (sync_pages db) q" for q
      using that none by (simp add: booked_def count_where_def)
    then have balance: "\<forall>q \<in> set (partitions db). booked (sync_pages db @ [?new]) q" using ok by (simp add: books_ok_def)
    have names: "\<forall>k. sg_creatorSearchPartitionId ?new = Some k \<longrightarrow> k \<in> pt_id ` set (partitions db)"
      using p by (simp add: received_page_of_def known_def)
    have ids: "distinct (map sg_id (sync_pages db @ [?new]))" using new ok by (simp add: books_ok_def)
    show ?thesis unfolding books_ok_def db1
    proof (intro conjI)
      show "distinct (map pt_id (partitions db))" using ok unfolding books_ok_def by blast
      show "\<forall>g \<in> set (sync_pages db @ [?new]). \<forall>k. sg_creatorSearchPartitionId g = Some k \<longrightarrow> k \<in> pt_id ` set (partitions db)"
        using ok names unfolding books_ok_def set_append ball_Un by (simp only: list.set ball_simps) blast
    qed (fact ids, fact balance)
  next
    case (Some old)
    then have "db1 = db" using 1 by (simp add: upsert_receipt_def)
    then show ?thesis using ok by simp
  qed
  then show ?thesis using books_ok_same [OF same] by simp
qed

lemma keeping_receive_page:
  assumes w: "balanced w" "known p (w_tables w)"
  shows "keeping (receive_page i lease job p page) (\<lambda>_. balanced) w"
  unfolding receive_page_def Let_def p_then_def
proof (rule keeping_step [OF steps_clock w(1)], simp, rule keeping_step [OF steps_books], rule frame_books_rows(1), simp add: bcols,
    assumption, rule keeping_step [OF steps_recordActivity], simp, assumption)
  fix respondedAt u1 u2 w1 w2 w3 assume same: "same_books w w1" "same_books w1 w2" "same_books w2 w3" and w3: "balanced w3"
  have k3: "known p (w_tables w3)"
    using w(2) known_same [OF same(1), of p] known_same [OF same(2), of p] known_same [OF same(3), of p] by simp
  have stage: "keeping (transact (\<lambda>env. stage_tx i (cj_shopId job) p page ids (e_fresh env 0) respondedAt (e_now env))) (\<lambda>_. balanced) v"
    if "balanced v" "known p (w_tables v)" for ids v
    by (rule keeping_transact [OF that(1)]) (use stage_books that in auto)
  show "keeping (case cursor_problem p page of Some m \<Rightarrow> Throw (StageError ''CURSOR_ERROR'' m)
      | None \<Rightarrow> p_bind (recordActivity i lease (Some p) ''STAGING_PAGE'' None
          (\<lambda>v. v\<lparr>se_pageNumber := Some (pt_pagesCompleted p + 1), se_creatorsReturned := Some (int (length (sr_creators page)))\<rparr>) id)
        (\<lambda>_. p_bind (if open_ids (sr_creators page) = [] then Return [] else transact (\<lambda>_. tx_read (stored_open_ids (open_ids (sr_creators page))))) (\<lambda>stored.
        transact (\<lambda>env. stage_tx i (cj_shopId job) p page (filter (\<lambda>x. x \<notin> set stored) (open_ids (sr_creators page))) (e_fresh env 0) respondedAt (e_now env)))))
     (\<lambda>_. balanced) w3"
  proof (cases "cursor_problem p page")
    case None
    have read: "steps same_books (if open_ids (sr_creators page) = [] then Return [] else transact (\<lambda>_. tx_read (stored_open_ids (open_ids (sr_creators page)))))"
      by (intro steps_rules frame_basic)
    show ?thesis unfolding None option.case
    proof (rule keeping_step [OF steps_recordActivity w3], simp, rule keeping_step [OF read], assumption)
      fix u v w4 w5 assume w45: "same_books w3 w4" "same_books w4 w5" "balanced w5"
      have "known p (w_tables w5)" using k3 known_same [OF w45(1), of p] known_same [OF w45(2), of p] by simp
      then show "keeping (transact (\<lambda>env. stage_tx i (cj_shopId job) p page (filter (\<lambda>x. x \<notin> set v) (open_ids (sr_creators page)))
          (e_fresh env 0) respondedAt (e_now env))) (\<lambda>_. balanced) w5"
        by (intro stage w45(3))
    qed
  qed (use w3 in simp)
qed

lemma keeping_weaken: "keeping p Q w \<Longrightarrow> (\<And>a w. Q a w \<Longrightarrow> Q' a w) \<Longrightarrow> keeping p Q' w"
  unfolding keeping_def by (rule alone_weaken)

lemma keeping_same: "steps same_books p \<Longrightarrow> balanced w \<Longrightarrow> keeping p (\<lambda>_. balanced) w"
  by (rule keeping_steps) (auto simp: same_balanced)

lemma keeping_crawl_partition:
  assumes w: "balanced w" and p: "known p (w_tables w)"
  shows "keeping (crawl_partition cfg i lease p) (\<lambda>_. balanced) w"
  unfolding crawl_partition_def
proof (rule keeping_step [OF steps_my_job w])
  fix job w1 assume s1: "same_books w w1" and w1: "balanced w1"
  have search: "keeping (p_bind (search_page cfg i lease job p) (\<lambda>page.
      p_bind (receive_page i lease job p page) (\<lambda>receipt. commitPage cfg i lease (sg_id receipt)))) (\<lambda>_. balanced) w1"
  proof (rule keeping_step [OF steps_search w1])
    fix page w2 assume s2: "same_books w1 w2" and w2: "balanced w2"
    have "known p (w_tables w2)" using p known_same [OF s1, of p] known_same [OF s2, of p] by simp
    then show "keeping (p_bind (receive_page i lease job p page) (\<lambda>receipt. commitPage cfg i lease (sg_id receipt))) (\<lambda>_. balanced) w2"
      by (intro keeping_bind keeping_weaken [OF keeping_receive_page [OF w2]] keeping_commitPage)
  qed
  show "keeping (if cj_pauseRequested job then pauseClaimed job lease (Some p)
    else if is_g4 p \<and> \<not> sd_isG4Probe (pt_scheduler p)
    then Throw (StageError ''PARTITION_CONFIG_ERROR'' ''Very High Marketplace work requires a persisted rare-probe scheduler claim'')
    else p_bind (search_page cfg i lease job p) (\<lambda>page.
      p_bind (receive_page i lease job p page) (\<lambda>receipt. commitPage cfg i lease (sg_id receipt)))) (\<lambda>_. balanced) w1"
    using search keeping_same [OF steps_pause w1] w1 by simp
qed

lemma keeping_processClaimed:
  assumes w: "balanced w"
  shows "keeping (processClaimed_crawl cfg i lease) (\<lambda>_. balanced) w"
  unfolding processClaimed_crawl_def
proof (rule keeping_step [OF steps_my_job w], rule keeping_step [OF steps_books], rule frame_basic, assumption)
  fix job pending w1 w2 assume w2: "balanced w2"
  have claim: "keeping (p_bind (claimPartition (sc_crawl cfg) i lease) (\<lambda>claimed.
      case claimed of None \<Rightarrow> Return () | Some p \<Rightarrow> crawl_partition cfg i lease p)) (\<lambda>_. balanced) v" if "balanced v" for v
    by (rule keeping_bind, rule keeping_claim [OF that]) (simp_all add: keeping_crawl_partition)
  show "keeping (case pending of Some g \<Rightarrow> commitPage cfg i lease (sg_id g)
    | None \<Rightarrow> p_bind (import_sheet cfg i lease job) (\<lambda>job.
        if cj_pauseRequested job then pauseClaimed job lease None
        else p_bind (claimPartition (sc_crawl cfg) i lease) (\<lambda>claimed.
          case claimed of None \<Rightarrow> Return () | Some p \<Rightarrow> crawl_partition cfg i lease p))) (\<lambda>_. balanced) w2"
  proof (cases pending)
    case None
    have "keeping (if cj_pauseRequested j then pauseClaimed j lease None
        else p_bind (claimPartition (sc_crawl cfg) i lease) (\<lambda>claimed.
          case claimed of None \<Rightarrow> Return () | Some p \<Rightarrow> crawl_partition cfg i lease p)) (\<lambda>_. balanced) v" if "balanced v" for j v
      using claim [OF that] keeping_same [OF steps_pause that] by simp
    then show ?thesis unfolding None option.case by (rule keeping_step [OF steps_import w2])
  qed (simp add: keeping_commitPage [OF w2])
qed

lemma keeping_catch:
  assumes "keeping p Q w" "\<And>e. steps same_books (h e)" "\<And>a w. Q a w \<Longrightarrow> balanced w"
  shows "keeping (p_catch p h) (\<lambda>_. balanced) w"
  unfolding keeping_def
proof (rule alone_catch, rule alone_weaken [OF assms(1) [unfolded keeping_def]])
  show "alone balanced (h e) (\<lambda>_. balanced) (\<lambda>_. balanced) v \<and> balanced v" if "balanced v" for e v
    using keeping_same [OF assms(2) that] that unfolding keeping_def by blast
qed (rule assms(3))

lemma keeping_processNext:
  assumes w: "balanced w"
  shows "keeping (processNext_crawl cfg shopId) (\<lambda>_. balanced) w"
  unfolding processNext_crawl_def
proof (rule keeping_step [OF steps_clock w], simp, rule keeping_step [OF steps_books], rule frame_basic, assumption)
  fix now candidate w1 w2 assume w2: "balanced w2"
  show "keeping (case candidate of None \<Rightarrow> Return False | Some job \<Rightarrow>
        p_bind (transact (\<lambda>env. tx_bind (claim_job_tx cfg (cj_id job) (e_fresh env 0) now) (\<lambda>n. tx_return (n, e_fresh env 0)))) (\<lambda>(n, lease).
        if n \<noteq> 1 then Return True
        else p_then (p_catch (processClaimed_crawl cfg (cj_id job) lease) (handleError_crawl cfg (cj_id job) lease)) (Return True)))
      (\<lambda>_. balanced) w2"
  proof (cases candidate)
    case (Some job)
    have work: "keeping (p_catch (processClaimed_crawl cfg (cj_id job) lease) (handleError_crawl cfg (cj_id job) lease)) (\<lambda>_. balanced) v"
      if "balanced v" for lease v by (rule keeping_catch [OF keeping_processClaimed [OF that] steps_handleError])
    show ?thesis unfolding Some option.case
    proof (rule keeping_step [OF steps_books w2])
      fix r :: "int \<times> ident" and w3 assume w3: "balanced w3"
      obtain n lease where "r = (n, lease)" by (cases r)
      then show "keeping (case r of (n, lease) \<Rightarrow> if n \<noteq> 1 then Return True
        else p_then (p_catch (processClaimed_crawl cfg (cj_id job) lease) (handleError_crawl cfg (cj_id job) lease)) (Return True)) (\<lambda>_. balanced) w3"
        using w3 by (auto intro!: keeping_then keeping_weaken [OF work])
    qed (intro frame_bind frame_books_claim frame_basic)
  qed (use w2 in simp)
qed

lemma keeping_prepare:
  assumes "balanced w"
  shows "keeping (prepareAdaptiveQueue cfg i) (\<lambda>_. balanced) w"
  unfolding prepareAdaptiveQueue_def
proof (rule keeping_transact [OF assms])
  fix env a db' assume "expandReadyBranches cfg (e_fresh env) (e_now env) i (w_tables w) = Inr (a, db')"
  then have "opened (w_tables w) db'" by (rule opensD [OF opens_expand])
  then have "books_ok db'" using opened_keeps assms by blast
  then show "books_ok db' \<and> balanced (w\<lparr>w_tables := db'\<rparr>)" by simp
qed

definition crawl_programs :: "unit prog set" where
  "crawl_programs = {p_bind (processNext_crawl cfg s) (\<lambda>_. Return ()) | cfg s. True} \<union> {prepareAdaptiveQueue cfg i | cfg i. True}"

text \<open>
  C18. However often the crawl is run and its queue prepared, one after the other, whatever the
  provider, the spreadsheet and the database answer and wherever a run is cut short, every
  partition counts exactly the pages that were committed for it and the creators on them, its id
  stays unique, and every page belongs to a partition.
\<close>

theorem crawl_books_balance:
  assumes "books_ok (w_tables w)" "snd ` set runs \<subseteq> crawl_programs"
  shows "books_ok (w_tables (fold (\<lambda>(envs, program) v. snd (p_run envs program v)) runs w))"
  using assms
proof (induction runs arbitrary: w)
  case (Cons r runs)
  obtain envs program where r: "r = (envs, program)" by (cases r)
  have "program \<in> crawl_programs" using Cons.prems(2) r by auto
  moreover have "keeping (p_bind (processNext_crawl cfg s) (\<lambda>_. Return ())) (\<lambda>_. balanced) w" for cfg s
    by (rule keeping_bind, rule keeping_weaken [OF keeping_processNext [OF Cons.prems(1)]]) simp
  ultimately have "keeping program (\<lambda>_. balanced) w"
    using keeping_prepare [OF Cons.prems(1)] unfolding crawl_programs_def by blast
  from alone_run [OF this [unfolded keeping_def] Cons.prems(1)] show ?case using Cons.IH Cons.prems(2) by (simp add: r)
qed simp

section \<open>A run of the crawl\<close>

definition ex_crawl_env :: "ident \<Rightarrow> Env" where
  "ex_crawl_env i = (ex_client i)\<lparr>e_fresh := (\<lambda>n. i @ show_int (int n)),
     e_search := (\<lambda>_ _ _. Inr \<lparr>sr_creators = [example_creator ''o9'' 2000], sr_nextPageToken = Some ''t2'', sr_searchKey = Some ''k1'', sr_hasMore = True\<rparr>),
     e_readSheet := (\<lambda>_. Inr []), e_reconcileSheet := (\<lambda>_ _. Inr ())\<rparr>"

definition ex_sync :: SyncConfig where
  "ex_sync = \<lparr>sc_crawl = ex_crawl_config, sc_adapter = (\<lambda>_. Inr ()),
     sc_databaseFailure = (\<lambda>_. \<lparr>df_constraint = None, df_field = None, df_recordNumber = None, df_totalRecords = None\<rparr>)\<rparr>"

definition ex_category :: "ident \<Rightarrow> ident option \<Rightarrow> MarketplaceCategory" where
  "ex_category i parent = \<lparr>mc_shopId = ''s1'', mc_categoryId = i, mc_categoryName = ''Beauty'', mc_parentCategoryId = parent, mc_level = 1,
     mc_enabledForCreatorCrawl = True, mc_availableForCreatorFilter = True, mc_sortOrder = 1, mc_isLeaf = False,
     mc_creatorFirstSampledAt = None, mc_creatorLastSampledAt = None, mc_creatorExplorationClaimCount = 0,
     mc_creatorLastExplorationClaimAt = None, mc_fetchedAt = 0\<rparr>"

definition ex_crawl_world :: World where
  "ex_crawl_world = \<lparr>w_tables = ex_tables\<lparr>tb_creators := [], tb_crawl := no_crawl\<lparr>
       cw_jobs := [ex_crawl_job\<lparr>cj_leaseId := None, cj_leaseExpiresAt := None, cj_currentPartitionId := Some ''p1''\<rparr>],
       cw_partitions := [ex_seed\<lparr>pt_status := STARTING\<rparr>], cw_categories := [ex_category ''10'' None, ex_category ''11'' (Some ''10'')]\<rparr>\<rparr>,
     w_jobs = [], w_requests = []\<rparr>"

definition ex_crawl_runs :: "(Env list \<times> unit prog) list" where
  "ex_crawl_runs = [(map (\<lambda>c. ex_crawl_env [c]) ''abcdefghijklmnopqrstuvwxyzABCDEFGH'',
     p_bind (processNext_crawl ex_sync ''s1'') (\<lambda>_. Return ()))]"

definition ex_crawled :: World where
  "ex_crawled = fold (\<lambda>(envs, program) v. snd (p_run envs program v)) ex_crawl_runs ex_crawl_world"

definition crawl_summary :: "Tables \<Rightarrow> (int \<times> int \<times> string option) list \<times> SyncPageState list" where
  "crawl_summary db = (map (\<lambda>p. (pt_pagesCompleted p, pt_rowsReturned p, pt_nextPageToken p)) (partitions db), map sg_state (sync_pages db))"

lemma ex_crawled_rows: "crawl_summary (w_tables ex_crawled) = ([(1, 1, Some ''t2'')], [COMMITTED])"
  by code_simp

lemma crawl_books_balance_witness:
  "books_ok (w_tables ex_crawled) \<and> crawl_summary (w_tables ex_crawled) = ([(1, 1, Some ''t2'')], [COMMITTED])"
proof -
  have ok: "books_ok (w_tables ex_crawl_world)"
    by (simp add: books_ok_def ex_crawl_world_def booked_def count_where_def ex_seed_def blank_partition_def no_crawl_def)
  have "snd ` set ex_crawl_runs \<subseteq> crawl_programs"
    unfolding ex_crawl_runs_def crawl_programs_def by (simp only: list.set image_insert snd_conv image_empty) blast
  from crawl_books_balance [OF ok this] show ?thesis using ex_crawled_rows unfolding ex_crawled_def by blast
qed

end
