(* ===== verification/CrawlErrors.thy ===== *)
theory CrawlErrors
  imports CrawlRun
begin

text \<open>
  What becomes of a claim of the crawl (\<open>Sync\<close>) that fails: nothing is committed, the lease is given back, and the
  job waits, is paused or stops; and how long it waits.
\<close>

section \<open>How long the spreadsheet is left alone\<close>

definition base_delay :: "int \<Rightarrow> int" where
  "base_delay attempt = SHEETS_RETRY_BASE_DELAYS_MS ! nat (min (max 1 attempt - 1) (int (length SHEETS_RETRY_BASE_DELAYS_MS) - 1))"

lemma base_delay_cases:
  "base_delay a = (if a \<le> 1 then 5000 else if a = 2 then 10000 else if a = 3 then 20000 else if a = 4 then 40000
     else if a = 5 then 60000 else if a = 6 then 120000 else 300000)"
proof -
  consider "a \<le> 1" | "a = 2" | "a = 3" | "a = 4" | "a = 5" | "a = 6" | "7 \<le> a" by linarith
  then show ?thesis by cases (simp_all add: base_delay_def SHEETS_RETRY_BASE_DELAYS_MS_def numeral_eq_Suc nat_eq_iff)
qed

definition jitter :: "int \<Rightarrow> real \<Rightarrow> int" where
  "jitter base random = \<lfloor>min (of_int base * SHEETS_RETRY_JITTER_RATIO) (of_int (max 0 (SHEETS_BLOCKED_RETRY_MS - base))) * min 1 (max 0 random)\<rfloor>"

lemma delay_is_base_and_jitter: "sheetsRetryDelayMs a True r = base_delay a + jitter (base_delay a) r"
  by (simp add: sheetsRetryDelayMs_def base_delay_def jitter_def Let_def)

lemma jitter_bounds:
  assumes "0 \<le> base" "base \<le> 300000"
  shows "0 \<le> jitter base r" "10 * jitter base r \<le> base" "base + jitter base r \<le> 300000"
proof -
  let ?room = "min (real_of_int base * (1 / 10)) (real_of_int (max 0 (300000 - base)))"
  have j: "jitter base r = \<lfloor>?room * min 1 (max 0 r)\<rfloor>" by (simp add: jitter_def SHEETS_RETRY_JITTER_RATIO_def SHEETS_BLOCKED_RETRY_MS_def)
  have room: "0 \<le> ?room" using assms by simp
  then show "0 \<le> jitter base r" unfolding j by simp
  have "?room * min 1 (max 0 r) \<le> ?room * 1" by (rule mult_left_mono [OF _ room]) simp
  then have le: "real_of_int (jitter base r) \<le> ?room" unfolding j by (intro order_trans [OF of_int_floor_le]) simp
  then have "10 * real_of_int (jitter base r) \<le> real_of_int base" by linarith
  then show "10 * jitter base r \<le> base" by linarith
  have "real_of_int (jitter base r) \<le> real_of_int (max 0 (300000 - base))" using le by linarith
  then show "base + jitter base r \<le> 300000" using assms(2) by linarith
qed

lemma base_delay_range: "5000 \<le> base_delay a" "base_delay a \<le> 300000"
  by (simp_all add: base_delay_cases)

text \<open>
  C40. The wait after a failed write to the spreadsheet is at least five seconds and at most five
  minutes, whatever the attempt and the random number; a failure that is not retryable waits the
  five minutes, so never less than a retryable one; and among failures of one kind, retryable or
  not, a later attempt never waits less than an earlier one, whatever their random numbers.
\<close>

theorem sheets_delays_are_bounded_and_grow:
  "5000 \<le> sheetsRetryDelayMs attempt retryable random \<and> sheetsRetryDelayMs attempt retryable random \<le> 300000 \<and>
   sheetsRetryDelayMs attempt False random = 300000 \<and>
   sheetsRetryDelayMs attempt retryable random \<le> sheetsRetryDelayMs attempt2 False random2 \<and>
   (1 \<le> attempt \<and> attempt < attempt2 \<longrightarrow> sheetsRetryDelayMs attempt retryable random \<le> sheetsRetryDelayMs attempt2 retryable random2)"
proof -
  have blocked: "sheetsRetryDelayMs a False r = 300000" for a r by (simp add: sheetsRetryDelayMs_def SHEETS_BLOCKED_RETRY_MS_def)
  have jit: "0 \<le> jitter (base_delay a) r \<and> 10 * jitter (base_delay a) r \<le> base_delay a \<and> base_delay a + jitter (base_delay a) r \<le> 300000" for a r
    using jitter_bounds [of "base_delay a" r] base_delay_range [of a] by simp
  have steps: "10 * base_delay attempt2 \<ge> 11 * base_delay attempt \<or> base_delay attempt2 = 300000" if "1 \<le> attempt" "attempt < attempt2"
    using that by (simp add: base_delay_cases)
  show ?thesis
  proof (cases retryable)
    case True
    have "sheetsRetryDelayMs attempt True random \<le> sheetsRetryDelayMs attempt2 True random2" if "1 \<le> attempt" "attempt < attempt2"
      using steps [OF that] jit [of attempt random] jit [of attempt2 random2] unfolding delay_is_base_and_jitter by linarith
    moreover have "5000 \<le> sheetsRetryDelayMs attempt True random \<and> sheetsRetryDelayMs attempt True random \<le> 300000"
      using jit [of attempt random] base_delay_range [of attempt] unfolding delay_is_base_and_jitter by linarith
    ultimately show ?thesis using True blocked by simp
  qed (simp add: blocked)
qed

lemma sheets_delays_are_bounded_and_grow_witness: "sheetsRetryDelayMs 1 True 1 \<le> sheetsRetryDelayMs 2 True 0"
  using sheets_delays_are_bounded_and_grow [of 1 True 1 2 0] by simp

section \<open>A failed claim commits nothing\<close>

text \<open>
  What a failure leaves alone: of a partition all but its status, its last error and the counters of
  its retries; of a page all but what is noted of the attempts to write it to the spreadsheet; of a job all but its state,
  stage, lease, pause request, next attempt and what is noted of the last attempt; the catalog; and every table outside the crawl.
\<close>

definition partition_core :: "SearchPartition \<Rightarrow> SearchPartition" where
  "partition_core p = p\<lparr>pt_status := PartitionStatus.QUEUED, pt_throttleAttempts := 0, pt_businessRetryCount := 0,
     pt_businessRetryPage := None, pt_lastError := None\<rparr>"

definition page_core :: "SyncPage \<Rightarrow> SyncPage" where
  "page_core g = g\<lparr>sg_sheetsAttemptCount := 0, sg_nextSheetsAttemptAt := None, sg_sheetsFirstFailureAt := None,
     sg_sheetsLastAttemptAt := None, sg_lastSheetsHttpStatus := None, sg_lastSheetsApiCode := None, sg_lastSheetsRetryable := None,
     sg_lastSheetsError := None\<rparr>"

definition job_core :: "SyncJob \<Rightarrow> SyncJob" where
  "job_core j = j\<lparr>cj_state := CreatorSyncState.IDLE, cj_pauseRequested := False, cj_nextAttemptAt := None, cj_lastError := None,
     cj_lastProviderCode := None, cj_currentStage := [], cj_lastResponseAt := None, cj_lastHttpStatus := None,
     cj_lastTikTokCode := None, cj_lastSafeError := None, cj_lastCreatorsReturned := None, cj_lastCreatorsAdded := None,
     cj_lastDuplicates := None, cj_leaseId := None, cj_leaseExpiresAt := None\<rparr>"

definition crawl_progress where
  "crawl_progress db = (db\<lparr>tb_crawl := no_crawl\<rparr>, map partition_core (partitions db), map page_core (sync_pages db),
     map job_core (sync_jobs db), categories db)"

lemmas progress_cols = partition_core_def page_core_def job_core_def

lemma job_core_id: "job_core j = job_core j' \<Longrightarrow> cj_id j = cj_id j'"
proof -
  have *: "cj_id (job_core k) = cj_id k" for k by (simp add: job_core_def)
  assume "job_core j = job_core j'"
  then show ?thesis using * [of j] * [of j'] by simp
qed

lemma frame_progress_rows:
  "(\<And>p. partition_core (f p) = partition_core p) \<Longrightarrow> frame crawl_progress (update_partition i f)"
  "(\<And>j. job_core (fj j) = job_core j) \<Longrightarrow> frame crawl_progress (update_sync_job i fj)"
  "(\<And>g. page_core (fg g) = page_core g) \<Longrightarrow> frame crawl_progress (update_page i fg)"
  "frame crawl_progress (log_sync_event e)"
  unfolding update_partitions_def update_partition_def update_sync_jobs_def update_sync_job_def log_sync_event_def update_page_def on_crawl_def
  by (intro frame_intros frame_basic; simp add: crawl_progress_def map_upd_where_same)+

text \<open>Where the job is left: its lease given back, and waiting only with a time at which to go on.\<close>

definition parked :: "bool \<Rightarrow> SyncJob \<Rightarrow> bool" where
  "parked pauseRequested j \<longleftrightarrow> cj_leaseId j = None \<and> cj_leaseExpiresAt j = None \<and>
     (case cj_nextAttemptAt j of
        None \<Rightarrow> cj_state j \<in> {CreatorSyncState.PAUSED, CreatorSyncState.ERROR}
      | Some t \<Rightarrow> cj_state j = WAITING \<and> \<not> pauseRequested)"

definition same_jobs_but :: "ident \<Rightarrow> (SyncJob \<Rightarrow> SyncJob) \<Rightarrow> 'a tx \<Rightarrow> bool" where
  "same_jobs_but i f t \<longleftrightarrow> (\<forall>db a db'. t db = Inr (a, db') \<longrightarrow> sync_jobs db' = upd_where (\<lambda>j. cj_id j = i) f (sync_jobs db))"

lemma frame_same_jobs: "frame sync_jobs (update_partition i f)" "frame sync_jobs (log_sync_event e)" "frame sync_jobs (update_page i' g)"
  unfolding update_partitions_def update_partition_def log_sync_event_def update_page_def on_crawl_def
  by (intro frame_intros frame_basic; simp)+

lemma jobs_seq:
  assumes "\<And>t. t \<in> set ts \<Longrightarrow> frame sync_jobs t"
  shows "same_jobs_but i f (tx_seq (update_sync_job i f # ts))"
  unfolding same_jobs_but_def
proof (intro allI impI)
  fix db a db' assume "tx_seq (update_sync_job i f # ts) db = Inr (a, db')"
  then obtain db1 where 1: "update_sync_job i f db = Inr ((), db1)" and 2: "tx_seq ts db1 = Inr (a, db')"
    by (auto elim: tx_bind_InrE)
  have "sync_jobs db' = sync_jobs db1" by (rule frameD [OF frame_seq 2]) (rule assms)
  then show "sync_jobs db' = upd_where (\<lambda>j. cj_id j = i) f (sync_jobs db)"
    using 1 by (auto simp: update_sync_job_def update_sync_jobs_def on_crawl_def split: option.splits)
qed

lemma jobs_after: "frame sync_jobs t \<Longrightarrow> same_jobs_but i f (tx_seq ts) \<Longrightarrow> same_jobs_but i f (tx_seq (t # ts))"
  unfolding same_jobs_but_def by (auto elim!: tx_bind_InrE dest: frameD)

text \<open>A transaction of the error handler: it commits nothing, and the job it is about is parked.\<close>

definition parks :: "SyncJob \<Rightarrow> unit tx \<Rightarrow> bool" where
  "parks job t \<longleftrightarrow> frame crawl_progress t \<and> (\<exists>f. same_jobs_but (cj_id job) f t \<and> (\<forall>j. parked (cj_pauseRequested job) (f j)))"

lemma parks_sheets: "parks job (sheets_failure_tx job p page d now random)"
  unfolding parks_def sheets_failure_tx_def Let_def
proof (rule conjI, goal_cases)
  case 1
  show ?case by (auto simp del: tx_seq.simps intro!: frame_seq frame_progress_rows simp: progress_cols put_aside_def waiting_partition_def split: option.split)
next
  case 2
  show ?case
    by (intro exI conjI, rule jobs_after [OF frame_same_jobs(3)], rule jobs_seq)
      (auto simp: put_aside_def parked_def intro!: frame_same_jobs split: option.split)
qed

lemma parks_seq:
  assumes "\<And>j. job_core (f j) = job_core j" "\<And>j. parked (cj_pauseRequested job) (f j)"
    "\<And>t. t \<in> set ts \<Longrightarrow> frame crawl_progress t \<and> frame sync_jobs t"
  shows "parks job (tx_seq (update_sync_job (cj_id job) f # ts))"
  unfolding parks_def
proof (intro conjI exI allI)
  show "frame crawl_progress (tx_seq (update_sync_job (cj_id job) f # ts))"
    by (rule frame_seq) (use assms(1,3) frame_progress_rows(2) in auto)
qed (use assms jobs_seq in blast)+

lemma parks_provider: "parks job (provider_tx cfg job p e now)"
proof -
  have 1: "parks job (failed_tx cfg job p e now)" unfolding failed_tx_def
    by (rule parks_seq) (auto simp: failed_sync_job_def parked_def progress_cols intro!: frame_progress_rows frame_same_jobs split: option.splits)
  have 2: "parks job (business_error_tx job q t now)" for q t unfolding business_error_tx_def Let_def
    by (rule parks_seq) (auto simp: put_aside_def waiting_partition_def parked_def progress_cols intro!: frame_progress_rows frame_same_jobs split: option.splits)
  have 3: "parks job (throttled_tx job p t now)" for t unfolding throttled_tx_def Let_def
    by (rule parks_seq) (auto simp: put_aside_def waiting_partition_def parked_def progress_cols intro!: frame_progress_rows frame_same_jobs split: option.splits)
  show ?thesis using 1 2 3 by (auto simp: provider_tx_def split: Err.split)
qed

section \<open>The error handler\<close>

lemma alone_returns:
  assumes "alone I p Q E w" "p_run envs p w = (Return a, w')"
  shows "Q a w'"
  using assms
proof (induction envs p w rule: p_run.induct)
  case (1 env envs f w)
  obtain q v where f: "f env w = (q, v)" by (cases "f env w")
  have "alone I q Q E v" using spec [OF 1(2) [unfolded alone_Act], of env] f by simp
  then show ?case using 1(1) [OF f [symmetric]] 1(3) f by simp
qed auto

definition untouched :: "World \<Rightarrow> World \<Rightarrow> bool" where
  "untouched w w' \<longleftrightarrow> crawl_progress (w_tables w') = crawl_progress (w_tables w) \<and> w_jobs w' = w_jobs w \<and> w_requests w' = w_requests w"

definition settled_job :: "ident \<Rightarrow> ident \<Rightarrow> World \<Rightarrow> World \<Rightarrow> bool" where
  "settled_job i lease w w' \<longleftrightarrow> leased_job i lease (w_tables w') = None \<and>
     (\<forall>job. leased_job i lease (w_tables w) = Some job \<longrightarrow>
        (\<forall>j \<in> set (sync_jobs (w_tables w')). cj_id j = i \<longrightarrow> parked (cj_pauseRequested job) j))"

lemma parks_settles:
  assumes "parks job t" "t db = Inr (u, db')" "leased_job i lease db = Some job"
  shows "leased_job i lease db' = None \<and> (\<forall>j \<in> set (sync_jobs db'). cj_id j = i \<longrightarrow> parked (cj_pauseRequested job) j)"
proof -
  obtain f where f: "sync_jobs db' = upd_where (\<lambda>j. cj_id j = cj_id job) f (sync_jobs db)" "\<forall>j. parked (cj_pauseRequested job) (f j)"
    and ids: "map job_core (sync_jobs db') = map job_core (sync_jobs db)"
    using assms(1,2) unfolding parks_def same_jobs_but_def frame_def crawl_progress_def prod.inject by blast
  have i: "cj_id job = i" using assms(3) by (auto simp: leased_job_def holds_lease_def dest: find_SomeD)
  have parked: "parked (cj_pauseRequested job) j" if j: "j \<in> set (sync_jobs db')" "cj_id j = i" for j
  proof -
    obtain n where n: "n < length (sync_jobs db')" "j = sync_jobs db' ! n" using j(1) by (auto simp: in_set_conv_nth)
    have "job_core j = job_core (sync_jobs db ! n)" using ids n by (metis length_map nth_map)
    then have "cj_id (sync_jobs db ! n) = cj_id job" using j(2) i job_core_id by metis
    moreover have "n < length (sync_jobs db)" using n(1) f(1) by (simp add: upd_where_def)
    ultimately show ?thesis using n f by (simp add: upd_where_def)
  qed
  then show ?thesis by (auto simp: leased_job_def holds_lease_def parked_def find_None_iff)
qed


lemma handler_settles:
  "alone (untouched w) (handleError_crawl cfg i lease e) (\<lambda>_. settled_job i lease w) (\<lambda>_. untouched w) w"
proof -
  have same: "untouched w w" by (simp add: untouched_def)
  have park: "alone (untouched w) (transact (\<lambda>env. t env)) (\<lambda>_. settled_job i lease w) (\<lambda>_. untouched w) w"
    if parks: "\<And>env. parks job (t env)" and job: "leased_job i lease (w_tables w) = Some job" for t :: "Env \<Rightarrow> unit tx" and job
  proof (rule alone_transact)
    fix env u db' assume run: "t env (w_tables w) = Inr (u, db')"
    note p = parks [of env]
    have "crawl_progress db' = crawl_progress (w_tables w)" using p run by (auto simp: parks_def dest: frameD)
    then show "untouched w (w\<lparr>w_tables := db'\<rparr>) \<and> settled_job i lease w (w\<lparr>w_tables := db'\<rparr>)"
      using parks_settles [OF p run job] job by (auto simp: untouched_def settled_job_def)
  qed (use same in auto)
  have sheets: "alone (untouched w) (handleSheetsFailure job p e)
      (\<lambda>handled v. if handled then settled_job i lease w v else v = w) (\<lambda>_. untouched w) w"
    if job: "leased_job i lease (w_tables w) = Some job" for job p
    unfolding handleSheetsFailure_def
  proof (rule alone_bind, rule alone_read)
    show "alone (untouched w) (case map_option (\<lambda>g. (g, Option.bind (sg_creatorSearchPartitionId g) (\<lambda>k. find_partition k (w_tables w)))) (pending_any (cj_id job) (w_tables w)) of
        None \<Rightarrow> Return False
      | Some (page, owner) \<Rightarrow>
        p_bind (Act (\<lambda>env w. (Return (e_now env, e_random env), w))) (\<lambda>(now, random).
        p_bind (transact (\<lambda>_. sheets_failure_tx job (or_else p owner) page (googleSheetsFailure e) now random)) (\<lambda>_. Return True)))
      (\<lambda>handled v. if handled then settled_job i lease w v else v = w) (\<lambda>_. untouched w) w"
      using same by (auto simp: alone_Act split: option.split intro!: alone_bind alone_weaken [OF park [OF _ job]] parks_sheets)
  qed (simp_all add: same)
  show ?thesis unfolding handleError_crawl_def
  proof (rule alone_bind, rule alone_read)
    show "alone (untouched w) (case leased_job i lease (w_tables w) of
      None \<Rightarrow> Return ()
    | Some job \<Rightarrow>
        p_bind (case cj_currentPartitionId job of None \<Rightarrow> Return None | Some k \<Rightarrow> transact (\<lambda>_. tx_read (find_partition k))) (\<lambda>p.
        p_bind clock (\<lambda>now.
        p_bind (transact (\<lambda>_. tx_read (pending_any i))) (\<lambda>pending.
        p_bind (if pending \<noteq> None \<and> cj_currentStage job \<in> set SHEET_STAGES then handleSheetsFailure job p e else Return False) (\<lambda>handled.
        if handled then Return () else transact (\<lambda>_. provider_tx cfg job p e now))))))
      (\<lambda>_. settled_job i lease w) (\<lambda>_. untouched w) w"
    proof (cases "leased_job i lease (w_tables w)")
      case (Some job)
      have finish: "alone (untouched w) (p_bind (if b then handleSheetsFailure job p e else Return False) (\<lambda>handled.
        if handled then Return () else transact (\<lambda>_. provider_tx cfg job p e now))) (\<lambda>_. settled_job i lease w) (\<lambda>_. untouched w) w" for b p now
        by (cases b) (auto intro!: alone_bind alone_weaken [OF sheets [OF Some]] park [OF _ Some] parks_provider split: if_splits)
      have read: "alone (untouched w) (p_bind clock (\<lambda>now.
        p_bind (transact (\<lambda>_. tx_read (pending_any i))) (\<lambda>pending.
        p_bind (if pending \<noteq> None \<and> cj_currentStage job \<in> set SHEET_STAGES then handleSheetsFailure job p e else Return False) (\<lambda>handled.
        if handled then Return () else transact (\<lambda>_. provider_tx cfg job p e now))))) (\<lambda>_. settled_job i lease w) (\<lambda>_. untouched w) w" for p
        by (rule alone_bind, rule alone_clock, rule same, rule alone_bind, rule alone_read, rule same, rule same, rule finish)
      show ?thesis unfolding Some option.case
      proof (rule alone_bind, cases "cj_currentPartitionId job")
        case (Some k)
        show "alone (untouched w) (case cj_currentPartitionId job of None \<Rightarrow> Return None | Some k \<Rightarrow> transact (\<lambda>_. tx_read (find_partition k)))
          (\<lambda>p. alone (untouched w) (p_bind clock (\<lambda>now. p_bind (transact (\<lambda>_. tx_read (pending_any i))) (\<lambda>pending.
        p_bind (if pending \<noteq> None \<and> cj_currentStage job \<in> set SHEET_STAGES then handleSheetsFailure job p e else Return False) (\<lambda>handled.
        if handled then Return () else transact (\<lambda>_. provider_tx cfg job p e now))))) (\<lambda>_. settled_job i lease w) (\<lambda>_. untouched w)) (\<lambda>_. untouched w) w"
          unfolding Some option.case by (rule alone_read, rule same, rule same, rule read)
      qed (simp only: option.case alone.simps(1), rule read)
    qed (simp add: settled_job_def)
  qed (simp_all add: same)
qed

text \<open>
  C19. When a claim of the crawl has failed, the handler commits nothing, however it ends itself:
  of a partition it changes only the status, the last error and the counters of throttled and
  refused attempts, of a page only what is noted of the attempts to write it to the spreadsheet
  (their number, times and last error), of a job only its state and stage, its lease, pause
  request and next attempt and what is noted of the last attempt; so no cursor, search key, page
  or row count and no current partition moves, and no creator, category or row of another table
  changes. When it returns, nobody holds the lease of that claim, and the job it was about either
  waits with a time for its next attempt, or, with no such time, is paused or in error; a job
  whose pause was requested does not wait.
\<close>

theorem failed_claim_commits_nothing:
  assumes "p_run envs (handleError_crawl cfg i lease e) w = (p, w')"
  shows "untouched w w' \<and> (p = Return () \<longrightarrow> settled_job i lease w w')"
proof
  have "untouched w w" by (simp add: untouched_def)
  from alone_run [OF handler_settles this, of envs cfg i lease e] show "untouched w w'" using assms by simp
  show "p = Return () \<longrightarrow> settled_job i lease w w'" using alone_returns [OF handler_settles] assms by blast
qed

definition ex_failed_world :: World where
  "ex_failed_world = \<lparr>w_tables = ex_tables\<lparr>tb_crawl := no_crawl\<lparr>cw_jobs := [ex_crawl_job\<lparr>cj_currentPartitionId := Some ''p1''\<rparr>],
     cw_partitions := [ex_seed\<lparr>pt_status := STARTING\<rparr>]\<rparr>\<rparr>, w_jobs = [], w_requests = []\<rparr>"

definition ex_throttled :: Err where
  "ex_throttled = ReadError \<lparr>te_kind = ''RATE_LIMIT'', te_operation = SEARCH_CREATORS, te_httpStatus = Some 429, te_providerCode = None,
     te_requestId = None, te_message = [], te_retryAfterMs = None, te_nextPermittedAt = None, te_locallyBlocked = False\<rparr>"

definition ex_parked where
  "ex_parked = p_run (map (\<lambda>c. ex_crawl_env [c]) ''abcdefgh'') (handleError_crawl ex_sync ''j1'' ''me'' ex_throttled) ex_failed_world"

lemma ex_parked_returns: "case ex_parked of (Return u, w) \<Rightarrow> map cj_nextAttemptAt (sync_jobs (w_tables w)) = [Some 7000] | _ \<Rightarrow> False"
  by code_simp

lemma failed_claim_commits_nothing_witness:
  "\<exists>w'. ex_parked = (Return (), w') \<and> map cj_nextAttemptAt (sync_jobs (w_tables w')) = [Some 7000] \<and>
     untouched ex_failed_world w' \<and> settled_job ''j1'' ''me'' ex_failed_world w'"
proof -
  obtain p w' where pw: "ex_parked = (p, w')" by (cases ex_parked)
  note ex_parked_returns [unfolded pw prod.case]
  then have run: "ex_parked = (Return (), w')" and at: "map cj_nextAttemptAt (sync_jobs (w_tables w')) = [Some 7000]"
    unfolding pw by (cases p; simp)+
  note settled = failed_claim_commits_nothing [OF trans [OF ex_parked_def [symmetric] run]]
  show ?thesis by (intro exI conjI, rule run, rule at, rule conjunct1 [OF settled], rule mp [OF conjunct2 [OF settled] refl])
qed

end
