(* ===== verification/Spec2Isabelle.thy ===== *)
theory Spec2Isabelle
  imports Worker Preview ReadGovernor History CrawlErrors
begin

text \<open>
  \<^bold>\<open>Outreach: a verification library\<close>

  The program sends outreach messages to TikTok creators on behalf of a shop. An operator creates a
  campaign; the API builds a preview of eligible creators from the local creator database, freezes
  it (each recipient gets its final message and a reservation of the creator) and queues it; a
  worker takes the queued recipients up one by one, claims a dispatch slot, obtains permits from a
  rate governor shared through the database, opens a conversation, sends the message, and records
  what happened. A message whose outcome is not known is never sent again but reconciled with the
  conversation later. Independently, a scheduler crawls the marketplace partition by partition to
  fill the creator database, and an import reads the conversations the shop has had, page by page,
  so that creators contacted elsewhere are known; both meet creators under several identifiers of the
  provider, which a resolver links. All reads pass a governor of their own.

  \<^bold>\<open>Theories\<close> (each is described at its beginning)

  \<^item> \<open>Base\<close>: what the code uses of JavaScript and the database: numbers with NaN and infinities,
    String functions, ISO dates, stable sort, localeCompare, updates of table rows.
  \<^item> \<open>Domain\<close>: packages/domain/src/index.ts: filters, ranking, preview, message rendering,
    reconciliation of an unknown delivery.
  \<^item> \<open>Throttle\<close>: apps/worker/src/outbound-throttle.ts: the rate governor.
  \<^item> \<open>Partitions\<close>: apps/api/src/creator-database/marketplace-partitions.ts and retry-settings.ts.
  \<^item> \<open>Store\<close>: the rows of packages/db/prisma/schema.prisma the outreach code uses, transactions on
    them, and programs: sequences of transactions, queue and provider calls between which other
    programs may run.
  \<^item> \<open>Ownership\<close>: the proof method for those programs: which deliveries a program may have claimed at
    each of its steps, the step relation \<open>system\<close> of interleaved programs, and the locales that
    carry the argument (\<open>claimless\<close> for programs that never claim, \<open>protocol\<close> for a set of programs).
  \<^item> \<open>Dispatch\<close>: apps/worker/src/dispatch-safety.ts, delivery-policy.ts, campaign-completion.ts,
    outbound-mvp-policy.ts.
  \<^item> \<open>Outbox\<close>: apps/api/src/shared.ts: the freeze expiry and outbox sweeps.
  \<^item> \<open>Worker\<close>: apps/worker/src/main.ts: the send job, the reconciliation job and the sweep.
  \<^item> \<open>Campaign\<close>: apps/api/src/outreach/outreach.service.ts and campaign-naming.ts.
  \<^item> \<open>Preview\<close>: apps/api/src/outreach/local-preview.ts, discovery-processor.ts and, of
    outreach.service.ts, discover, cancelDiscovery, cloneFromPreview and the progress of get.
  \<^item> \<open>Scheduler\<close>: apps/api/src/creator-database/creator-scheduler.ts: which partition is crawled next.
  \<^item> \<open>ReadGovernor\<close>: apps/api/src/integrations/tiktok-read-governor.ts: leases, spacing and cooldowns of reads.
  \<^item> \<open>Contacts\<close>: apps/api/src/history/contact-state.ts and identity/creator-identity-resolver.service.ts:
    the contact state rebuilt from what is on record, and which creator an identifier belongs to.
  \<^item> \<open>History\<close>: apps/api/src/history/history-processor.ts and the controls of history.service.ts: the
    import of conversations as a job with a lease, a page cursor and three kinds of pass.
  \<^item> \<open>CrawlRows\<close>: the rows of the marketplace crawl. \<open>Runs\<close>: transactions that leave a part of the tables
    alone (\<open>frame\<close>) and programs that run alone (\<open>alone\<close>), for the import and the crawl.
  \<^item> \<open>Crawl\<close>, \<open>Sync\<close>: apps/api/src/creator-database/creator-sync.processor.ts: expandReadyBranches and
    claimPartition (\<open>Crawl\<close>); processNext, processClaimed, persistCreators, commitPage and handleError
    (\<open>processNext_crawl\<close>, \<open>processClaimed_crawl\<close>, \<open>handleError_crawl\<close> of \<open>Sync\<close>). A claim of the crawl's job reads
    one page of its partition, stores it as RECEIVED, saves its creators, writes them to the spreadsheet and
    commits it, which moves the cursor of the partition.
  \<^item> \<open>Queue\<close>, \<open>CrawlRun\<close>, \<open>CrawlErrors\<close>: what claims and expansions of partitions, runs of the crawl and its
    error handler guarantee.
  \<^item> \<open>Adapter\<close>: packages/tiktok-adapter/src/real-outbound.ts and signing.ts, and the mock of index.ts:
    how an answer of the provider becomes the outcome the worker sees.
  \<^item> \<open>Spec2Isabelle\<close>: all programs together, the theorem that a message is sent again only after a refusal, and that the
    progress the API reports agrees with the worker on when a campaign is done.

  \<^bold>\<open>How state and operations correspond to the code\<close>

  A table is a list of records, one field per column the code reads or writes; a Prisma call is a
  function on the tables; a \<open>$transaction\<close> is a function \<open>Tables \<Rightarrow> Err + 'a \<times> Tables\<close> that commits as a
  whole or not at all, in one step. (Most transactions of the code that write the same rows take a row lock
  or an advisory lock first; those of the rate governor do not all take the same one, see \<open>Throttle\<close>.) An async function that makes several transactions or
  calls Redis or the provider is a \<open>prog\<close>: at every step the environment \<open>Env\<close> supplies the clock, fresh
  ids, the answer of the provider or an exception, and a program may stop at any step, which
  models a crash. Exceptions are values of \<open>Err\<close>; \<open>p_catch\<close> models try and catch.

  \<^bold>\<open>Parameters.\<close> Not in the repository, hence arguments: the time zone database (\<open>shopDate\<close>), SHA-256
  (\<open>ac_sha256\<close>) and its HMAC (\<open>ad_hmac\<close>), fetch (\<open>ad_fetch\<close>), the clock, ids, random numbers, the provider's answers, Redis and the job
  library, the local date and time of the read governor, the shop \<open>activeShop\<close> returns, and what the
  read adapter does before it answers (a program that leaves the rows of the history alone); of the crawl the
  answers of the marketplace and of the spreadsheet (\<open>e_search\<close>, \<open>e_readSheet\<close>, \<open>e_reconcileSheet\<close>), what the
  integration service does before it hands out its adapter (\<open>sc_adapter\<close>), what the database client reports about
  an error (\<open>sc_databaseFailure\<close>) and MD5 (\<open>cg_md5\<close>). A row created while partitions are expanded gets the id
  \<open>fresh n\<close>, n the number of partitions there are; the clock stands still within a transaction.
  The time a row was last updated is not a column of the model.

  \<^bold>\<open>Bounds and fuel.\<close> \<open>waitForPermit\<close> and \<open>waitForSendPermitWhileCampaignActive\<close> loop as long as no
  permit is granted; they take the list of tries, or the number \<open>wc_waitTries\<close> of tries, after which
  the model stops as a crashed worker does, so nothing proved depends on the bound. \<open>discover\<close> reads the creators in pages of
  1000 and takes the number of pages it may read; \<open>creator_pages_are_complete\<close> shows that one page more
  than the creators fill is enough, so that the bound excludes no run on a database that stands still. Integer columns
  are unbounded: the counters grow by one per event. Rates and yields are real numbers.

  \<^bold>\<open>What the lemmas show.\<close> \<open>Domain\<close>: a preview selects only creators that may be contacted, the best
  of them, and accounts for all. \<open>Throttle\<close>: limits, spacing and cooldowns hold after any sequence of
  operations. \<open>Dispatch\<close>, \<open>Worker\<close>, \<open>Campaign\<close>, \<open>Outbox\<close>: what each transaction guarantees, and that
  every program keeps the ownership discipline. \<open>Preview\<close>: what discover selects may
  be contacted, what it replaces, and that a clone is made once (locale \<open>trail_keeping\<close>: the audit trail
  only grows). \<open>Scheduler\<close>: shares of the slots, order and bounds of the scores. \<open>Adapter\<close>: only refused
  sends are retried, only confirmed ones are sent. \<open>ReadGovernor\<close>: its methods are runs of a few
  abstract calls, along which two reads of a group never overlap and keep their distance. \<open>Contacts\<close>:
  the rebuilt state is what is on record, an identifier has one owner (locale \<open>identity_keeping\<close>), a
  merge loses nothing that keeps a creator from being contacted. \<open>History\<close>: what holds of a program
  that is not interleaved with another (\<open>alone\<close>): jobs stay well formed and no page is skipped.
  \<open>Queue\<close>: a claim takes only a partition that may run, finds none only when none may, and expansion keeps the
  partitions a forest and is idempotent. \<open>CrawlRun\<close>: every partition counts exactly its committed pages.
  \<open>CrawlErrors\<close>: a failed claim commits nothing and gives its lease back; how long it waits. \<open>Spec2Isabelle\<close>: therefore, in every interleaving, the
  message of a delivery is requested again only when the provider has refused all earlier requests; what the
  provider may have delivered in spite of a refusal - a structured HTTP 5xx counts as one - nothing is assumed of. \<open>discover\<close> is not among the interleaved programs: it deletes
  deliveries whatever the campaign has become (\<open>discovery_replaces_the_recipients\<close>), so the theorem
  holds for runs in which no discovery overtakes a send of its own campaign.

  \<^bold>\<open>Not modelled.\<close> Controllers, Nest modules, the desktop shell and web pages (glue and views);
  logging and heartbeat metadata (reporting); the Redis and BullMQ libraries; of the history service the
  view of the contacts, the readiness report, the CSV import and the older synchronisation in one go; of
  the crawl its error log; the service of the creator database and the gateway to the spreadsheet, OAuth and the
  encryption of tokens, and the requests of the read adapter.
\<close>

section \<open>The system\<close>

text \<open>
  The programs of any number of workers and API servers, each with a configuration of its own: the
  jobs and sweeps of the worker, the calls of the API, the import of the provider's conversations
  with its controls, the crawl of the marketplace, and the identity resolver. An import asks the read
  adapter for pages; whatever that adapter does through the database, it claims no delivery.
\<close>

definition import_programs :: "unit prog set" where
  "import_programs =
     {p. \<exists>cfg adapter. keeps adapter \<and> p = p_bind (processNext cfg adapter) (\<lambda>_. Return ())} \<union>
     {p. \<exists>s. p = p_bind (startHistorySync s) (\<lambda>_. Return ()) \<or> p = p_bind (pauseHistorySync s) (\<lambda>_. Return ()) \<or>
        p = p_bind (runIncrementalNow s) (\<lambda>_. Return ())} \<union>
     {p. (\<exists>c. p = p_bind (ensureMarketplaceCreator c) (\<lambda>_. Return ())) \<or>
        (\<exists>c. p = p_bind (ensureConversationCreator c) (\<lambda>_. Return ()))}"

definition outreach_programs :: "unit prog set" where
  "outreach_programs = {p. (\<exists>cfg. worker_program cfg p) \<or> (\<exists>cfg. api_program cfg p) \<or>
     (\<exists>i. p = p_bind (cancelDiscovery i) (\<lambda>_. Return ()))} \<union> import_programs \<union> crawl_programs"

lemma keeps_import_programs: "p \<in> import_programs \<Longrightarrow> keeps p"
  by (auto simp: import_programs_def
      intro: keeps_bind [OF keeps_processNext keeps_Return] keeps_bind [OF keeps_controls(1) keeps_Return]
        keeps_bind [OF keeps_controls(2) keeps_Return] keeps_bind [OF keeps_controls(3) keeps_Return]
        keeps_bind [OF keeps_resolver(1) keeps_Return] keeps_bind [OF keeps_resolver(2) keeps_Return])

lemma keeps_crawl_programs: "p \<in> crawl_programs \<Longrightarrow> keeps p"
  unfolding crawl_programs_def by (auto intro: keeps_bind [OF keeps_processNext_crawl keeps_Return] keeps_crawl_queue)

interpretation outreach: protocol outreach_programs
proof
  fix p assume "p \<in> outreach_programs"
  then have "sound Idle p"
    using sound_worker_program sound_keeps [OF keeps_api_program] sound_keeps [OF keeps_import_programs] sound_keeps [OF keeps_crawl_programs]
      sound_keeps [OF keeps_bind [OF keeps_cancelDiscovery keeps_Return]] by (auto simp: outreach_programs_def)
  then show "follows p Idle anyhow anyhow" by (simp add: sound_def)
qed

text \<open>
  C1. In every run of the system, whatever worker jobs, maintenance sweeps, calls of create,
  freeze, send, pause, resume, cancel and cancelDiscovery, steps of the history import with its
  controls, steps of the marketplace crawl and calls of the identity resolver interleave, whatever
  crashes or errors cut them short and whatever the provider answers, a second request to send the
  message of a delivery is made only when the provider has refused every earlier one (asked for a
  retry, with a status of 429, of 500 and above or a retryable code, or reported a quota or an
  error of authorization or permission), and a delivery with a request that was not refused is
  never claimable again. So as long as the provider delivers no message it has refused, no message
  is delivered twice; a provider that delivers a message and then answers, say, with status 500 is
  sent it again.
\<close>

theorem requests_repeat_only_after_refusals:
  assumes "system outreach_programs start w ts" "w_requests start = []"
  shows "(\<forall>m n. m < n \<and> n < length (w_requests w) \<and> fst (w_requests w ! m) = fst (w_requests w ! n) \<longrightarrow>
       refused (snd (w_requests w ! m))) \<and>
    (\<forall>i answer. (i, answer) \<in> set (w_requests w) \<and> \<not> refused answer \<longrightarrow> \<not> claimable (w_tables w) i) \<and>
    (\<forall>delivered. delivered \<subseteq> {m. m < length (w_requests w) \<and> \<not> refused (snd (w_requests w ! m))} \<longrightarrow>
       inj_on (\<lambda>m. fst (w_requests w ! m)) delivered)"
proof -
  have repeats: "\<forall>m n. m < n \<and> n < length (w_requests w) \<and> fst (w_requests w ! m) = fst (w_requests w ! n) \<longrightarrow> refused (snd (w_requests w ! m))"
    using outreach.requests_repeat_ok [OF assms] by (simp only: repeats_ok_def)
  have "inj_on (\<lambda>m. fst (w_requests w ! m)) delivered"
    if "delivered \<subseteq> {m. m < length (w_requests w) \<and> \<not> refused (snd (w_requests w ! m))}" for delivered
  proof (rule inj_onI)
    fix m n assume "m \<in> delivered" "n \<in> delivered" "fst (w_requests w ! m) = fst (w_requests w ! n)"
    then show "m = n" using that repeats by (cases m n rule: linorder_cases) fastforce+
  qed
  then show ?thesis using repeats outreach.unrefused_not_claimable [OF assms] by blast
qed

lemma system_run:
  assumes "system P start w ts" "ts t = Some p"
  shows "system P start (snd (p_run envs p w)) (ts(t \<mapsto> fst (p_run envs p w)))"
  using assms
proof (induction envs p w arbitrary: ts rule: p_run.induct)
  case (1 env envs f w)
  have "system P start (snd (f env w)) (ts(t \<mapsto> fst (f env w)))" by (rule step [OF 1(2,3)])
  then have "system P start (snd (p_run envs (fst (f env w)) (snd (f env w))))
     ((ts(t \<mapsto> fst (f env w)))(t \<mapsto> fst (p_run envs (fst (f env w)) (snd (f env w)))))"
    by (rule 1(1) [OF surjective_pairing [symmetric]]) simp
  then show ?case by (simp add: case_prod_beta del: fun_upd_apply)
qed (simp_all add: fun_upd_idem)

text \<open>A worker that sends the message of the first recipient of the small world.\<close>

lemma ex_system: "\<exists>ts. system outreach_programs ex_world (snd (ex_run ex_sent)) ts"
proof -
  have "worker_job ex_worker (Send ex_job) \<in> outreach_programs"
    unfolding outreach_programs_def by (blast intro: worker_program_job)
  then have "system outreach_programs ex_world ex_world (Map.empty(0 \<mapsto> processSend ex_worker ex_job))"
    by (auto intro: spawn [OF initial])
  from system_run [OF this, of 0 "processSend ex_worker ex_job" "ex_envs ex_sent"] show ?thesis
    by (auto simp: ex_run_def)
qed

lemma requests_repeat_only_after_refusals_witness:
  "\<exists>w ts. system outreach_programs ex_world w ts \<and> w_requests w = [(''d1'', ex_sent)] \<and> \<not> claimable (w_tables w) ''d1''"
proof -
  obtain ts where s: "system outreach_programs ex_world (snd (ex_run ex_sent)) ts" using ex_system by blast
  have start: "w_requests ex_world = []" by (simp add: ex_world_def)
  have "\<not> refused ex_sent" by (simp add: ex_sent_def)
  then have "\<not> claimable (w_tables (snd (ex_run ex_sent))) ''d1''"
    using requests_repeat_only_after_refusals [OF s start] ex_sent_requests by auto
  then show ?thesis using s ex_sent_requests by blast
qed

section \<open>Progress and completion\<close>

text \<open>
  The progress get reports adds up: frozen is completed plus remaining, remaining counts
  exactly the frozen recipients in no terminal state, and it is zero with some frozen recipient
  exactly when the worker takes the campaign to be done.
\<close>

theorem progress_reaches_the_end_on_completion:
  "pg_frozen (campaign_progress i db) = pg_completed (campaign_progress i db) + pg_remaining (campaign_progress i db) \<and>
   pg_remaining (campaign_progress i db) = count_where (\<lambda>s. s \<notin> set TERMINAL_RECIPIENT_STATES) (frozen_states i db) \<and>
   (allFrozenRecipientsTerminal (frozen_states i db) \<longleftrightarrow> pg_frozen (campaign_progress i db) > 0 \<and> pg_remaining (campaign_progress i db) = 0)"
proof -
  have states: "frozen_recipient_states i db = frozen_states i db" by (simp add: frozen_recipient_states_def frozen_states_def)
  have remaining: "max 0 (int (length (frozen_states i db)) - count_where (\<lambda>s. s \<in> set TERMINAL_RECIPIENT_STATES) (frozen_states i db))
      = count_where (\<lambda>s. s \<notin> set TERMINAL_RECIPIENT_STATES) (frozen_states i db)"
    using count_where_split [of "\<lambda>s. s \<in> set TERMINAL_RECIPIENT_STATES" "frozen_states i db"] by (simp add: count_where_def)
  have none: "count_where (\<lambda>s. s \<notin> set TERMINAL_RECIPIENT_STATES) xs = 0 \<longleftrightarrow> list_all (\<lambda>s. s \<in> set TERMINAL_RECIPIENT_STATES) xs" for xs
    by (induction xs) (auto simp: count_where_def)
  show ?thesis
    using count_where_split [of "\<lambda>s. s \<in> set TERMINAL_RECIPIENT_STATES" "frozen_states i db"]
    by (simp add: campaign_progress_def Let_def states completed_states [simplified] remaining none allFrozenRecipientsTerminal_def)
qed

end
